(* ===== verification/Wallet_Prelude.thy ===== *)
theory Wallet_Prelude
  imports Main "HOL-Library.Word" "HOL-Library.Finite_Map" "HOL-Library.List_Lexorder"
    "HOL-Library.Char_ord"
begin

text \<open>
  What the components share: the machine types, the three-valued result of a Rust function
  (a value, an \<open>Err\<close>, or a panic), the \<open>?\<close> operator on it, Rust strings as byte
  sequences, and generic lemmas on byte strings, big-endian numbers and finite maps.
\<close>

type_synonym u8 = "8 word"
type_synonym u64 = "64 word"
type_synonym bytes = "u8 list"

named_theorems res_simps \<open>equations of the result type and of the question-mark operator\<close>
named_theorems fmap_simps \<open>sums and lookups over finite maps\<close>

section \<open>Results: Ok, Err and panic\<close>

text \<open>
  \<open>Ok\<close> and \<open>Err\<close> are Rust's \<open>Result\<close>. \<open>Panic\<close> stands for \<open>unwrap\<close> on a
  missing value, a failed \<open>assert\<close> or \<open>unreachable\<close>: the thread dies.
\<close>

datatype ('e, 'a) res = Ok 'a | Err 'e | Panic

definition bind_res :: "('e, 'a) res \<Rightarrow> ('a \<Rightarrow> ('e, 'b) res) \<Rightarrow> ('e, 'b) res" where
  "bind_res r k = (case r of Ok x \<Rightarrow> k x | Err e \<Rightarrow> Err e | Panic \<Rightarrow> Panic)"

text \<open>The same operator in a function that also threads a state: an early return keeps
  the state reached so far.\<close>

definition bind_st :: "('e, 'a) res \<Rightarrow> 's \<Rightarrow> ('a \<Rightarrow> ('e, 'b) res \<times> 's) \<Rightarrow> ('e, 'b) res \<times> 's" where
  "bind_st r s k = (case r of Ok x \<Rightarrow> k x | Err e \<Rightarrow> (Err e, s) | Panic \<Rightarrow> (Panic, s))"

text \<open>\<open>Option::unwrap\<close>.\<close>

definition unwrap :: "'a option \<Rightarrow> ('e, 'a) res" where
  "unwrap x = (case x of Some v \<Rightarrow> Ok v | None \<Rightarrow> Panic)"

text \<open>\<open>Result::map_err(f)\<close> followed by \<open>?\<close>, on a third-party parser's sum result.\<close>

definition map_err :: "('e \<Rightarrow> 'f) \<Rightarrow> 'e + 'a \<Rightarrow> ('f, 'a) res" where
  "map_err f r = (case r of Inl e \<Rightarrow> Err (f e) | Inr x \<Rightarrow> Ok x)"

lemma bind_res_simps [simp, res_simps]:
  "bind_res (Ok x) k = k x" "bind_res (Err e) k = Err e" "bind_res Panic k = Panic"
  by (simp_all add: bind_res_def)

lemma bind_st_simps [simp, res_simps]:
  "bind_st (Ok x) s g = g x" "bind_st (Err e) s g = (Err e, s)" "bind_st Panic s g = (Panic, s)"
  by (simp_all add: bind_st_def)

lemma unwrap_simps [simp, res_simps]: "unwrap (Some x) = Ok x" "unwrap None = Panic"
  by (simp_all add: unwrap_def)

lemma map_err_simps [simp, res_simps]: "map_err f (Inr x) = Ok x" "map_err f (Inl e) = Err (f e)"
  by (simp_all add: map_err_def)

lemma bind_res_eq_Ok [res_simps]: "bind_res r k = Ok y \<longleftrightarrow> (\<exists>x. r = Ok x \<and> k x = Ok y)"
  by (cases r) auto

lemma bind_res_eq_Err [res_simps]:
  "bind_res r k = Err e \<longleftrightarrow> r = Err e \<or> (\<exists>x. r = Ok x \<and> k x = Err e)"
  by (cases r) auto

lemma bind_res_eq_Panic [res_simps]:
  "bind_res r k = Panic \<longleftrightarrow> r = Panic \<or> (\<exists>x. r = Ok x \<and> k x = Panic)"
  by (cases r) auto

lemma unwrap_eq [res_simps]:
  "unwrap x = Ok v \<longleftrightarrow> x = Some v" "unwrap x = Panic \<longleftrightarrow> x = None" "unwrap x \<noteq> Err e"
  by (cases x; simp)+

lemma map_err_eq [res_simps]:
  "map_err f r = Ok v \<longleftrightarrow> r = Inr v" "map_err f r \<noteq> Panic"
  "map_err f r = Err e \<longleftrightarrow> (\<exists>d. r = Inl d \<and> e = f d)"
  by (cases r; auto)+

lemma bind_st_eq_Ok [res_simps]:
  "bind_st r s k = (Ok y, s') \<longleftrightarrow> (\<exists>x. r = Ok x \<and> k x = (Ok y, s'))"
  by (cases r) auto

lemma bind_st_eq_Err [res_simps]:
  "bind_st r s k = (Err e, s') \<longleftrightarrow> r = Err e \<and> s' = s \<or> (\<exists>x. r = Ok x \<and> k x = (Err e, s'))"
  by (cases r) auto

lemma bind_st_eq_Panic [res_simps]:
  "bind_st r s k = (Panic, s') \<longleftrightarrow> r = Panic \<and> s' = s \<or> (\<exists>x. r = Ok x \<and> k x = (Panic, s'))"
  by (cases r) auto

section \<open>Rust strings and their bytes\<close>

text \<open>
  A Rust \<open>String\<close> is a byte sequence that is valid UTF-8. It is modelled by an Isabelle
  \<open>string\<close>, whose characters are bytes; \<open>valid_utf8\<close> is the check that
  \<open>String::from_utf8\<close> performs.
\<close>

definition byte_of :: "char \<Rightarrow> u8" where
  "byte_of c = of_nat (of_char c)"

definition char_of_byte :: "u8 \<Rightarrow> char" where
  "char_of_byte b = char_of (unat b)"

definition as_bytes :: "string \<Rightarrow> bytes" where
  "as_bytes s = map byte_of s"

definition utf8_cont :: "u8 \<Rightarrow> bool" where
  "utf8_cont b \<longleftrightarrow> 0x80 \<le> b \<and> b \<le> 0xBF"

fun valid_utf8 :: "bytes \<Rightarrow> bool" where
  "valid_utf8 [] = True"
| "valid_utf8 (b # bs) =
     (if b < 0x80 then valid_utf8 bs
      else case bs of [] \<Rightarrow> False | c1 # bs1 \<Rightarrow>
        if 0xC2 \<le> b \<and> b \<le> 0xDF then utf8_cont c1 \<and> valid_utf8 bs1
        else case bs1 of [] \<Rightarrow> False | c2 # bs2 \<Rightarrow>
          if 0xE0 \<le> b \<and> b \<le> 0xEF then
            (if b = 0xE0 then 0xA0 \<le> c1 \<and> c1 \<le> 0xBF
             else if b = 0xED then 0x80 \<le> c1 \<and> c1 \<le> 0x9F else utf8_cont c1) \<and>
            utf8_cont c2 \<and> valid_utf8 bs2
          else case bs2 of [] \<Rightarrow> False | c3 # bs3 \<Rightarrow>
            0xF0 \<le> b \<and> b \<le> 0xF4 \<and>
            (if b = 0xF0 then 0x90 \<le> c1 \<and> c1 \<le> 0xBF
             else if b = 0xF4 then 0x80 \<le> c1 \<and> c1 \<le> 0x8F else utf8_cont c1) \<and>
            utf8_cont c2 \<and> utf8_cont c3 \<and> valid_utf8 bs3)"

definition from_utf8 :: "bytes \<Rightarrow> string option" where
  "from_utf8 bs = (if valid_utf8 bs then Some (map char_of_byte bs) else None)"

abbreviation utf8_string :: "string \<Rightarrow> bool" where
  "utf8_string s \<equiv> valid_utf8 (as_bytes s)"

lemma char_of_byte_of [simp]: "char_of_byte (byte_of c) = c"
proof -
  have "unat (of_nat (of_char c) :: u8) = of_char c"
    by (simp add: unat_of_nat)
  then show ?thesis by (simp add: byte_of_def char_of_byte_def)
qed

lemma byte_of_char_of [simp]: "byte_of (char_of_byte b) = b"
proof -
  have "unat b < 2 ^ LENGTH(8)" by (rule unsigned_less)
  then show ?thesis by (simp add: byte_of_def char_of_byte_def)
qed

lemma byte_of_inject [simp]: "byte_of c = byte_of d \<longleftrightarrow> c = d"
  by (metis char_of_byte_of)

lemma as_bytes_inject [simp]: "as_bytes s = as_bytes t \<longleftrightarrow> s = t"
proof -
  have "inj byte_of" by (simp add: inj_def)
  then show ?thesis by (simp add: as_bytes_def inj_map_eq_map)
qed

lemma as_bytes_surj: "\<exists>s. as_bytes s = bs"
  by (rule exI [of _ "map char_of_byte bs"]) (simp add: as_bytes_def comp_def)

lemma from_utf8_as_bytes [simp]: "utf8_string s \<Longrightarrow> from_utf8 (as_bytes s) = Some s"
  by (simp add: from_utf8_def as_bytes_def comp_def)

text \<open>\<open>str::parse::<u64>\<close>: an optional plus sign and decimal digits whose value fits.\<close>

fun parse_digits :: "nat \<Rightarrow> string \<Rightarrow> nat option" where
  "parse_digits acc [] = Some acc"
| "parse_digits acc (c # s) =
     (if CHR ''0'' \<le> c \<and> c \<le> CHR ''9'' \<and> 10 * acc + (of_char c - 48) < 2 ^ 64
      then parse_digits (10 * acc + (of_char c - 48)) s else None)"

definition parse_u64 :: "string \<Rightarrow> u64 option" where
  "parse_u64 s =
     (let ds = (case s of c # t \<Rightarrow> if c = CHR ''+'' then t else s | [] \<Rightarrow> [])
      in if ds = [] then None else map_option of_nat (parse_digits 0 ds))"

section \<open>Big-endian numbers\<close>

text \<open>The number a byte sequence denotes, most significant byte first, and the eight bytes
  of a \<open>u64\<close>.\<close>

definition be_nat :: "bytes \<Rightarrow> nat" where
  "be_nat bs = foldl (\<lambda>acc b. 256 * acc + unat b) 0 bs"

definition be_bytes :: "u64 \<Rightarrow> bytes" where
  "be_bytes n = map (\<lambda>i. of_nat (unat n div 256 ^ i)) [7, 6, 5, 4, 3, 2, 1, 0]"

lemma be_nat_Nil [simp]: "be_nat [] = 0"
  by (simp add: be_nat_def)

lemma be_nat_snoc: "be_nat (bs @ [b]) = 256 * be_nat bs + unat b"
  by (simp add: be_nat_def)

lemma be_nat_Cons: "be_nat (b # bs) = unat b * 256 ^ length bs + be_nat bs"
proof (induction bs rule: rev_induct)
  case Nil
  then show ?case by (simp add: be_nat_def)
next
  case (snoc x xs)
  have "be_nat (b # xs @ [x]) = 256 * be_nat (b # xs) + unat x"
    using be_nat_snoc [of "b # xs" x] by simp
  then show ?case by (simp add: snoc.IH be_nat_snoc algebra_simps)
qed

lemma unat_u8_less [simp]: "unat (b :: u8) < 256"
proof -
  have "unat b < 2 ^ LENGTH(8)" by (rule unsigned_less)
  then show ?thesis by simp
qed

lemma be_nat_less: "be_nat bs < 256 ^ length bs"
proof (induction bs)
  case Nil
  then show ?case by simp
next
  case (Cons b bs)
  have "unat b * 256 ^ length bs + be_nat bs < (unat b + 1) * 256 ^ length bs"
    using Cons.IH by (simp add: algebra_simps)
  also have "\<dots> \<le> 256 * 256 ^ length bs"
    using unat_u8_less [of b] by (intro mult_right_mono) linarith+
  finally show ?case by (simp add: be_nat_Cons)
qed

lemma length_be_bytes [simp]: "length (be_bytes n) = 8"
  by (simp add: be_bytes_def)

lemma be_nat_digits:
  "be_nat (map (\<lambda>i. of_nat (m div 256 ^ i)) (rev [0..<k])) = m mod 256 ^ k"
proof (induction k)
  case 0
  then show ?case by simp
next
  case (Suc k)
  have "unat (of_nat (m div 256 ^ k) :: u8) = m div 256 ^ k mod 256"
    by (simp add: unat_of_nat)
  moreover have "m mod (256 * 256 ^ k) = 256 ^ k * (m div 256 ^ k mod 256) + m mod 256 ^ k"
    using mod_mult2_eq [of m "256 ^ k" 256] by (simp add: mult.commute)
  ultimately show ?case
    by (simp add: be_nat_Cons Suc.IH)
qed

lemma be_nat_be_bytes [simp]: "be_nat (be_bytes n) = unat n"
proof -
  have "[7, 6, 5, 4, 3, 2, 1, 0] = rev [0..<8]"
    by (simp add: upt_rec)
  moreover have "unat n < 256 ^ 8"
    using unsigned_less [where w = n] by simp
  ultimately show ?thesis
    using be_nat_digits [of "unat n" 8] by (simp add: be_bytes_def del: power_numeral)
qed

lemma be_bytes_inject [simp]: "be_bytes m = be_bytes n \<longleftrightarrow> m = n"
  by (metis be_nat_be_bytes word_unat_eq_iff)

text \<open>On byte strings of one length the lexicographic order is the order of the numbers.\<close>

lemma be_nat_lexorder:
  "length xs = length ys \<Longrightarrow> xs < ys \<longleftrightarrow> be_nat xs < be_nat ys"
proof (induction xs ys rule: list_induct2)
  case Nil
  then show ?case by simp
next
  case (Cons x xs y ys)
  note bounds = be_nat_less [of xs] be_nat_less [of ys]
  consider "x = y" | "unat x < unat y" | "unat y < unat x"
    by (metis linorder_neqE_nat word_unat_eq_iff)
  then show ?case
  proof cases
    case 1
    with Cons show ?thesis by (simp add: be_nat_Cons)
  next
    case 2
    then have "(unat x + 1) * 256 ^ length xs \<le> unat y * 256 ^ length ys"
      using Cons.hyps by (intro mult_mono) auto
    with 2 bounds Cons.hyps show ?thesis
      by (simp add: be_nat_Cons word_less_nat_alt algebra_simps)
  next
    case 3
    then have "(unat y + 1) * 256 ^ length ys \<le> unat x * 256 ^ length xs"
      using Cons.hyps by (intro mult_mono) auto
    with 3 bounds Cons.hyps show ?thesis
      by (auto simp: be_nat_Cons word_less_nat_alt algebra_simps)
  qed
qed

lemma be_bytes_less_iff [simp]: "be_bytes m < be_bytes n \<longleftrightarrow> m < n"
  by (simp add: be_nat_lexorder word_less_nat_alt)

lemma be_bytes_le_iff [simp]: "be_bytes m \<le> be_bytes n \<longleftrightarrow> m \<le> n"
  using be_bytes_less_iff [of m n] be_bytes_inject [of m n]
  by (metis le_less)

section \<open>Counting up without wrap-around\<close>

lemma unat_succ: "(n :: 'a::len word) + 1 \<noteq> 0 \<Longrightarrow> unat (n + 1) = Suc (unat n)"
  using unatSuc [of n] by (simp add: add.commute)

lemma succ_no_wrap: "unat (n :: u64) + 1 < 2 ^ 64 \<Longrightarrow> n + 1 \<noteq> 0"
proof
  assume lt: "unat n + 1 < 2 ^ 64" and "n + 1 = 0"
  then have "n = - 1" by (simp add: eq_neg_iff_add_eq_0)
  then have "unat n = 2 ^ 64 - 1" by (simp add: unsigned_minus_1_eq_mask mask_eq_exp_minus_1)
  with lt show False by simp
qed

lemma word_less_succ: "(n :: 'a::len word) + 1 \<noteq> 0 \<Longrightarrow> n < n + 1"
  by (simp add: word_less_nat_alt unat_succ)

lemma word_le_succ: "(n :: 'a::len word) + 1 \<noteq> 0 \<Longrightarrow> m \<le> n + 1 \<longleftrightarrow> m \<le> n \<or> m = n + 1"
  by (auto simp: word_le_nat_alt unat_succ word_unat_eq_iff le_Suc_eq)

section \<open>Sums over finite maps\<close>

definition fmsum :: "('v \<Rightarrow> 'n::ab_group_add) \<Rightarrow> ('k, 'v) fmap \<Rightarrow> 'n" where
  "fmsum f m = (\<Sum>k\<in>fmdom' m. f (the (fmlookup m k)))"

lemma finite_fmdom' [simp]: "finite (fmdom' m)"
  by (simp add: fmdom'_alt_def)

lemma fmsum_empty [simp, fmap_simps]: "fmsum f fmempty = 0"
  by (simp add: fmsum_def)

lemma fmsum_drop [fmap_simps]:
  "fmlookup m k = Some v \<Longrightarrow> fmsum f (fmdrop k m) = fmsum f m - f v"
proof -
  assume v: "fmlookup m k = Some v"
  have "(\<Sum>j\<in>fmdom' m - {k}. f (the (fmlookup (fmdrop k m) j))) =
        (\<Sum>j\<in>fmdom' m - {k}. f (the (fmlookup m j)))"
    by (rule sum.cong) auto
  moreover have "k \<in> fmdom' m" using v by (rule fmdom'I)
  ultimately show ?thesis
    by (simp add: fmsum_def v sum.remove [of "fmdom' m" k])
qed

lemma fmsum_upd [fmap_simps]:
  "fmsum f (fmupd k v m) =
     fmsum f m + f v - (case fmlookup m k of None \<Rightarrow> 0 | Some w \<Rightarrow> f w)"
proof -
  have "fmsum f (fmupd k v m) =
      f v + (\<Sum>j\<in>fmdom' m - {k}. f (the (fmlookup (fmupd k v m) j)))"
    unfolding fmsum_def by (simp add: sum.insert_remove)
  also have "(\<Sum>j\<in>fmdom' m - {k}. f (the (fmlookup (fmupd k v m) j))) =
      (\<Sum>j\<in>fmdom' m - {k}. f (the (fmlookup m j)))"
    by (rule sum.cong) auto
  also have "\<dots> = fmsum f m - (case fmlookup m k of None \<Rightarrow> 0 | Some w \<Rightarrow> f w)"
  proof (cases "fmlookup m k")
    case None
    then have "k \<notin> fmdom' m" by (rule fmdom'_notI)
    with None show ?thesis by (simp add: fmsum_def)
  next
    case (Some w)
    then have "k \<in> fmdom' m" by (rule fmdom'I)
    with Some show ?thesis by (simp add: fmsum_def sum.remove [of "fmdom' m" k])
  qed
  finally show ?thesis by simp
qed

lemma fmsum_cong: "(\<And>k v. fmlookup m k = Some v \<Longrightarrow> f v = g v) \<Longrightarrow> fmsum f m = fmsum g m"
  unfolding fmsum_def by (rule sum.cong) (auto simp: fmlookup_dom'_iff)

lemma fmmap_fmupd [simp]: "fmmap f (fmupd k v m) = fmupd k (f v) (fmmap f m)"
  by (rule fmap_ext) simp

text \<open>The value of a result that is \<open>Ok\<close>.\<close>

definition ok_opt :: "('e, 'a) res \<Rightarrow> 'a option" where
  "ok_opt r = (case r of Ok x \<Rightarrow> Some x | Err e \<Rightarrow> None | Panic \<Rightarrow> None)"

lemma ok_opt_simps [simp, res_simps]:
  "ok_opt (Ok x) = Some x" "ok_opt (Err e) = None" "ok_opt Panic = None"
  by (simp_all add: ok_opt_def)

lemma ok_opt_eq [res_simps]: "ok_opt r = Some x \<longleftrightarrow> r = Ok x"
  by (cases r) auto

section \<open>Ranges of indices\<close>

definition index_range :: "u64 \<Rightarrow> u64 \<Rightarrow> u64 list" where
  "index_range low high = map of_nat [unat low..<unat high]"

lemma unat_of_nat_below:
  assumes "n < unat (w :: u64)"
  shows "unat (of_nat n :: u64) = n"
proof -
  have "unat w < 2 ^ LENGTH(64)" by (rule unsigned_less)
  with assms show ?thesis by (simp add: unat_of_nat)
qed

lemma index_range_set [simp]: "set (index_range low high) = {i. low \<le> i \<and> i < high}"
proof -
  have "i \<in> of_nat ` {unat low..<unat high} \<longleftrightarrow> low \<le> i \<and> i < high" for i :: u64
  proof
    assume "i \<in> of_nat ` {unat low..<unat high}"
    then obtain n where "i = of_nat n" "unat low \<le> n" "n < unat high" by auto
    then show "low \<le> i \<and> i < high"
      by (simp add: word_le_nat_alt word_less_nat_alt unat_of_nat_below)
  next
    assume "low \<le> i \<and> i < high"
    then show "i \<in> of_nat ` {unat low..<unat high}"
      by (intro image_eqI [of _ _ "unat i"]) (simp_all add: word_le_nat_alt word_less_nat_alt)
  qed
  then show ?thesis by (auto simp: index_range_def)
qed

lemma index_range_sorted: "sorted_wrt (<) (index_range low high)"
  unfolding index_range_def sorted_wrt_map
proof (rule sorted_wrt_mono_rel [OF _ sorted_wrt_upt])
  fix x y assume "x \<in> set [unat low..<unat high]" "y \<in> set [unat low..<unat high]" "x < y"
  then show "(of_nat x :: u64) < of_nat y"
    by (simp add: word_less_nat_alt unat_of_nat_below [of x high] unat_of_nat_below [of y high])
qed

lemma length_index_range [simp]: "length (index_range low high) = unat high - unat low"
  by (simp add: index_range_def)

lemma index_range_Cons: "low < high \<Longrightarrow> index_range low high = low # index_range (low + 1) high"
proof -
  assume lt: "low < high"
  have "unat high < 2 ^ LENGTH(64)" by (rule unsigned_less)
  with lt have "unat (low + 1) = Suc (unat low)"
    by (simp add: word_less_nat_alt unat_word_ariths)
  with lt show ?thesis by (simp add: index_range_def word_less_nat_alt upt_conv_Cons)
qed

lemma index_range_empty: "high \<le> low \<Longrightarrow> index_range low high = []"
  by (simp add: index_range_def word_le_nat_alt)

lemma index_range_nth: "i < unat high - unat low \<Longrightarrow> index_range low high ! i = low + of_nat i"
  by (simp add: index_range_def)

end
