(* ===== verification/Float64.thy ===== *)
theory Float64
  imports Wallet_Prelude Complex_Main
begin

text \<open>
  The operations on \<open>f64\<close> the wallet uses: parsing, comparison, multiplication and the conversions
  from and to \<open>u64\<close>. A finite value is the rational it denotes (the sign of zero is not kept);
  results are rounded to the nearest representable value, ties to even.
\<close>

datatype f64 = NaN | Inf bool | Fin rat

fun bit_length :: "nat \<Rightarrow> nat" where
  "bit_length n = (if n = 0 then 0 else Suc (bit_length (n div 2)))"

declare bit_length.simps [simp del]

text \<open>The exponent \<open>e\<close> with \<open>2 ^ e \<le> x < 2 ^ (e + 1)\<close>, for a positive \<open>x\<close>.\<close>

definition floor_log2 :: "rat \<Rightarrow> int" where
  "floor_log2 x =
     (if 1 \<le> x then int (bit_length (nat \<lfloor>x\<rfloor>)) - 1
      else - int (bit_length (nat (\<lceil>1 / x\<rceil> - 1))))"

definition pow2 :: "int \<Rightarrow> rat" where
  "pow2 e = (if 0 \<le> e then 2 ^ nat e else 1 / 2 ^ nat (- e))"

definition round_half_even :: "rat \<Rightarrow> int" where
  "round_half_even x =
     (let f = \<lfloor>x\<rfloor>; d = x - of_int f in
      if d < 1 / 2 then f else if 1 / 2 < d then f + 1 else if even f then f else f + 1)"

definition f64_round :: "rat \<Rightarrow> f64" where
  "f64_round x =
     (if x = 0 then Fin 0
      else let a = \<bar>x\<bar>;
               u = pow2 (max (floor_log2 a - 52) (- 1074));
               r = of_int (round_half_even (a / u)) * u
           in if 2 ^ 1024 \<le> r then Inf (x < 0) else Fin (if x < 0 then - r else r))"

definition f64_of_u64 :: "u64 \<Rightarrow> f64" where
  "f64_of_u64 n = f64_round (of_nat (unat n))"

definition f64_mul :: "f64 \<Rightarrow> f64 \<Rightarrow> f64" where
  "f64_mul x y =
     (case (x, y) of
        (Fin a, Fin b) \<Rightarrow> f64_round (a * b)
      | (Inf s, Fin b) \<Rightarrow> if b = 0 then NaN else Inf (s \<noteq> (b < 0))
      | (Fin a, Inf s) \<Rightarrow> if a = 0 then NaN else Inf (s \<noteq> (a < 0))
      | (Inf s, Inf t) \<Rightarrow> Inf (s \<noteq> t)
      | _ \<Rightarrow> NaN)"

text \<open>\<open>x < y\<close>; every comparison with NaN is false.\<close>

definition f64_less :: "f64 \<Rightarrow> f64 \<Rightarrow> bool" where
  "f64_less x y =
     (case (x, y) of
        (Fin a, Fin b) \<Rightarrow> a < b
      | (Inf s, Fin _) \<Rightarrow> s
      | (Fin _, Inf s) \<Rightarrow> \<not> s
      | (Inf s, Inf t) \<Rightarrow> s \<and> \<not> t
      | _ \<Rightarrow> False)"

text \<open>The cast \<open>as u64\<close>: towards zero, saturating, zero for NaN.\<close>

definition f64_as_u64 :: "f64 \<Rightarrow> u64" where
  "f64_as_u64 x =
     (case x of
        NaN \<Rightarrow> 0
      | Inf s \<Rightarrow> if s then 0 else - 1
      | Fin a \<Rightarrow> if a < 0 then 0 else if 2 ^ 64 \<le> \<lfloor>a\<rfloor> then - 1 else of_int \<lfloor>a\<rfloor>)"

section \<open>Parsing\<close>

definition is_digit :: "char \<Rightarrow> bool" where
  "is_digit c \<longleftrightarrow> CHR ''0'' \<le> c \<and> c \<le> CHR ''9''"

definition digits_value :: "string \<Rightarrow> nat" where
  "digits_value ds = foldl (\<lambda>acc c. 10 * acc + (of_char c - 48)) 0 ds"

definition lower :: "char \<Rightarrow> char" where
  "lower c = (if CHR ''A'' \<le> c \<and> c \<le> CHR ''Z'' then char_of (of_char c + 32 :: nat) else c)"

definition split_sign :: "string \<Rightarrow> bool \<times> string" where
  "split_sign s =
     (case s of c # t \<Rightarrow> if c = CHR ''-'' then (True, t) else if c = CHR ''+'' then (False, t) else (False, s)
      | [] \<Rightarrow> (False, []))"

text \<open>The exponent part: nothing, or \<open>e\<close>, a sign and digits.\<close>

definition parse_exponent :: "string \<Rightarrow> int option" where
  "parse_exponent s =
     (case s of [] \<Rightarrow> Some 0
      | c # t \<Rightarrow>
          if lower c \<noteq> CHR ''e'' then None
          else let (neg, ds) = split_sign t in
            if ds = [] \<or> \<not> list_all is_digit ds then None
            else Some (if neg then - int (digits_value ds) else int (digits_value ds)))"

definition parse_number :: "string \<Rightarrow> rat option" where
  "parse_number s =
     (let ip = takeWhile is_digit s;
          r1 = dropWhile is_digit s;
          (fp, r2) = (case r1 of c # t \<Rightarrow>
                        if c = CHR ''.'' then (takeWhile is_digit t, dropWhile is_digit t) else ([], r1)
                      | [] \<Rightarrow> ([], []))
      in if ip @ fp = [] then None
         else case parse_exponent r2 of None \<Rightarrow> None
           | Some e \<Rightarrow>
               let m = of_nat (digits_value (ip @ fp)); k = e - int (length fp)
               in Some (if 0 \<le> k then m * 10 ^ nat k else m / 10 ^ nat (- k)))"

definition parse_f64 :: "string \<Rightarrow> f64 option" where
  "parse_f64 s =
     (let (neg, t) = split_sign s; l = map lower t in
      if l = ''inf'' \<or> l = ''infinity'' then Some (Inf neg)
      else if l = ''nan'' then Some NaN
      else map_option (\<lambda>x. f64_round (if neg then - x else x)) (parse_number t))"

section \<open>Bounds\<close>

lemma pow2_pos [simp]: "0 < pow2 e"
  by (simp add: pow2_def)

lemma round_half_even_bounds:
  assumes "0 \<le> x"
  shows "0 \<le> round_half_even x" "of_int (round_half_even x) \<le> 2 * x"
proof -
  define f where "f = \<lfloor>x\<rfloor>"
  have f: "0 \<le> f" "of_int f \<le> x" "x < of_int f + 1"
    using assms floor_correct [of x] by (auto simp: f_def)
  have r: "round_half_even x = (if x - of_int f < 1 / 2 then f
      else if 1 / 2 < x - of_int f then f + 1 else if even f then f else f + 1)"
    by (simp add: round_half_even_def Let_def f_def)
  show "0 \<le> round_half_even x" using f(1) by (simp add: r)
  show "of_int (round_half_even x) \<le> 2 * x"
  proof (cases "f = 0")
    case True
    then show ?thesis using f by (simp add: r)
  next
    case False
    then have "1 \<le> f" using f(1) by linarith
    then have "(1 :: rat) \<le> of_int f" by simp
    with f show ?thesis by (simp add: r)
  qed
qed

text \<open>Rounding a nonnegative number at most doubles it; small numbers stay finite.\<close>

lemma f64_round_bound:
  assumes x: "0 \<le> x" "2 * x < 2 ^ 1024"
  shows "\<exists>r. f64_round x = Fin r \<and> 0 \<le> r \<and> r \<le> 2 * x"
proof (cases "x = 0")
  case True
  then show ?thesis by (simp add: f64_round_def)
next
  case False
  define u where "u = pow2 (max (floor_log2 x - 52) (- 1074))"
  have u: "0 < u" by (simp add: u_def)
  let ?r = "of_int (round_half_even (x / u)) * u"
  have "0 \<le> x / u" using x u by simp
  note b = round_half_even_bounds [OF this]
  have r: "0 \<le> ?r" "?r \<le> 2 * x"
    using b u mult_right_mono [OF b(2), of u] by auto
  moreover have "f64_round x = Fin ?r"
    using False x r by (simp add: f64_round_def Let_def u_def)
  ultimately show ?thesis by blast
qed

text \<open>Evaluation on numerals.\<close>

lemma floor_rat_numeral: "\<lfloor>numeral a / numeral b :: rat\<rfloor> = numeral a div numeral b"
  by (metis floor_divide_of_int_eq of_int_numeral)

lemma bit_length_numeral:
  "bit_length 0 = 0" "bit_length 1 = 1" "bit_length (Suc 0) = 1"
  "bit_length (numeral (num.Bit0 n)) = Suc (bit_length (numeral n))"
  "bit_length (numeral (num.Bit1 n)) = Suc (bit_length (numeral n))"
  by (subst bit_length.simps; simp)+

lemmas f64_eval = f64_round_def floor_log2_def bit_length_numeral pow2_def round_half_even_def Let_def
  floor_rat_numeral

end
