(* ===== verification/Config.thy ===== *)
theory Config
  imports Float64
begin

text \<open>
  \<^verbatim>\<open>firm-wallet-service/src/config.rs\<close>: the configuration read from the environment. The
  environment is a function from variable names to values, \<open>None\<close> for a variable that is unset
  or not valid unicode.
\<close>

type_synonym env = "string \<Rightarrow> string option"

text \<open>\<open>var(name).map_or(dflt, |v| v.parse().unwrap_or(dflt))\<close>.\<close>

definition env_or :: "(string \<Rightarrow> 'a option) \<Rightarrow> env \<Rightarrow> string \<Rightarrow> 'a \<Rightarrow> 'a" where
  "env_or parse env name dflt =
     (case env name of None \<Rightarrow> dflt
      | Some v \<Rightarrow> (case parse v of Some x \<Rightarrow> x | None \<Rightarrow> dflt))"

section \<open>The service\<close>

record wallet_service_config =
  query_events_max_count :: u64

definition DEFAULT_QUERY_EVENTS_MAX_COUNT :: u64 where
  "DEFAULT_QUERY_EVENTS_MAX_COUNT = 1000"

definition wallet_service_config_default :: "env \<Rightarrow> wallet_service_config" where
  "wallet_service_config_default env =
     \<lparr>query_events_max_count =
        env_or parse_u64 env ''query_events_max_count'' DEFAULT_QUERY_EVENTS_MAX_COUNT\<rparr>"

section \<open>The cluster\<close>

record cluster_config =
  cc_cluster_id :: u64
  cc_cluster_size :: u64
  cc_store_id :: u64

definition DEFAULT_CLUSTER_ID :: u64 where "DEFAULT_CLUSTER_ID = 1"
definition DEFAULT_CLUSTER_SIZE :: u64 where "DEFAULT_CLUSTER_SIZE = 5"

text \<open>A cluster size that does not parse and a store id that is missing or does not parse panic.\<close>

definition cluster_config_default :: "env \<Rightarrow> (unit, cluster_config) res" where
  "cluster_config_default env =
     bind_res (case env ''cluster_size'' of None \<Rightarrow> Ok DEFAULT_CLUSTER_SIZE
               | Some v \<Rightarrow> unwrap (parse_u64 v)) (\<lambda>cluster_size.
     bind_res (unwrap (env ''store_id'')) (\<lambda>v.
     bind_res (unwrap (parse_u64 v)) (\<lambda>store_id.
     Ok \<lparr>cc_cluster_id = env_or parse_u64 env ''cluster_id'' DEFAULT_CLUSTER_ID,
         cc_cluster_size = cluster_size, cc_store_id = store_id\<rparr>)))"

section \<open>Garbage collection of the event log\<close>

record event_log_gc_config =
  poll_interval_millis :: u64
  count_limit :: u64
  gc_batch_size :: u64
  percentage :: f64

definition DEFAULT_GC_POLL_INTERVAL_MILLIS :: u64 where "DEFAULT_GC_POLL_INTERVAL_MILLIS = 1000"
definition DEFAULT_GC_COUNT_LIMIT :: u64 where "DEFAULT_GC_COUNT_LIMIT = 1024 * 1024 * 50"
definition DEFAULT_GC_BATCH_SIZE :: u64 where "DEFAULT_GC_BATCH_SIZE = 200"
definition DEFAULT_GC_PERCENTAGE :: f64 where "DEFAULT_GC_PERCENTAGE = f64_round (1 / 10)"
definition MAX_GC_PERCENTAGE :: f64 where "MAX_GC_PERCENTAGE = f64_round (1 / 4)"
definition MIN_GC_PERCENTAGE :: f64 where "MIN_GC_PERCENTAGE = f64_round (1 / 20)"

definition event_log_gc_config_default :: "env \<Rightarrow> event_log_gc_config" where
  "event_log_gc_config_default env =
     (let gc_percentage = env_or parse_f64 env ''event_log_gc_percentage'' DEFAULT_GC_PERCENTAGE in
      \<lparr>poll_interval_millis =
         env_or parse_u64 env ''event_log_gc_poll_interval_millis'' DEFAULT_GC_POLL_INTERVAL_MILLIS,
       count_limit = env_or parse_u64 env ''event_log_gc_count_limit'' DEFAULT_GC_COUNT_LIMIT,
       gc_batch_size = env_or parse_u64 env ''event_log_gc_batch_size'' DEFAULT_GC_BATCH_SIZE,
       percentage =
         (if f64_less MAX_GC_PERCENTAGE gc_percentage \<or> f64_less gc_percentage MIN_GC_PERCENTAGE
          then DEFAULT_GC_PERCENTAGE else gc_percentage)\<rparr>)"

datatype event_log_gc_setting = Disabled | Enabled event_log_gc_config

definition parse_bool :: "string \<Rightarrow> bool option" where
  "parse_bool s = (if s = ''true'' then Some True else if s = ''false'' then Some False else None)"

definition gc_enabled :: "env \<Rightarrow> bool" where
  "gc_enabled env =
     (case parse_bool (case env ''enable_gc_of_event_log'' of Some v \<Rightarrow> v | None \<Rightarrow> []) of
        Some b \<Rightarrow> b | None \<Rightarrow> True)"

definition event_log_gc_setting_default :: "env \<Rightarrow> event_log_gc_setting" where
  "event_log_gc_setting_default env =
     (if gc_enabled env then Enabled (event_log_gc_config_default env) else Disabled)"

record config =
  cfg_wallet_service_config :: wallet_service_config
  cfg_cluster_config :: cluster_config
  cfg_event_log_gc_setting :: event_log_gc_setting

definition config_default :: "env \<Rightarrow> (unit, config) res" where
  "config_default env =
     bind_res (cluster_config_default env) (\<lambda>cc.
     Ok \<lparr>cfg_wallet_service_config = wallet_service_config_default env, cfg_cluster_config = cc,
         cfg_event_log_gc_setting = event_log_gc_setting_default env\<rparr>)"

section \<open>The configured percentage\<close>

lemma percentage_consts:
  "MAX_GC_PERCENTAGE = Fin (1 / 4)"
  "DEFAULT_GC_PERCENTAGE = Fin (3602879701896397 / 36028797018963968)"
  "MIN_GC_PERCENTAGE = Fin (3602879701896397 / 72057594037927936)"
  by (simp_all add: MAX_GC_PERCENTAGE_def DEFAULT_GC_PERCENTAGE_def MIN_GC_PERCENTAGE_def f64_eval)

text \<open>A configured percentage lies in the legal range unless it is not a number.\<close>

definition legal_percentage :: "f64 \<Rightarrow> bool" where
  "legal_percentage x = (case x of Fin p \<Rightarrow> 1 / 21 \<le> p \<and> p \<le> 1 / 4 | _ \<Rightarrow> False)"

lemma percentage_range:
  "percentage (event_log_gc_config_default env) = NaN \<or>
   legal_percentage (percentage (event_log_gc_config_default env))"
proof -
  let ?g = "env_or parse_f64 env ''event_log_gc_percentage'' DEFAULT_GC_PERCENTAGE"
  have d: "legal_percentage DEFAULT_GC_PERCENTAGE"
    by (simp add: percentage_consts legal_percentage_def)
  have "?g = NaN \<or> legal_percentage ?g"
    if "\<not> f64_less MAX_GC_PERCENTAGE ?g" "\<not> f64_less ?g MIN_GC_PERCENTAGE"
    using that by (cases ?g) (auto simp: percentage_consts f64_less_def legal_percentage_def)
  with d show ?thesis by (simp add: event_log_gc_config_default_def Let_def)
qed

end
