(* ===== verification/Proto.thy ===== *)
theory Proto
  imports Wallet_Prelude
begin

text \<open>
  The messages of the wallet, from the protobuf definitions under
  \<^verbatim>\<open>dependencies/hologram-protos/src/proto/firm_wallet\<close>: one record per message, one datatype
  per enum and per \<open>oneof\<close>. A field of message type may be unset (\<open>None\<close>); the accessor
  \<open>get_*\<close> of the generated code returns the default instance for an unset field. A
  \<open>map\<close> field is a finite map.
\<close>

section \<open>accountpb\<close>

record balance_limit =
  bl_upper :: string
  bl_lower :: string

datatype asset_class_oneof = Cash (currency: string)

record asset_class =
  ac_asset_class :: "asset_class_oneof option"

record account_config =
  cfg_balance_limit :: "balance_limit option"
  cfg_asset_class :: "asset_class option"

record balance =
  available :: string
  reservations :: "(string, string) fmap"

datatype account_state = InvalidState | Deleted | Locked | Normal

record account =
  acc_config :: "account_config option"
  acc_balance :: "balance option"
  acc_state :: account_state
  acc_account_id :: string

definition default_balance_limit :: balance_limit where
  "default_balance_limit = \<lparr>bl_upper = [], bl_lower = []\<rparr>"

definition default_asset_class :: asset_class where
  "default_asset_class = \<lparr>ac_asset_class = None\<rparr>"

definition default_account_config :: account_config where
  "default_account_config = \<lparr>cfg_balance_limit = None, cfg_asset_class = None\<rparr>"

definition default_balance :: balance where
  "default_balance = \<lparr>available = [], reservations = fmempty\<rparr>"

definition default_account :: account where
  "default_account =
     \<lparr>acc_config = None, acc_balance = None, acc_state = InvalidState, acc_account_id = []\<rparr>"

definition get_or_default :: "'a \<Rightarrow> 'a option \<Rightarrow> 'a" where
  "get_or_default d x = (case x of Some v \<Rightarrow> v | None \<Rightarrow> d)"

lemma get_or_default_simps [simp]: "get_or_default d (Some v) = v" "get_or_default d None = d"
  by (simp_all add: get_or_default_def)

definition acc_get_config :: "account \<Rightarrow> account_config" where
  "acc_get_config a = get_or_default default_account_config (acc_config a)"

definition acc_get_balance :: "account \<Rightarrow> balance" where
  "acc_get_balance a = get_or_default default_balance (acc_balance a)"

definition cfg_get_balance_limit :: "account_config \<Rightarrow> balance_limit" where
  "cfg_get_balance_limit c = get_or_default default_balance_limit (cfg_balance_limit c)"

definition cfg_get_asset_class :: "account_config \<Rightarrow> asset_class" where
  "cfg_get_asset_class c = get_or_default default_asset_class (cfg_asset_class c)"

section \<open>commonpb and errorpb\<close>

record response_header =
  rh_seq_num :: u64
  rh_log_index :: u64
  rh_offset :: u64

datatype error_oneof = NotLeader string | OtherError string

record error_pb =
  er_error :: "error_oneof option"

section \<open>balance_operation_servicepb\<close>

record balance_change =
  bc_account_id :: string
  bc_prev_balance :: "balance option"
  bc_curr_balance :: "balance option"

record transfer_spec =
  ts_amount :: string
  ts_from_account_id :: string
  ts_to_account_id :: string
  ts_metadata :: string

record transfer_request =
  tr_dedup_id :: string
  tr_transfer_spec :: "transfer_spec option"

record transfer_response =
  trr_error :: "error_pb option"
  trr_header :: "response_header option"
  trr_request :: "transfer_request option"
  trr_from :: "balance_change option"
  trr_to :: "balance_change option"

record balance_operation_spec =
  bos_account_id :: string
  bos_amount :: string

record batch_balance_operation_request =
  bbo_dedup_id :: string
  bbo_balance_operation_spec :: "balance_operation_spec list"

record batch_balance_operation_response =
  bbor_error :: "error_pb option"
  bbor_header :: "response_header option"
  bbor_request :: "batch_balance_operation_request option"
  bbor_balance_changes :: "balance_change list"

record reserve_request =
  rsv_dedup_id :: string
  rsv_reservation_id :: string
  rsv_account_id :: string
  rsv_amount :: string

record reserve_response =
  rsvr_error :: "error_pb option"
  rsvr_header :: "response_header option"
  rsvr_request :: "reserve_request option"
  rsvr_prev_balance :: "balance option"
  rsvr_curr_balance :: "balance option"

record release_request =
  rls_dedup_id :: string
  rls_reservation_id :: string
  rls_amount :: string
  rls_account_id :: string

record release_response =
  rlsr_error :: "error_pb option"
  rlsr_header :: "response_header option"
  rlsr_request :: "release_request option"
  rlsr_prev_balance :: "balance option"
  rlsr_curr_balance :: "balance option"

record query_balance_request =
  qb_account_id :: string
  qb_seq_num :: u64

record query_balance_response =
  qbr_error :: "error_pb option"
  qbr_seq_num :: u64
  qbr_account_id :: string
  qbr_balance :: "balance option"

definition default_transfer_spec :: transfer_spec where
  "default_transfer_spec =
     \<lparr>ts_amount = [], ts_from_account_id = [], ts_to_account_id = [], ts_metadata = []\<rparr>"

definition get_transfer_spec :: "transfer_request \<Rightarrow> transfer_spec" where
  "get_transfer_spec r = get_or_default default_transfer_spec (tr_transfer_spec r)"

section \<open>account_management_servicepb\<close>

record request_header =
  hd_dedup_id :: string
  hd_account_id :: string

definition default_request_header :: request_header where
  "default_request_header = \<lparr>hd_dedup_id = [], hd_account_id = []\<rparr>"

record create_account_request =
  car_header :: "request_header option"
  car_account_config :: "account_config option"

record delete_account_request =
  dar_header :: "request_header option"

record lock_account_request =
  lar_header :: "request_header option"

record unlock_account_request =
  uar_header :: "request_header option"

record update_account_config_request =
  ucr_header :: "request_header option"
  ucr_balance_limit :: "balance_limit option"

text \<open>The five responses carry the same fields; the request has its own type in each.\<close>

record 'req account_response =
  ar_error :: "error_pb option"
  ar_header :: "response_header option"
  ar_request :: "'req option"
  ar_account :: "account option"

record get_account_request =
  ga_seq_num :: u64
  ga_account_id :: string

record get_account_response =
  gar_error :: "error_pb option"
  gar_seq_num :: u64
  gar_account :: "account option"

abbreviation get_header :: "request_header option \<Rightarrow> request_header" where
  "get_header h \<equiv> get_or_default default_request_header h"

section \<open>internal_servicepb\<close>

record command_header =
  ch_command_id :: string
  ch_process_time_in_sec :: u64

datatype command_payload =
    transfer_request transfer_request
  | batch_balance_operation_request batch_balance_operation_request
  | reserve_request reserve_request
  | release_request release_request
  | create_account_request create_account_request
  | delete_account_request delete_account_request
  | lock_account_request lock_account_request
  | unlock_account_request unlock_account_request
  | update_account_config_request update_account_config_request

record command =
  cmd_header :: "command_header option"
  cmd_payload :: "command_payload option option"

record event_header =
  eh_seq_num :: u64
  eh_log_index :: u64
  eh_offset :: u64
  eh_command_id :: string
  eh_process_time_in_sec :: u64

datatype event_payload =
    transfer_event "transfer_response option"
  | batch_balance_operation_event "batch_balance_operation_response option"
  | reserve_event "reserve_response option"
  | release_event "release_response option"
  | account_created_event "create_account_request account_response option"
  | account_deleted_event "delete_account_request account_response option"
  | account_locked_event "lock_account_request account_response option"
  | account_unlock_event "unlock_account_request account_response option"
  | account_config_update_event "update_account_config_request account_response option"

record event =
  ev_header :: "event_header option"
  ev_payload :: "event_payload option option"

record query_events_request =
  qe_first_seq_num :: u64
  qe_last_seq_num :: u64

datatype internal_error_oneof = InternalOtherError string | InternalLogTruncated

record internal_error_pb =
  ier_error :: "internal_error_oneof option"

record query_events_response =
  qer_error :: "internal_error_pb option"
  qer_first_seq_num :: u64
  qer_last_seq_num :: u64
  qer_events :: "event list"
  qer_persisted_first_seq_num :: u64
  qer_persisted_last_seq_num :: u64

definition default_command_header :: command_header where
  "default_command_header = \<lparr>ch_command_id = [], ch_process_time_in_sec = 0\<rparr>"

definition default_event_header :: event_header where
  "default_event_header =
     \<lparr>eh_seq_num = 0, eh_log_index = 0, eh_offset = 0, eh_command_id = [],
      eh_process_time_in_sec = 0\<rparr>"

definition ev_get_header :: "event \<Rightarrow> event_header" where
  "ev_get_header e = get_or_default default_event_header (ev_header e)"

text \<open>\<open>event.get_payload().event\<close>: the \<open>oneof\<close> of the payload, unset when the payload is.\<close>

definition ev_get_event :: "event \<Rightarrow> event_payload option" where
  "ev_get_event e = get_or_default None (ev_payload e)"

lemmas get_defs = acc_get_config_def acc_get_balance_def cfg_get_balance_limit_def
  cfg_get_asset_class_def get_transfer_spec_def ev_get_header_def ev_get_event_def

end
