(* ===== verification/Errors.thy ===== *)
theory Errors
  imports Proto
begin

text \<open>
  The error types of \<^verbatim>\<open>firm-wallet-service/src/errors\<close> and their conversion to the protobuf
  error a client sees. The reason text is Rust's derived \<open>Debug\<close> output, which is generated
  code: the formatters are arguments of the conversions.
\<close>

datatype balance_operation_error =
    BalanceLimitExceeded balance_limit
  | InvalidAccountState account_state
  | BalanceAccountNotExist string
  | IncompatibleAssetClass asset_class asset_class
  | ParseError string string
  | ReservationIdAlreadyExist string
  | ReservationIdNotFound string
  | InvalidAmount string

datatype account_management_error =
    AccountNotExist string
  | AccountAlreadyExist string
  | InvalidStateTransition account_state account_state
  | BalanceIsNotZero balance

datatype common_error =
    Timeout
  | ConflictDedupId string
  | DataNotReady u64 u64
  | MessageQueueError string

datatype general_error =
    BalanceOperationError balance_operation_error
  | AccountManagementError account_management_error
  | CommonError common_error

type_synonym 'a general_result = "(general_error, 'a) res"

datatype internal_error = LogTruncated | OtherReason string

type_synonym 'a internal_result = "(internal_error, 'a) res"

section \<open>Conversion to protobuf\<close>

text \<open>The \<open>Debug\<close> formatters the conversions call.\<close>

record debug_fmt =
  fmt_balance :: "balance_operation_error \<Rightarrow> string"
  fmt_account :: "account_management_error \<Rightarrow> string"
  fmt_common :: "common_error \<Rightarrow> string"
  fmt_string :: "string \<Rightarrow> string"

definition other_error :: "string \<Rightarrow> error_pb" where
  "other_error reason = \<lparr>er_error = Some (OtherError reason)\<rparr>"

definition balance_error_into_proto :: "debug_fmt \<Rightarrow> balance_operation_error \<Rightarrow> error_pb" where
  "balance_error_into_proto D e = other_error (fmt_balance D e)"

definition account_error_into_proto :: "debug_fmt \<Rightarrow> account_management_error \<Rightarrow> error_pb" where
  "account_error_into_proto D e = other_error (fmt_account D e)"

text \<open>\<open>str::contains\<close>.\<close>

fun contains_str :: "string \<Rightarrow> string \<Rightarrow> bool" where
  "contains_str [] pat = (pat = [])"
| "contains_str (c # s) pat = (take (length pat) (c # s) = pat \<or> contains_str s pat)"

definition is_not_leader_error :: "string \<Rightarrow> bool" where
  "is_not_leader_error err = contains_str err ''not_leader: Some(NotLeader''"

definition common_error_into_proto :: "debug_fmt \<Rightarrow> common_error \<Rightarrow> error_pb" where
  "common_error_into_proto D e =
     (case e of
        MessageQueueError err \<Rightarrow>
          if is_not_leader_error err then \<lparr>er_error = Some (NotLeader err)\<rparr>
          else other_error (fmt_string D err)
      | _ \<Rightarrow> other_error (fmt_common D e))"

definition into_proto :: "debug_fmt \<Rightarrow> general_error \<Rightarrow> error_pb" where
  "into_proto D e =
     (case e of
        BalanceOperationError e \<Rightarrow> balance_error_into_proto D e
      | AccountManagementError e \<Rightarrow> account_error_into_proto D e
      | CommonError e \<Rightarrow> common_error_into_proto D e)"

definition internal_error_into_proto :: "internal_error \<Rightarrow> internal_error_pb" where
  "internal_error_into_proto e =
     (case e of
        LogTruncated \<Rightarrow> \<lparr>ier_error = Some InternalLogTruncated\<rparr>
      | OtherReason reason \<Rightarrow> \<lparr>ier_error = Some (InternalOtherError reason)\<rparr>)"

lemmas into_proto_defs = into_proto_def balance_error_into_proto_def account_error_into_proto_def
  common_error_into_proto_def other_error_def

lemma contains_str_iff: "contains_str s pat \<longleftrightarrow> (\<exists>pre post. s = pre @ pat @ post)"
proof (induction s)
  case Nil
  then show ?case by auto
next
  case (Cons c s)
  have "take (length pat) (c # s) = pat \<longleftrightarrow> (\<exists>post. c # s = pat @ post)"
    by (metis append_eq_conv_conj append_take_drop_id)
  with Cons.IH show ?case
    by (simp add: Cons_eq_append_conv) blast
qed

text \<open>Only a message-queue error that names the \<open>NotLeader\<close> field becomes \<open>NotLeader\<close>; the
  gateway relies on this to decide whether it looks for another leader.\<close>

lemma into_proto_not_leader_iff:
  "er_error (into_proto D e) = Some (NotLeader m) \<longleftrightarrow>
     e = CommonError (MessageQueueError m) \<and> is_not_leader_error m"
  by (auto simp: into_proto_defs split: general_error.splits common_error.splits if_splits)

end
