(* ===== verification/Internal.thy ===== *)
theory Internal
  imports Errors
begin

text \<open>
  \<^verbatim>\<open>firm-wallet-service/src/internal.rs\<close>: commands and events, the events built for each kind of
  request, and the check that a repeated command is of the kind of the event it produced. The
  enum \<open>CommandPayload\<close> has the constructors of the generated \<open>oneof\<close> and is modelled by it.
\<close>

section \<open>Commands\<close>

definition cmd_get_header :: "command \<Rightarrow> command_header" where
  "cmd_get_header c = get_or_default default_command_header (cmd_header c)"

text \<open>\<open>get_payload().request\<close>, and the same with \<open>unwrap\<close>.\<close>

definition cmd_request :: "command \<Rightarrow> command_payload option" where
  "cmd_request c = get_or_default None (cmd_payload c)"

definition payload :: "command \<Rightarrow> ('e, command_payload) res" where
  "payload c = unwrap (cmd_request c)"

definition command_id :: "command \<Rightarrow> string" where
  "command_id c = ch_command_id (cmd_get_header c)"

fun payload_command_id :: "command_payload \<Rightarrow> string" where
  "payload_command_id (transfer_request request) = tr_dedup_id request"
| "payload_command_id (reserve_request request) = rsv_dedup_id request"
| "payload_command_id (release_request request) = rls_dedup_id request"
| "payload_command_id (batch_balance_operation_request request) = bbo_dedup_id request"
| "payload_command_id (create_account_request request) = hd_dedup_id (get_header (car_header request))"
| "payload_command_id (delete_account_request request) = hd_dedup_id (get_header (dar_header request))"
| "payload_command_id (lock_account_request request) = hd_dedup_id (get_header (lar_header request))"
| "payload_command_id (unlock_account_request request) = hd_dedup_id (get_header (uar_header request))"
| "payload_command_id (update_account_config_request request) =
     hd_dedup_id (get_header (ucr_header request))"

text \<open>\<open>now\<close> is the time since the epoch in seconds.\<close>

definition build_command_header :: "u64 \<Rightarrow> string \<Rightarrow> command_header" where
  "build_command_header now cid = \<lparr>ch_command_id = cid, ch_process_time_in_sec = now\<rparr>"

definition from_payload :: "u64 \<Rightarrow> command_payload \<Rightarrow> command" where
  "from_payload now p =
     \<lparr>cmd_header = Some (build_command_header now (payload_command_id p)),
      cmd_payload = Some (Some p)\<rparr>"

section \<open>Events\<close>

definition set_event_header :: "event \<Rightarrow> command_header \<Rightarrow> u64 \<Rightarrow> u64 \<Rightarrow> u64 \<Rightarrow> event" where
  "set_event_header ev ch log_index off seq_num =
     ev\<lparr>ev_header := Some
       \<lparr>eh_seq_num = seq_num, eh_log_index = log_index, eh_offset = off,
        eh_command_id = ch_command_id ch, eh_process_time_in_sec = ch_process_time_in_sec ch\<rparr>\<rparr>"

definition build_response_header :: "u64 \<Rightarrow> u64 \<Rightarrow> u64 \<Rightarrow> response_header" where
  "build_response_header seq_num log_index off =
     \<lparr>rh_seq_num = seq_num, rh_log_index = log_index, rh_offset = off\<rparr>"

definition event_of_payload :: "event_payload \<Rightarrow> event" where
  "event_of_payload p = \<lparr>ev_header = None, ev_payload = Some (Some p)\<rparr>"

definition build_transfer_event ::
    "u64 \<Rightarrow> u64 \<Rightarrow> u64 \<Rightarrow> transfer_request \<Rightarrow> balance_change \<Rightarrow> balance_change \<Rightarrow> event" where
  "build_transfer_event seq_num log_index off request from_change to_change =
     event_of_payload (transfer_event (Some
       \<lparr>trr_error = None, trr_header = Some (build_response_header seq_num log_index off),
        trr_request = Some request, trr_from = Some from_change, trr_to = Some to_change\<rparr>))"

definition build_batch_event ::
    "u64 \<Rightarrow> u64 \<Rightarrow> u64 \<Rightarrow> batch_balance_operation_request \<Rightarrow> balance_change list \<Rightarrow> event" where
  "build_batch_event seq_num log_index off request balance_changes =
     event_of_payload (batch_balance_operation_event (Some
       \<lparr>bbor_error = None, bbor_header = Some (build_response_header seq_num log_index off),
        bbor_request = Some request, bbor_balance_changes = balance_changes\<rparr>))"

definition build_reserve_event ::
    "u64 \<Rightarrow> u64 \<Rightarrow> u64 \<Rightarrow> reserve_request \<Rightarrow> balance \<Rightarrow> balance \<Rightarrow> event" where
  "build_reserve_event seq_num log_index off request prev_balance curr_balance =
     event_of_payload (reserve_event (Some
       \<lparr>rsvr_error = None, rsvr_header = Some (build_response_header seq_num log_index off),
        rsvr_request = Some request, rsvr_prev_balance = Some prev_balance,
        rsvr_curr_balance = Some curr_balance\<rparr>))"

definition build_release_event ::
    "u64 \<Rightarrow> u64 \<Rightarrow> u64 \<Rightarrow> release_request \<Rightarrow> balance \<Rightarrow> balance \<Rightarrow> event" where
  "build_release_event seq_num log_index off request prev_balance curr_balance =
     event_of_payload (release_event (Some
       \<lparr>rlsr_error = None, rlsr_header = Some (build_response_header seq_num log_index off),
        rlsr_request = Some request, rlsr_prev_balance = Some prev_balance,
        rlsr_curr_balance = Some curr_balance\<rparr>))"

text \<open>The common shape of the five account responses.\<close>

definition account_response_of ::
    "u64 \<Rightarrow> u64 \<Rightarrow> u64 \<Rightarrow> 'req \<Rightarrow> account \<Rightarrow> 'req account_response" where
  "account_response_of seq_num log_index off request acc =
     \<lparr>ar_error = None, ar_header = Some (build_response_header seq_num log_index off),
      ar_request = Some request, ar_account = Some acc\<rparr>"

definition build_create_event ::
    "u64 \<Rightarrow> u64 \<Rightarrow> u64 \<Rightarrow> create_account_request \<Rightarrow> account \<Rightarrow> event" where
  "build_create_event seq_num log_index off request acc =
     event_of_payload (account_created_event
       (Some (account_response_of seq_num log_index off request acc)))"

definition build_lock_event ::
    "u64 \<Rightarrow> u64 \<Rightarrow> u64 \<Rightarrow> lock_account_request \<Rightarrow> account \<Rightarrow> event" where
  "build_lock_event seq_num log_index off request acc =
     event_of_payload (account_locked_event
       (Some (account_response_of seq_num log_index off request acc)))"

definition build_unlock_event ::
    "u64 \<Rightarrow> u64 \<Rightarrow> u64 \<Rightarrow> unlock_account_request \<Rightarrow> account \<Rightarrow> event" where
  "build_unlock_event seq_num log_index off request acc =
     event_of_payload (account_unlock_event
       (Some (account_response_of seq_num log_index off request acc)))"

definition build_delete_event ::
    "u64 \<Rightarrow> u64 \<Rightarrow> u64 \<Rightarrow> delete_account_request \<Rightarrow> account \<Rightarrow> event" where
  "build_delete_event seq_num log_index off request acc =
     event_of_payload (account_deleted_event
       (Some (account_response_of seq_num log_index off request acc)))"

definition build_update_event ::
    "u64 \<Rightarrow> u64 \<Rightarrow> u64 \<Rightarrow> update_account_config_request \<Rightarrow> account \<Rightarrow> event" where
  "build_update_event seq_num log_index off request acc =
     event_of_payload (account_config_update_event
       (Some (account_response_of seq_num log_index off request acc)))"

lemmas build_event_defs = build_transfer_event_def build_batch_event_def build_reserve_event_def
  build_release_event_def build_create_event_def build_lock_event_def build_unlock_event_def
  build_delete_event_def build_update_event_def

section \<open>Matching a command with an event\<close>

fun kinds_match :: "command_payload \<Rightarrow> event_payload \<Rightarrow> bool" where
  "kinds_match (transfer_request _) (transfer_event _) = True"
| "kinds_match (batch_balance_operation_request _) (batch_balance_operation_event _) = True"
| "kinds_match (reserve_request _) (reserve_event _) = True"
| "kinds_match (release_request _) (release_event _) = True"
| "kinds_match (create_account_request _) (account_created_event _) = True"
| "kinds_match (lock_account_request _) (account_locked_event _) = True"
| "kinds_match (unlock_account_request _) (account_unlock_event _) = True"
| "kinds_match (delete_account_request _) (account_deleted_event _) = True"
| "kinds_match (update_account_config_request _) (account_config_update_event _) = True"
| "kinds_match _ _ = False"

definition assert_command_and_event_match :: "command \<Rightarrow> event \<Rightarrow> event general_result" where
  "assert_command_and_event_match c ev =
     bind_res (payload c) (\<lambda>command_type.
     bind_res (unwrap (ev_get_event ev)) (\<lambda>event_type.
     if kinds_match command_type event_type then Ok ev
     else Err (CommonError (ConflictDedupId (command_id c)))))"

section \<open>Lemmas\<close>

lemma payload_Ok [simp]: "cmd_request c = Some p \<Longrightarrow> payload c = Ok p"
  by (simp add: payload_def)

lemma from_payload_simps [simp]:
  "cmd_request (from_payload now p) = Some p" "payload (from_payload now p) = Ok p" "command_id (from_payload now p) = payload_command_id p"
  by (simp_all add: from_payload_def payload_def cmd_request_def command_id_def cmd_get_header_def
      build_command_header_def)

lemma event_of_payload_simps [simp]:
  "ev_get_event (event_of_payload p) = Some p" "ev_header (event_of_payload p) = None"
  by (simp_all add: event_of_payload_def ev_get_event_def)

lemma set_event_header_simps [simp]:
  "ev_get_event (set_event_header ev ch li off n) = ev_get_event ev"
  "ev_get_header (set_event_header ev ch li off n) =
     \<lparr>eh_seq_num = n, eh_log_index = li, eh_offset = off, eh_command_id = ch_command_id ch,
      eh_process_time_in_sec = ch_process_time_in_sec ch\<rparr>"
  by (simp_all add: set_event_header_def ev_get_event_def ev_get_header_def)

end
