(* ===== verification/Crates.thy ===== *)
theory Crates
  imports Proto
begin

text \<open>
  The third-party packages the wallet calls: \<open>bigdecimal\<close>, \<open>byteorder\<close>, \<open>rocksdb\<close> and the
  code \<open>protobuf\<close> generates. Their code is not part of the repository, so each is a record
  of functions that the definitions of the model take as an argument. The locales state the
  documented behaviour of each package; theorems that need it have the locale predicate as a
  hypothesis, and the theory \<open>Reference_Crates\<close> shows that the predicates can be met.
\<close>

section \<open>bigdecimal\<close>

text \<open>\<open>std::cmp::Ordering\<close>.\<close>

datatype ordering = Less | Equal | Greater

definition rat_cmp :: "rat \<Rightarrow> rat \<Rightarrow> ordering" where
  "rat_cmp x y = (if x < y then Less else if x = y then Equal else Greater)"

lemma rat_cmp_eq [simp]:
  "rat_cmp x y = Less \<longleftrightarrow> x < y" "rat_cmp x y = Equal \<longleftrightarrow> x = y" "rat_cmp x y = Greater \<longleftrightarrow> y < x"
  by (auto simp: rat_cmp_def)

record 'd bigdecimal =
  bd_from_str :: "string \<Rightarrow> string + 'd"
  bd_to_string :: "'d \<Rightarrow> string"
  bd_add :: "'d \<Rightarrow> 'd \<Rightarrow> 'd"
  bd_neg :: "'d \<Rightarrow> 'd"
  bd_cmp :: "'d \<Rightarrow> 'd \<Rightarrow> ordering"
  bd_normalized :: "'d \<Rightarrow> 'd"

text \<open>
  \<open>val\<close> is the number a decimal denotes. Addition, negation and comparison are exact,
  normalisation keeps the number, the printed form of a decimal parses back to the same number,
  the literal \<open>0.0\<close> parses to zero and the empty string does not parse.
\<close>

locale bigdecimal_spec =
  fixes bd :: "'d bigdecimal" and val :: "'d \<Rightarrow> rat"
  assumes from_str_to_string:
      "\<exists>d'. bd_from_str bd (bd_to_string bd d) = Inr d' \<and> val d' = val d"
    and val_add: "val (bd_add bd d e) = val d + val e"
    and val_neg: "val (bd_neg bd d) = - val d"
    and val_cmp: "bd_cmp bd d e = rat_cmp (val d) (val e)"
    and val_normalized: "val (bd_normalized bd d) = val d"
    and from_str_zero: "\<exists>z. bd_from_str bd ''0.0'' = Inr z \<and> val z = 0"
    and from_str_empty: "\<exists>e. bd_from_str bd [] = Inl e"

section \<open>byteorder\<close>

text \<open>\<open>read_u64\<close> panics (\<open>None\<close>) on a buffer of less than eight bytes.\<close>

record byteorder =
  bo_write_u64 :: "u64 \<Rightarrow> bytes"
  bo_read_u64 :: "bytes \<Rightarrow> u64 option"

locale byteorder_spec =
  fixes bo :: byteorder
  assumes write_u64: "bo_write_u64 bo n = be_bytes n"
    and read_u64: "bo_read_u64 bo bs =
      (if length bs < 8 then None else Some (of_nat (be_nat (take 8 bs))))"
begin

lemma length_write_u64 [simp]: "length (bo_write_u64 bo n) = 8"
  by (simp add: write_u64)

lemma read_write_u64 [simp]: "bo_read_u64 bo (bo_write_u64 bo n) = Some n"
  by (simp add: write_u64 read_u64)

lemma write_u64_inject [simp]: "bo_write_u64 bo m = bo_write_u64 bo n \<longleftrightarrow> m = n"
  by (simp add: write_u64)

lemma write_u64_mono [simp]: "bo_write_u64 bo m < bo_write_u64 bo n \<longleftrightarrow> m < n"
  by (simp add: write_u64)

end

section \<open>rocksdb\<close>

text \<open>
  A write batch is a sequence of puts and deletes that \<open>write\<close> applies atomically and in
  order. \<open>rdb_iter db lower upper seek\<close> lists the entries an iterator with these bounds visits
  from the first key not below \<open>seek\<close> on, in the order of the keys.
\<close>

datatype wb_op = WbPut bytes bytes | WbDelete bytes

fun apply_op :: "wb_op \<Rightarrow> (bytes \<rightharpoonup> bytes) \<Rightarrow> (bytes \<rightharpoonup> bytes)" where
  "apply_op (WbPut k v) m = m(k \<mapsto> v)"
| "apply_op (WbDelete k) m = m(k := None)"

definition apply_ops :: "wb_op list \<Rightarrow> (bytes \<rightharpoonup> bytes) \<Rightarrow> (bytes \<rightharpoonup> bytes)" where
  "apply_ops ops m = fold apply_op ops m"

lemma apply_ops_simps [simp]:
  "apply_ops [] m = m" "apply_ops (op # ops) m = apply_ops ops (apply_op op m)"
  "apply_ops (ops @ ops') m = apply_ops ops' (apply_ops ops m)"
  by (simp_all add: apply_ops_def)

fun op_key :: "wb_op \<Rightarrow> bytes" where
  "op_key (WbPut k v) = k"
| "op_key (WbDelete k) = k"

lemma apply_ops_other: "k \<notin> op_key ` set ops \<Longrightarrow> apply_ops ops m k = m k"
proof (induction ops arbitrary: m)
  case Nil
  then show ?case by simp
next
  case (Cons op ops)
  then show ?case by (cases op) auto
qed

text \<open>A batch that writes a key decides the key's value whatever the map held before.\<close>

lemma apply_ops_decides:
  "k \<in> op_key ` set ops \<Longrightarrow> apply_ops ops m k = apply_ops ops m' k"
proof (induction ops rule: rev_induct)
  case Nil
  then show ?case by simp
next
  case (snoc op ops)
  then show ?case by (cases op) auto
qed

lemma apply_ops_cong: "m k = m' k \<Longrightarrow> apply_ops ops m k = apply_ops ops m' k"
  by (metis apply_ops_decides apply_ops_other)

record 'db rocksdb =
  rdb_get :: "'db \<Rightarrow> bytes \<Rightarrow> bytes option"
  rdb_write :: "'db \<Rightarrow> wb_op list \<Rightarrow> 'db"
  rdb_iter :: "'db \<Rightarrow> bytes option \<Rightarrow> bytes option \<Rightarrow> bytes \<Rightarrow> (bytes \<times> bytes) list"

definition in_bounds :: "bytes option \<Rightarrow> bytes option \<Rightarrow> bytes \<Rightarrow> bytes \<Rightarrow> bool" where
  "in_bounds lower upper seek k \<longleftrightarrow>
     seek \<le> k \<and> (case lower of None \<Rightarrow> True | Some l \<Rightarrow> l \<le> k) \<and>
     (case upper of None \<Rightarrow> True | Some u \<Rightarrow> k < u)"

locale rocksdb_spec =
  fixes rdb :: "'db rocksdb" and view :: "'db \<Rightarrow> bytes \<rightharpoonup> bytes"
  assumes get_view: "rdb_get rdb db k = view db k"
    and view_write: "view (rdb_write rdb db ops) = apply_ops ops (view db)"
    and iter_set: "set (rdb_iter rdb db lower upper seek) =
      {(k, v). view db k = Some v \<and> in_bounds lower upper seek k}"
    and iter_sorted: "sorted_wrt (<) (map fst (rdb_iter rdb db lower upper seek))"

section \<open>protobuf\<close>

text \<open>The encoders and decoders generated for the messages that are stored or sent.\<close>

record wallet_proto =
  pb_account_write :: "account \<Rightarrow> bytes"
  pb_account_parse :: "bytes \<Rightarrow> account option"
  pb_event_write :: "event \<Rightarrow> bytes"
  pb_event_parse :: "bytes \<Rightarrow> event option"
  pb_command_write :: "command \<Rightarrow> bytes"
  pb_command_parse :: "bytes \<Rightarrow> command option"

locale proto_spec =
  fixes pb :: wallet_proto
  assumes account_parse_write [simp]: "pb_account_parse pb (pb_account_write pb a) = Some a"
    and event_parse_write [simp]: "pb_event_parse pb (pb_event_write pb e) = Some e"
    and command_parse_write [simp]: "pb_command_parse pb (pb_command_write pb c) = Some c"

section \<open>All packages\<close>

record ('d, 'db) crates =
  c_bigdecimal :: "'d bigdecimal"
  c_byteorder :: byteorder
  c_rocksdb :: "'db rocksdb"
  c_proto :: wallet_proto

locale crates_spec =
  bigdecimal_spec "c_bigdecimal C" val + byteorder_spec "c_byteorder C" +
  rocksdb_spec "c_rocksdb C" view + proto_spec "c_proto C"
  for C :: "('d, 'db) crates" and val :: "'d \<Rightarrow> rat" and view :: "'db \<Rightarrow> bytes \<rightharpoonup> bytes"

lemma crates_specI:
  assumes "bigdecimal_spec (c_bigdecimal C) val" "byteorder_spec (c_byteorder C)"
    "rocksdb_spec (c_rocksdb C) view" "proto_spec (c_proto C)"
  shows "crates_spec C val view"
  using assms by (simp add: crates_spec_def)

end
