(* ===== verification/Balance_Calculator.thy ===== *)
theory Balance_Calculator
  imports Errors Crates
begin

text \<open>
  \<^verbatim>\<open>firm-wallet-service/src/balance_calculator.rs\<close>: decimal arithmetic on amounts that are
  kept as strings. The three methods are definitions over the \<open>bigdecimal\<close> package; a
  calculator is the record of the three, which \<^verbatim>\<open>account.rs\<close> takes as an argument.
\<close>

definition parse_amount :: "'d bigdecimal \<Rightarrow> string \<Rightarrow> 'd general_result" where
  "parse_amount bd s = map_err (\<lambda>err. BalanceOperationError (ParseError s err)) (bd_from_str bd s)"

definition add :: "'d bigdecimal \<Rightarrow> string \<Rightarrow> string \<Rightarrow> string general_result" where
  "add bd lhs rhs =
     bind_res (parse_amount bd lhs) (\<lambda>lhs_decimal.
     bind_res (parse_amount bd rhs) (\<lambda>rhs_decimal.
     Ok (bd_to_string bd (bd_normalized bd (bd_add bd lhs_decimal rhs_decimal)))))"

definition neg :: "'d bigdecimal \<Rightarrow> string \<Rightarrow> string general_result" where
  "neg bd input =
     bind_res (parse_amount bd input) (\<lambda>d. Ok (bd_to_string bd (bd_neg bd d)))"

definition cmp :: "'d bigdecimal \<Rightarrow> string \<Rightarrow> string \<Rightarrow> ordering general_result" where
  "cmp bd lhs rhs =
     bind_res (parse_amount bd lhs) (\<lambda>lhs_decimal.
     bind_res (parse_amount bd rhs) (\<lambda>rhs_decimal. Ok (bd_cmp bd lhs_decimal rhs_decimal)))"

record calculator =
  calc_add :: "string \<Rightarrow> string \<Rightarrow> string general_result"
  calc_neg :: "string \<Rightarrow> string general_result"
  calc_cmp :: "string \<Rightarrow> string \<Rightarrow> ordering general_result"

definition balance_calculator :: "'d bigdecimal \<Rightarrow> calculator" where
  "balance_calculator bd = \<lparr>calc_add = add bd, calc_neg = neg bd, calc_cmp = cmp bd\<rparr>"

lemma balance_calculator_simps [simp]:
  "calc_add (balance_calculator bd) = add bd" "calc_neg (balance_calculator bd) = neg bd"
  "calc_cmp (balance_calculator bd) = cmp bd"
  by (simp_all add: balance_calculator_def)

section \<open>The interface the accounts rely on\<close>

text \<open>
  \<open>sval s\<close> is the number the string \<open>s\<close> denotes, \<open>None\<close> when it does not parse. A calculator
  computes exactly on the numbers and fails just when an argument does not parse.
\<close>

locale calculator_spec =
  fixes calc :: calculator and sval :: "string \<Rightarrow> rat option"
  assumes add_Ok: "sval x = Some a \<Longrightarrow> sval y = Some b \<Longrightarrow>
      \<exists>z. calc_add calc x y = Ok z \<and> sval z = Some (a + b)"
    and add_Err: "sval x = None \<or> sval y = None \<Longrightarrow> \<exists>e. calc_add calc x y = Err e"
    and neg_Ok: "sval x = Some a \<Longrightarrow> \<exists>z. calc_neg calc x = Ok z \<and> sval z = Some (- a)"
    and neg_Err: "sval x = None \<Longrightarrow> \<exists>e. calc_neg calc x = Err e"
    and cmp_Ok: "sval x = Some a \<Longrightarrow> sval y = Some b \<Longrightarrow> calc_cmp calc x y = Ok (rat_cmp a b)"
    and cmp_Err: "sval x = None \<or> sval y = None \<Longrightarrow> \<exists>e. calc_cmp calc x y = Err e"
    and sval_zero: "sval ''0.0'' = Some 0"
    and sval_empty: "sval [] = None"
begin

lemma add_OkD:
  "calc_add calc x y = Ok z \<Longrightarrow>
     \<exists>a b. sval x = Some a \<and> sval y = Some b \<and> sval z = Some (a + b)"
  by (metis add_Ok add_Err not_None_eq res.distinct(1) res.inject(1))

lemma neg_OkD: "calc_neg calc x = Ok z \<Longrightarrow> \<exists>a. sval x = Some a \<and> sval z = Some (- a)"
  by (metis neg_Ok neg_Err not_None_eq res.distinct(1) res.inject(1))

lemma cmp_OkD:
  "calc_cmp calc x y = Ok ord \<Longrightarrow>
     \<exists>a b. sval x = Some a \<and> sval y = Some b \<and> ord = rat_cmp a b"
  by (metis cmp_Ok cmp_Err not_None_eq res.distinct(1) res.inject(1))

lemma calc_no_panic [simp]:
  "calc_add calc x y \<noteq> Panic" "calc_neg calc x \<noteq> Panic" "calc_cmp calc x y \<noteq> Panic"
  by (metis add_Ok add_Err not_None_eq res.distinct(3,5),
      metis neg_Ok neg_Err not_None_eq res.distinct(3,5),
      metis cmp_Ok cmp_Err not_None_eq res.distinct(3,5))

end

section \<open>The wallet's calculator meets the interface\<close>

definition decimal_value :: "'d bigdecimal \<Rightarrow> ('d \<Rightarrow> rat) \<Rightarrow> string \<Rightarrow> rat option" where
  "decimal_value bd val s = (case bd_from_str bd s of Inr d \<Rightarrow> Some (val d) | Inl e \<Rightarrow> None)"

lemma decimal_value_eq:
  "decimal_value bd val s = Some a \<longleftrightarrow> (\<exists>d. bd_from_str bd s = Inr d \<and> val d = a)"
  "decimal_value bd val s = None \<longleftrightarrow> (\<exists>e. bd_from_str bd s = Inl e)"
  by (auto simp: decimal_value_def split: sum.splits)

lemma parse_amount_simps [simp]:
  "bd_from_str bd s = Inr d \<Longrightarrow> parse_amount bd s = Ok d"
  "bd_from_str bd s = Inl e \<Longrightarrow> parse_amount bd s = Err (BalanceOperationError (ParseError s e))"
  by (simp_all add: parse_amount_def)

context bigdecimal_spec
begin

lemma decimal_value_to_string [simp]:
  "decimal_value bd val (bd_to_string bd d) = Some (val d)"
  using from_str_to_string [of d] by (auto simp: decimal_value_def)

lemma calculator: "calculator_spec (balance_calculator bd) (decimal_value bd val)"
proof
  fix x y a b
  show "\<exists>z. calc_add (balance_calculator bd) x y = Ok z \<and> decimal_value bd val z = Some (a + b)"
    if "decimal_value bd val x = Some a" "decimal_value bd val y = Some b"
    using that by (auto simp: decimal_value_eq(1) [of bd val x] decimal_value_eq(1) [of bd val y]
      add_def val_add val_normalized)
  show "\<exists>e. calc_add (balance_calculator bd) x y = Err e"
    if "decimal_value bd val x = None \<or> decimal_value bd val y = None"
    using that by (cases "bd_from_str bd x"; cases "bd_from_str bd y")
      (auto simp: decimal_value_eq add_def)
  show "\<exists>z. calc_neg (balance_calculator bd) x = Ok z \<and> decimal_value bd val z = Some (- a)"
    if "decimal_value bd val x = Some a"
    using that by (auto simp: decimal_value_eq(1) [of bd val x] neg_def val_neg)
  show "\<exists>e. calc_neg (balance_calculator bd) x = Err e" if "decimal_value bd val x = None"
    using that by (auto simp: decimal_value_eq neg_def)
  show "calc_cmp (balance_calculator bd) x y = Ok (rat_cmp a b)"
    if "decimal_value bd val x = Some a" "decimal_value bd val y = Some b"
    using that by (auto simp: decimal_value_eq cmp_def val_cmp)
  show "\<exists>e. calc_cmp (balance_calculator bd) x y = Err e"
    if "decimal_value bd val x = None \<or> decimal_value bd val y = None"
    using that by (cases "bd_from_str bd x"; cases "bd_from_str bd y")
      (auto simp: decimal_value_eq cmp_def)
  show "decimal_value bd val ''0.0'' = Some 0"
    using from_str_zero by (auto simp: decimal_value_eq)
  show "decimal_value bd val [] = None"
    using from_str_empty by (auto simp: decimal_value_eq)
qed

end

sublocale bigdecimal_spec \<subseteq> calc: calculator_spec "balance_calculator bd" "decimal_value bd val"
  by (rule calculator)

end
