(* ===== verification/Account.thy ===== *)
theory Account
  imports Balance_Calculator
begin

text \<open>
  \<^verbatim>\<open>firm-wallet-service/src/account.rs\<close>: the operations on one account. Every operation works
  on a copy of the account and returns the updated copy, the error, or a panic. The second half
  states what an account promises as operations on rational numbers (\<open>ledger_account\<close>) and
  proves that the operations on strings implement them.
\<close>

section \<open>Defaults\<close>

definition balance_zero :: string where
  "balance_zero = ''0.0''"

definition balance_default :: balance where
  "balance_default = default_balance\<lparr>available := balance_zero\<rparr>"

definition account_config_default :: account_config where
  "account_config_default =
     default_account_config\<lparr>cfg_asset_class :=
       Some (default_asset_class\<lparr>ac_asset_class := Some (Cash ''USD'')\<rparr>)\<rparr>"

definition account_new :: "string \<Rightarrow> account" where
  "account_new account_id =
     default_account\<lparr>acc_balance := Some balance_default, acc_config := Some account_config_default,
       acc_state := Normal, acc_account_id := account_id\<rparr>"

definition legal_transitions :: "account_state \<rightharpoonup> account_state set" where
  "legal_transitions = Map.empty(Normal \<mapsto> {Locked, Deleted}, Locked \<mapsto> {Normal})"

section \<open>Validations\<close>

definition validate_asset_class_compatibility :: "account \<Rightarrow> account \<Rightarrow> unit general_result" where
  "validate_asset_class_compatibility self other =
     (let this_asset_class = cfg_get_asset_class (acc_get_config self);
          other_asset_class = cfg_get_asset_class (acc_get_config other)
      in if this_asset_class \<noteq> other_asset_class
         then Err (BalanceOperationError
                (IncompatibleAssetClass this_asset_class other_asset_class))
         else Ok ())"

definition validate_state_transition :: "account \<Rightarrow> account_state \<Rightarrow> unit general_result" where
  "validate_state_transition self target_state =
     (if (case legal_transitions (acc_state self) of
            Some legal_target_states \<Rightarrow> target_state \<in> legal_target_states | None \<Rightarrow> False)
      then Ok ()
      else Err (AccountManagementError (InvalidStateTransition (acc_state self) target_state)))"

definition validate_balance_limitation ::
    "calculator \<Rightarrow> account \<Rightarrow> string \<Rightarrow> unit general_result" where
  "validate_balance_limitation calc self bal =
     (if cfg_balance_limit (acc_get_config self) = None then Ok ()
      else let limit = cfg_get_balance_limit (acc_get_config self) in
        bind_res (calc_cmp calc bal (bl_upper limit)) (\<lambda>cmp_to_upper.
        bind_res (calc_cmp calc bal (bl_lower limit)) (\<lambda>cmp_to_lower.
        if cmp_to_lower = Less \<or> cmp_to_upper = Greater
        then Err (BalanceOperationError (BalanceLimitExceeded limit))
        else Ok ())))"

definition assert_state_is_normal :: "account \<Rightarrow> unit general_result" where
  "assert_state_is_normal self =
     (if acc_state self \<noteq> Normal
      then Err (BalanceOperationError (InvalidAccountState (acc_state self)))
      else Ok ())"

definition assert_amount_gt_zero :: "calculator \<Rightarrow> string \<Rightarrow> unit general_result" where
  "assert_amount_gt_zero calc amount =
     bind_res (calc_cmp calc amount balance_zero) (\<lambda>cmp_to_zero.
     if cmp_to_zero = Less \<or> cmp_to_zero = Equal
     then Err (BalanceOperationError (InvalidAmount amount))
     else Ok ())"

definition assert_balance_is_zero :: "calculator \<Rightarrow> account \<Rightarrow> unit general_result" where
  "assert_balance_is_zero calc self =
     (let bal = acc_get_balance self in
      if reservations bal = fmempty
      then bind_res (calc_cmp calc (available bal) balance_zero) (\<lambda>ord.
             if ord = Equal then Ok ()
             else Err (AccountManagementError (BalanceIsNotZero bal)))
      else Err (AccountManagementError (BalanceIsNotZero bal)))"

definition assert_reservation_exists :: "account \<Rightarrow> string \<Rightarrow> string general_result" where
  "assert_reservation_exists self reservation_id =
     (case fmlookup (reservations (acc_get_balance self)) reservation_id of
        Some reservation_amount \<Rightarrow> Ok reservation_amount
      | None \<Rightarrow> Err (BalanceOperationError (ReservationIdNotFound reservation_id)))"

section \<open>Operations\<close>

text \<open>\<open>mut_balance()\<close> and \<open>mut_config()\<close> of the generated code: the field, set to the
  default first when it is unset.\<close>

definition map_balance :: "(balance \<Rightarrow> balance) \<Rightarrow> account \<Rightarrow> account" where
  "map_balance f a = a\<lparr>acc_balance := Some (f (acc_get_balance a))\<rparr>"

definition increase_balance_by ::
    "calculator \<Rightarrow> account \<Rightarrow> string \<Rightarrow> (account \<times> balance_change) general_result" where
  "increase_balance_by calc self amount =
     bind_res (assert_state_is_normal self) (\<lambda>_.
     bind_res (calc_add calc (available (acc_get_balance self)) amount) (\<lambda>new_balance.
     bind_res (validate_balance_limitation calc self new_balance) (\<lambda>_.
     let new_account = map_balance (available_update (\<lambda>_. new_balance)) self;
         change = \<lparr>bc_account_id = acc_account_id self,
                   bc_prev_balance = Some (acc_get_balance self),
                   bc_curr_balance = Some (acc_get_balance new_account)\<rparr>
     in Ok (new_account, change))))"

definition set_balance_limit :: "account \<Rightarrow> balance_limit \<Rightarrow> account" where
  "set_balance_limit self limit =
     self\<lparr>acc_config := Some ((acc_get_config self)\<lparr>cfg_balance_limit := Some limit\<rparr>)\<rparr>"

definition reserve :: "calculator \<Rightarrow> account \<Rightarrow> string \<Rightarrow> string \<Rightarrow> account general_result" where
  "reserve calc self reservation_id amount =
     bind_res (assert_state_is_normal self) (\<lambda>_.
     bind_res (assert_amount_gt_zero calc amount) (\<lambda>_.
     if reservation_id |\<in>| fmdom (reservations (acc_get_balance self))
     then Err (BalanceOperationError (ReservationIdAlreadyExist reservation_id))
     else bind_res (calc_neg calc amount) (\<lambda>neg_amount.
          bind_res (increase_balance_by calc self neg_amount) (\<lambda>(updated_account, _).
          Ok (map_balance (reservations_update (fmupd reservation_id amount)) updated_account)))))"

definition release_all :: "calculator \<Rightarrow> account \<Rightarrow> string \<Rightarrow> account general_result" where
  "release_all calc self reservation_id =
     bind_res (assert_state_is_normal self) (\<lambda>_.
     bind_res (assert_reservation_exists self reservation_id) (\<lambda>reservation_amount.
     bind_res (increase_balance_by calc self reservation_amount) (\<lambda>(updated_account, _).
     bind_res (unwrap (fmlookup (reservations (acc_get_balance updated_account)) reservation_id)) (\<lambda>_.
     Ok (map_balance (reservations_update (fmdrop reservation_id)) updated_account)))))"

definition partial_release ::
    "calculator \<Rightarrow> account \<Rightarrow> string \<Rightarrow> string \<Rightarrow> account general_result" where
  "partial_release calc self reservation_id amount =
     bind_res (assert_state_is_normal self) (\<lambda>_.
     bind_res (assert_amount_gt_zero calc amount) (\<lambda>_.
     bind_res (assert_reservation_exists self reservation_id) (\<lambda>reservation_amount.
     bind_res (calc_cmp calc amount reservation_amount) (\<lambda>cmp_to_reservation_amount.
     if cmp_to_reservation_amount = Greater
     then Err (BalanceOperationError (InvalidAmount amount))
     else if cmp_to_reservation_amount = Equal
     then release_all calc self reservation_id
     else bind_res (increase_balance_by calc self amount) (\<lambda>(updated_account, _).
          bind_res (calc_neg calc amount) (\<lambda>neg_amount.
          bind_res (calc_add calc reservation_amount neg_amount) (\<lambda>remained_amount.
          Ok (map_balance (reservations_update (fmupd reservation_id remained_amount))
                updated_account))))))))"

definition lock :: "account \<Rightarrow> account general_result" where
  "lock self = bind_res (validate_state_transition self Locked) (\<lambda>_. Ok (self\<lparr>acc_state := Locked\<rparr>))"

definition unlock :: "account \<Rightarrow> account general_result" where
  "unlock self = bind_res (validate_state_transition self Normal) (\<lambda>_. Ok (self\<lparr>acc_state := Normal\<rparr>))"

definition delete_acc :: "calculator \<Rightarrow> account \<Rightarrow> account general_result" where
  "delete_acc calc self =
     bind_res (validate_state_transition self Deleted) (\<lambda>_.
     bind_res (assert_balance_is_zero calc self) (\<lambda>_.
     Ok (self\<lparr>acc_state := Deleted\<rparr>)))"

section \<open>What an account promises: a ledger on rational numbers\<close>

text \<open>
  \<open>la_limit\<close> is the configured limit; a component that does not parse is \<open>None\<close>, and then no
  balance is within the limit. An operation that the ledger refuses is \<open>None\<close>.
\<close>

record ledger_account =
  la_state :: account_state
  la_avail :: rat
  la_resv :: "(string, rat) fmap"
  la_limit :: "(rat option \<times> rat option) option"

definition within_limit :: "(rat option \<times> rat option) option \<Rightarrow> rat \<Rightarrow> bool" where
  "within_limit limit x \<longleftrightarrow>
     (case limit of None \<Rightarrow> True
      | Some (lower, upper) \<Rightarrow> (\<exists>l u. lower = Some l \<and> upper = Some u \<and> l \<le> x \<and> x \<le> u))"

definition spec_increase :: "ledger_account \<Rightarrow> rat \<Rightarrow> ledger_account option" where
  "spec_increase a amt =
     (if la_state a = Normal \<and> within_limit (la_limit a) (la_avail a + amt)
      then Some (a\<lparr>la_avail := la_avail a + amt\<rparr>) else None)"

definition spec_reserve :: "ledger_account \<Rightarrow> string \<Rightarrow> rat \<Rightarrow> ledger_account option" where
  "spec_reserve a rid amt =
     (if 0 < amt \<and> fmlookup (la_resv a) rid = None
      then map_option (la_resv_update (fmupd rid amt)) (spec_increase a (- amt)) else None)"

definition spec_release_all :: "ledger_account \<Rightarrow> string \<Rightarrow> ledger_account option" where
  "spec_release_all a rid =
     (case fmlookup (la_resv a) rid of None \<Rightarrow> None
      | Some r \<Rightarrow> map_option (la_resv_update (fmdrop rid)) (spec_increase a r))"

definition spec_partial_release :: "ledger_account \<Rightarrow> string \<Rightarrow> rat \<Rightarrow> ledger_account option" where
  "spec_partial_release a rid amt =
     (case fmlookup (la_resv a) rid of None \<Rightarrow> None
      | Some r \<Rightarrow>
          if amt \<le> 0 \<or> r < amt then None
          else if amt = r then spec_release_all a rid
          else map_option (la_resv_update (fmupd rid (r - amt))) (spec_increase a amt))"

definition spec_delete :: "ledger_account \<Rightarrow> ledger_account option" where
  "spec_delete a =
     (if la_state a = Normal \<and> la_avail a = 0 \<and> la_resv a = fmempty
      then Some (a\<lparr>la_state := Deleted\<rparr>) else None)"

text \<open>The whole balance: what is available and what is reserved.\<close>

definition ledger_total :: "ledger_account \<Rightarrow> rat" where
  "ledger_total a = la_avail a + fmsum id (la_resv a)"

section \<open>Abstraction\<close>

definition num :: "(string \<Rightarrow> rat option) \<Rightarrow> string \<Rightarrow> rat" where
  "num sval s = (case sval s of Some v \<Rightarrow> v | None \<Rightarrow> 0)"

definition ledger_of :: "(string \<Rightarrow> rat option) \<Rightarrow> account \<Rightarrow> ledger_account" where
  "ledger_of sval a =
     \<lparr>la_state = acc_state a,
      la_avail = num sval (available (acc_get_balance a)),
      la_resv = fmmap (num sval) (reservations (acc_get_balance a)),
      la_limit = map_option (\<lambda>l. (sval (bl_lower l), sval (bl_upper l)))
                   (cfg_balance_limit (acc_get_config a))\<rparr>"

definition account_total :: "(string \<Rightarrow> rat option) \<Rightarrow> account \<Rightarrow> rat" where
  "account_total sval a = ledger_total (ledger_of sval a)"

text \<open>The type invariant: every stored amount parses and reservations are positive.\<close>

definition wf_account :: "(string \<Rightarrow> rat option) \<Rightarrow> account \<Rightarrow> bool" where
  "wf_account sval a \<longleftrightarrow>
     sval (available (acc_get_balance a)) \<noteq> None \<and>
     (\<forall>rid amt. fmlookup (reservations (acc_get_balance a)) rid = Some amt \<longrightarrow>
        (\<exists>v. sval amt = Some v \<and> 0 < v))"

lemma num_Some [simp]: "sval s = Some v \<Longrightarrow> num sval s = v"
  by (simp add: num_def)

lemma acc_get_balance_map [simp]: "acc_get_balance (map_balance f a) = f (acc_get_balance a)"
  by (simp add: map_balance_def acc_get_balance_def)

lemma map_balance_frame [simp]:
  "acc_state (map_balance f a) = acc_state a"
  "acc_account_id (map_balance f a) = acc_account_id a"
  "acc_get_config (map_balance f a) = acc_get_config a"
  by (simp_all add: map_balance_def acc_get_config_def)

lemma acc_get_frame [simp]:
  "acc_get_balance (a\<lparr>acc_state := st\<rparr>) = acc_get_balance a"
  "acc_get_config (a\<lparr>acc_state := st\<rparr>) = acc_get_config a"
  "acc_get_balance (a\<lparr>acc_config := c\<rparr>) = acc_get_balance a"
  "acc_get_config (a\<lparr>acc_config := Some cfg\<rparr>) = cfg"
  by (simp_all add: acc_get_balance_def acc_get_config_def)

lemma ledger_of_map_available [simp]:
  "ledger_of sval (map_balance (available_update (\<lambda>_. s)) a) =
     (ledger_of sval a)\<lparr>la_avail := num sval s\<rparr>"
  by (simp add: ledger_of_def)

lemma ledger_of_map_upd [simp]:
  "ledger_of sval (map_balance (reservations_update (fmupd rid s)) a) =
     la_resv_update (fmupd rid (num sval s)) (ledger_of sval a)"
  by (simp add: ledger_of_def)

lemma ledger_of_map_drop [simp]:
  "ledger_of sval (map_balance (reservations_update (fmdrop rid)) a) =
     la_resv_update (fmdrop rid) (ledger_of sval a)"
  by (simp add: ledger_of_def)

lemma ledger_of_simps [simp]:
  "la_state (ledger_of sval a) = acc_state a"
  "la_avail (ledger_of sval a) = num sval (available (acc_get_balance a))"
  "fmlookup (la_resv (ledger_of sval a)) rid =
     map_option (num sval) (fmlookup (reservations (acc_get_balance a)) rid)"
  by (simp_all add: ledger_of_def)

section \<open>The ledger's own laws\<close>

lemma spec_increase_total:
  "spec_increase a amt = Some a' \<Longrightarrow> ledger_total a' = ledger_total a + amt"
  by (auto simp: spec_increase_def ledger_total_def split: if_splits)

lemma spec_increase_frame:
  "spec_increase a amt = Some a' \<Longrightarrow> la_resv a' = la_resv a \<and> la_state a' = la_state a \<and>
     la_limit a' = la_limit a \<and> la_avail a' = la_avail a + amt"
  by (auto simp: spec_increase_def split: if_splits)

lemma spec_reserve_total: "spec_reserve a rid amt = Some a' \<Longrightarrow> ledger_total a' = ledger_total a"
  by (auto simp: spec_reserve_def ledger_total_def fmap_simps dest!: spec_increase_frame
      split: if_splits)

lemma spec_release_all_total: "spec_release_all a rid = Some a' \<Longrightarrow> ledger_total a' = ledger_total a"
  by (auto simp: spec_release_all_def ledger_total_def fmap_simps dest!: spec_increase_frame
      split: option.splits)

lemma spec_partial_release_total:
  "spec_partial_release a rid amt = Some a' \<Longrightarrow> ledger_total a' = ledger_total a"
  by (auto simp: spec_partial_release_def ledger_total_def fmap_simps spec_release_all_total
      dest!: spec_increase_frame spec_release_all_total split: option.splits if_splits)

section \<open>The operations implement the ledger\<close>

context calculator_spec
begin

abbreviation abs_res :: "account general_result \<Rightarrow> ledger_account option" where
  "abs_res r \<equiv> map_option (ledger_of sval) (ok_opt r)"

lemma validate_balance_limitation_cases:
  assumes "sval s = Some x"
  shows "if within_limit (la_limit (ledger_of sval a)) x
         then validate_balance_limitation calc a s = Ok ()
         else (\<exists>e. validate_balance_limitation calc a s = Err e)"
proof (cases "cfg_balance_limit (acc_get_config a)")
  case None
  then show ?thesis by (simp add: validate_balance_limitation_def ledger_of_def within_limit_def)
next
  case (Some l)
  show ?thesis
  proof (cases "sval (bl_upper l) = None \<or> sval (bl_lower l) = None")
    case True
    then have "\<exists>e. validate_balance_limitation calc a s = Err e"
      using Some cmp_Err [of s "bl_upper l"] cmp_Err [of s "bl_lower l"]
        cmp_Ok [OF assms] by (auto simp: validate_balance_limitation_def cfg_get_balance_limit_def
          bind_res_eq_Err Let_def)
    with True Some show ?thesis by (auto simp: ledger_of_def within_limit_def)
  next
    case False
    then obtain u lo where "sval (bl_upper l) = Some u" "sval (bl_lower l) = Some lo" by auto
    with Some cmp_Ok [OF assms] show ?thesis
      by (auto simp: validate_balance_limitation_def cfg_get_balance_limit_def ledger_of_def
          within_limit_def Let_def)
  qed
qed

lemma increase_balance_by_cases:
  assumes "wf_account sval a" and v: "sval amt = Some v"
  obtains (ok) s ch where "sval s = Some (la_avail (ledger_of sval a) + v)"
      "increase_balance_by calc a amt = Ok (map_balance (available_update (\<lambda>_. s)) a, ch)"
      "spec_increase (ledger_of sval a) v =
         Some ((ledger_of sval a)\<lparr>la_avail := la_avail (ledger_of sval a) + v\<rparr>)"
      "acc_state a = Normal"
    | (err) e where "increase_balance_by calc a amt = Err e"
        "spec_increase (ledger_of sval a) v = None"
proof (cases "acc_state a = Normal")
  case False
  then show ?thesis
    by (intro err) (auto simp: increase_balance_by_def assert_state_is_normal_def spec_increase_def)
next
  case True
  from assms(1) obtain b where b: "sval (available (acc_get_balance a)) = Some b"
    by (auto simp: wf_account_def)
  with add_Ok [OF b v] obtain s where
    s: "calc_add calc (available (acc_get_balance a)) amt = Ok s" "sval s = Some (b + v)" by auto
  show ?thesis
    using validate_balance_limitation_cases [OF s(2), of a] True b s ok err
    by (auto simp: increase_balance_by_def assert_state_is_normal_def spec_increase_def Let_def
        split: if_splits)
qed

lemma assert_amount_gt_zero_cases:
  "sval amt = Some v \<Longrightarrow> 0 < v \<Longrightarrow> assert_amount_gt_zero calc amt = Ok ()"
  "sval amt = Some v \<Longrightarrow> \<not> 0 < v \<Longrightarrow>
     assert_amount_gt_zero calc amt = Err (BalanceOperationError (InvalidAmount amt))"
  "sval amt = None \<Longrightarrow> \<exists>e. assert_amount_gt_zero calc amt = Err e"
  using cmp_Ok [of amt v balance_zero 0] cmp_Err [of amt balance_zero] sval_zero
  by (auto simp: assert_amount_gt_zero_def balance_zero_def bind_res_eq_Err rat_cmp_def
      split: if_splits)

lemma increase_refines:
  assumes "wf_account sval a" "sval amt = Some v"
  shows "map_option (ledger_of sval) (map_option fst (ok_opt (increase_balance_by calc a amt))) =
    spec_increase (ledger_of sval a) v"
  by (rule increase_balance_by_cases [OF assms]) simp_all

lemma reserve_refines:
  assumes wf: "wf_account sval a" and v: "sval amt = Some v"
  shows "abs_res (reserve calc a rid amt) = spec_reserve (ledger_of sval a) rid v"
proof -
  obtain n where n: "calc_neg calc amt = Ok n" "sval n = Some (- v)"
    using neg_Ok [OF v] by auto
  consider "acc_state a \<noteq> Normal" | "acc_state a = Normal" "\<not> 0 < v" |
    "acc_state a = Normal" "0 < v" by blast
  then show ?thesis
  proof cases
    case 1
    then show ?thesis
      by (simp add: reserve_def assert_state_is_normal_def spec_reserve_def spec_increase_def)
  next
    case 2
    then show ?thesis using v
      by (simp add: reserve_def assert_state_is_normal_def spec_reserve_def
          assert_amount_gt_zero_cases)
  next
    case 3
    from increase_balance_by_cases [OF wf n(2)] show ?thesis
      by cases (use 3 v n in \<open>auto simp: reserve_def assert_state_is_normal_def spec_reserve_def
        assert_amount_gt_zero_cases fmlookup_dom_iff\<close>)
  qed
qed

lemma release_all_refines:
  assumes wf: "wf_account sval a"
  shows "abs_res (release_all calc a rid) = spec_release_all (ledger_of sval a) rid"
proof (cases "fmlookup (reservations (acc_get_balance a)) rid")
  case None
  then show ?thesis
    by (simp add: release_all_def assert_state_is_normal_def assert_reservation_exists_def
        spec_release_all_def)
next
  case (Some r)
  with wf obtain v where v: "sval r = Some v" by (auto simp: wf_account_def)
  from increase_balance_by_cases [OF wf v] show ?thesis
    by cases (use Some v in \<open>auto simp: release_all_def assert_state_is_normal_def
      assert_reservation_exists_def spec_release_all_def\<close>)
qed

lemma partial_release_refines:
  assumes wf: "wf_account sval a" and v: "sval amt = Some v"
  shows "abs_res (partial_release calc a rid amt) = spec_partial_release (ledger_of sval a) rid v"
proof (cases "acc_state a = Normal \<and> 0 < v")
  case False
  then show ?thesis using v
    by (auto simp: partial_release_def assert_state_is_normal_def spec_partial_release_def
        assert_amount_gt_zero_cases spec_release_all_def spec_increase_def split: option.splits)
next
  case pos: True
  show ?thesis
  proof (cases "fmlookup (reservations (acc_get_balance a)) rid")
    case None
    with pos v show ?thesis
      by (simp add: partial_release_def assert_state_is_normal_def assert_amount_gt_zero_cases
          assert_reservation_exists_def spec_partial_release_def)
  next
    case (Some r)
    with wf obtain w where w: "sval r = Some w" by (auto simp: wf_account_def)
    obtain n where n: "calc_neg calc amt = Ok n" "sval n = Some (- v)"
      using neg_Ok [OF v] by auto
    obtain d where d: "calc_add calc r n = Ok d" "sval d = Some (w - v)"
      using add_Ok [OF w n(2)] by auto
    have base: "partial_release calc a rid amt =
      (if w < v then Err (BalanceOperationError (InvalidAmount amt))
       else if v = w then release_all calc a rid
       else bind_res (increase_balance_by calc a amt) (\<lambda>(updated_account, _).
         Ok (map_balance (reservations_update (fmupd rid d)) updated_account)))"
      using pos v Some cmp_Ok [OF v w] n d
      by (simp add: partial_release_def assert_state_is_normal_def assert_amount_gt_zero_cases
          assert_reservation_exists_def)
    from increase_balance_by_cases [OF wf v] show ?thesis
      by cases (use pos Some w d release_all_refines [OF wf, of rid] in
        \<open>auto simp: base spec_partial_release_def\<close>)
  qed
qed

lemma delete_refines:
  assumes wf: "wf_account sval a"
  shows "abs_res (delete_acc calc a) = spec_delete (ledger_of sval a)"
proof -
  from wf obtain b where b: "sval (available (acc_get_balance a)) = Some b"
    by (auto simp: wf_account_def)
  have empty: "fmmap (num sval) m = fmempty \<longleftrightarrow> m = fmempty" for m :: "(string, string) fmap"
    by (metis fmap_ext fmempty_lookup fmlookup_map map_option_is_None)
  show ?thesis
    using cmp_Ok [OF b, of balance_zero 0] sval_zero b
    by (cases "acc_state a")
      (auto simp: delete_acc_def validate_state_transition_def legal_transitions_def
        assert_balance_is_zero_def spec_delete_def balance_zero_def Let_def empty ledger_of_def)
qed

text \<open>Frame, invariant and absence of panics.\<close>

lemma increase_balance_by_OkD:
  assumes "increase_balance_by calc a amt = Ok (a', ch)"
  obtains s x v where "calc_add calc (available (acc_get_balance a)) amt = Ok s"
    "sval (available (acc_get_balance a)) = Some x" "sval amt = Some v" "sval s = Some (x + v)"
    "a' = map_balance (available_update (\<lambda>_. s)) a" "acc_state a = Normal"
    "within_limit (la_limit (ledger_of sval a)) (x + v)"
    "ch = \<lparr>bc_account_id = acc_account_id a, bc_prev_balance = Some (acc_get_balance a),
           bc_curr_balance = Some (acc_get_balance a')\<rparr>"
proof -
  from assms obtain s where s: "acc_state a = Normal"
    "calc_add calc (available (acc_get_balance a)) amt = Ok s"
    "validate_balance_limitation calc a s = Ok ()"
    "a' = map_balance (available_update (\<lambda>_. s)) a"
    "ch = \<lparr>bc_account_id = acc_account_id a, bc_prev_balance = Some (acc_get_balance a),
           bc_curr_balance = Some (acc_get_balance a')\<rparr>"
    by (auto simp: increase_balance_by_def assert_state_is_normal_def Let_def bind_res_eq_Ok
        split: if_splits)
  from add_OkD [OF s(2)] obtain x v where v: "sval (available (acc_get_balance a)) = Some x"
    "sval amt = Some v" "sval s = Some (x + v)" by auto
  have "within_limit (la_limit (ledger_of sval a)) (x + v)"
    using validate_balance_limitation_cases [OF v(3), of a] s(3) by (auto split: if_splits)
  with s v that show ?thesis by blast
qed

lemma increase_balance_by_no_panic [simp]: "increase_balance_by calc a amt \<noteq> Panic"
  by (auto simp: increase_balance_by_def assert_state_is_normal_def Let_def bind_res_eq_Panic
      validate_balance_limitation_def split: if_splits)

lemma increase_balance_by_wf:
  "wf_account sval a \<Longrightarrow> increase_balance_by calc a amt = Ok (a', ch) \<Longrightarrow> wf_account sval a'"
  by (erule increase_balance_by_OkD) (simp add: wf_account_def)

lemma reserve_wf:
  assumes wf: "wf_account sval a" and ok: "reserve calc a rid amt = Ok a'"
  shows "wf_account sval a'"
proof -
  from ok obtain n a1 ch where st: "assert_amount_gt_zero calc amt = Ok ()"
      "increase_balance_by calc a n = Ok (a1, ch)"
      "a' = map_balance (reservations_update (fmupd rid amt)) a1"
    by (auto simp: reserve_def bind_res_eq_Ok split: if_splits)
  have "\<exists>v. sval amt = Some v \<and> 0 < v"
    using st(1) assert_amount_gt_zero_cases
    by (metis not_None_eq res.distinct(1))
  with increase_balance_by_wf [OF wf st(2)] st(3) show ?thesis
    by (auto simp: wf_account_def)
qed

lemma release_all_wf:
  assumes wf: "wf_account sval a" and ok: "release_all calc a rid = Ok a'"
  shows "wf_account sval a'"
proof -
  from ok obtain r a1 ch where "increase_balance_by calc a r = Ok (a1, ch)"
      "a' = map_balance (reservations_update (fmdrop rid)) a1"
    by (auto simp: release_all_def bind_res_eq_Ok split: if_splits)
  with increase_balance_by_wf [OF wf] show ?thesis
    by (fastforce simp: wf_account_def)
qed

lemma partial_release_cases:
  assumes ok: "partial_release calc a rid amt = Ok a'"
  obtains (all) "release_all calc a rid = Ok a'"
    | (part) r a1 ch d v w where
        "increase_balance_by calc a amt = Ok (a1, ch)"
        "a' = map_balance (reservations_update (fmupd rid d)) a1"
        "fmlookup (reservations (acc_get_balance a)) rid = Some r"
        "sval amt = Some v" "sval r = Some w" "v < w" "sval d = Some (w - v)"
proof -
  from ok obtain r ord where r: "fmlookup (reservations (acc_get_balance a)) rid = Some r"
      "calc_cmp calc amt r = Ok ord" "ord \<noteq> Greater"
    and rest: "if ord = Equal then release_all calc a rid = Ok a'
      else \<exists>a1 ch n d. increase_balance_by calc a amt = Ok (a1, ch) \<and> calc_neg calc amt = Ok n \<and>
        calc_add calc r n = Ok d \<and> a' = map_balance (reservations_update (fmupd rid d)) a1"
    by (auto simp: partial_release_def bind_res_eq_Ok assert_reservation_exists_def
        split: if_splits option.splits)
  from cmp_OkD [OF r(2)] obtain v w where vw: "sval amt = Some v" "sval r = Some w"
    "ord = rat_cmp v w" by auto
  show ?thesis
  proof (cases "ord = Equal")
    case True
    with rest all show ?thesis by simp
  next
    case False
    with rest obtain a1 ch n d where st: "increase_balance_by calc a amt = Ok (a1, ch)"
      "calc_neg calc amt = Ok n" "calc_add calc r n = Ok d"
      "a' = map_balance (reservations_update (fmupd rid d)) a1" by auto
    have "v < w" using False r(3) vw(3) by (auto simp: rat_cmp_def split: if_splits)
    moreover have "sval d = Some (w - v)"
      using neg_OkD [OF st(2)] add_OkD [OF st(3)] vw by auto
    ultimately show ?thesis using part st r vw by blast
  qed
qed

lemma partial_release_wf:
  assumes wf: "wf_account sval a" and ok: "partial_release calc a rid amt = Ok a'"
  shows "wf_account sval a'"
  using ok
proof (cases rule: partial_release_cases)
  case all
  then show ?thesis by (rule release_all_wf [OF wf])
next
  case (part r a1 ch d v w)
  with increase_balance_by_wf [OF wf part(1)] show ?thesis by (auto simp: wf_account_def)
qed

lemma release_no_panic [simp]:
  "reserve calc a rid amt \<noteq> Panic" "release_all calc a rid \<noteq> Panic"
  "partial_release calc a rid amt \<noteq> Panic" "delete_acc calc a \<noteq> Panic"
proof -
  have rel: "release_all calc a rid \<noteq> Panic"
    by (auto simp: release_all_def bind_res_eq_Panic assert_state_is_normal_def
        assert_reservation_exists_def unwrap_eq elim!: increase_balance_by_OkD
        split: option.splits if_splits)
  have gt: "assert_amount_gt_zero calc amt \<noteq> Panic"
    by (auto simp: assert_amount_gt_zero_def bind_res_eq_Panic split: if_splits)
  show "reserve calc a rid amt \<noteq> Panic" "release_all calc a rid \<noteq> Panic"
    "partial_release calc a rid amt \<noteq> Panic"
    using rel gt by (auto simp: reserve_def partial_release_def bind_res_eq_Panic
        assert_state_is_normal_def assert_reservation_exists_def split: option.splits if_splits)
  show "delete_acc calc a \<noteq> Panic"
    by (auto simp: delete_acc_def validate_state_transition_def assert_balance_is_zero_def
        bind_res_eq_Panic Let_def split: if_splits)
qed

lemma account_new_wf [simp]: "wf_account sval (account_new account_id)"
  using sval_zero by (simp add: wf_account_def account_new_def balance_default_def balance_zero_def
    acc_get_balance_def default_balance_def)

lemma ledger_of_new [simp]:
  "ledger_of sval (account_new account_id) =
     \<lparr>la_state = Normal, la_avail = 0, la_resv = fmempty, la_limit = None\<rparr>"
  using sval_zero by (simp add: ledger_of_def account_new_def balance_default_def balance_zero_def
    acc_get_balance_def acc_get_config_def account_config_default_def default_account_config_def
    default_balance_def fmap_ext)

end

section \<open>Frames\<close>

text \<open>No operation changes an account's identifier or its asset class.\<close>

lemma assert_state_is_normal_Ok [simp]: "assert_state_is_normal a = Ok u \<longleftrightarrow> acc_state a = Normal"
  by (simp add: assert_state_is_normal_def)

lemma increase_balance_by_id:
  "increase_balance_by calc a amt = Ok (a', ch) \<Longrightarrow>
     acc_account_id a' = acc_account_id a \<and> acc_get_config a' = acc_get_config a \<and>
     acc_state a' = Normal \<and> acc_state a = Normal"
  by (auto simp: increase_balance_by_def Let_def bind_res_eq_Ok)

lemma reserve_id:
  "reserve calc a rid amt = Ok a' \<Longrightarrow>
     acc_account_id a' = acc_account_id a \<and> acc_state a' = Normal \<and> acc_state a = Normal"
  by (auto simp: reserve_def bind_res_eq_Ok dest!: increase_balance_by_id split: if_splits)

lemma release_all_id:
  "release_all calc a rid = Ok a' \<Longrightarrow>
     acc_account_id a' = acc_account_id a \<and> acc_state a' = Normal \<and> acc_state a = Normal"
  by (auto simp: release_all_def bind_res_eq_Ok dest!: increase_balance_by_id)

lemma partial_release_id:
  "partial_release calc a rid amt = Ok a' \<Longrightarrow>
     acc_account_id a' = acc_account_id a \<and> acc_state a' = Normal \<and> acc_state a = Normal"
  by (auto simp: partial_release_def bind_res_eq_Ok dest!: increase_balance_by_id release_all_id
      split: if_splits)

lemma lifecycle_id:
  "lock a = Ok a' \<Longrightarrow> acc_account_id a' = acc_account_id a \<and> acc_state a' = Locked \<and> acc_state a = Normal"
  "unlock a = Ok a' \<Longrightarrow> acc_account_id a' = acc_account_id a \<and> acc_state a' = Normal \<and> acc_state a = Locked"
  "delete_acc calc a = Ok a' \<Longrightarrow>
     acc_account_id a' = acc_account_id a \<and> acc_state a' = Deleted \<and> acc_state a = Normal"
  by (auto simp: lock_def unlock_def delete_acc_def bind_res_eq_Ok validate_state_transition_def
      legal_transitions_def split: if_splits option.splits)

lemmas account_op_ids = increase_balance_by_id reserve_id release_all_id partial_release_id lifecycle_id

lemma account_new_simps [simp]:
  "acc_account_id (account_new i) = i" "acc_state (account_new i) = Normal"
  by (simp_all add: account_new_def)

lemma set_balance_limit_frame [simp]:
  "acc_account_id (set_balance_limit a l) = acc_account_id a"
  "acc_state (set_balance_limit a l) = acc_state a"
  "acc_get_balance (set_balance_limit a l) = acc_get_balance a"
  by (simp_all add: set_balance_limit_def)

lemma wf_account_frame [simp]:
  "wf_account sval (a\<lparr>acc_state := st\<rparr>) = wf_account sval a"
  "wf_account sval (set_balance_limit a l) = wf_account sval a"
  by (simp_all add: wf_account_def)

end
