(* ===== verification/Keys.thy ===== *)
theory Keys
  imports Crates
begin

text \<open>
  \<^verbatim>\<open>dependencies/tiny-mq/src/keys.rs\<close>: the layout of the keys in RocksDB. One prefix byte
  separates accounts, deduplication entries and events; raft state lives under the local prefix.
\<close>

section \<open>Constants\<close>

definition MIN_KEY :: bytes where "MIN_KEY = []"
definition MAX_KEY :: bytes where "MAX_KEY = [0xFF]"
definition EMPTY_KEY :: bytes where "EMPTY_KEY = []"

definition LOCAL_PREFIX :: u8 where "LOCAL_PREFIX = 0x01"
definition LOCAL_MIN_KEY :: bytes where "LOCAL_MIN_KEY = [LOCAL_PREFIX]"
definition LOCAL_MAX_KEY :: bytes where "LOCAL_MAX_KEY = [LOCAL_PREFIX + 1]"

definition DATA_PREFIX :: u8 where "DATA_PREFIX = byte_of CHR ''z''"
definition DATA_PREFIX_KEY :: bytes where "DATA_PREFIX_KEY = [DATA_PREFIX]"
definition DATA_MIN_KEY :: bytes where "DATA_MIN_KEY = [DATA_PREFIX]"
definition DATA_MAX_KEY :: bytes where "DATA_MAX_KEY = [DATA_PREFIX + 1]"

definition DEDUP_PREFIX :: u8 where "DEDUP_PREFIX = byte_of CHR ''y''"
definition DEDUP_PREFIX_KEY :: bytes where "DEDUP_PREFIX_KEY = [DEDUP_PREFIX]"
definition DEDUP_MIN_KEY :: bytes where "DEDUP_MIN_KEY = [DEDUP_PREFIX]"
definition DEDUP_MAX_KEY :: bytes where "DEDUP_MAX_KEY = [DEDUP_PREFIX + 1]"

definition EVENT_PREFIX :: u8 where "EVENT_PREFIX = byte_of CHR ''x''"
definition EVENT_PREFIX_KEY :: bytes where "EVENT_PREFIX_KEY = [EVENT_PREFIX]"
definition EVENT_MIN_KEY :: bytes where "EVENT_MIN_KEY = [EVENT_PREFIX]"
definition EVENT_MAX_KEY :: bytes where "EVENT_MAX_KEY = [EVENT_PREFIX + 1]"

definition STORE_IDENT_KEY :: bytes where "STORE_IDENT_KEY = [LOCAL_PREFIX, 0x01]"
definition REGION_RAFT_PREFIX :: u8 where "REGION_RAFT_PREFIX = 0x02"
definition REGION_RAFT_PREFIX_KEY :: bytes where
  "REGION_RAFT_PREFIX_KEY = [LOCAL_PREFIX, REGION_RAFT_PREFIX]"
definition REGION_META_PREFIX :: u8 where "REGION_META_PREFIX = 0x03"
definition REGION_META_PREFIX_KEY :: bytes where
  "REGION_META_PREFIX_KEY = [LOCAL_PREFIX, REGION_META_PREFIX]"
definition RAFT_LOG_SUFFIX :: u8 where "RAFT_LOG_SUFFIX = 0x01"
definition RAFT_STATE_SUFFIX :: u8 where "RAFT_STATE_SUFFIX = 0x02"
definition APPLY_STATE_SUFFIX :: u8 where "APPLY_STATE_SUFFIX = 0x03"
definition REGION_STATE_SUFFIX :: u8 where "REGION_STATE_SUFFIX = 0x01"

lemmas prefix_defs = LOCAL_PREFIX_def DATA_PREFIX_def DEDUP_PREFIX_def EVENT_PREFIX_def
  DATA_PREFIX_KEY_def DEDUP_PREFIX_KEY_def EVENT_PREFIX_KEY_def DATA_MIN_KEY_def DATA_MAX_KEY_def
  REGION_RAFT_PREFIX_def REGION_RAFT_PREFIX_KEY_def REGION_META_PREFIX_def
  REGION_META_PREFIX_KEY_def STORE_IDENT_KEY_def RAFT_LOG_SUFFIX_def RAFT_STATE_SUFFIX_def
  APPLY_STATE_SUFFIX_def REGION_STATE_SUFFIX_def

section \<open>Raft keys\<close>

definition make_region_prefix :: "byteorder \<Rightarrow> u64 \<Rightarrow> u8 \<Rightarrow> bytes" where
  "make_region_prefix bo region_id suffix =
     REGION_RAFT_PREFIX_KEY @ bo_write_u64 bo region_id @ [suffix]"

definition make_region_key :: "byteorder \<Rightarrow> u64 \<Rightarrow> u8 \<Rightarrow> u64 \<Rightarrow> bytes" where
  "make_region_key bo region_id suffix sub_id =
     REGION_RAFT_PREFIX_KEY @ bo_write_u64 bo region_id @ [suffix] @ bo_write_u64 bo sub_id"

definition raft_log_key :: "byteorder \<Rightarrow> u64 \<Rightarrow> u64 \<Rightarrow> bytes" where
  "raft_log_key bo region_id log_index = make_region_key bo region_id RAFT_LOG_SUFFIX log_index"

definition raft_state_key :: "byteorder \<Rightarrow> u64 \<Rightarrow> bytes" where
  "raft_state_key bo region_id = make_region_prefix bo region_id RAFT_STATE_SUFFIX"

definition apply_state_key :: "byteorder \<Rightarrow> u64 \<Rightarrow> bytes" where
  "apply_state_key bo region_id = make_region_prefix bo region_id APPLY_STATE_SUFFIX"

definition raft_log_index :: "byteorder \<Rightarrow> bytes \<Rightarrow> ('e, u64) res" where
  "raft_log_index bo key =
     (let expect_key_len = length REGION_RAFT_PREFIX_KEY + 8 + 1 + 8 in
      if length key \<noteq> expect_key_len then Panic
      else unwrap (bo_read_u64 bo (drop (expect_key_len - 8) key)))"

definition starts_with :: "bytes \<Rightarrow> bytes \<Rightarrow> bool" where
  "starts_with key p \<longleftrightarrow> take (length p) key = p"

definition decode_raft_log_key :: "byteorder \<Rightarrow> bytes \<Rightarrow> ('e, u64 \<times> u64) res" where
  "decode_raft_log_key bo key =
     (let suffix_idx = length REGION_RAFT_PREFIX_KEY + 8;
          expect_key_len = suffix_idx + 1 + 8 in
      if length key \<noteq> expect_key_len \<or> \<not> starts_with key REGION_RAFT_PREFIX_KEY \<or>
         key ! suffix_idx \<noteq> RAFT_LOG_SUFFIX
      then Panic
      else bind_res (unwrap (bo_read_u64 bo
               (drop (length REGION_RAFT_PREFIX_KEY) (take suffix_idx key)))) (\<lambda>region_id.
           bind_res (unwrap (bo_read_u64 bo (drop (suffix_idx + 1) key))) (\<lambda>index.
           Ok (region_id, index))))"

definition raft_log_prefix :: "byteorder \<Rightarrow> u64 \<Rightarrow> bytes" where
  "raft_log_prefix bo region_id = make_region_prefix bo region_id RAFT_LOG_SUFFIX"

section \<open>Wallet keys\<close>

definition validate_data_key :: "bytes \<Rightarrow> bool" where
  "validate_data_key key = starts_with key DATA_PREFIX_KEY"

definition data_key :: "bytes \<Rightarrow> bytes" where
  "data_key key = DATA_PREFIX_KEY @ key"

definition origin_data_key :: "bytes \<Rightarrow> ('e, bytes) res" where
  "origin_data_key key =
     (if validate_data_key key then Ok (drop (length DATA_PREFIX_KEY) key) else Panic)"

definition validate_dedup_key :: "bytes \<Rightarrow> bool" where
  "validate_dedup_key key = starts_with key DEDUP_PREFIX_KEY"

definition dedup_key :: "bytes \<Rightarrow> bytes" where
  "dedup_key key = DEDUP_PREFIX_KEY @ key"

definition origin_dedup_key :: "bytes \<Rightarrow> ('e, bytes) res" where
  "origin_dedup_key key =
     (if validate_dedup_key key then Ok (drop (length DEDUP_PREFIX_KEY) key) else Panic)"

definition validate_event_key :: "bytes \<Rightarrow> bool" where
  "validate_event_key key = starts_with key EVENT_PREFIX_KEY"

definition event_key :: "bytes \<Rightarrow> bytes" where
  "event_key key = EVENT_PREFIX_KEY @ key"

definition make_region_meta_key :: "byteorder \<Rightarrow> u64 \<Rightarrow> u8 \<Rightarrow> bytes" where
  "make_region_meta_key bo region_id suffix =
     REGION_META_PREFIX_KEY @ bo_write_u64 bo region_id @ [suffix]"

definition region_state_key :: "byteorder \<Rightarrow> u64 \<Rightarrow> bytes" where
  "region_state_key bo region_id = make_region_meta_key bo region_id REGION_STATE_SUFFIX"

section \<open>Laws of the wallet keys\<close>

text \<open>
  What the state machine relies on: three disjoint, injective key spaces. \<open>prefixed\<close> is the
  set of keys of the three spaces.
\<close>

locale key_space =
  fixes dk yk xk :: "bytes \<Rightarrow> bytes"
  assumes dk_inject: "dk a = dk b \<longleftrightarrow> a = b"
    and yk_inject: "yk a = yk b \<longleftrightarrow> a = b"
    and xk_inject: "xk a = xk b \<longleftrightarrow> a = b"
    and dk_yk: "dk a \<noteq> yk b"
    and dk_xk: "dk a \<noteq> xk b"
    and yk_xk: "yk a \<noteq> xk b"
begin

lemmas injects = dk_inject yk_inject xk_inject
lemmas disjoint = dk_yk dk_xk yk_xk dk_yk [symmetric] dk_xk [symmetric] yk_xk [symmetric]

text \<open>Recording an event and its deduplication entry leaves the accounts alone, and
  the other way round.\<close>

lemma record_event_view:
  "apply_ops [WbPut (yk c) v, WbPut (xk n) e] m (dk a) = m (dk a)"
  "apply_ops [WbPut (yk c) v, WbPut (xk n) e] m (yk c') = (if c' = c then Some v else m (yk c'))"
  "apply_ops [WbPut (yk c) v, WbPut (xk n) e] m (xk n') = (if n' = n then Some e else m (xk n'))"
  using injects disjoint by simp_all

end

interpretation wallet_keys: key_space data_key dedup_key event_key
  by unfold_locales (simp_all add: data_key_def dedup_key_def event_key_def prefix_defs byte_of_def)

lemmas key_simps [simp] = wallet_keys.injects wallet_keys.disjoint

lemma validate_keys [simp]:
  "validate_data_key (data_key k)" "validate_dedup_key (dedup_key k)"
  "validate_event_key (event_key k)"
  "\<not> validate_data_key (dedup_key k)" "\<not> validate_data_key (event_key k)"
  "\<not> validate_dedup_key (data_key k)" "\<not> validate_dedup_key (event_key k)"
  "\<not> validate_event_key (data_key k)" "\<not> validate_event_key (dedup_key k)"
  by (simp_all add: validate_data_key_def data_key_def starts_with_def validate_dedup_key_def
      dedup_key_def validate_event_key_def event_key_def prefix_defs byte_of_def)

lemma origin_keys [simp]:
  "origin_data_key (data_key k) = Ok k" "origin_dedup_key (dedup_key k) = Ok k"
  by (simp_all add: origin_data_key_def origin_dedup_key_def)
     (simp_all add: data_key_def dedup_key_def)

lemma starts_with_iff: "starts_with k p \<longleftrightarrow> (\<exists>s. k = p @ s)"
  by (metis append_eq_conv_conj append_take_drop_id starts_with_def)

text \<open>The range that the recovery scans holds the account keys and no other.\<close>

lemma data_key_range: "DATA_MIN_KEY \<le> k \<and> k < DATA_MAX_KEY \<longleftrightarrow> (\<exists>a. k = data_key a)"
proof (cases k)
  case Nil
  then show ?thesis by (simp add: prefix_defs data_key_def)
next
  case (Cons b bs)
  have "DATA_PREFIX \<le> b \<and> b < DATA_PREFIX + 1 \<longleftrightarrow> b = DATA_PREFIX"
  proof -
    have "DATA_PREFIX = 122" "DATA_PREFIX + 1 = (123 :: u8)"
      by (simp_all add: DATA_PREFIX_def byte_of_def)
    then show ?thesis by (auto simp: word_less_nat_alt word_le_nat_alt word_unat_eq_iff)
  qed
  with Cons show ?thesis
    by (cases bs) (auto simp: DATA_MIN_KEY_def DATA_MAX_KEY_def data_key_def DATA_PREFIX_KEY_def
        list_less_def list_le_def)
qed

lemma event_key_less [simp]: "event_key a < event_key b \<longleftrightarrow> a < b"
  by (simp add: event_key_def EVENT_PREFIX_KEY_def)

lemma event_key_le [simp]: "event_key a \<le> event_key b \<longleftrightarrow> a \<le> b"
  by (simp add: event_key_def EVENT_PREFIX_KEY_def)

section \<open>Laws of the raft keys\<close>

context byteorder_spec
begin

lemma raft_log_key_less:
  "raft_log_key bo r i < raft_log_key bo s j \<longleftrightarrow> r < s \<or> r = s \<and> i < j"
proof -
  have app: "xs @ x < ys @ y \<longleftrightarrow> xs < ys \<or> xs = ys \<and> x < y" if "length xs = length ys"
    for xs ys x y :: bytes
    using that by (induction xs ys rule: list_induct2) auto
  show ?thesis
    by (simp add: raft_log_key_def make_region_key_def app write_u64)
qed

lemma decode_raft_log_key [simp]:
  "decode_raft_log_key bo (raft_log_key bo r i) = Ok (r, i)"
  by (simp add: decode_raft_log_key_def raft_log_key_def make_region_key_def Let_def starts_with_def
      prefix_defs nth_append)

lemma raft_log_index [simp]: "raft_log_index bo (raft_log_key bo r i) = Ok i"
  by (simp add: raft_log_index_def raft_log_key_def make_region_key_def prefix_defs)

end

end
