(* ===== verification/Key_Builder.thy ===== *)
theory Key_Builder
  imports Wallet_Prelude
begin

text \<open>
  \<^verbatim>\<open>dependencies/tiny-mq/tikv-util/src/keybuilder.rs\<close>: a buffer that keeps room for a prefix in
  front of a key. The code sizes the buffer with \<open>set_len\<close> before it writes, so the reserved
  bytes are uninitialised memory; \<open>mem\<close> is the content that memory happens to have, and the
  laws hold for every such content.
\<close>

record key_builder =
  kb_buf :: bytes
  kb_start :: nat

type_synonym memory = "nat \<Rightarrow> u8"

definition key_builder_new :: "memory \<Rightarrow> nat \<Rightarrow> nat \<Rightarrow> ('e, key_builder) res" where
  "key_builder_new mem max_size reserved_prefix_len =
     (if reserved_prefix_len < max_size
      then Ok \<lparr>kb_buf = map mem [0..<reserved_prefix_len], kb_start = reserved_prefix_len\<rparr>
      else Panic)"

definition from_slice :: "memory \<Rightarrow> bytes \<Rightarrow> nat \<Rightarrow> nat \<Rightarrow> key_builder" where
  "from_slice mem s reserved_prefix_len reserved_suffix_len =
     \<lparr>kb_buf = map mem [0..<reserved_prefix_len] @ s, kb_start = reserved_prefix_len\<rparr>"

text \<open>\<open>capacity\<close> is the capacity of the vector. When it is large enough the content is moved to
  the right in place, and the bytes in front keep what they held.\<close>

definition from_vec :: "memory \<Rightarrow> nat \<Rightarrow> bytes \<Rightarrow> nat \<Rightarrow> nat \<Rightarrow> key_builder" where
  "from_vec mem capacity vec reserved_prefix_len reserved_suffix_len =
     (if length vec + reserved_prefix_len + reserved_suffix_len \<le> capacity
      then \<lparr>kb_buf = map (\<lambda>i. if i < length vec then vec ! i else mem i) [0..<reserved_prefix_len]
                       @ vec,
            kb_start = reserved_prefix_len\<rparr>
      else from_slice mem vec reserved_prefix_len reserved_suffix_len)"

definition set_prefix :: "key_builder \<Rightarrow> bytes \<Rightarrow> ('e, key_builder) res" where
  "set_prefix kb pre =
     (if kb_start kb = length pre
      then Ok \<lparr>kb_buf = pre @ drop (length pre) (kb_buf kb), kb_start = 0\<rparr>
      else Panic)"

definition kb_append :: "key_builder \<Rightarrow> bytes \<Rightarrow> key_builder" where
  "kb_append kb content = kb\<lparr>kb_buf := kb_buf kb @ content\<rparr>"

definition kb_len :: "key_builder \<Rightarrow> nat" where
  "kb_len kb = length (kb_buf kb) - kb_start kb"

definition kb_is_empty :: "key_builder \<Rightarrow> bool" where
  "kb_is_empty kb \<longleftrightarrow> kb_len kb = 0"

definition as_slice :: "key_builder \<Rightarrow> bytes" where
  "as_slice kb = drop (kb_start kb) (kb_buf kb)"

definition kb_build :: "key_builder \<Rightarrow> bytes" where
  "kb_build kb =
     (if kb_start kb \<noteq> 0 then take (kb_len kb) (drop (kb_start kb) (kb_buf kb)) else kb_buf kb)"

section \<open>Laws\<close>

text \<open>The invariant: the start lies within the buffer.\<close>

definition kb_wf :: "key_builder \<Rightarrow> bool" where
  "kb_wf kb \<longleftrightarrow> kb_start kb \<le> length (kb_buf kb)"

lemma from_slice_props [simp]:
  "kb_wf (from_slice mem s p q)" "as_slice (from_slice mem s p q) = s"
  "kb_start (from_slice mem s p q) = p"
  by (simp_all add: from_slice_def kb_wf_def as_slice_def)

lemma from_vec_props [simp]:
  "kb_wf (from_vec mem c s p q)" "as_slice (from_vec mem c s p q) = s"
  "kb_start (from_vec mem c s p q) = p"
  by (simp_all add: from_vec_def kb_wf_def as_slice_def from_slice_def)

lemma kb_append_props [simp]:
  "kb_wf kb \<Longrightarrow> kb_wf (kb_append kb s)" "kb_wf kb \<Longrightarrow> as_slice (kb_append kb s) = as_slice kb @ s"
  "kb_start (kb_append kb s) = kb_start kb"
  by (simp_all add: kb_append_def kb_wf_def as_slice_def)

lemma set_prefix_props:
  assumes "kb_wf kb" "kb_start kb = length pre"
  shows "\<exists>kb'. set_prefix kb pre = Ok kb' \<and> kb_wf kb' \<and> as_slice kb' = pre @ as_slice kb"
  using assms by (simp add: set_prefix_def kb_wf_def as_slice_def)

lemma kb_len_slice: "kb_len kb = length (as_slice kb)"
  by (simp add: kb_len_def as_slice_def)

lemma kb_build_slice [simp]: "kb_build kb = as_slice kb"
  by (simp add: kb_build_def as_slice_def kb_len_def)

end
