(* ===== verification/Rocks_Engine.thy ===== *)
theory Rocks_Engine
  imports Keys Key_Builder
begin

text \<open>
  \<^verbatim>\<open>dependencies/tiny-mq/src/rocks_engine.rs\<close>: reads, scans and write batches over RocksDB, and
  the raft log kept in it. The database is the state \<open>'db\<close> of the \<open>rocksdb\<close> package; a write
  batch is the list of its operations. Column families are not modelled: the functions below
  are those on the default one.
\<close>

section \<open>Reads and writes\<close>

definition get_value :: "'db rocksdb \<Rightarrow> 'db \<Rightarrow> bytes \<Rightarrow> bytes option" where
  "get_value rdb db key = rdb_get rdb db key"

text \<open>\<open>parse\<close> is the generated parser of the message type; a value that does not parse panics.\<close>

definition get_msg :: "'db rocksdb \<Rightarrow> (bytes \<Rightarrow> 'm option) \<Rightarrow> 'db \<Rightarrow> bytes \<Rightarrow> ('e, 'm option) res" where
  "get_msg rdb parse db key =
     (case get_value rdb db key of
        Some v \<Rightarrow> bind_res (unwrap (parse v)) (\<lambda>m. Ok (Some m))
      | None \<Rightarrow> Ok None)"

definition put :: "'db rocksdb \<Rightarrow> 'db \<Rightarrow> bytes \<Rightarrow> bytes \<Rightarrow> 'db" where
  "put rdb db key v = rdb_write rdb db [WbPut key v]"

definition put_msg :: "'db rocksdb \<Rightarrow> ('m \<Rightarrow> bytes) \<Rightarrow> 'db \<Rightarrow> bytes \<Rightarrow> 'm \<Rightarrow> 'db" where
  "put_msg rdb write db key m = put rdb db key (write m)"

type_synonym write_batch = "wb_op list"

definition wb_put :: "write_batch \<Rightarrow> bytes \<Rightarrow> bytes \<Rightarrow> write_batch" where
  "wb_put wb key v = wb @ [WbPut key v]"

definition wb_delete :: "write_batch \<Rightarrow> bytes \<Rightarrow> write_batch" where
  "wb_delete wb key = wb @ [WbDelete key]"

definition wb_put_msg :: "('m \<Rightarrow> bytes) \<Rightarrow> write_batch \<Rightarrow> bytes \<Rightarrow> 'm \<Rightarrow> write_batch" where
  "wb_put_msg write wb key m = wb_put wb key (write m)"

definition wb_clear :: "write_batch \<Rightarrow> write_batch" where
  "wb_clear wb = []"

definition wb_count :: "write_batch \<Rightarrow> nat" where
  "wb_count wb = length wb"

definition wb_is_empty :: "write_batch \<Rightarrow> bool" where
  "wb_is_empty wb \<longleftrightarrow> wb = []"

definition should_write_to_engine :: "write_batch \<Rightarrow> bool" where
  "should_write_to_engine wb \<longleftrightarrow> 256 < wb_count wb"

definition write_opt :: "'db rocksdb \<Rightarrow> 'db \<Rightarrow> write_batch \<Rightarrow> 'db" where
  "write_opt rdb db wb = rdb_write rdb db wb"

lemmas wb_defs = wb_put_def wb_delete_def wb_put_msg_def wb_clear_def wb_count_def wb_is_empty_def

section \<open>Scans\<close>

definition DATA_KEY_PREFIX_LEN :: nat where "DATA_KEY_PREFIX_LEN = 1"

record iter_options =
  lower_bound :: "key_builder option"
  upper_bound :: "key_builder option"

definition build_bounds :: "iter_options \<Rightarrow> bytes option \<times> bytes option" where
  "build_bounds opts =
     (map_option kb_build (lower_bound opts), map_option kb_build (upper_bound opts))"

text \<open>An iterator is the database with the bounds of its read options; \<open>seek\<close> positions it.\<close>

definition iterator_opt ::
    "'db rocksdb \<Rightarrow> 'db \<Rightarrow> iter_options \<Rightarrow> bytes \<Rightarrow> (bytes \<times> bytes) list" where
  "iterator_opt rdb db opts seek_key =
     (let (lower, upper) = build_bounds opts in rdb_iter rdb db lower upper seek_key)"

text \<open>The callback has a state (what the Rust closure captures mutably) and may stop the scan or
  fail. \<open>scan_impl\<close> runs it on the entries the iterator visits.\<close>

fun scan_impl ::
    "(bytes \<times> bytes) list \<Rightarrow> (bytes \<Rightarrow> bytes \<Rightarrow> 's \<Rightarrow> ('e, bool) res \<times> 's) \<Rightarrow> 's \<Rightarrow>
     ('e, unit) res \<times> 's" where
  "scan_impl [] f s = (Ok (), s)"
| "scan_impl ((k, v) # it) f s =
     (case f k v s of (r, s') \<Rightarrow>
        bind_st r s' (\<lambda>remained. if remained then scan_impl it f s' else (Ok (), s')))"

definition scan ::
    "'db rocksdb \<Rightarrow> memory \<Rightarrow> 'db \<Rightarrow> bytes \<Rightarrow> bytes \<Rightarrow>
     (bytes \<Rightarrow> bytes \<Rightarrow> 's \<Rightarrow> ('e, bool) res \<times> 's) \<Rightarrow> 's \<Rightarrow> ('e, unit) res \<times> 's" where
  "scan rdb mem db start_key end_key f s =
     (let start = from_slice mem start_key DATA_KEY_PREFIX_LEN 0;
          end_bound = from_slice mem end_key DATA_KEY_PREFIX_LEN 0;
          iter_opt = \<lparr>lower_bound = Some start, upper_bound = Some end_bound\<rparr>
      in scan_impl (iterator_opt rdb db iter_opt start_key) f s)"

definition seek :: "'db rocksdb \<Rightarrow> 'db \<Rightarrow> bytes \<Rightarrow> (bytes \<times> bytes) option" where
  "seek rdb db key =
     (case iterator_opt rdb db \<lparr>lower_bound = None, upper_bound = None\<rparr> key of
        (k, v) # _ \<Rightarrow> Some (k, v)
      | [] \<Rightarrow> None)"

section \<open>The raft log\<close>

text \<open>The message type \<open>Entry\<close> of the \<open>raft\<close> package.\<close>

record 'en raft_entry =
  en_write :: "'en \<Rightarrow> bytes"
  en_parse :: "bytes \<Rightarrow> 'en option"
  en_index :: "'en \<Rightarrow> u64"

definition RAFT_LOG_MULTI_GET_CNT :: u64 where "RAFT_LOG_MULTI_GET_CNT = 8"

definition usize_max :: nat where "usize_max = 2 ^ 64 - 1"

definition get_entry ::
    "'db rocksdb \<Rightarrow> byteorder \<Rightarrow> 'en raft_entry \<Rightarrow> 'db \<Rightarrow> u64 \<Rightarrow> u64 \<Rightarrow> ('e, 'en option) res" where
  "get_entry rdb bo en db raft_group_id index =
     get_msg rdb (en_parse en) db (raft_log_key bo raft_group_id index)"

text \<open>The state of both loops: the buffer, the total size and the count.\<close>

record 'en fetch_state =
  fs_buf :: "'en list"
  fs_total_size :: nat
  fs_count :: nat

definition fetch_push :: "'en fetch_state \<Rightarrow> 'en \<Rightarrow> bytes \<Rightarrow> 'en fetch_state" where
  "fetch_push s entry v =
     \<lparr>fs_buf = fs_buf s @ [entry], fs_total_size = fs_total_size s + length v,
      fs_count = fs_count s + 1\<rparr>"

fun multi_get_loop ::
    "'db rocksdb \<Rightarrow> byteorder \<Rightarrow> 'en raft_entry \<Rightarrow> 'db \<Rightarrow> u64 \<Rightarrow> nat \<Rightarrow> u64 list \<Rightarrow>
     'en fetch_state \<Rightarrow> ('e, 'en fetch_state) res" where
  "multi_get_loop rdb bo en db region_id max_size [] s = Ok s"
| "multi_get_loop rdb bo en db region_id max_size (i # is) s =
     (if 0 < fs_total_size s \<and> max_size \<le> fs_total_size s then Ok s
      else case get_value rdb db (raft_log_key bo region_id i) of
        None \<Rightarrow> Panic
      | Some v \<Rightarrow>
          bind_res (unwrap (en_parse en v)) (\<lambda>entry.
          if en_index en entry \<noteq> i then Panic
          else multi_get_loop rdb bo en db region_id max_size is (fetch_push s entry v)))"

text \<open>The closure of the scan: \<open>check_compacted\<close>, \<open>next_index\<close> and the loop state. An entry that
  does not parse is an error, which the \<open>unwrap\<close> after the scan turns into a panic.\<close>

definition fetch_scan_step ::
    "'en raft_entry \<Rightarrow> u64 \<Rightarrow> nat \<Rightarrow> bytes \<Rightarrow> bytes \<Rightarrow> bool \<times> u64 \<times> 'en fetch_state \<Rightarrow>
     (unit, bool) res \<times> (bool \<times> u64 \<times> 'en fetch_state)" where
  "fetch_scan_step en low max_size k v st =
     (case st of (check_compacted, next_index, s) \<Rightarrow>
        (case en_parse en v of
           None \<Rightarrow> (Err (), st)
         | Some entry \<Rightarrow>
             if check_compacted \<and> en_index en entry \<noteq> low then (Panic, st)
             else if \<not> check_compacted \<and> en_index en entry \<noteq> next_index then (Panic, st)
             else let s' = fetch_push s entry v
                  in (Ok (fs_total_size s' < max_size), (False, next_index + 1, s'))))"

definition fetch_entries_to ::
    "'db rocksdb \<Rightarrow> byteorder \<Rightarrow> memory \<Rightarrow> 'en raft_entry \<Rightarrow> 'db \<Rightarrow> u64 \<Rightarrow> u64 \<Rightarrow> u64 \<Rightarrow> nat option \<Rightarrow>
     'en list \<Rightarrow> (unit, nat \<times> 'en list) res" where
  "fetch_entries_to rdb bo mem en db region_id low high max_size_opt buf =
     (if high \<le> low then Ok (0, buf)
      else let max_size = (case max_size_opt of Some m \<Rightarrow> m | None \<Rightarrow> usize_max);
               s = \<lparr>fs_buf = buf, fs_total_size = 0, fs_count = 0\<rparr>
      in if high - low \<le> RAFT_LOG_MULTI_GET_CNT
         then bind_res (multi_get_loop rdb bo en db region_id max_size
                  (map of_nat [unat low..<unat high]) s) (\<lambda>s'.
              Ok (fs_count s', fs_buf s'))
         else case scan rdb mem db (raft_log_key bo region_id low) (raft_log_key bo region_id high)
                     (fetch_scan_step en low max_size) (True, low, s) of
           (Ok _, (_, _, s')) \<Rightarrow>
             if fs_count s' = unat (high - low) \<or> max_size \<le> fs_total_size s'
             then Ok (fs_count s', fs_buf s')
             else Ok (0, [])
         | (Err _, _) \<Rightarrow> Panic
         | (Panic, _) \<Rightarrow> Panic)"

text \<open>Appending, cutting and garbage collection of the log.\<close>

definition append_impl ::
    "byteorder \<Rightarrow> 'en raft_entry \<Rightarrow> write_batch \<Rightarrow> u64 \<Rightarrow> 'en list \<Rightarrow> write_batch" where
  "append_impl bo en wb raft_group_id entries =
     fold (\<lambda>entry wb. wb_put wb (raft_log_key bo raft_group_id (en_index en entry))
             (en_write en entry)) entries wb"

definition consume :: "'db rocksdb \<Rightarrow> 'db \<Rightarrow> write_batch \<Rightarrow> 'db \<times> write_batch" where
  "consume rdb db wb = (write_opt rdb db wb, wb_clear wb)"

definition append_log ::
    "'db rocksdb \<Rightarrow> byteorder \<Rightarrow> 'en raft_entry \<Rightarrow> 'db \<Rightarrow> u64 \<Rightarrow> 'en list \<Rightarrow> 'db" where
  "append_log rdb bo en db raft_group_id entries =
     fst (consume rdb db (append_impl bo en [] raft_group_id entries))"

definition cut_logs :: "byteorder \<Rightarrow> write_batch \<Rightarrow> u64 \<Rightarrow> u64 \<Rightarrow> u64 \<Rightarrow> write_batch" where
  "cut_logs bo wb raft_group_id from_idx to_idx =
     fold (\<lambda>index wb. wb_delete wb (raft_log_key bo raft_group_id index))
       (map of_nat [unat from_idx..<unat to_idx]) wb"

fun gc_loop ::
    "'db rocksdb \<Rightarrow> byteorder \<Rightarrow> u64 \<Rightarrow> u64 list \<Rightarrow> 'db \<times> write_batch \<Rightarrow> 'db \<times> write_batch" where
  "gc_loop rdb bo raft_group_id [] st = st"
| "gc_loop rdb bo raft_group_id (idx # is) (db, raft_wb) =
     (let raft_wb = wb_delete raft_wb (raft_log_key bo raft_group_id idx)
      in gc_loop rdb bo raft_group_id is
           (if 256 \<le> wb_count raft_wb then (write_opt rdb db raft_wb, wb_clear raft_wb)
            else (db, raft_wb)))"

definition log_gc ::
    "'db rocksdb \<Rightarrow> byteorder \<Rightarrow> 'db \<Rightarrow> u64 \<Rightarrow> u64 \<Rightarrow> u64 \<Rightarrow> ('e, nat) res \<times> 'db" where
  "log_gc rdb bo db raft_group_id from_idx to_idx =
     (let run = (\<lambda>from_idx.
            let (db', raft_wb) =
                  gc_loop rdb bo raft_group_id (map of_nat [unat from_idx..<unat to_idx]) (db, []);
                db'' = (if \<not> wb_is_empty raft_wb then write_opt rdb db' raft_wb else db')
            in (Ok (unat (to_idx - from_idx)), db''))
      in if to_idx \<le> from_idx then (Ok 0, db)
         else if from_idx = 0
         then (case seek rdb db (raft_log_key bo raft_group_id 0) of
                 Some (k, _) \<Rightarrow>
                   if starts_with k (raft_log_prefix bo raft_group_id)
                   then bind_st (raft_log_index bo k) db run
                   else (Ok 0, db)
               | None \<Rightarrow> (Ok 0, db))
         else run from_idx)"

end
