(* ===== verification/Rocksdb_State.thy ===== *)
theory Rocksdb_State
  imports Account Rocks_Engine
begin

text \<open>
  \<^verbatim>\<open>firm-wallet-service/src/rocksdb_state.rs\<close>: what the wallet keeps in RocksDB and how it reads it
  back. The abstraction \<open>wallet_db\<close> is the database as typed maps; \<open>represents\<close> relates it to the
  bytes, and the lemmas show that each read returns what the abstraction holds.
\<close>

section \<open>Hard states and sequence numbers\<close>

record hard_state_kind =
  default_value :: u64
  hs_key :: string

definition APPLIED_INDEX :: hard_state_kind where
  "APPLIED_INDEX = \<lparr>default_value = 5, hs_key = ''applied_index''\<rparr>"

definition PERSISTED_LAST_SEQ_NUM :: hard_state_kind where
  "PERSISTED_LAST_SEQ_NUM = \<lparr>default_value = 0, hs_key = ''last_seq_num''\<rparr>"

definition PERSISTED_FIRST_SEQ_NUM :: hard_state_kind where
  "PERSISTED_FIRST_SEQ_NUM = \<lparr>default_value = 0, hs_key = ''first_seq_num''\<rparr>"

lemmas hard_state_defs = APPLIED_INDEX_def PERSISTED_LAST_SEQ_NUM_def PERSISTED_FIRST_SEQ_NUM_def

definition to_bytes :: "byteorder \<Rightarrow> u64 \<Rightarrow> bytes" where
  "to_bytes bo seq_num = bo_write_u64 bo seq_num"

definition from_bytes :: "byteorder \<Rightarrow> bytes \<Rightarrow> ('e, u64) res" where
  "from_bytes bo bs = (if length bs = 8 then unwrap (bo_read_u64 bo bs) else Panic)"

section \<open>Reads\<close>

definition read_hard_state_from_db ::
    "('d, 'db) crates \<Rightarrow> 'db \<Rightarrow> hard_state_kind \<Rightarrow> ('e, u64) res" where
  "read_hard_state_from_db C db kind =
     (case get_value (c_rocksdb C) db (as_bytes (hs_key kind)) of
        Some bs \<Rightarrow> unwrap (bo_read_u64 (c_byteorder C) bs)
      | None \<Rightarrow> Ok (default_value kind))"

definition read_event_from_db :: "('d, 'db) crates \<Rightarrow> 'db \<Rightarrow> u64 \<Rightarrow> ('e, event option) res" where
  "read_event_from_db C db seq_num =
     get_msg (c_rocksdb C) (pb_event_parse (c_proto C)) db
       (event_key (to_bytes (c_byteorder C) seq_num))"

definition read_seq_num_from_db :: "('d, 'db) crates \<Rightarrow> 'db \<Rightarrow> string \<Rightarrow> ('e, u64 option) res" where
  "read_seq_num_from_db C db cid =
     (case get_value (c_rocksdb C) db (dedup_key (as_bytes cid)) of
        Some bs \<Rightarrow> bind_res (from_bytes (c_byteorder C) bs) (\<lambda>n. Ok (Some n))
      | None \<Rightarrow> Ok None)"

definition read_account_step ::
    "wallet_proto \<Rightarrow> bytes \<Rightarrow> bytes \<Rightarrow> (string, account) fmap \<Rightarrow>
     (unit, bool) res \<times> (string, account) fmap" where
  "read_account_step pb key v accs =
     bind_st (origin_data_key key) accs (\<lambda>origin.
     bind_st (unwrap (from_utf8 origin)) accs (\<lambda>account_id.
     bind_st (unwrap (pb_account_parse pb v)) accs (\<lambda>acc.
     (Ok True, fmupd account_id acc accs))))"

definition read_accounts_from_db ::
    "('d, 'db) crates \<Rightarrow> memory \<Rightarrow> 'db \<Rightarrow> ('e, (string, account) fmap) res" where
  "read_accounts_from_db C mem db =
     (case scan (c_rocksdb C) mem db DATA_MIN_KEY DATA_MAX_KEY (read_account_step (c_proto C)) fmempty of
        (Ok _, accs) \<Rightarrow> Ok accs
      | _ \<Rightarrow> Panic)"

section \<open>The database as typed maps\<close>

record wallet_db =
  wd_accounts :: "string \<rightharpoonup> account"
  wd_dedup :: "string \<rightharpoonup> u64"
  wd_events :: "u64 \<rightharpoonup> event"
  wd_applied :: "u64 option"
  wd_last_seq :: "u64 option"
  wd_first_seq :: "u64 option"

definition represents :: "wallet_proto \<Rightarrow> (bytes \<rightharpoonup> bytes) \<Rightarrow> wallet_db \<Rightarrow> bool" where
  "represents pb m W \<longleftrightarrow>
     (\<forall>i. m (data_key (as_bytes i)) = map_option (pb_account_write pb) (wd_accounts W i)) \<and>
     (\<forall>i. wd_accounts W i \<noteq> None \<longrightarrow> utf8_string i) \<and>
     (\<forall>c. m (dedup_key (as_bytes c)) = map_option be_bytes (wd_dedup W c)) \<and>
     (\<forall>n. m (event_key (be_bytes n)) = map_option (pb_event_write pb) (wd_events W n)) \<and>
     (\<forall>k. m (event_key k) \<noteq> None \<longrightarrow> (\<exists>n. k = be_bytes n)) \<and>
     m (as_bytes (hs_key APPLIED_INDEX)) = map_option be_bytes (wd_applied W) \<and>
     m (as_bytes (hs_key PERSISTED_LAST_SEQ_NUM)) = map_option be_bytes (wd_last_seq W) \<and>
     m (as_bytes (hs_key PERSISTED_FIRST_SEQ_NUM)) = map_option be_bytes (wd_first_seq W)"

definition empty_wallet_db :: wallet_db where
  "empty_wallet_db = \<lparr>wd_accounts = Map.empty, wd_dedup = Map.empty, wd_events = Map.empty,
     wd_applied = None, wd_last_seq = None, wd_first_seq = None\<rparr>"

lemma represents_empty [simp]: "represents pb Map.empty empty_wallet_db"
  by (simp add: represents_def empty_wallet_db_def)

text \<open>The keys of the hard states are no wallet keys and differ from each other.\<close>

lemma hard_state_keys [simp]:
  "as_bytes (hs_key APPLIED_INDEX) \<noteq> data_key k" "as_bytes (hs_key APPLIED_INDEX) \<noteq> dedup_key k"
  "as_bytes (hs_key APPLIED_INDEX) \<noteq> event_key k"
  "as_bytes (hs_key PERSISTED_LAST_SEQ_NUM) \<noteq> data_key k"
  "as_bytes (hs_key PERSISTED_LAST_SEQ_NUM) \<noteq> dedup_key k"
  "as_bytes (hs_key PERSISTED_LAST_SEQ_NUM) \<noteq> event_key k"
  "as_bytes (hs_key PERSISTED_FIRST_SEQ_NUM) \<noteq> data_key k"
  "as_bytes (hs_key PERSISTED_FIRST_SEQ_NUM) \<noteq> dedup_key k"
  "as_bytes (hs_key PERSISTED_FIRST_SEQ_NUM) \<noteq> event_key k"
  by (simp_all add: hard_state_defs as_bytes_def byte_of_def data_key_def dedup_key_def event_key_def
      prefix_defs)

lemmas hard_state_keys_sym [simp] = hard_state_keys [symmetric]

lemma hard_state_keys_distinct [simp]:
  "hs_key APPLIED_INDEX \<noteq> hs_key PERSISTED_LAST_SEQ_NUM"
  "hs_key APPLIED_INDEX \<noteq> hs_key PERSISTED_FIRST_SEQ_NUM"
  "hs_key PERSISTED_LAST_SEQ_NUM \<noteq> hs_key PERSISTED_FIRST_SEQ_NUM"
  "hs_key PERSISTED_LAST_SEQ_NUM \<noteq> hs_key APPLIED_INDEX"
  "hs_key PERSISTED_FIRST_SEQ_NUM \<noteq> hs_key APPLIED_INDEX"
  "hs_key PERSISTED_FIRST_SEQ_NUM \<noteq> hs_key PERSISTED_LAST_SEQ_NUM"
  by (simp_all add: hard_state_defs)

text \<open>Each kind of write, on the bytes and on the typed maps.\<close>

named_theorems rep_intros \<open>writes that keep the representation\<close>

lemma represents_put_account [rep_intros]:
  "represents pb m W \<Longrightarrow> utf8_string i \<Longrightarrow>
     represents pb (m(data_key (as_bytes i) \<mapsto> pb_account_write pb a))
       (W\<lparr>wd_accounts := (wd_accounts W)(i \<mapsto> a)\<rparr>)"
  by (simp add: represents_def)

lemma represents_delete_account [rep_intros]:
  "represents pb m W \<Longrightarrow>
     represents pb (m(data_key (as_bytes i) := None)) (W\<lparr>wd_accounts := (wd_accounts W)(i := None)\<rparr>)"
  by (simp add: represents_def)

lemma represents_put_dedup [rep_intros]:
  "represents pb m W \<Longrightarrow>
     represents pb (m(dedup_key (as_bytes c) \<mapsto> be_bytes n)) (W\<lparr>wd_dedup := (wd_dedup W)(c \<mapsto> n)\<rparr>)"
  by (simp add: represents_def)

lemma represents_delete_dedup [rep_intros]:
  "represents pb m W \<Longrightarrow>
     represents pb (m(dedup_key (as_bytes c) := None)) (W\<lparr>wd_dedup := (wd_dedup W)(c := None)\<rparr>)"
  by (simp add: represents_def)

lemma represents_put_event [rep_intros]:
  "represents pb m W \<Longrightarrow>
     represents pb (m(event_key (be_bytes n) \<mapsto> pb_event_write pb e))
       (W\<lparr>wd_events := (wd_events W)(n \<mapsto> e)\<rparr>)"
  by (auto simp: represents_def)

lemma represents_delete_event [rep_intros]:
  "represents pb m W \<Longrightarrow>
     represents pb (m(event_key (be_bytes n) := None)) (W\<lparr>wd_events := (wd_events W)(n := None)\<rparr>)"
  by (simp add: represents_def)

lemma represents_hard_states [rep_intros]:
  "represents pb m W \<Longrightarrow>
     represents pb (m(as_bytes (hs_key APPLIED_INDEX) \<mapsto> be_bytes n)) (W\<lparr>wd_applied := Some n\<rparr>)"
  "represents pb m W \<Longrightarrow>
     represents pb (m(as_bytes (hs_key PERSISTED_LAST_SEQ_NUM) \<mapsto> be_bytes n)) (W\<lparr>wd_last_seq := Some n\<rparr>)"
  "represents pb m W \<Longrightarrow>
     represents pb (m(as_bytes (hs_key PERSISTED_FIRST_SEQ_NUM) \<mapsto> be_bytes n)) (W\<lparr>wd_first_seq := Some n\<rparr>)"
  by (simp_all add: represents_def)

section \<open>Scans that visit everything\<close>

lemma scan_impl_fold:
  assumes "\<And>k v s. (k, v) \<in> set it \<Longrightarrow> f k v s = (Ok True, g k v s)"
  shows "scan_impl it f s = (Ok (), fold (\<lambda>(k, v). g k v) it s)"
  using assms
proof (induction it arbitrary: s)
  case Nil
  then show ?case by simp
next
  case (Cons kv it)
  then show ?case by (cases kv) simp
qed

lemma fold_fmupd_lookup:
  assumes "distinct (map h kvs)"
  shows "fmlookup (fold (\<lambda>x. fmupd (h x) (w x)) kvs m) i = Some a \<longleftrightarrow>
    (\<exists>x \<in> set kvs. h x = i \<and> w x = a) \<or> (i \<notin> h ` set kvs \<and> fmlookup m i = Some a)"
  using assms
proof (induction kvs arbitrary: m)
  case Nil
  then show ?case by simp
next
  case (Cons x kvs)
  then show ?case by (auto simp: image_iff)
qed

section \<open>Reads return what the typed maps hold\<close>

context crates_spec
begin

lemma scan_eq:
  "scan (c_rocksdb C) mem db a b f s = scan_impl (rdb_iter (c_rocksdb C) db (Some a) (Some b) a) f s"
  by (simp add: scan_def iterator_opt_def build_bounds_def)

lemma write_opt_view [simp]: "view (write_opt (c_rocksdb C) db wb) = apply_ops wb (view db)"
  by (simp add: write_opt_def view_write)

lemma to_bytes_eq [simp]: "to_bytes (c_byteorder C) n = be_bytes n"
  by (simp add: to_bytes_def write_u64)

lemma from_bytes_be_bytes [simp]: "from_bytes (c_byteorder C) (be_bytes n) = Ok n"
  by (simp add: from_bytes_def read_u64)

lemma read_hard_state:
  assumes "represents (c_proto C) (view db) W"
  shows "read_hard_state_from_db C db APPLIED_INDEX = Ok (get_or_default 5 (wd_applied W))"
    "read_hard_state_from_db C db PERSISTED_LAST_SEQ_NUM = Ok (get_or_default 0 (wd_last_seq W))"
    "read_hard_state_from_db C db PERSISTED_FIRST_SEQ_NUM = Ok (get_or_default 0 (wd_first_seq W))"
  using assms by (auto simp: read_hard_state_from_db_def get_value_def get_view represents_def read_u64
      get_or_default_def hard_state_defs split: option.splits)

lemma read_event:
  assumes "represents (c_proto C) (view db) W"
  shows "read_event_from_db C db n = Ok (wd_events W n)"
  using assms by (cases "wd_events W n")
    (simp_all add: read_event_from_db_def get_msg_def get_value_def get_view represents_def)

lemma read_seq_num:
  assumes "represents (c_proto C) (view db) W"
  shows "read_seq_num_from_db C db c = Ok (wd_dedup W c)"
  using assms by (cases "wd_dedup W c")
    (simp_all add: read_seq_num_from_db_def get_value_def get_view represents_def)

text \<open>The account an entry of the data range holds, by its key.\<close>

lemma data_entry:
  assumes rep: "represents (c_proto C) (view db) W"
    and kv: "(k, v) \<in> set (rdb_iter (c_rocksdb C) db (Some DATA_MIN_KEY) (Some DATA_MAX_KEY) DATA_MIN_KEY)"
  obtains i a where "k = data_key (as_bytes i)" "utf8_string i" "wd_accounts W i = Some a"
    "v = pb_account_write (c_proto C) a"
proof -
  from kv have v: "view db k = Some v" "DATA_MIN_KEY \<le> k" "k < DATA_MAX_KEY"
    by (auto simp: iter_set in_bounds_def)
  with data_key_range [of k] as_bytes_surj obtain i where i: "k = data_key (as_bytes i)" by metis
  with rep v(1) obtain a where "wd_accounts W i = Some a" "v = pb_account_write (c_proto C) a"
    by (auto simp: represents_def)
  with rep i that show thesis by (auto simp: represents_def)
qed

lemma read_accounts:
  assumes rep: "represents (c_proto C) (view db) W"
  shows "\<exists>accs. read_accounts_from_db C mem db = Ok accs \<and> fmlookup accs = wd_accounts W"
proof -
  define it where
    "it = rdb_iter (c_rocksdb C) db (Some DATA_MIN_KEY) (Some DATA_MAX_KEY) DATA_MIN_KEY"
  define kid where "kid = (\<lambda>k. the (from_utf8 (drop 1 k)))"
  define acct where "acct = (\<lambda>v. the (pb_account_parse (c_proto C) v))"
  have kid [simp]: "kid (data_key (as_bytes i)) = i" if "utf8_string i" for i
    using that by (simp add: kid_def data_key_def DATA_PREFIX_KEY_def)
  have step: "read_account_step (c_proto C) k v accs = (Ok True, fmupd (kid k) (acct v) accs)"
    if kv: "(k, v) \<in> set it" for k v accs
    by (rule data_entry [OF rep kv [unfolded it_def]]) (simp add: read_account_step_def acct_def)
  define accs where "accs = fold (\<lambda>(k, v). fmupd (kid k) (acct v)) it fmempty"
  have fold_eq: "accs = fold (\<lambda>x. fmupd (kid (fst x)) (acct (snd x))) it fmempty"
    by (simp add: accs_def case_prod_beta')
  have "distinct (map fst it)"
    using iter_sorted [of db] by (simp add: it_def strict_sorted_iff)
  moreover have "inj_on kid (fst ` set it)"
  proof (rule inj_onI)
    fix k k' assume "k \<in> fst ` set it" "k' \<in> fst ` set it" "kid k = kid k'"
    then obtain v v' where "(k, v) \<in> set it" "(k', v') \<in> set it" by auto
    with \<open>kid k = kid k'\<close> show "k = k'"
      by (auto simp: it_def elim!: data_entry [OF rep])
  qed
  ultimately have dist: "distinct (map (\<lambda>x. kid (fst x)) it)"
    using distinct_map [of kid "map fst it"] by (simp add: comp_def)
  have "fmlookup accs i = Some a \<longleftrightarrow> wd_accounts W i = Some a" for i a
  proof
    assume "fmlookup accs i = Some a"
    then obtain k v where kv: "(k, v) \<in> set it" "kid k = i" "acct v = a"
      unfolding fold_eq fold_fmupd_lookup [OF dist] by auto
    then show "wd_accounts W i = Some a"
      by (auto simp: it_def acct_def elim!: data_entry [OF rep])
  next
    assume a: "wd_accounts W i = Some a"
    then have "utf8_string i" "(data_key (as_bytes i), pb_account_write (c_proto C) a) \<in> set it"
      using rep data_key_range [of "data_key (as_bytes i)"]
      by (auto simp: it_def iter_set in_bounds_def represents_def)
    then show "fmlookup accs i = Some a"
      unfolding fold_eq fold_fmupd_lookup [OF dist]
      by (intro disjI1 bexI) (auto simp: acct_def)
  qed
  then have "fmlookup accs = wd_accounts W"
    by (metis ext not_Some_eq)
  moreover have "read_accounts_from_db C mem db = Ok accs"
    using scan_impl_fold [OF step] by (simp add: read_accounts_from_db_def scan_eq it_def accs_def)
  ultimately show ?thesis by blast
qed

end

end
