(* ===== verification/Btree_Map.thy ===== *)
theory Btree_Map
  imports Wallet_Prelude
begin

text \<open>
  The part of \<open>std::collections::BTreeMap\<close> the wallet uses: insert, remove, lookup, the first
  entry and the size. The locale \<open>ordered_map\<close> is the contract; the sorted association lists
  below implement it.
\<close>

locale ordered_map =
  fixes lookup :: "'m \<Rightarrow> 'k::linorder \<Rightarrow> 'v option"
    and insert_kv :: "'k \<Rightarrow> 'v \<Rightarrow> 'm \<Rightarrow> 'm"
    and remove_k :: "'k \<Rightarrow> 'm \<Rightarrow> 'm"
    and first_kv :: "'m \<Rightarrow> ('k \<times> 'v) option"
    and size_m :: "'m \<Rightarrow> nat"
    and inv :: "'m \<Rightarrow> bool"
  assumes lookup_insert: "inv m \<Longrightarrow> lookup (insert_kv k v m) = (lookup m)(k \<mapsto> v)"
    and lookup_remove: "inv m \<Longrightarrow> lookup (remove_k k m) = (lookup m)(k := None)"
    and first_None: "inv m \<Longrightarrow> first_kv m = None \<longleftrightarrow> lookup m = Map.empty"
    and first_Some: "inv m \<Longrightarrow> first_kv m = Some (k, v) \<Longrightarrow>
      lookup m k = Some v \<and> (\<forall>k' \<in> dom (lookup m). k \<le> k')"
    and size_card: "inv m \<Longrightarrow> size_m m = card (dom (lookup m))"
    and finite_dom: "inv m \<Longrightarrow> finite (dom (lookup m))"
    and inv_insert: "inv m \<Longrightarrow> inv (insert_kv k v m)"
    and inv_remove: "inv m \<Longrightarrow> inv (remove_k k m)"
begin

lemma first_eq_Min:
  "inv m \<Longrightarrow> first_kv m = Some (k, v) \<Longrightarrow> k = Min (dom (lookup m))"
  using first_Some [of m k v] finite_dom [of m] by (auto intro!: Min_eqI [symmetric])

lemma size_remove_first:
  assumes m: "inv m" and f: "first_kv m = Some (k, v)"
  shows "Suc (size_m (remove_k k m)) = size_m m"
proof -
  from first_Some [OF m f] have "k \<in> dom (lookup m)" by auto
  with finite_dom [OF m] show ?thesis
    using m card_Suc_Diff1 [of "dom (lookup m)" k]
    by (simp add: size_card inv_remove lookup_remove)
qed

end

type_synonym ('k, 'v) btree_map = "('k \<times> 'v) list"

fun bt_insert :: "'k::linorder \<Rightarrow> 'v \<Rightarrow> ('k, 'v) btree_map \<Rightarrow> ('k, 'v) btree_map" where
  "bt_insert k v [] = [(k, v)]"
| "bt_insert k v ((k', v') # m) =
     (if k < k' then (k, v) # (k', v') # m
      else if k = k' then (k, v) # m
      else (k', v') # bt_insert k v m)"

definition bt_remove :: "'k \<Rightarrow> ('k, 'v) btree_map \<Rightarrow> ('k, 'v) btree_map" where
  "bt_remove k m = filter (\<lambda>e. fst e \<noteq> k) m"

definition bt_first :: "('k, 'v) btree_map \<Rightarrow> ('k \<times> 'v) option" where
  "bt_first m = (case m of [] \<Rightarrow> None | e # _ \<Rightarrow> Some e)"

definition bt_inv :: "('k::linorder, 'v) btree_map \<Rightarrow> bool" where
  "bt_inv m \<longleftrightarrow> sorted_wrt (<) (map fst m)"

lemma bt_remove_simps [simp]:
  "bt_remove k [] = []"
  "bt_remove k ((k', v) # m) = (if k' = k then bt_remove k m else (k', v) # bt_remove k m)"
  by (simp_all add: bt_remove_def)

lemma map_of_bt_remove: "map_of (bt_remove k m) = (map_of m)(k := None)"
  by (induction m) auto

lemma set_fst_bt_insert: "fst ` set (bt_insert k v m) = insert k (fst ` set m)"
  by (induction k v m rule: bt_insert.induct) auto

lemma bt_inv_insert: "bt_inv m \<Longrightarrow> bt_inv (bt_insert k v m)"
proof (induction k v m rule: bt_insert.induct)
  case (1 k v)
  then show ?case by (simp add: bt_inv_def)
next
  case (2 k v k' v' m)
  have "\<forall>x \<in> fst ` set (bt_insert k v m). k' < x" if "k' < k"
    using 2(2) that by (auto simp: set_fst_bt_insert bt_inv_def)
  with 2 show ?case by (auto simp: bt_inv_def)
qed

lemma map_of_bt_insert: "bt_inv m \<Longrightarrow> map_of (bt_insert k v m) = (map_of m)(k \<mapsto> v)"
proof (induction k v m rule: bt_insert.induct)
  case (1 k v)
  then show ?case by simp
next
  case (2 k v k' v' m)
  then show ?case by (auto simp: bt_inv_def)
qed

lemma bt_inv_remove: "bt_inv m \<Longrightarrow> bt_inv (bt_remove k m)"
  by (induction m) (auto simp: bt_inv_def bt_remove_def)

interpretation btree: ordered_map map_of bt_insert bt_remove bt_first length bt_inv
proof
  fix m :: "('k::linorder, 'v) btree_map" and k :: 'k and v :: 'v
  assume inv: "bt_inv m"
  then have dist: "distinct (map fst m)" by (simp add: bt_inv_def strict_sorted_iff)
  show "map_of (bt_insert k v m) = (map_of m)(k \<mapsto> v)" using inv by (rule map_of_bt_insert)
  show "map_of (bt_remove k m) = (map_of m)(k := None)" by (rule map_of_bt_remove)
  show "bt_first m = None \<longleftrightarrow> map_of m = Map.empty"
    by (cases m) (auto simp: bt_first_def)
  show "map_of m k = Some v \<and> (\<forall>k' \<in> dom (map_of m). k \<le> k')" if "bt_first m = Some (k, v)"
    using that inv by (cases m) (auto simp: bt_first_def bt_inv_def dom_map_of_conv_image_fst less_imp_le)
  show "length m = card (dom (map_of m))"
    using dist by (simp add: dom_map_of_conv_image_fst distinct_card [symmetric] del: distinct_map)
       (metis distinct_card length_map list.set_map)
  show "finite (dom (map_of m))" by (rule finite_dom_map_of)
  show "bt_inv (bt_insert k v m)" using inv by (rule bt_inv_insert)
  show "bt_inv (bt_remove k m)" using inv by (rule bt_inv_remove)
qed

end
