(* ===== verification/Message_Broker.thy ===== *)
theory Message_Broker
  imports Errors Btree_Map "HOL-Library.Multiset"
begin

text \<open>
  \<^verbatim>\<open>firm-wallet-service/src/message_broker.rs\<close> and \<open>batch_recv\<close> of \<^verbatim>\<open>utils.rs\<close>: the broker joins the
  events of the state machine with the requests that wait for them. Channels are lists; the
  reply end of a oneshot channel is a number, and \<open>mb_replies\<close> records every send on one. Time
  is a number of nanoseconds.
\<close>

section \<open>Positions\<close>

datatype position = Position (log_index: u64) (offset: u64)

text \<open>The derived order compares the log index first.\<close>

instantiation position :: linorder
begin

definition less_eq_position :: "position \<Rightarrow> position \<Rightarrow> bool" where
  "less_eq_position p q \<longleftrightarrow> log_index p < log_index q \<or> log_index p = log_index q \<and> offset p \<le> offset q"

definition less_position :: "position \<Rightarrow> position \<Rightarrow> bool" where
  "less_position p q \<longleftrightarrow> log_index p < log_index q \<or> log_index p = log_index q \<and> offset p < offset q"

instance
  by standard (auto simp: less_eq_position_def less_position_def intro: position.expand)

end

record inflight_event =
  ie_position :: position
  ie_event :: "event general_result"

type_synonym sender = nat

record inflight_request =
  ir_position :: position
  ir_resp_to :: sender
  ir_send_time :: nat

record message_broker =
  mb_inflight_requests :: "(position, nat \<times> sender) btree_map"
  mb_inflight_events :: "(position, inflight_event) btree_map"
  mb_request_rx :: "inflight_request list"
  mb_event_rx :: "inflight_event list"
  mb_replies :: "(sender \<times> inflight_event) list"

definition broker_new :: "inflight_request list \<Rightarrow> inflight_event list \<Rightarrow> message_broker" where
  "broker_new request_rx event_rx =
     \<lparr>mb_inflight_requests = [], mb_inflight_events = [], mb_request_rx = request_rx,
      mb_event_rx = event_rx, mb_replies = []\<rparr>"

text \<open>\<open>utils::batch_recv\<close> on a channel that stays connected: what is received and what is left.\<close>

fun batch_recv :: "nat \<Rightarrow> 'a list \<Rightarrow> 'a list \<times> 'a list" where
  "batch_recv 0 rx = ([], rx)"
| "batch_recv (Suc n) [] = ([], [])"
| "batch_recv (Suc n) (x # rx) = (let (buffer, rest) = batch_recv n rx in (x # buffer, rest))"

definition send_reply :: "message_broker \<Rightarrow> sender \<Rightarrow> inflight_event \<Rightarrow> message_broker" where
  "send_reply mb sender ev = mb\<lparr>mb_replies := mb_replies mb @ [(sender, ev)]\<rparr>"

definition register_inflight_event :: "message_broker \<Rightarrow> inflight_event \<Rightarrow> message_broker" where
  "register_inflight_event mb ev =
     mb\<lparr>mb_inflight_events := bt_insert (ie_position ev) ev (mb_inflight_events mb)\<rparr>"

definition register_inflight_request :: "message_broker \<Rightarrow> inflight_request \<Rightarrow> message_broker" where
  "register_inflight_request mb req =
     mb\<lparr>mb_inflight_requests :=
       bt_insert (ir_position req) (ir_send_time req, ir_resp_to req) (mb_inflight_requests mb)\<rparr>"

definition handle_inflight_request :: "message_broker \<Rightarrow> inflight_request \<Rightarrow> message_broker" where
  "handle_inflight_request mb req =
     (case map_of (mb_inflight_events mb) (ir_position req) of
        Some ev \<Rightarrow>
          send_reply (mb\<lparr>mb_inflight_events := bt_remove (ir_position req) (mb_inflight_events mb)\<rparr>)
            (ir_resp_to req) ev
      | None \<Rightarrow> register_inflight_request mb req)"

definition handle_inflight_event :: "message_broker \<Rightarrow> inflight_event \<Rightarrow> message_broker" where
  "handle_inflight_event mb ev =
     (case map_of (mb_inflight_requests mb) (ie_position ev) of
        Some (send_time, sender) \<Rightarrow>
          send_reply (mb\<lparr>mb_inflight_requests := bt_remove (ie_position ev) (mb_inflight_requests mb)\<rparr>)
            sender ev
      | None \<Rightarrow> register_inflight_event mb ev)"

definition event_gc_limit :: nat where "event_gc_limit = 10000"

function gc_inflight_events :: "message_broker \<Rightarrow> message_broker" where
  "gc_inflight_events mb =
     (if event_gc_limit < length (mb_inflight_events mb)
      then gc_inflight_events (mb\<lparr>mb_inflight_events := tl (mb_inflight_events mb)\<rparr>)
      else mb)"
  by pat_completeness auto
termination
  by (relation "measure (\<lambda>mb. length (mb_inflight_events mb))") auto

declare gc_inflight_events.simps [simp del]

definition max_timeout_ms :: nat where "max_timeout_ms = 1000"

text \<open>\<open>now\<close> is read once. \<open>duration_since\<close> panics when the send time lies after it.\<close>

function gc_inflight_requests :: "nat \<Rightarrow> message_broker \<Rightarrow> ('e, message_broker) res" where
  "gc_inflight_requests now mb =
     (case mb_inflight_requests mb of
        [] \<Rightarrow> Ok mb
      | (position, (send_time, sender)) # rest \<Rightarrow>
          if now < send_time then Panic
          else if (now - send_time) div 1000000 < max_timeout_ms then Ok mb
          else gc_inflight_requests now
                 (send_reply (mb\<lparr>mb_inflight_requests := rest\<rparr>) sender
                    \<lparr>ie_position = position, ie_event = Err (CommonError Timeout)\<rparr>))"
  by pat_completeness auto
termination
  by (relation "measure (\<lambda>(now, mb). length (mb_inflight_requests mb))") (auto simp: send_reply_def)

declare gc_inflight_requests.simps [simp del]

text \<open>One round of the main loop.\<close>

definition broker_round :: "nat \<Rightarrow> message_broker \<Rightarrow> ('e, message_broker) res" where
  "broker_round now mb =
     (let (reqs, request_rx) = batch_recv 1000 (mb_request_rx mb);
          mb1 = fold (\<lambda>r mb. handle_inflight_request mb r) reqs (mb\<lparr>mb_request_rx := request_rx\<rparr>);
          (evs, event_rx) = batch_recv 1000 (mb_event_rx mb1);
          mb2 = fold (\<lambda>e mb. handle_inflight_event mb e) evs (mb1\<lparr>mb_event_rx := event_rx\<rparr>);
          mb3 = gc_inflight_events mb2
      in gc_inflight_requests now mb3)"

end
