(* ===== verification/State_Machine.thy ===== *)
theory State_Machine
  imports Internal Rocksdb_State Message_Broker
begin

text \<open>
  \<^verbatim>\<open>firm-wallet-service/src/state_machine.rs\<close>: the wallet's replicated state machine. Every method
  takes the state machine with its apply context and returns a result with the new pair, so
  that what an error leaves behind is part of the model. Arithmetic on \<open>u64\<close> wraps, as in a
  release build.
\<close>

section \<open>State\<close>

record 'db state_machine =
  sm_accounts :: "(string, account) fmap"
  sm_applied_index :: u64
  sm_last_seq_num :: u64
  sm_seq_num_cache :: "(string, u64) fmap"
  sm_event_cache :: "(u64, event) fmap"
  sm_rocksdb_state :: 'db

text \<open>\<open>cx_flushed_timestamp\<close> is in milliseconds; \<open>cx_inflight_event_tx\<close> lists what was sent.\<close>

record apply_context =
  cx_batch_size :: u64
  cx_wb :: write_batch
  cx_to_be_deleted_account_ids :: "string list"
  cx_flushed_applied_index :: u64
  cx_flushed_timestamp :: nat
  cx_inflight_event_tx :: "inflight_event list"

type_synonym 'db app = "'db state_machine \<times> apply_context"

abbreviation calculator_of :: "('d, 'db) crates \<Rightarrow> calculator" where
  "calculator_of C \<equiv> balance_calculator (c_bigdecimal C)"

text \<open>\<open>env\<close> is the environment variable \<^verbatim>\<open>batch_size\<close>, \<open>now\<close> the current time.\<close>

definition apply_context_new ::
    "string option \<Rightarrow> nat \<Rightarrow> write_batch \<Rightarrow> u64 \<Rightarrow> inflight_event list \<Rightarrow> ('e, apply_context) res" where
  "apply_context_new env now wb applied_index tx =
     bind_res (unwrap (parse_u64 (get_or_default ''100'' env))) (\<lambda>batch_size.
     Ok \<lparr>cx_batch_size = batch_size, cx_wb = wb, cx_to_be_deleted_account_ids = [],
         cx_flushed_applied_index = applied_index, cx_flushed_timestamp = now,
         cx_inflight_event_tx = tx\<rparr>)"

definition recover_from_db ::
    "('d, 'db) crates \<Rightarrow> memory \<Rightarrow> string option \<Rightarrow> nat \<Rightarrow> 'db \<Rightarrow> inflight_event list \<Rightarrow>
     (unit, 'db app) res" where
  "recover_from_db C mem env now db tx =
     bind_res (read_accounts_from_db C mem db) (\<lambda>accs.
     bind_res (read_hard_state_from_db C db APPLIED_INDEX) (\<lambda>applied_index.
     bind_res (read_hard_state_from_db C db PERSISTED_LAST_SEQ_NUM) (\<lambda>persisted_last_seq_num.
     bind_res (apply_context_new env now [] applied_index tx) (\<lambda>context.
     Ok (\<lparr>sm_accounts = accs, sm_applied_index = applied_index,
          sm_last_seq_num = persisted_last_seq_num, sm_seq_num_cache = fmempty,
          sm_event_cache = fmempty, sm_rocksdb_state = db\<rparr>, context)))))"

section \<open>Reads\<close>

definition get_event ::
    "('d, 'db) crates \<Rightarrow> 'db state_machine \<Rightarrow> u64 \<Rightarrow> ('e, event option) res" where
  "get_event C sm seq_num =
     (case fmlookup (sm_event_cache sm) seq_num of
        Some event \<Rightarrow> Ok (Some event)
      | None \<Rightarrow> read_event_from_db C (sm_rocksdb_state sm) seq_num)"

definition get_seq_num ::
    "('d, 'db) crates \<Rightarrow> 'db state_machine \<Rightarrow> string \<Rightarrow> ('e, u64 option) res" where
  "get_seq_num C sm cid =
     (case fmlookup (sm_seq_num_cache sm) cid of
        Some seq_num \<Rightarrow> Ok (Some seq_num)
      | None \<Rightarrow> read_seq_num_from_db C (sm_rocksdb_state sm) cid)"

definition get_or_create_account :: "'db state_machine \<Rightarrow> string \<Rightarrow> account" where
  "get_or_create_account sm account_id =
     (case fmlookup (sm_accounts sm) account_id of
        None \<Rightarrow> account_new account_id
      | Some acc \<Rightarrow> acc)"

definition assert_account_exists :: "'db state_machine \<Rightarrow> string \<Rightarrow> account general_result" where
  "assert_account_exists sm account_id =
     (case fmlookup (sm_accounts sm) account_id of
        Some acc \<Rightarrow> Ok acc
      | None \<Rightarrow> Err (AccountManagementError (AccountNotExist account_id)))"

section \<open>Writes\<close>

definition update_account :: "('d, 'db) crates \<Rightarrow> account \<Rightarrow> 'db app \<Rightarrow> 'db app" where
  "update_account C acc app =
     (case app of (sm, cx) \<Rightarrow>
        let account_id = acc_account_id acc;
            dkey = data_key (as_bytes account_id);
            account_bytes = pb_account_write (c_proto C) acc
        in (sm\<lparr>sm_accounts := fmupd account_id acc (sm_accounts sm)\<rparr>,
            cx\<lparr>cx_wb := wb_put (cx_wb cx) dkey account_bytes\<rparr>))"

definition delete_account :: "account \<Rightarrow> 'db app \<Rightarrow> 'db app" where
  "delete_account acc app =
     (case app of (sm, cx) \<Rightarrow>
        let account_id = acc_account_id acc;
            dkey = data_key (as_bytes account_id)
        in (sm\<lparr>sm_accounts := fmupd account_id acc (sm_accounts sm)\<rparr>,
            cx\<lparr>cx_wb := wb_delete (cx_wb cx) dkey,
               cx_to_be_deleted_account_ids := cx_to_be_deleted_account_ids cx @ [account_id]\<rparr>))"

definition update_seq_num_and_event ::
    "('d, 'db) crates \<Rightarrow> string \<Rightarrow> event \<Rightarrow> 'db app \<Rightarrow> 'db app" where
  "update_seq_num_and_event C cid ev app =
     (case app of (sm, cx) \<Rightarrow>
        let seq_num = sm_last_seq_num sm;
            bs = to_bytes (c_byteorder C) seq_num;
            wb1 = wb_put (cx_wb cx) (dedup_key (as_bytes cid)) bs;
            wb2 = wb_put_msg (pb_event_write (c_proto C)) wb1 (event_key bs) ev
        in (sm\<lparr>sm_seq_num_cache := fmupd cid seq_num (sm_seq_num_cache sm),
               sm_event_cache := fmupd seq_num ev (sm_event_cache sm)\<rparr>,
            cx\<lparr>cx_wb := wb2\<rparr>))"

definition send_event :: "position \<Rightarrow> event general_result \<Rightarrow> 'db app \<Rightarrow> 'db app" where
  "send_event pos ev app =
     (case app of (sm, cx) \<Rightarrow>
        (sm, cx\<lparr>cx_inflight_event_tx :=
               cx_inflight_event_tx cx @ [\<lparr>ie_position = pos, ie_event = ev\<rparr>]\<rparr>))"

definition next_seq_num :: "'db app \<Rightarrow> 'db app" where
  "next_seq_num app =
     (case app of (sm, cx) \<Rightarrow> (sm\<lparr>sm_last_seq_num := sm_last_seq_num sm + 1\<rparr>, cx))"

section \<open>Balance operations\<close>

definition handle_transfer ::
    "('d, 'db) crates \<Rightarrow> 'db app \<Rightarrow> transfer_request \<Rightarrow> u64 \<Rightarrow> u64 \<Rightarrow> event general_result \<times> 'db app" where
  "handle_transfer C app request li off =
     (let calc = calculator_of C;
          spec = get_transfer_spec request;
          amount = ts_amount spec;
          from_account = get_or_create_account (fst app) (ts_from_account_id spec);
          to_account = get_or_create_account (fst app) (ts_to_account_id spec)
      in bind_st (validate_asset_class_compatibility from_account to_account) app (\<lambda>_.
         bind_st (increase_balance_by calc to_account amount) app (\<lambda>(updated_to, to_change).
         bind_st (calc_neg calc amount) app (\<lambda>neg_amount.
         bind_st (increase_balance_by calc from_account neg_amount) app (\<lambda>(updated_from, from_change).
         let app1 = next_seq_num app;
             app2 = update_account C updated_to app1;
             app3 = update_account C updated_from app2
         in (Ok (build_transfer_event (sm_last_seq_num (fst app3)) li off request
                   from_change to_change), app3))))))"

fun batch_loop ::
    "calculator \<Rightarrow> 'db state_machine \<Rightarrow> balance_operation_spec list \<Rightarrow>
     (account \<times> balance_change) list general_result" where
  "batch_loop calc sm [] = Ok []"
| "batch_loop calc sm (spec # specs) =
     bind_res (increase_balance_by calc (get_or_create_account sm (bos_account_id spec))
                 (bos_amount spec)) (\<lambda>upd.
     bind_res (batch_loop calc sm specs) (\<lambda>upds. Ok (upd # upds)))"

definition handle_batch_balance_operation ::
    "('d, 'db) crates \<Rightarrow> 'db app \<Rightarrow> batch_balance_operation_request \<Rightarrow> u64 \<Rightarrow> u64 \<Rightarrow>
     event general_result \<times> 'db app" where
  "handle_batch_balance_operation C app request li off =
     bind_st (batch_loop (calculator_of C) (fst app) (bbo_balance_operation_spec request)) app (\<lambda>upds.
     let app1 = next_seq_num app;
         app2 = fold (update_account C) (map fst upds) app1
     in (Ok (build_batch_event (sm_last_seq_num (fst app2)) li off request (map snd upds)), app2))"

definition handle_reserve ::
    "('d, 'db) crates \<Rightarrow> 'db app \<Rightarrow> reserve_request \<Rightarrow> u64 \<Rightarrow> u64 \<Rightarrow> event general_result \<times> 'db app" where
  "handle_reserve C app request li off =
     bind_st (assert_account_exists (fst app) (rsv_account_id request)) app (\<lambda>prev_account.
     let prev_balance = acc_get_balance prev_account in
     bind_st (reserve (calculator_of C) prev_account (rsv_reservation_id request)
                (rsv_amount request)) app (\<lambda>curr_account.
     let curr_balance = acc_get_balance curr_account;
         app1 = next_seq_num app;
         app2 = update_account C curr_account app1
     in (Ok (build_reserve_event (sm_last_seq_num (fst app2)) li off request
               prev_balance curr_balance), app2)))"

definition handle_release ::
    "('d, 'db) crates \<Rightarrow> 'db app \<Rightarrow> release_request \<Rightarrow> u64 \<Rightarrow> u64 \<Rightarrow> event general_result \<times> 'db app" where
  "handle_release C app request li off =
     bind_st (assert_account_exists (fst app) (rls_account_id request)) app (\<lambda>prev_account.
     let prev_balance = acc_get_balance prev_account in
     bind_st (if rls_amount request = []
              then release_all (calculator_of C) prev_account (rls_reservation_id request)
              else partial_release (calculator_of C) prev_account (rls_reservation_id request)
                     (rls_amount request)) app (\<lambda>curr_account.
     let curr_balance = acc_get_balance curr_account;
         app1 = next_seq_num app;
         app2 = update_account C curr_account app1
     in (Ok (build_release_event (sm_last_seq_num (fst app2)) li off request
               prev_balance curr_balance), app2)))"

section \<open>Account management\<close>

definition handle_create_account ::
    "('d, 'db) crates \<Rightarrow> 'db app \<Rightarrow> create_account_request \<Rightarrow> u64 \<Rightarrow> u64 \<Rightarrow>
     event general_result \<times> 'db app" where
  "handle_create_account C app request li off =
     (let account_id = hd_account_id (get_header (car_header request)) in
      if account_id |\<in>| fmdom (sm_accounts (fst app))
      then (Err (AccountManagementError (AccountAlreadyExist account_id)), app)
      else let acc = account_new account_id;
               app1 = next_seq_num app;
               app2 = update_account C acc app1
           in (Ok (build_create_event (sm_last_seq_num (fst app2)) li off request acc), app2))"

definition handle_lock_account ::
    "('d, 'db) crates \<Rightarrow> 'db app \<Rightarrow> lock_account_request \<Rightarrow> u64 \<Rightarrow> u64 \<Rightarrow>
     event general_result \<times> 'db app" where
  "handle_lock_account C app request li off =
     bind_st (assert_account_exists (fst app) (hd_account_id (get_header (lar_header request)))) app (\<lambda>acc.
     bind_st (lock acc) app (\<lambda>updated_account.
     let app1 = next_seq_num app;
         app2 = update_account C updated_account app1
     in (Ok (build_lock_event (sm_last_seq_num (fst app2)) li off request updated_account), app2)))"

definition handle_unlock_account ::
    "('d, 'db) crates \<Rightarrow> 'db app \<Rightarrow> unlock_account_request \<Rightarrow> u64 \<Rightarrow> u64 \<Rightarrow>
     event general_result \<times> 'db app" where
  "handle_unlock_account C app request li off =
     bind_st (assert_account_exists (fst app) (hd_account_id (get_header (uar_header request)))) app (\<lambda>acc.
     bind_st (unlock acc) app (\<lambda>updated_account.
     let app1 = next_seq_num app;
         app2 = update_account C updated_account app1
     in (Ok (build_unlock_event (sm_last_seq_num (fst app2)) li off request updated_account), app2)))"

definition handle_delete_account ::
    "('d, 'db) crates \<Rightarrow> 'db app \<Rightarrow> delete_account_request \<Rightarrow> u64 \<Rightarrow> u64 \<Rightarrow>
     event general_result \<times> 'db app" where
  "handle_delete_account C app request li off =
     bind_st (assert_account_exists (fst app) (hd_account_id (get_header (dar_header request)))) app (\<lambda>acc.
     bind_st (delete_acc (calculator_of C) acc) app (\<lambda>updated_account.
     let app1 = next_seq_num app;
         app2 = delete_account updated_account app1
     in (Ok (build_delete_event (sm_last_seq_num (fst app2)) li off request updated_account), app2)))"

definition handle_update_account_config ::
    "('d, 'db) crates \<Rightarrow> 'db app \<Rightarrow> update_account_config_request \<Rightarrow> u64 \<Rightarrow> u64 \<Rightarrow>
     event general_result \<times> 'db app" where
  "handle_update_account_config C app request li off =
     bind_st (assert_account_exists (fst app) (hd_account_id (get_header (ucr_header request)))) app (\<lambda>acc.
     let updated_account =
           set_balance_limit acc (get_or_default default_balance_limit (ucr_balance_limit request));
         app1 = next_seq_num app;
         app2 = update_account C updated_account app1
     in (Ok (build_update_event (sm_last_seq_num (fst app2)) li off request updated_account), app2))"

section \<open>Commands\<close>

definition maybe_handle_duplicate_command ::
    "('d, 'db) crates \<Rightarrow> 'db state_machine \<Rightarrow> command \<Rightarrow>
     ('e, event general_result option) res" where
  "maybe_handle_duplicate_command C sm command =
     bind_res (get_seq_num C sm (command_id command)) (\<lambda>seq_num_opt.
     case seq_num_opt of
       None \<Rightarrow> Ok None
     | Some seq_num \<Rightarrow>
         bind_res (get_event C sm seq_num) (\<lambda>event_opt.
         bind_res (unwrap event_opt) (\<lambda>event.
         case assert_command_and_event_match command event of
           Panic \<Rightarrow> Panic
         | r \<Rightarrow> Ok (Some r))))"

fun dispatch ::
    "('d, 'db) crates \<Rightarrow> 'db app \<Rightarrow> u64 \<Rightarrow> u64 \<Rightarrow> command_payload \<Rightarrow> event general_result \<times> 'db app" where
  "dispatch C app li off (transfer_request r) = handle_transfer C app r li off"
| "dispatch C app li off (reserve_request r) = handle_reserve C app r li off"
| "dispatch C app li off (release_request r) = handle_release C app r li off"
| "dispatch C app li off (batch_balance_operation_request r) =
     handle_batch_balance_operation C app r li off"
| "dispatch C app li off (create_account_request r) = handle_create_account C app r li off"
| "dispatch C app li off (lock_account_request r) = handle_lock_account C app r li off"
| "dispatch C app li off (unlock_account_request r) = handle_unlock_account C app r li off"
| "dispatch C app li off (delete_account_request r) = handle_delete_account C app r li off"
| "dispatch C app li off (update_account_config_request r) = handle_update_account_config C app r li off"

definition handle_command ::
    "('d, 'db) crates \<Rightarrow> 'db app \<Rightarrow> u64 \<Rightarrow> u64 \<Rightarrow> command \<Rightarrow> (unit, unit) res \<times> 'db app" where
  "handle_command C app li off command =
     (let pos = Position li off in
      bind_st (maybe_handle_duplicate_command C (fst app) command) app (\<lambda>dup.
      case dup of
        Some event \<Rightarrow> (Ok (), send_event pos event app)
      | None \<Rightarrow>
          bind_st (payload command) app (\<lambda>p.
          case dispatch C app li off p of (res, app1) \<Rightarrow>
            (case res of
               Panic \<Rightarrow> (Panic, app1)
             | Err e \<Rightarrow> (Ok (), send_event pos (Err e) app1)
             | Ok event \<Rightarrow>
                 let event_pb = set_event_header event (cmd_get_header command) li off
                                  (sm_last_seq_num (fst app1));
                     app2 = update_seq_num_and_event C (command_id command) event_pb app1
                 in (Ok (), send_event pos (Ok event_pb) app2)))))"

fun handle_commands ::
    "('d, 'db) crates \<Rightarrow> u64 \<Rightarrow> u64 \<Rightarrow> command list \<Rightarrow> 'db app \<Rightarrow> (unit, unit) res \<times> 'db app" where
  "handle_commands C li off [] app = (Ok (), app)"
| "handle_commands C li off (c # cs) app =
     (case handle_command C app li off c of (r, app') \<Rightarrow>
        bind_st r app' (\<lambda>_. handle_commands C li (off + 1) cs app'))"

definition apply_entry ::
    "('d, 'db) crates \<Rightarrow> 'db app \<Rightarrow> u64 \<times> command list \<Rightarrow> (unit, unit) res \<times> 'db app" where
  "apply_entry C app entry =
     (case entry of (li, commands) \<Rightarrow>
        if sm_applied_index (fst app) + 1 \<noteq> li then (Panic, app)
        else (case handle_commands C li 0 commands app of (r, app1) \<Rightarrow>
          bind_st r app1 (\<lambda>_.
          let (sm, cx) = app1;
              sm' = sm\<lparr>sm_applied_index := li\<rparr>;
              wb1 = wb_put (cx_wb cx) (as_bytes (hs_key APPLIED_INDEX))
                      (bo_write_u64 (c_byteorder C) (sm_applied_index sm'));
              wb2 = wb_put wb1 (as_bytes (hs_key PERSISTED_LAST_SEQ_NUM))
                      (bo_write_u64 (c_byteorder C) (sm_last_seq_num sm'))
          in (Ok (), (sm', cx\<lparr>cx_wb := wb2\<rparr>)))))"

section \<open>Flushing\<close>

definition should_flush :: "nat \<Rightarrow> 'db app \<Rightarrow> bool" where
  "should_flush now app =
     (case app of (sm, cx) \<Rightarrow>
        if cx_batch_size cx \<le> sm_applied_index sm - cx_flushed_applied_index cx then True
        else if cx_flushed_applied_index cx < sm_applied_index sm \<and>
                100 < now - cx_flushed_timestamp cx then True
        else False)"

definition flush :: "('d, 'db) crates \<Rightarrow> nat \<Rightarrow> 'db app \<Rightarrow> (unit, unit) res \<times> 'db app" where
  "flush C now app =
     (case app of (sm, cx) \<Rightarrow>
        if \<not> cx_flushed_applied_index cx < sm_applied_index sm then (Panic, app)
        else (Ok (),
          (sm\<lparr>sm_rocksdb_state := write_opt (c_rocksdb C) (sm_rocksdb_state sm) (cx_wb cx),
              sm_accounts := fold fmdrop (cx_to_be_deleted_account_ids cx) (sm_accounts sm),
              sm_event_cache := fmempty, sm_seq_num_cache := fmempty\<rparr>,
           cx\<lparr>cx_wb := wb_clear (cx_wb cx), cx_to_be_deleted_account_ids := [],
              cx_flushed_applied_index := sm_applied_index sm, cx_flushed_timestamp := now\<rparr>)))"

definition maybe_flush :: "('d, 'db) crates \<Rightarrow> nat \<Rightarrow> 'db app \<Rightarrow> (unit, unit) res \<times> 'db app" where
  "maybe_flush C now app = (if should_flush now app then flush C now app else (Ok (), app))"

section \<open>The apply loop\<close>

record 'db apply_loop =
  al_app :: "'db app"
  al_applied_index :: u64

definition apply_loop_new :: "'db app \<Rightarrow> 'db apply_loop" where
  "apply_loop_new app = \<lparr>al_app = app, al_applied_index = cx_flushed_applied_index (snd app)\<rparr>"

fun apply_log_entries ::
    "('d, 'db) crates \<Rightarrow> (u64 \<times> command list) list \<Rightarrow> 'db apply_loop \<Rightarrow> (unit, unit) res \<times> 'db apply_loop" where
  "apply_log_entries C [] al = (Ok (), al)"
| "apply_log_entries C (entry # buf) al =
     (if al_applied_index al + 1 \<noteq> fst entry then (Panic, al)
      else case apply_entry C (al_app al) entry of (r, app') \<Rightarrow>
        let al' = \<lparr>al_app = app', al_applied_index = fst entry\<rparr>
        in bind_st r al' (\<lambda>_. apply_log_entries C buf al'))"

text \<open>One round: the entries received, then \<open>maybe_flush\<close> at the time \<open>now\<close>.\<close>

definition apply_loop_round ::
    "('d, 'db) crates \<Rightarrow> nat \<Rightarrow> (u64 \<times> command list) list \<Rightarrow> 'db apply_loop \<Rightarrow>
     (unit, unit) res \<times> 'db apply_loop" where
  "apply_loop_round C now buf al =
     (case apply_log_entries C buf al of (r, al1) \<Rightarrow>
        bind_st r al1 (\<lambda>_.
        case maybe_flush C now (al_app al1) of (r2, app2) \<Rightarrow> (r2, al1\<lparr>al_app := app2\<rparr>)))"

lemmas handler_defs = handle_transfer_def handle_batch_balance_operation_def handle_reserve_def
  handle_release_def handle_create_account_def handle_lock_account_def handle_unlock_account_def
  handle_delete_account_def handle_update_account_config_def

end
