(* ===== verification/Reference_Decimal.thy ===== *)
theory Reference_Decimal
  imports Crates
begin

text \<open>
  An executable decimal arithmetic that meets \<open>bigdecimal_spec\<close>: a mantissa and a scale, a
  reader for \<^verbatim>\<open>[+-]digits[.digits]\<close> and a printer. It instantiates the \<open>bigdecimal\<close> package in
  concrete runs of the model.
\<close>

record decimal =
  mantissa :: int
  scale :: nat

definition dec_val :: "decimal \<Rightarrow> rat" where
  "dec_val d = of_int (mantissa d) / 10 ^ scale d"

section \<open>Digits\<close>

fun digits :: "nat \<Rightarrow> nat list" where
  "digits n = (if n < 10 then [n] else digits (n div 10) @ [n mod 10])"

declare digits.simps [simp del]

definition undigits :: "nat list \<Rightarrow> nat" where
  "undigits ds = foldl (\<lambda>acc d. 10 * acc + d) 0 ds"

definition digit_char :: "nat \<Rightarrow> char" where
  "digit_char d = char_of (48 + d)"

definition char_digit :: "char \<Rightarrow> nat option" where
  "char_digit c = (let n = of_char c in if 48 \<le> n \<and> n \<le> 57 then Some (n - 48) else None)"

fun read_digits :: "string \<Rightarrow> nat list \<times> string" where
  "read_digits [] = ([], [])"
| "read_digits (c # s) =
     (case char_digit c of
        None \<Rightarrow> ([], c # s)
      | Some d \<Rightarrow> (let (ds, r) = read_digits s in (d # ds, r)))"

lemma undigits_snoc [simp]: "undigits (ds @ [d]) = 10 * undigits ds + d"
  by (simp add: undigits_def)

lemma undigits_digits [simp]: "undigits (digits n) = n"
proof (induction n rule: digits.induct)
  case (1 n)
  then show ?case
    by (subst digits.simps) (auto simp: undigits_def)
qed

lemma digits_bound: "d \<in> set (digits n) \<Longrightarrow> d < 10"
proof (induction n rule: digits.induct)
  case (1 n)
  then show ?case
    by (subst (asm) digits.simps) (auto split: if_splits)
qed

lemma digits_not_Nil [simp]: "digits n \<noteq> []"
  by (subst digits.simps) simp

lemma undigits_zeros [simp]: "undigits (replicate k 0 @ ds) = undigits ds"
  by (induction k) (simp_all add: undigits_def)

lemma char_digit_char [simp]: "d < 10 \<Longrightarrow> char_digit (digit_char d) = Some d"
  by (simp add: char_digit_def digit_char_def Let_def)

lemma char_digit_simps [simp]:
  "char_digit CHR ''.'' = None" "char_digit CHR ''-'' = None" "char_digit CHR ''+'' = None"
  by (simp_all add: char_digit_def)

lemma read_digits_map:
  "\<forall>d \<in> set ds. d < 10 \<Longrightarrow> (s = [] \<or> char_digit (hd s) = None) \<Longrightarrow>
     read_digits (map digit_char ds @ s) = (ds, s)"
proof (induction ds)
  case Nil
  then show ?case by (cases s) simp_all
next
  case (Cons d ds)
  then show ?case by simp
qed

lemma read_digits_all: "\<forall>d \<in> set ds. d < 10 \<Longrightarrow> read_digits (map digit_char ds) = (ds, [])"
  using read_digits_map [of ds "[]"] by simp

section \<open>Reading and printing\<close>

definition read_unsigned :: "string \<Rightarrow> decimal option" where
  "read_unsigned s =
     (let (ds, r) = read_digits s in
      if ds = [] then None
      else case r of
        [] \<Rightarrow> Some \<lparr>mantissa = int (undigits ds), scale = 0\<rparr>
      | c # r' \<Rightarrow>
          if c \<noteq> CHR ''.'' then None
          else let (fs, r'') = read_digits r' in
            if fs = [] \<or> r'' \<noteq> [] then None
            else Some \<lparr>mantissa = int (undigits (ds @ fs)), scale = length fs\<rparr>)"

definition dec_neg :: "decimal \<Rightarrow> decimal" where
  "dec_neg d = d\<lparr>mantissa := - mantissa d\<rparr>"

definition dec_from_str :: "string \<Rightarrow> string + decimal" where
  "dec_from_str s =
     (let r = (case s of [] \<Rightarrow> None
               | c # t \<Rightarrow> if c = CHR ''-'' then map_option dec_neg (read_unsigned t)
                         else if c = CHR ''+'' then read_unsigned t else read_unsigned s)
      in case r of Some d \<Rightarrow> Inr d | None \<Rightarrow> Inl ''Failed to parse a decimal'')"

definition print_unsigned :: "nat \<Rightarrow> nat \<Rightarrow> string" where
  "print_unsigned m s =
     (let ds = digits m;
          padded = replicate (Suc s - length ds) 0 @ ds;
          k = length padded - s
      in map digit_char (take k padded) @
         (if s = 0 then [] else CHR ''.'' # map digit_char (drop k padded)))"

definition dec_to_string :: "decimal \<Rightarrow> string" where
  "dec_to_string d =
     (if mantissa d < 0 then CHR ''-'' # print_unsigned (nat (- mantissa d)) (scale d)
      else print_unsigned (nat (mantissa d)) (scale d))"

lemma read_print_unsigned:
  "read_unsigned (print_unsigned m s) = Some \<lparr>mantissa = int m, scale = s\<rparr>"
proof -
  define padded where "padded = replicate (Suc s - length (digits m)) 0 @ digits m"
  define k where "k = length padded - s"
  have len: "length padded \<ge> Suc s"
    by (simp add: padded_def)
  have bound: "\<forall>d \<in> set padded. d < 10"
    by (auto simp: padded_def dest: digits_bound)
  have b: "\<forall>d \<in> set (take k padded). d < 10" "\<forall>d \<in> set (drop k padded). d < 10"
    using bound by (auto dest: in_set_takeD in_set_dropD)
  have u: "undigits padded = m"
    by (simp add: padded_def)
  have p: "print_unsigned m s = map digit_char (take k padded) @
      (if s = 0 then [] else CHR ''.'' # map digit_char (drop k padded))"
    by (simp add: print_unsigned_def padded_def k_def Let_def)
  have k0: "take k padded \<noteq> []" using len by (auto simp: k_def)
  show ?thesis
  proof (cases "s = 0")
    case True
    then have "print_unsigned m s = map digit_char padded" "padded \<noteq> []"
      using p len by (auto simp: k_def)
    with True show ?thesis using bound u by (simp add: read_unsigned_def read_digits_all)
  next
    case False
    have d0: "drop k padded \<noteq> []" "length (drop k padded) = s" using len False by (auto simp: k_def)
    show ?thesis using p k0 b u d0 False
      by (simp add: read_unsigned_def read_digits_map read_digits_all del: drop_eq_Nil take_eq_Nil)
  qed
qed

lemma hd_print_unsigned: "\<exists>d t. d < 10 \<and> print_unsigned m s = digit_char d # t"
proof -
  define padded where "padded = replicate (Suc s - length (digits m)) 0 @ digits m"
  have "length padded \<ge> Suc s" by (simp add: padded_def)
  moreover have "\<forall>d \<in> set padded. d < 10"
    by (auto simp: padded_def dest: digits_bound)
  ultimately obtain d t where "padded = d # t" "d < 10" "length padded - s = Suc (length t - s)"
    by (cases padded) (auto simp: Suc_diff_le)
  moreover have "print_unsigned m s = map digit_char (take (length padded - s) padded) @
      (if s = 0 then [] else CHR ''.'' # map digit_char (drop (length padded - s) padded))"
    by (simp add: print_unsigned_def padded_def Let_def)
  ultimately show ?thesis by auto
qed

lemma dec_from_to_string: "dec_from_str (dec_to_string d) = Inr d"
proof -
  have ne: "digit_char e \<noteq> CHR ''-''" "digit_char e \<noteq> CHR ''+''" if "e < 10" for e
    using char_digit_char [OF that] by (metis char_digit_simps option.distinct(1))+
  have pos: "dec_from_str (print_unsigned m s) = Inr \<lparr>mantissa = int m, scale = s\<rparr>" for m s
    using hd_print_unsigned [of m s] read_print_unsigned [of m s] ne
    by (auto simp: dec_from_str_def)
  show ?thesis
    by (simp add: dec_to_string_def pos)
       (simp add: dec_from_str_def read_print_unsigned dec_neg_def)
qed

section \<open>Arithmetic\<close>

definition dec_add :: "decimal \<Rightarrow> decimal \<Rightarrow> decimal" where
  "dec_add d e =
     (let s = max (scale d) (scale e)
      in \<lparr>mantissa = mantissa d * 10 ^ (s - scale d) + mantissa e * 10 ^ (s - scale e), scale = s\<rparr>)"

definition dec_cmp :: "decimal \<Rightarrow> decimal \<Rightarrow> ordering" where
  "dec_cmp d e =
     (let x = mantissa d * 10 ^ scale e; y = mantissa e * 10 ^ scale d
      in if x < y then Less else if x = y then Equal else Greater)"

fun strip_zeros :: "int \<Rightarrow> nat \<Rightarrow> decimal" where
  "strip_zeros m 0 = \<lparr>mantissa = m, scale = 0\<rparr>"
| "strip_zeros m (Suc s) =
     (if 10 dvd m then strip_zeros (m div 10) s else \<lparr>mantissa = m, scale = Suc s\<rparr>)"

definition dec_normalized :: "decimal \<Rightarrow> decimal" where
  "dec_normalized d = strip_zeros (mantissa d) (scale d)"

definition ref_bigdecimal :: "decimal bigdecimal" where
  "ref_bigdecimal = \<lparr>bd_from_str = dec_from_str, bd_to_string = dec_to_string, bd_add = dec_add,
     bd_neg = dec_neg, bd_cmp = dec_cmp, bd_normalized = dec_normalized\<rparr>"

lemma dec_val_strip: "dec_val (strip_zeros m s) = of_int m / 10 ^ s"
  by (induction m s rule: strip_zeros.induct) (auto simp: dec_val_def elim!: dvdE)

lemma dec_val_add: "dec_val (dec_add d e) = dec_val d + dec_val e"
proof -
  have scale: "of_int x * 10 ^ (s - k) / 10 ^ s = (of_int x / 10 ^ k :: rat)" if "k \<le> s" for x k s
    using that by (simp add: power_diff)
  show ?thesis
    by (simp add: dec_val_def dec_add_def Let_def add_divide_distrib scale)
qed

lemma dec_val_cmp: "dec_cmp d e = rat_cmp (dec_val d) (dec_val e)"
proof -
  define x y :: rat where "x = of_int (mantissa d)" and "y = of_int (mantissa e)"
  define p q :: rat where "p = 10 ^ scale d" and "q = 10 ^ scale e"
  have pq: "0 < p" "0 < q" by (simp_all add: p_def q_def)
  have xq: "of_int (mantissa d * 10 ^ scale e) = x * q" "of_int (mantissa e * 10 ^ scale d) = y * p"
    by (simp_all add: x_def y_def p_def q_def)
  have "x / p < y / q \<longleftrightarrow> x * q < y * p" "x / p = y / q \<longleftrightarrow> x * q = y * p"
    using pq by (simp_all add: field_simps)
  moreover have "mantissa d * 10 ^ scale e < mantissa e * 10 ^ scale d \<longleftrightarrow> x * q < y * p"
    unfolding xq [symmetric] by (rule of_int_less_iff [symmetric])
  moreover have "mantissa d * 10 ^ scale e = mantissa e * 10 ^ scale d \<longleftrightarrow> x * q = y * p"
    unfolding xq [symmetric] by (rule of_int_eq_iff [symmetric])
  ultimately show ?thesis
    by (simp add: dec_cmp_def rat_cmp_def Let_def dec_val_def x_def y_def p_def q_def)
qed

interpretation ref_decimal: bigdecimal_spec ref_bigdecimal dec_val
proof
  show "\<exists>z. bd_from_str ref_bigdecimal ''0.0'' = Inr z \<and> dec_val z = 0"
    by (simp add: ref_bigdecimal_def dec_from_str_def read_unsigned_def char_digit_def
        undigits_def dec_val_def)
  show "\<exists>e. bd_from_str ref_bigdecimal [] = Inl e"
    by (simp add: ref_bigdecimal_def dec_from_str_def)
qed (simp_all add: ref_bigdecimal_def dec_from_to_string dec_val_add dec_val_cmp dec_normalized_def
      dec_val_strip, simp_all add: dec_val_def dec_neg_def)

end
