(* ===== verification/Reference_Codec.thy ===== *)
theory Reference_Codec
  imports Crates
begin

text \<open>
  An executable wire format that meets \<open>proto_spec\<close>. A codec is an encoder with a decoder that
  consumes a prefix of its input; the combinators below build codecs for options, lists, pairs,
  finite maps and, through a bijection with tuples, for the records of the messages.
\<close>

record 'a codec =
  enc :: "'a \<Rightarrow> bytes"
  dec :: "bytes \<Rightarrow> ('a \<times> bytes) option"

definition codec_ok :: "'a codec \<Rightarrow> bool" where
  "codec_ok c \<longleftrightarrow> (\<forall>x rest. dec c (enc c x @ rest) = Some (x, rest))"

named_theorems codec \<open>codecs that decode what they encode\<close>

lemma codec_okD [simp]: "codec_ok c \<Longrightarrow> dec c (enc c x @ rest) = Some (x, rest)"
  by (simp add: codec_ok_def)

section \<open>Combinators\<close>

definition c_byte :: "u8 codec" where
  "c_byte = \<lparr>enc = (\<lambda>b. [b]), dec = (\<lambda>bs. case bs of [] \<Rightarrow> None | b # r \<Rightarrow> Some (b, r))\<rparr>"

definition c_unit :: "unit codec" where
  "c_unit = \<lparr>enc = (\<lambda>_. []), dec = (\<lambda>bs. Some ((), bs))\<rparr>"

definition c_pair :: "'a codec \<Rightarrow> 'b codec \<Rightarrow> ('a \<times> 'b) codec" where
  "c_pair a b =
     \<lparr>enc = (\<lambda>(x, y). enc a x @ enc b y),
      dec = (\<lambda>bs. case dec a bs of None \<Rightarrow> None
              | Some (x, r) \<Rightarrow> (case dec b r of None \<Rightarrow> None | Some (y, r') \<Rightarrow> Some ((x, y), r')))\<rparr>"

definition c_sum :: "'a codec \<Rightarrow> 'b codec \<Rightarrow> ('a + 'b) codec" where
  "c_sum a b =
     \<lparr>enc = (\<lambda>s. case s of Inl x \<Rightarrow> 0 # enc a x | Inr y \<Rightarrow> 1 # enc b y),
      dec = (\<lambda>bs. case bs of [] \<Rightarrow> None
              | t # r \<Rightarrow> if t = 0 then map_option (map_prod Inl id) (dec a r)
                        else map_option (map_prod Inr id) (dec b r))\<rparr>"

definition c_iso :: "('a \<Rightarrow> 'b) \<Rightarrow> ('b \<Rightarrow> 'a) \<Rightarrow> 'b codec \<Rightarrow> 'a codec" where
  "c_iso f g c = \<lparr>enc = enc c \<circ> f, dec = (\<lambda>bs. map_option (map_prod g id) (dec c bs))\<rparr>"

definition c_option :: "'a codec \<Rightarrow> 'a option codec" where
  "c_option c = c_iso (\<lambda>x. case x of None \<Rightarrow> Inl () | Some y \<Rightarrow> Inr y)
                      (\<lambda>s. case s of Inl _ \<Rightarrow> None | Inr y \<Rightarrow> Some y) (c_sum c_unit c)"

text \<open>A list is its elements, each after the byte 1, and the byte 0. The decoder recurses on the
  number of bytes left.\<close>

fun dec_list :: "'a codec \<Rightarrow> nat \<Rightarrow> bytes \<Rightarrow> ('a list \<times> bytes) option" where
  "dec_list c 0 bs = None"
| "dec_list c (Suc n) bs =
     (case bs of [] \<Rightarrow> None
      | t # r \<Rightarrow>
          if t = 0 then Some ([], r)
          else case dec c r of None \<Rightarrow> None
            | Some (x, r') \<Rightarrow> map_option (map_prod (Cons x) id) (dec_list c n r'))"

definition c_list :: "'a codec \<Rightarrow> 'a list codec" where
  "c_list c =
     \<lparr>enc = (\<lambda>xs. concat (map (\<lambda>x. 1 # enc c x) xs) @ [0]),
      dec = (\<lambda>bs. dec_list c (length bs) bs)\<rparr>"

definition c_string :: "string codec" where
  "c_string = c_iso as_bytes (map char_of_byte) (c_list c_byte)"

definition c_u64 :: "u64 codec" where
  "c_u64 = \<lparr>enc = be_bytes,
     dec = (\<lambda>bs. if length bs < 8 then None
             else Some (of_nat (be_nat (take 8 bs)), drop 8 bs))\<rparr>"

definition fmap_to_list :: "('k::linorder, 'v) fmap \<Rightarrow> ('k \<times> 'v) list" where
  "fmap_to_list m = map (\<lambda>k. (k, the (fmlookup m k))) (sorted_list_of_fset (fmdom m))"

definition c_fmap :: "(string \<times> string) list codec \<Rightarrow> (string, string) fmap codec" where
  "c_fmap c = c_iso fmap_to_list fmap_of_list c"

lemma codec_byte [codec]: "codec_ok c_byte" and codec_unit [codec]: "codec_ok c_unit"
  by (simp_all add: codec_ok_def c_byte_def c_unit_def)

lemma codec_pair [codec]: "codec_ok a \<Longrightarrow> codec_ok b \<Longrightarrow> codec_ok (c_pair a b)"
  by (auto simp: codec_ok_def c_pair_def)

lemma codec_sum [codec]: "codec_ok a \<Longrightarrow> codec_ok b \<Longrightarrow> codec_ok (c_sum a b)"
  by (auto simp: codec_ok_def c_sum_def split: sum.splits)

lemma codec_iso: "codec_ok c \<Longrightarrow> (\<And>x. g (f x) = x) \<Longrightarrow> codec_ok (c_iso f g c)"
  by (auto simp: codec_ok_def c_iso_def)

lemma codec_option [codec]: "codec_ok c \<Longrightarrow> codec_ok (c_option c)"
  unfolding c_option_def by (rule codec_iso) (auto intro: codec split: option.splits)

lemma dec_list_enc:
  assumes "codec_ok c" "length (concat (map (\<lambda>x. 1 # enc c x) xs) @ 0 # rest) \<le> n"
  shows "dec_list c n (concat (map (\<lambda>x. 1 # enc c x) xs) @ 0 # rest) = Some (xs, rest)"
  using assms(2)
proof (induction xs arbitrary: n)
  case Nil
  then show ?case by (cases n) simp_all
next
  case (Cons x xs)
  then obtain m where "n = Suc m" by (cases n) auto
  with Cons assms(1) show ?case by simp
qed

lemma codec_list [codec]: "codec_ok c \<Longrightarrow> codec_ok (c_list c)"
  unfolding codec_ok_def [of "c_list c"]
  by (simp add: c_list_def dec_list_enc del: dec_list.simps)

lemma codec_string [codec]: "codec_ok c_string"
  unfolding c_string_def by (rule codec_iso) (simp_all add: codec as_bytes_def comp_def)

lemma codec_u64 [codec]: "codec_ok c_u64"
  by (simp add: codec_ok_def c_u64_def)

lemma fmap_of_to_list [simp]: "fmap_of_list (fmap_to_list m) = m"
proof (rule fmap_ext)
  fix k
  show "fmlookup (fmap_of_list (fmap_to_list m)) k = fmlookup m k"
    by (auto simp: fmap_to_list_def fmlookup_of_list map_of_map_restrict restrict_map_def
        fmlookup_dom_iff comp_def dest: fmdom_notD)
qed

lemma codec_fmap [codec]: "codec_ok c \<Longrightarrow> codec_ok (c_fmap c)"
  unfolding c_fmap_def by (rule codec_iso) simp_all

section \<open>Messages\<close>

definition c_balance_limit :: "balance_limit codec" where
  "c_balance_limit =
     c_iso (\<lambda>r. (bl_upper r, bl_lower r)) (\<lambda>(x0, x1). \<lparr>bl_upper = x0,
     bl_lower = x1\<rparr>) (c_pair c_string c_string)"

definition c_asset_class :: "asset_class codec" where
  "c_asset_class =
     c_iso (\<lambda>r. ac_asset_class r) (\<lambda>x0. \<lparr>ac_asset_class = x0\<rparr>)
     (c_option (c_iso currency Cash c_string))"

definition c_account_config :: "account_config codec" where
  "c_account_config =
     c_iso (\<lambda>r. (cfg_balance_limit r, cfg_asset_class r)) (\<lambda>(x0, x1).
     \<lparr>cfg_balance_limit = x0, cfg_asset_class = x1\<rparr>) (c_pair (c_option
     c_balance_limit) (c_option c_asset_class))"

definition c_balance :: "balance codec" where
  "c_balance =
     c_iso (\<lambda>r. (available r, reservations r)) (\<lambda>(x0, x1). \<lparr>available = x0,
     reservations = x1\<rparr>) (c_pair c_string (c_fmap (c_list (c_pair c_string c_string))))"

definition c_account_state :: "account_state codec" where
  "c_account_state =
     c_iso (\<lambda>s. case s of InvalidState \<Rightarrow> 0 | Deleted \<Rightarrow> 1 | Locked \<Rightarrow> 2 | Normal \<Rightarrow> 3)
       (\<lambda>b. if b = 0 then InvalidState else if b = 1 then Deleted else if b = 2 then Locked else Normal)
       c_byte"

definition c_account :: "account codec" where
  "c_account =
     c_iso (\<lambda>r. (acc_config r, acc_balance r, acc_state r, acc_account_id r))
     (\<lambda>(x0, x1, x2, x3). \<lparr>acc_config = x0, acc_balance = x1, acc_state = x2,
     acc_account_id = x3\<rparr>) (c_pair (c_option c_account_config) (c_pair (c_option c_balance)
     (c_pair c_account_state c_string)))"

definition c_response_header :: "response_header codec" where
  "c_response_header =
     c_iso (\<lambda>r. (rh_seq_num r, rh_log_index r, rh_offset r)) (\<lambda>(x0, x1, x2).
     \<lparr>rh_seq_num = x0, rh_log_index = x1, rh_offset = x2\<rparr>) (c_pair c_u64 (c_pair
     c_u64 c_u64))"

definition c_error_oneof :: "error_oneof codec" where
  "c_error_oneof =
     c_iso (\<lambda>p. case p of NotLeader x \<Rightarrow> Inl x | OtherError x \<Rightarrow> Inr
     x) (\<lambda>r0. case r0 of Inl x \<Rightarrow> NotLeader x | Inr r1 \<Rightarrow> OtherError
     r1) (c_sum c_string c_string)"

definition c_error :: "error_pb codec" where
  "c_error =
     c_iso (\<lambda>r. er_error r) (\<lambda>x0. \<lparr>er_error = x0\<rparr>) (c_option
     c_error_oneof)"

definition c_balance_change :: "balance_change codec" where
  "c_balance_change =
     c_iso (\<lambda>r. (bc_account_id r, bc_prev_balance r, bc_curr_balance r)) (\<lambda>(x0,
     x1, x2). \<lparr>bc_account_id = x0, bc_prev_balance = x1, bc_curr_balance = x2\<rparr>)
     (c_pair c_string (c_pair (c_option c_balance) (c_option c_balance)))"

definition c_transfer_spec :: "transfer_spec codec" where
  "c_transfer_spec =
     c_iso (\<lambda>r. (ts_amount r, ts_from_account_id r, ts_to_account_id r, ts_metadata r))
     (\<lambda>(x0, x1, x2, x3). \<lparr>ts_amount = x0, ts_from_account_id = x1, ts_to_account_id
     = x2, ts_metadata = x3\<rparr>) (c_pair c_string (c_pair c_string (c_pair c_string
     c_string)))"

definition c_transfer_request :: "transfer_request codec" where
  "c_transfer_request =
     c_iso (\<lambda>r. (tr_dedup_id r, tr_transfer_spec r)) (\<lambda>(x0, x1).
     \<lparr>tr_dedup_id = x0, tr_transfer_spec = x1\<rparr>) (c_pair c_string (c_option
     c_transfer_spec))"

definition c_transfer_response :: "transfer_response codec" where
  "c_transfer_response =
     c_iso (\<lambda>r. (trr_error r, trr_header r, trr_request r, trr_from r, trr_to r))
     (\<lambda>(x0, x1, x2, x3, x4). \<lparr>trr_error = x0, trr_header = x1, trr_request = x2,
     trr_from = x3, trr_to = x4\<rparr>) (c_pair (c_option c_error) (c_pair (c_option
     c_response_header) (c_pair (c_option c_transfer_request) (c_pair (c_option c_balance_change)
     (c_option c_balance_change)))))"

definition c_balance_operation_spec :: "balance_operation_spec codec" where
  "c_balance_operation_spec =
     c_iso (\<lambda>r. (bos_account_id r, bos_amount r)) (\<lambda>(x0, x1).
     \<lparr>bos_account_id = x0, bos_amount = x1\<rparr>) (c_pair c_string c_string)"

definition c_batch_request :: "batch_balance_operation_request codec" where
  "c_batch_request =
     c_iso (\<lambda>r. (bbo_dedup_id r, bbo_balance_operation_spec r)) (\<lambda>(x0, x1).
     \<lparr>bbo_dedup_id = x0, bbo_balance_operation_spec = x1\<rparr>) (c_pair c_string (c_list
     c_balance_operation_spec))"

definition c_batch_response :: "batch_balance_operation_response codec" where
  "c_batch_response =
     c_iso (\<lambda>r. (bbor_error r, bbor_header r, bbor_request r, bbor_balance_changes r))
     (\<lambda>(x0, x1, x2, x3). \<lparr>bbor_error = x0, bbor_header = x1, bbor_request = x2,
     bbor_balance_changes = x3\<rparr>) (c_pair (c_option c_error) (c_pair (c_option
     c_response_header) (c_pair (c_option c_batch_request) (c_list c_balance_change))))"

definition c_reserve_request :: "reserve_request codec" where
  "c_reserve_request =
     c_iso (\<lambda>r. (rsv_dedup_id r, rsv_reservation_id r, rsv_account_id r, rsv_amount r))
     (\<lambda>(x0, x1, x2, x3). \<lparr>rsv_dedup_id = x0, rsv_reservation_id = x1,
     rsv_account_id = x2, rsv_amount = x3\<rparr>) (c_pair c_string (c_pair c_string (c_pair
     c_string c_string)))"

definition c_reserve_response :: "reserve_response codec" where
  "c_reserve_response =
     c_iso (\<lambda>r. (rsvr_error r, rsvr_header r, rsvr_request r, rsvr_prev_balance r,
     rsvr_curr_balance r)) (\<lambda>(x0, x1, x2, x3, x4). \<lparr>rsvr_error = x0, rsvr_header =
     x1, rsvr_request = x2, rsvr_prev_balance = x3, rsvr_curr_balance = x4\<rparr>) (c_pair
     (c_option c_error) (c_pair (c_option c_response_header) (c_pair (c_option c_reserve_request)
     (c_pair (c_option c_balance) (c_option c_balance)))))"

definition c_release_request :: "release_request codec" where
  "c_release_request =
     c_iso (\<lambda>r. (rls_dedup_id r, rls_reservation_id r, rls_amount r, rls_account_id r))
     (\<lambda>(x0, x1, x2, x3). \<lparr>rls_dedup_id = x0, rls_reservation_id = x1, rls_amount =
     x2, rls_account_id = x3\<rparr>) (c_pair c_string (c_pair c_string (c_pair c_string
     c_string)))"

definition c_release_response :: "release_response codec" where
  "c_release_response =
     c_iso (\<lambda>r. (rlsr_error r, rlsr_header r, rlsr_request r, rlsr_prev_balance r,
     rlsr_curr_balance r)) (\<lambda>(x0, x1, x2, x3, x4). \<lparr>rlsr_error = x0, rlsr_header =
     x1, rlsr_request = x2, rlsr_prev_balance = x3, rlsr_curr_balance = x4\<rparr>) (c_pair
     (c_option c_error) (c_pair (c_option c_response_header) (c_pair (c_option c_release_request)
     (c_pair (c_option c_balance) (c_option c_balance)))))"

definition c_request_header :: "request_header codec" where
  "c_request_header =
     c_iso (\<lambda>r. (hd_dedup_id r, hd_account_id r)) (\<lambda>(x0, x1). \<lparr>hd_dedup_id
     = x0, hd_account_id = x1\<rparr>) (c_pair c_string c_string)"

definition c_create_request :: "create_account_request codec" where
  "c_create_request =
     c_iso (\<lambda>r. (car_header r, car_account_config r)) (\<lambda>(x0, x1).
     \<lparr>car_header = x0, car_account_config = x1\<rparr>) (c_pair (c_option c_request_header)
     (c_option c_account_config))"

definition c_delete_request :: "delete_account_request codec" where
  "c_delete_request =
     c_iso (\<lambda>r. dar_header r) (\<lambda>x0. \<lparr>dar_header = x0\<rparr>) (c_option
     c_request_header)"

definition c_lock_request :: "lock_account_request codec" where
  "c_lock_request =
     c_iso (\<lambda>r. lar_header r) (\<lambda>x0. \<lparr>lar_header = x0\<rparr>) (c_option
     c_request_header)"

definition c_unlock_request :: "unlock_account_request codec" where
  "c_unlock_request =
     c_iso (\<lambda>r. uar_header r) (\<lambda>x0. \<lparr>uar_header = x0\<rparr>) (c_option
     c_request_header)"

definition c_update_request :: "update_account_config_request codec" where
  "c_update_request =
     c_iso (\<lambda>r. (ucr_header r, ucr_balance_limit r)) (\<lambda>(x0, x1).
     \<lparr>ucr_header = x0, ucr_balance_limit = x1\<rparr>) (c_pair (c_option c_request_header)
     (c_option c_balance_limit))"

definition c_account_response :: "'req codec \<Rightarrow> 'req account_response codec" where
  "c_account_response c =
     c_iso (\<lambda>r. (ar_error r, ar_header r, ar_request r, ar_account r)) (\<lambda>(x0, x1,
     x2, x3). \<lparr>ar_error = x0, ar_header = x1, ar_request = x2, ar_account = x3\<rparr>)
     (c_pair (c_option c_error) (c_pair (c_option c_response_header) (c_pair (c_option c)
     (c_option c_account))))"

definition c_command_header :: "command_header codec" where
  "c_command_header =
     c_iso (\<lambda>r. (ch_command_id r, ch_process_time_in_sec r)) (\<lambda>(x0, x1).
     \<lparr>ch_command_id = x0, ch_process_time_in_sec = x1\<rparr>) (c_pair c_string c_u64)"

definition c_event_header :: "event_header codec" where
  "c_event_header =
     c_iso (\<lambda>r. (eh_seq_num r, eh_log_index r, eh_offset r, eh_command_id r,
     eh_process_time_in_sec r)) (\<lambda>(x0, x1, x2, x3, x4). \<lparr>eh_seq_num = x0,
     eh_log_index = x1, eh_offset = x2, eh_command_id = x3, eh_process_time_in_sec = x4\<rparr>)
     (c_pair c_u64 (c_pair c_u64 (c_pair c_u64 (c_pair c_string c_u64))))"

definition c_command_payload :: "command_payload codec" where
  "c_command_payload =
     c_iso (\<lambda>p. case p of transfer_request x \<Rightarrow> Inl x |
     batch_balance_operation_request x \<Rightarrow> Inr (Inl x) | reserve_request x \<Rightarrow>
     Inr (Inr (Inl x)) | release_request x \<Rightarrow> Inr (Inr (Inr (Inl x))) |
     create_account_request x \<Rightarrow> Inr (Inr (Inr (Inr (Inl x)))) | delete_account_request
     x \<Rightarrow> Inr (Inr (Inr (Inr (Inr (Inl x))))) | lock_account_request x \<Rightarrow>
     Inr (Inr (Inr (Inr (Inr (Inr (Inl x)))))) | unlock_account_request x \<Rightarrow> Inr (Inr
     (Inr (Inr (Inr (Inr (Inr (Inl x))))))) | update_account_config_request x \<Rightarrow> Inr
     (Inr (Inr (Inr (Inr (Inr (Inr (Inr x)))))))) (\<lambda>r0. case r0 of Inl x \<Rightarrow>
     transfer_request x | Inr r1 \<Rightarrow> case r1 of Inl x \<Rightarrow>
     batch_balance_operation_request x | Inr r2 \<Rightarrow> case r2 of Inl x \<Rightarrow>
     reserve_request x | Inr r3 \<Rightarrow> case r3 of Inl x \<Rightarrow> release_request x |
     Inr r4 \<Rightarrow> case r4 of Inl x \<Rightarrow> create_account_request x | Inr r5
     \<Rightarrow> case r5 of Inl x \<Rightarrow> delete_account_request x | Inr r6 \<Rightarrow>
     case r6 of Inl x \<Rightarrow> lock_account_request x | Inr r7 \<Rightarrow> case r7 of Inl x
     \<Rightarrow> unlock_account_request x | Inr r8 \<Rightarrow> update_account_config_request
     r8) (c_sum c_transfer_request (c_sum c_batch_request (c_sum c_reserve_request (c_sum
     c_release_request (c_sum c_create_request (c_sum c_delete_request (c_sum c_lock_request
     (c_sum c_unlock_request c_update_request))))))))"

definition c_event_payload :: "event_payload codec" where
  "c_event_payload =
     c_iso (\<lambda>p. case p of transfer_event x \<Rightarrow> Inl x |
     batch_balance_operation_event x \<Rightarrow> Inr (Inl x) | reserve_event x \<Rightarrow> Inr
     (Inr (Inl x)) | release_event x \<Rightarrow> Inr (Inr (Inr (Inl x))) | account_created_event
     x \<Rightarrow> Inr (Inr (Inr (Inr (Inl x)))) | account_deleted_event x \<Rightarrow> Inr
     (Inr (Inr (Inr (Inr (Inl x))))) | account_locked_event x \<Rightarrow> Inr (Inr (Inr (Inr
     (Inr (Inr (Inl x)))))) | account_unlock_event x \<Rightarrow> Inr (Inr (Inr (Inr (Inr (Inr
     (Inr (Inl x))))))) | account_config_update_event x \<Rightarrow> Inr (Inr (Inr (Inr (Inr (Inr
     (Inr (Inr x)))))))) (\<lambda>r0. case r0 of Inl x \<Rightarrow> transfer_event x | Inr r1
     \<Rightarrow> case r1 of Inl x \<Rightarrow> batch_balance_operation_event x | Inr r2
     \<Rightarrow> case r2 of Inl x \<Rightarrow> reserve_event x | Inr r3 \<Rightarrow> case r3
     of Inl x \<Rightarrow> release_event x | Inr r4 \<Rightarrow> case r4 of Inl x \<Rightarrow>
     account_created_event x | Inr r5 \<Rightarrow> case r5 of Inl x \<Rightarrow>
     account_deleted_event x | Inr r6 \<Rightarrow> case r6 of Inl x \<Rightarrow>
     account_locked_event x | Inr r7 \<Rightarrow> case r7 of Inl x \<Rightarrow>
     account_unlock_event x | Inr r8 \<Rightarrow> account_config_update_event r8) (c_sum
     (c_option c_transfer_response) (c_sum (c_option c_batch_response) (c_sum (c_option
     c_reserve_response) (c_sum (c_option c_release_response) (c_sum (c_option (c_account_response
     c_create_request)) (c_sum (c_option (c_account_response c_delete_request)) (c_sum (c_option
     (c_account_response c_lock_request)) (c_sum (c_option (c_account_response c_unlock_request))
     (c_option (c_account_response c_update_request))))))))))"

definition c_command :: "command codec" where
  "c_command =
     c_iso (\<lambda>r. (cmd_header r, cmd_payload r)) (\<lambda>(x0, x1). \<lparr>cmd_header =
     x0, cmd_payload = x1\<rparr>) (c_pair (c_option c_command_header) (c_option (c_option
     c_command_payload)))"

definition c_event :: "event codec" where
  "c_event =
     c_iso (\<lambda>r. (ev_header r, ev_payload r)) (\<lambda>(x0, x1). \<lparr>ev_header = x0,
     ev_payload = x1\<rparr>) (c_pair (c_option c_event_header) (c_option (c_option
     c_event_payload)))"

lemma codec_asset_oneof [codec]: "codec_ok (c_iso currency Cash c_string)"
  by (rule codec_iso) (simp_all add: codec)

lemma codec_balance_limit [codec]: "codec_ok c_balance_limit"
  unfolding c_balance_limit_def by (rule codec_iso) (auto intro!: codec)

lemma codec_asset_class [codec]: "codec_ok c_asset_class"
  unfolding c_asset_class_def by (rule codec_iso) (auto intro!: codec)

lemma codec_account_config [codec]: "codec_ok c_account_config"
  unfolding c_account_config_def by (rule codec_iso) (auto intro!: codec)

lemma codec_balance [codec]: "codec_ok c_balance"
  unfolding c_balance_def by (rule codec_iso) (auto intro!: codec)

lemma codec_account_state [codec]: "codec_ok c_account_state"
  unfolding c_account_state_def by (rule codec_iso) (auto intro!: codec split: account_state.split)

lemma codec_account [codec]: "codec_ok c_account"
  unfolding c_account_def by (rule codec_iso) (auto intro!: codec)

lemma codec_response_header [codec]: "codec_ok c_response_header"
  unfolding c_response_header_def by (rule codec_iso) (auto intro!: codec)

lemma codec_error_oneof [codec]: "codec_ok c_error_oneof"
  unfolding c_error_oneof_def by (rule codec_iso) (auto intro!: codec split: error_oneof.split)

lemma codec_error [codec]: "codec_ok c_error"
  unfolding c_error_def by (rule codec_iso) (auto intro!: codec)

lemma codec_balance_change [codec]: "codec_ok c_balance_change"
  unfolding c_balance_change_def by (rule codec_iso) (auto intro!: codec)

lemma codec_transfer_spec [codec]: "codec_ok c_transfer_spec"
  unfolding c_transfer_spec_def by (rule codec_iso) (auto intro!: codec)

lemma codec_transfer_request [codec]: "codec_ok c_transfer_request"
  unfolding c_transfer_request_def by (rule codec_iso) (auto intro!: codec)

lemma codec_transfer_response [codec]: "codec_ok c_transfer_response"
  unfolding c_transfer_response_def by (rule codec_iso) (auto intro!: codec)

lemma codec_balance_operation_spec [codec]: "codec_ok c_balance_operation_spec"
  unfolding c_balance_operation_spec_def by (rule codec_iso) (auto intro!: codec)

lemma codec_batch_request [codec]: "codec_ok c_batch_request"
  unfolding c_batch_request_def by (rule codec_iso) (auto intro!: codec)

lemma codec_batch_response [codec]: "codec_ok c_batch_response"
  unfolding c_batch_response_def by (rule codec_iso) (auto intro!: codec)

lemma codec_reserve_request [codec]: "codec_ok c_reserve_request"
  unfolding c_reserve_request_def by (rule codec_iso) (auto intro!: codec)

lemma codec_reserve_response [codec]: "codec_ok c_reserve_response"
  unfolding c_reserve_response_def by (rule codec_iso) (auto intro!: codec)

lemma codec_release_request [codec]: "codec_ok c_release_request"
  unfolding c_release_request_def by (rule codec_iso) (auto intro!: codec)

lemma codec_release_response [codec]: "codec_ok c_release_response"
  unfolding c_release_response_def by (rule codec_iso) (auto intro!: codec)

lemma codec_request_header [codec]: "codec_ok c_request_header"
  unfolding c_request_header_def by (rule codec_iso) (auto intro!: codec)

lemma codec_create_request [codec]: "codec_ok c_create_request"
  unfolding c_create_request_def by (rule codec_iso) (auto intro!: codec)

lemma codec_delete_request [codec]: "codec_ok c_delete_request"
  unfolding c_delete_request_def by (rule codec_iso) (auto intro!: codec)

lemma codec_lock_request [codec]: "codec_ok c_lock_request"
  unfolding c_lock_request_def by (rule codec_iso) (auto intro!: codec)

lemma codec_unlock_request [codec]: "codec_ok c_unlock_request"
  unfolding c_unlock_request_def by (rule codec_iso) (auto intro!: codec)

lemma codec_update_request [codec]: "codec_ok c_update_request"
  unfolding c_update_request_def by (rule codec_iso) (auto intro!: codec)

lemma codec_account_response [codec]: "codec_ok c \<Longrightarrow> codec_ok (c_account_response c)"
  unfolding c_account_response_def by (rule codec_iso) (auto intro!: codec)

lemma codec_command_header [codec]: "codec_ok c_command_header"
  unfolding c_command_header_def by (rule codec_iso) (auto intro!: codec)

lemma codec_event_header [codec]: "codec_ok c_event_header"
  unfolding c_event_header_def by (rule codec_iso) (auto intro!: codec)

lemma codec_command_payload [codec]: "codec_ok c_command_payload"
  unfolding c_command_payload_def by (rule codec_iso) (auto intro!: codec split: command_payload.split)

lemma codec_event_payload [codec]: "codec_ok c_event_payload"
  unfolding c_event_payload_def by (rule codec_iso) (auto intro!: codec split: event_payload.split)

lemma codec_command [codec]: "codec_ok c_command"
  unfolding c_command_def by (rule codec_iso) (auto intro!: codec)

lemma codec_event [codec]: "codec_ok c_event"
  unfolding c_event_def by (rule codec_iso) (auto intro!: codec)

section \<open>The package\<close>

definition ref_proto :: wallet_proto where
  "ref_proto =
     \<lparr>pb_account_write = enc c_account, pb_account_parse = (\<lambda>bs. map_option fst (dec c_account bs)),
      pb_event_write = enc c_event, pb_event_parse = (\<lambda>bs. map_option fst (dec c_event bs)),
      pb_command_write = enc c_command, pb_command_parse = (\<lambda>bs. map_option fst (dec c_command bs))\<rparr>"

lemma dec_enc_exact: "codec_ok c \<Longrightarrow> dec c (enc c x) = Some (x, [])"
  using codec_okD [of c x "[]"] by simp

interpretation ref_proto: proto_spec ref_proto
  by unfold_locales (simp_all add: ref_proto_def dec_enc_exact codec)

end
