(* ===== verification/Reference_Crates.thy ===== *)
theory Reference_Crates
  imports Reference_Decimal Reference_Codec
begin

text \<open>
  Executable stand-ins for all third-party packages: the database is an association list, the
  big-endian codec is \<open>be_bytes\<close>. \<open>ref_crates\<close> meets \<open>crates_spec\<close>, so the hypotheses the
  theorems make about the packages can hold together, and concrete runs compute with it.
\<close>

type_synonym ref_db = "(bytes \<times> bytes) list"

fun ref_apply :: "wb_op \<Rightarrow> ref_db \<Rightarrow> ref_db" where
  "ref_apply (WbPut k v) db = (k, v) # filter (\<lambda>e. fst e \<noteq> k) db"
| "ref_apply (WbDelete k) db = filter (\<lambda>e. fst e \<noteq> k) db"

definition ref_iter :: "ref_db \<Rightarrow> bytes option \<Rightarrow> bytes option \<Rightarrow> bytes \<Rightarrow> (bytes \<times> bytes) list" where
  "ref_iter db lower upper seek =
     map (\<lambda>k. (k, the (map_of db k)))
       (filter (in_bounds lower upper seek) (sort (remdups (map fst db))))"

definition ref_rocksdb :: "ref_db rocksdb" where
  "ref_rocksdb = \<lparr>rdb_get = map_of, rdb_write = (\<lambda>db ops. fold ref_apply ops db),
     rdb_iter = ref_iter\<rparr>"

definition ref_byteorder :: byteorder where
  "ref_byteorder = \<lparr>bo_write_u64 = be_bytes,
     bo_read_u64 = (\<lambda>bs. if length bs < 8 then None else Some (of_nat (be_nat (take 8 bs))))\<rparr>"

definition ref_crates :: "(decimal, ref_db) crates" where
  "ref_crates = \<lparr>c_bigdecimal = ref_bigdecimal, c_byteorder = ref_byteorder,
     c_rocksdb = ref_rocksdb, c_proto = ref_proto\<rparr>"

lemma map_of_filter_ne: "map_of (filter (\<lambda>e. fst e \<noteq> k) db) = (map_of db)(k := None)"
  by (induction db) auto

lemma map_of_ref_apply: "map_of (ref_apply op db) = apply_op op (map_of db)"
  by (cases op) (simp_all add: map_of_filter_ne)

lemma map_of_fold_ref_apply: "map_of (fold ref_apply ops db) = apply_ops ops (map_of db)"
  by (induction ops arbitrary: db) (simp_all add: map_of_ref_apply)

lemma set_ref_iter:
  "(k, v) \<in> set (ref_iter db lower upper seek) \<longleftrightarrow>
     map_of db k = Some v \<and> in_bounds lower upper seek k"
proof -
  have "k \<in> fst ` set db \<longleftrightarrow> (\<exists>w. map_of db k = Some w)"
    by (metis dom_map_of_conv_image_fst domIff not_None_eq)
  then show ?thesis by (auto simp: ref_iter_def)
qed

interpretation ref_byteorder: byteorder_spec ref_byteorder
  by unfold_locales (simp_all add: ref_byteorder_def)

interpretation ref_rocksdb: rocksdb_spec ref_rocksdb map_of
proof
  fix db :: ref_db and lower upper seek
  show "set (rdb_iter ref_rocksdb db lower upper seek) =
      {(k, v). map_of db k = Some v \<and> in_bounds lower upper seek k}"
    by (rule set_eqI) (auto simp: ref_rocksdb_def set_ref_iter)
  have "sorted_wrt (<) (sort (remdups (map fst db)))"
    by (simp add: strict_sorted_iff)
  then show "sorted_wrt (<) (map fst (rdb_iter ref_rocksdb db lower upper seek))"
    by (simp add: ref_rocksdb_def ref_iter_def comp_def sorted_wrt_filter)
qed (simp_all add: ref_rocksdb_def map_of_fold_ref_apply)

interpretation ref: crates_spec ref_crates dec_val map_of
  by (rule crates_specI)
     (simp_all add: ref_crates_def ref_decimal.bigdecimal_spec_axioms
       ref_byteorder.byteorder_spec_axioms ref_rocksdb.rocksdb_spec_axioms
       ref_proto.proto_spec_axioms)

lemmas ref_crates = ref.crates_spec_axioms

end
