(* ===== verification/State_Machine_Inv.thy ===== *)
theory State_Machine_Inv
  imports State_Machine Reference_Crates
begin

text \<open>
  The invariant of the state machine and its preservation. \<open>W\<close> is the database as it will be once
  the write batch is flushed, \<open>D\<close> the database as it is. The memory agrees with \<open>W\<close>: accounts,
  deduplication entries and events; accounts that were deleted since the last flush stay in
  memory as tombstones and are gone from \<open>W\<close>.
\<close>

section \<open>The effect of a handler\<close>

datatype account_write = Upd account | Del account

fun do_write :: "('d, 'db) crates \<Rightarrow> account_write \<Rightarrow> 'db app \<Rightarrow> 'db app" where
  "do_write C (Upd a) app = update_account C a app"
| "do_write C (Del a) app = delete_account a app"

fun written :: "account_write \<Rightarrow> account" where
  "written (Upd a) = a"
| "written (Del a) = a"

text \<open>The account identifiers a request brings in, and requests whose strings are UTF-8.\<close>

fun payload_ids :: "command_payload \<Rightarrow> string list" where
  "payload_ids (transfer_request r) =
     [ts_from_account_id (get_transfer_spec r), ts_to_account_id (get_transfer_spec r)]"
| "payload_ids (batch_balance_operation_request r) =
     map bos_account_id (bbo_balance_operation_spec r)"
| "payload_ids (reserve_request r) = [rsv_account_id r]"
| "payload_ids (release_request r) = [rls_account_id r]"
| "payload_ids (create_account_request r) = [hd_account_id (get_header (car_header r))]"
| "payload_ids (delete_account_request r) = [hd_account_id (get_header (dar_header r))]"
| "payload_ids (lock_account_request r) = [hd_account_id (get_header (lar_header r))]"
| "payload_ids (unlock_account_request r) = [hd_account_id (get_header (uar_header r))]"
| "payload_ids (update_account_config_request r) = [hd_account_id (get_header (ucr_header r))]"

definition payload_utf8 :: "command_payload \<Rightarrow> bool" where
  "payload_utf8 p \<longleftrightarrow> (\<forall>i \<in> set (payload_ids p). utf8_string i)"

text \<open>A configuration update of an account that has been deleted since the last flush.\<close>

fun updates_deleted :: "'db state_machine \<Rightarrow> command_payload \<Rightarrow> bool" where
  "updates_deleted sm (update_account_config_request r) =
     (case fmlookup (sm_accounts sm) (hd_account_id (get_header (ucr_header r))) of
        Some a \<Rightarrow> acc_state a = Deleted | None \<Rightarrow> False)"
| "updates_deleted sm _ = False"

definition accounts_ok :: "(string \<Rightarrow> rat option) \<Rightarrow> (string, account) fmap \<Rightarrow> bool" where
  "accounts_ok sval accs \<longleftrightarrow>
     (\<forall>i a. fmlookup accs i = Some a \<longrightarrow>
        acc_account_id a = i \<and> utf8_string i \<and> wf_account sval a \<and>
        (acc_state a = Deleted \<longrightarrow> account_total sval a = 0))"

text \<open>What a handler may write: a live account that is no tombstone, or the tombstone itself.\<close>

fun write_ok :: "(string \<Rightarrow> rat option) \<Rightarrow> (string, account) fmap \<Rightarrow> account_write \<Rightarrow> bool" where
  "write_ok sval accs (Upd a) \<longleftrightarrow>
     utf8_string (acc_account_id a) \<and> wf_account sval a \<and> acc_state a \<noteq> Deleted \<and>
     (\<forall>old. fmlookup accs (acc_account_id a) = Some old \<longrightarrow> acc_state old \<noteq> Deleted)"
| "write_ok sval accs (Del a) \<longleftrightarrow>
     utf8_string (acc_account_id a) \<and> wf_account sval a \<and> acc_state a = Deleted \<and>
     account_total sval a = 0"

definition writes_ok :: "(string \<Rightarrow> rat option) \<Rightarrow> (string, account) fmap \<Rightarrow> account_write list \<Rightarrow> bool" where
  "writes_ok sval accs ws \<longleftrightarrow>
     (\<forall>w \<in> set ws. write_ok sval accs w) \<and> ((\<forall>w \<in> set ws. \<exists>a. w = Upd a) \<or> (\<exists>a. ws = [Del a]))"

lemma app_ops_simps [simp]:
  "sm_last_seq_num (fst (do_write C w app)) = sm_last_seq_num (fst app)"
  "sm_last_seq_num (fst (next_seq_num app)) = sm_last_seq_num (fst app) + 1"
  "sm_accounts (fst (next_seq_num app)) = sm_accounts (fst app)"
  "sm_accounts (fst (do_write C w app)) =
     fmupd (acc_account_id (written w)) (written w) (sm_accounts (fst app))"
  by (cases w; cases app; simp add: update_account_def delete_account_def next_seq_num_def Let_def)+

lemma fold_do_write_seq [simp]:
  "sm_last_seq_num (fst (fold (do_write C) ws app)) = sm_last_seq_num (fst app)"
  by (induction ws arbitrary: app) simp_all

lemma update_account_write: "update_account C = (\<lambda>a. do_write C (Upd a))"
  by (simp add: fun_eq_iff)

lemma fold_update_account:
  "fold (update_account C) as app = fold (do_write C) (map Upd as) app"
  by (induction as arbitrary: app) simp_all

section \<open>Every handler is a list of writes\<close>

text \<open>A handler fails and changes nothing, or counts one event and writes accounts. It does not
  panic.\<close>

definition handler_effect ::
    "('d, 'db) crates \<Rightarrow> (string \<Rightarrow> rat option) \<Rightarrow> 'db app \<Rightarrow> command_payload \<Rightarrow>
     event general_result \<times> 'db app \<Rightarrow> bool" where
  "handler_effect C sval app p out \<longleftrightarrow>
     (\<exists>e. out = (Err e, app)) \<or>
     (\<exists>ws q. out = (Ok (event_of_payload q), fold (do_write C) ws (next_seq_num app)) \<and>
        kinds_match p q \<and>
        (\<not> updates_deleted (fst app) p \<longrightarrow> writes_ok sval (sm_accounts (fst app)) ws))"

lemma effect_Err [intro]: "handler_effect C sval app p (Err e, app)"
  by (simp add: handler_effect_def)

lemma effect_Upds:
  "kinds_match p q \<Longrightarrow>
   (\<not> updates_deleted (fst app) p \<Longrightarrow> \<forall>a \<in> set as. write_ok sval (sm_accounts (fst app)) (Upd a)) \<Longrightarrow>
   handler_effect C sval app p (Ok (event_of_payload q), fold (update_account C) as (next_seq_num app))"
  unfolding handler_effect_def fold_update_account
  by (intro disjI2 exI [of _ "map Upd as"] exI [of _ q]) (auto simp: writes_ok_def)

lemma effect_Upd:
  "kinds_match p q \<Longrightarrow>
   (\<not> updates_deleted (fst app) p \<Longrightarrow> write_ok sval (sm_accounts (fst app)) (Upd a)) \<Longrightarrow>
   handler_effect C sval app p (Ok (event_of_payload q), update_account C a (next_seq_num app))"
  using effect_Upds [of p q app "[a]" sval C] by simp

lemma effect_Upd2:
  "kinds_match p q \<Longrightarrow>
   (\<not> updates_deleted (fst app) p \<Longrightarrow>
     write_ok sval (sm_accounts (fst app)) (Upd a) \<and> write_ok sval (sm_accounts (fst app)) (Upd b)) \<Longrightarrow>
   handler_effect C sval app p
     (Ok (event_of_payload q), update_account C b (update_account C a (next_seq_num app)))"
  using effect_Upds [of p q app "[a, b]" sval C] by (simp del: write_ok.simps)

lemma effect_Del:
  "kinds_match p q \<Longrightarrow> write_ok sval (sm_accounts (fst app)) (Del a) \<Longrightarrow>
   handler_effect C sval app p (Ok (event_of_payload q), delete_account a (next_seq_num app))"
  unfolding handler_effect_def
  by (intro disjI2 exI [of _ "[Del a]"] exI [of _ q]) (auto simp: writes_ok_def)

lemma effect_bind:
  "r \<noteq> Panic \<Longrightarrow> (\<And>x. r = Ok x \<Longrightarrow> handler_effect C sval app p (k x)) \<Longrightarrow>
   handler_effect C sval app p (bind_st r app k)"
  by (cases r) auto

lemma effect_bind_pair:
  "r \<noteq> Panic \<Longrightarrow> (\<And>x y. r = Ok (x, y) \<Longrightarrow> handler_effect C sval app p (k x y)) \<Longrightarrow>
   handler_effect C sval app p (bind_st r app (\<lambda>(x, y). k x y))"
  by (cases r) auto

lemmas effect_intros = effect_bind_pair effect_bind effect_Err effect_Upd2 effect_Upd effect_Upds
  effect_Del

lemma writes_ok_single [simp]: "writes_ok sval accs [w] \<longleftrightarrow> write_ok sval accs w"
  by (cases w) (auto simp: writes_ok_def)

lemma validate_asset_no_panic [simp]: "validate_asset_class_compatibility a b \<noteq> Panic"
  by (simp add: validate_asset_class_compatibility_def Let_def)

lemma assert_account_exists_eq [simp]:
  "assert_account_exists sm i = Ok a \<longleftrightarrow> fmlookup (sm_accounts sm) i = Some a"
  "assert_account_exists sm i \<noteq> Panic"
  by (auto simp: assert_account_exists_def split: option.splits)

lemma lifecycle_no_panic [simp]: "lock a \<noteq> Panic" "unlock a \<noteq> Panic"
  by (auto simp: lock_def unlock_def bind_res_eq_Panic validate_state_transition_def)

context crates_spec
begin

abbreviation sv :: "string \<Rightarrow> rat option" where
  "sv \<equiv> decimal_value (c_bigdecimal C) val"

lemma neg_no_panic [simp]: "neg (c_bigdecimal C) x \<noteq> Panic"
  using calc.calc_no_panic(2) [of x] by simp

lemma get_or_create_ok:
  assumes "accounts_ok sv (sm_accounts sm)" "utf8_string i"
  shows "wf_account sv (get_or_create_account sm i)" "acc_account_id (get_or_create_account sm i) = i"
    "acc_state (get_or_create_account sm i) = Normal \<Longrightarrow>
       (\<forall>old. fmlookup (sm_accounts sm) i = Some old \<longrightarrow> acc_state old \<noteq> Deleted)"
  using assms by (auto simp: get_or_create_account_def accounts_ok_def split: option.splits)

text \<open>What an accepted balance operation writes.\<close>

lemma increase_write_ok:
  assumes ok: "accounts_ok sv (sm_accounts sm)" and i: "utf8_string i"
    and inc: "increase_balance_by (calculator_of C) (get_or_create_account sm i) amt = Ok (a, ch)"
  shows "write_ok sv (sm_accounts sm) (Upd a)"
proof -
  note g = get_or_create_ok [OF ok i]
  from inc have "acc_state (get_or_create_account sm i) = Normal"
    by (rule calc.increase_balance_by_OkD)
  with g calc.increase_balance_by_wf [OF g(1) inc] increase_balance_by_id [OF inc] i
  show ?thesis by auto
qed

lemma handle_transfer_effect:
  assumes ok: "accounts_ok sv (sm_accounts (fst app))" and u: "payload_utf8 (transfer_request r)"
  shows "handler_effect C sv app (transfer_request r) (handle_transfer C app r li off)"
proof -
  have "utf8_string (ts_to_account_id (get_transfer_spec r))"
    "utf8_string (ts_from_account_id (get_transfer_spec r))"
    using u by (simp_all add: payload_utf8_def)
  note w = increase_write_ok [OF ok this(1)] increase_write_ok [OF ok this(2)]
  show ?thesis
    unfolding handle_transfer_def Let_def build_transfer_event_def
    by (intro effect_intros) (use w in \<open>auto simp del: write_ok.simps\<close>)
qed

lemma batch_loop_ok:
  assumes ok: "accounts_ok sv (sm_accounts sm)"
    and u: "\<forall>s \<in> set specs. utf8_string (bos_account_id s)"
    and run: "batch_loop (calculator_of C) sm specs = Ok upds"
  shows "\<forall>a \<in> set (map fst upds). write_ok sv (sm_accounts sm) (Upd a)"
  using u run
proof (induction specs arbitrary: upds)
  case Nil
  then show ?case by simp
next
  case (Cons s specs)
  then obtain a ch upds' where "upds = (a, ch) # upds'" "utf8_string (bos_account_id s)"
    "increase_balance_by (calculator_of C) (get_or_create_account sm (bos_account_id s))
       (bos_amount s) = Ok (a, ch)" "batch_loop (calculator_of C) sm specs = Ok upds'"
    by (auto simp: bind_res_eq_Ok)
  with Cons increase_write_ok [OF ok] show ?case by (simp del: write_ok.simps)
qed

lemma batch_loop_no_panic [simp]: "batch_loop (calculator_of C) sm specs \<noteq> Panic"
  by (induction specs) (auto simp: bind_res_eq_Panic)

lemma handle_batch_effect:
  assumes ok: "accounts_ok sv (sm_accounts (fst app))"
    and u: "payload_utf8 (batch_balance_operation_request r)"
  shows "handler_effect C sv app (batch_balance_operation_request r)
    (handle_batch_balance_operation C app r li off)"
  unfolding handle_batch_balance_operation_def Let_def build_batch_event_def
  using batch_loop_ok [OF ok] u
  by (intro effect_intros) (auto simp: payload_utf8_def simp del: write_ok.simps)

text \<open>The handlers that work on one existing account.\<close>

lemma existing_account:
  assumes "accounts_ok sv (sm_accounts sm)" "fmlookup (sm_accounts sm) i = Some a"
  shows "acc_account_id a = i" "utf8_string i" "wf_account sv a"
    "acc_state a = Deleted \<Longrightarrow> account_total sv a = 0"
  using assms by (auto simp: accounts_ok_def)

lemma existing_Upd_ok:
  assumes "accounts_ok sv (sm_accounts sm)" "fmlookup (sm_accounts sm) i = Some a"
    "acc_state a \<noteq> Deleted" "acc_account_id a' = acc_account_id a" "wf_account sv a'"
    "acc_state a' \<noteq> Deleted"
  shows "write_ok sv (sm_accounts sm) (Upd a')"
  using assms existing_account [OF assms(1,2)] by auto

lemma handle_reserve_effect:
  assumes ok: "accounts_ok sv (sm_accounts (fst app))"
  shows "handler_effect C sv app (reserve_request r) (handle_reserve C app r li off)"
proof -
  have "write_ok sv (sm_accounts (fst app)) (Upd b)"
    if "fmlookup (sm_accounts (fst app)) i = Some a" "reserve (calculator_of C) a rid amt = Ok b"
    for i a b rid amt
    using reserve_id [OF that(2)] calc.reserve_wf [OF existing_account(3) [OF ok that(1)] that(2)]
    by (intro existing_Upd_ok [OF ok that(1)]) auto
  then show ?thesis
    unfolding handle_reserve_def Let_def build_reserve_event_def
    by (intro effect_intros) (simp_all del: write_ok.simps)
qed

lemma handle_release_effect:
  assumes ok: "accounts_ok sv (sm_accounts (fst app))"
  shows "handler_effect C sv app (release_request r) (handle_release C app r li off)"
proof -
  have all: "write_ok sv (sm_accounts (fst app)) (Upd b)"
    if "fmlookup (sm_accounts (fst app)) i = Some a" "release_all (calculator_of C) a rid = Ok b"
    for i a b rid
    using release_all_id [OF that(2)] calc.release_all_wf [OF existing_account(3) [OF ok that(1)] that(2)]
    by (intro existing_Upd_ok [OF ok that(1)]) auto
  have part: "write_ok sv (sm_accounts (fst app)) (Upd b)"
    if "fmlookup (sm_accounts (fst app)) i = Some a"
      "partial_release (calculator_of C) a rid amt = Ok b" for i a b rid amt
    using partial_release_id [OF that(2)]
      calc.partial_release_wf [OF existing_account(3) [OF ok that(1)] that(2)]
    by (intro existing_Upd_ok [OF ok that(1)]) auto
  show ?thesis
    unfolding handle_release_def Let_def build_release_event_def
    by (intro effect_intros) (use all part in \<open>auto simp del: write_ok.simps split: if_splits\<close>)
qed

lemma handle_create_effect:
  assumes ok: "accounts_ok sv (sm_accounts (fst app))" and u: "payload_utf8 (create_account_request r)"
  shows "handler_effect C sv app (create_account_request r) (handle_create_account C app r li off)"
  using u unfolding handle_create_account_def Let_def build_create_event_def
  by (auto simp: payload_utf8_def fmlookup_dom_iff intro!: effect_intros)

lemma handle_lock_effect:
  assumes ok: "accounts_ok sv (sm_accounts (fst app))"
  shows "handler_effect C sv app (lock_account_request r) (handle_lock_account C app r li off)"
proof -
  have "write_ok sv (sm_accounts (fst app)) (Upd b)"
    if "fmlookup (sm_accounts (fst app)) i = Some a" "lock a = Ok b" for i a b
    using lifecycle_id(1) [OF that(2)] existing_account(3) [OF ok that(1)] that(2)
    by (intro existing_Upd_ok [OF ok that(1)]) (auto simp: lock_def bind_res_eq_Ok)
  then show ?thesis
    unfolding handle_lock_account_def Let_def build_lock_event_def
    by (intro effect_intros) (simp_all del: write_ok.simps)
qed

lemma handle_unlock_effect:
  assumes ok: "accounts_ok sv (sm_accounts (fst app))"
  shows "handler_effect C sv app (unlock_account_request r) (handle_unlock_account C app r li off)"
proof -
  have "write_ok sv (sm_accounts (fst app)) (Upd b)"
    if "fmlookup (sm_accounts (fst app)) i = Some a" "unlock a = Ok b" for i a b
    using lifecycle_id(2) [OF that(2)] existing_account(3) [OF ok that(1)] that(2)
    by (intro existing_Upd_ok [OF ok that(1)]) (auto simp: unlock_def bind_res_eq_Ok)
  then show ?thesis
    unfolding handle_unlock_account_def Let_def build_unlock_event_def
    by (intro effect_intros) (simp_all del: write_ok.simps)
qed

lemma delete_acc_total:
  assumes wf: "wf_account sv a" and ok: "delete_acc (calculator_of C) a = Ok b"
  shows "wf_account sv b" "account_total sv b = 0" "account_total sv a = 0"
proof -
  from calc.delete_refines [OF wf] ok have "spec_delete (ledger_of sv a) = Some (ledger_of sv b)" by simp
  then have eq: "ledger_of sv b = (ledger_of sv a)\<lparr>la_state := Deleted\<rparr>"
    and zero: "ledger_total (ledger_of sv a) = 0"
    by (auto simp: spec_delete_def ledger_total_def split: if_splits)
  then show "account_total sv b = 0" "account_total sv a = 0"
    by (simp_all add: account_total_def ledger_total_def)
  from wf ok show "wf_account sv b" by (auto simp: delete_acc_def bind_res_eq_Ok)
qed

lemma handle_delete_effect:
  assumes ok: "accounts_ok sv (sm_accounts (fst app))"
  shows "handler_effect C sv app (delete_account_request r) (handle_delete_account C app r li off)"
proof -
  have "write_ok sv (sm_accounts (fst app)) (Del b)"
    if "fmlookup (sm_accounts (fst app)) i = Some a" "delete_acc (calculator_of C) a = Ok b" for i a b
    using lifecycle_id(3) [OF that(2)] existing_account [OF ok that(1)]
      delete_acc_total [OF existing_account(3) [OF ok that(1)] that(2)] by auto
  then show ?thesis
    unfolding handle_delete_account_def Let_def build_delete_event_def
    by (intro effect_intros) (simp_all del: write_ok.simps)
qed

lemma handle_update_effect:
  assumes ok: "accounts_ok sv (sm_accounts (fst app))"
  shows "handler_effect C sv app (update_account_config_request r)
    (handle_update_account_config C app r li off)"
proof -
  have "write_ok sv (sm_accounts (fst app)) (Upd (set_balance_limit a l))"
    if "fmlookup (sm_accounts (fst app)) i = Some a" "acc_state a \<noteq> Deleted" for i a l
    using that existing_account(3) [OF ok that(1)] by (intro existing_Upd_ok [OF ok that(1)]) auto
  then show ?thesis
    unfolding handle_update_account_config_def Let_def build_update_event_def
    by (intro effect_intros) (simp_all del: write_ok.simps)
qed

lemmas handler_effects = handle_transfer_effect handle_batch_effect handle_reserve_effect
  handle_release_effect handle_create_effect handle_lock_effect handle_unlock_effect
  handle_delete_effect handle_update_effect

lemma dispatch_effect:
  assumes "accounts_ok sv (sm_accounts (fst app))" "payload_utf8 p"
  shows "handler_effect C sv app p (dispatch C app li off p)"
  using assms by (cases p) (simp_all add: handler_effects)

end

section \<open>The invariant\<close>

definition pending :: "('db \<Rightarrow> bytes \<rightharpoonup> bytes) \<Rightarrow> 'db app \<Rightarrow> (bytes \<rightharpoonup> bytes)" where
  "pending view app = apply_ops (cx_wb (snd app)) (view (sm_rocksdb_state (fst app)))"

definition cached :: "('k, 'v) fmap \<Rightarrow> ('k \<rightharpoonup> 'v) \<Rightarrow> ('k \<rightharpoonup> 'v)" where
  "cached cache m = m ++ fmlookup cache"

text \<open>The accounts in memory against those of the pending database; \<open>tbd\<close> are the tombstones.\<close>

definition memory_ok ::
    "(string, account) fmap \<Rightarrow> string list \<Rightarrow> (string \<rightharpoonup> account) \<Rightarrow> bool" where
  "memory_ok accs tbd M \<longleftrightarrow>
     (\<forall>i \<in> set tbd. M i = None \<and> (\<exists>a. fmlookup accs i = Some a \<and> acc_state a = Deleted)) \<and>
     (\<forall>i. i \<notin> set tbd \<longrightarrow> fmlookup accs i = M i) \<and>
     (\<forall>i a. fmlookup accs i = Some a \<and> acc_state a = Deleted \<longrightarrow> i \<in> set tbd)"

definition core_inv ::
    "wallet_proto \<Rightarrow> (string \<Rightarrow> rat option) \<Rightarrow> ('db \<Rightarrow> bytes \<rightharpoonup> bytes) \<Rightarrow> wallet_db \<Rightarrow> wallet_db \<Rightarrow>
     'db app \<Rightarrow> bool" where
  "core_inv pb sval view D W app \<longleftrightarrow>
     represents pb (view (sm_rocksdb_state (fst app))) D \<and>
     represents pb (pending view app) W \<and>
     accounts_ok sval (sm_accounts (fst app)) \<and>
     memory_ok (sm_accounts (fst app)) (cx_to_be_deleted_account_ids (snd app)) (wd_accounts W) \<and>
     wd_dedup W = cached (sm_seq_num_cache (fst app)) (wd_dedup D) \<and>
     wd_events W = cached (sm_event_cache (fst app)) (wd_events D)"

text \<open>The event log: deduplication entries and events point at each other, and the sequence numbers
  between the first kept one and the last one are all there.\<close>

definition event_log_ok :: "wallet_db \<Rightarrow> u64 \<Rightarrow> bool" where
  "event_log_ok W last_seq \<longleftrightarrow>
     (\<forall>c n. wd_dedup W c = Some n \<longrightarrow>
        (\<exists>e. wd_events W n = Some e \<and> eh_command_id (ev_get_header e) = c)) \<and>
     (\<forall>n e. wd_events W n = Some e \<longrightarrow>
        eh_seq_num (ev_get_header e) = n \<and> wd_dedup W (eh_command_id (ev_get_header e)) = Some n \<and>
        ev_get_event e \<noteq> None \<and> 0 < n \<and> n \<le> last_seq) \<and>
     (\<forall>n. 0 < n \<and> get_or_default 0 (wd_first_seq W) \<le> n \<and> n \<le> last_seq \<longrightarrow> wd_events W n \<noteq> None)"

fun wd_write :: "account_write \<Rightarrow> wallet_db \<Rightarrow> wallet_db" where
  "wd_write (Upd a) W = W\<lparr>wd_accounts := (wd_accounts W)(acc_account_id a \<mapsto> a)\<rparr>"
| "wd_write (Del a) W = W\<lparr>wd_accounts := (wd_accounts W)(acc_account_id a := None)\<rparr>"

definition wd_record :: "string \<Rightarrow> u64 \<Rightarrow> event \<Rightarrow> wallet_db \<Rightarrow> wallet_db" where
  "wd_record cid n ev W =
     W\<lparr>wd_dedup := (wd_dedup W)(cid \<mapsto> n), wd_events := (wd_events W)(n \<mapsto> ev)\<rparr>"

lemma wd_write_frame [simp]:
  "wd_dedup (wd_write w W) = wd_dedup W" "wd_events (wd_write w W) = wd_events W"
  "wd_applied (wd_write w W) = wd_applied W" "wd_last_seq (wd_write w W) = wd_last_seq W"
  "wd_first_seq (wd_write w W) = wd_first_seq W"
  by (cases w; simp)+

lemma fold_wd_write_frame [simp]:
  "wd_dedup (fold wd_write ws W) = wd_dedup W" "wd_events (fold wd_write ws W) = wd_events W"
  "wd_applied (fold wd_write ws W) = wd_applied W" "wd_last_seq (fold wd_write ws W) = wd_last_seq W"
  "wd_first_seq (fold wd_write ws W) = wd_first_seq W"
  by (induction ws arbitrary: W) simp_all

lemma cached_upd [simp]: "cached (fmupd k v c) m = (cached c m)(k \<mapsto> v)"
  by (simp add: cached_def map_add_def fun_eq_iff)

lemma cached_empty [simp]: "cached fmempty m = m"
  by (simp add: cached_def map_add_def)

lemma cached_eq: "cached c m k = (case fmlookup c k of Some v \<Rightarrow> Some v | None \<Rightarrow> m k)"
  by (simp add: cached_def map_add_def)

section \<open>Each write keeps the invariant\<close>

lemma core_invD:
  assumes "core_inv pb sval view D W app"
  shows "represents pb (view (sm_rocksdb_state (fst app))) D" "represents pb (pending view app) W"
    "accounts_ok sval (sm_accounts (fst app))"
    "memory_ok (sm_accounts (fst app)) (cx_to_be_deleted_account_ids (snd app)) (wd_accounts W)"
    "wd_dedup W = cached (sm_seq_num_cache (fst app)) (wd_dedup D)"
    "wd_events W = cached (sm_event_cache (fst app)) (wd_events D)"
  using assms by (simp_all add: core_inv_def)

lemma memory_okD:
  assumes "memory_ok accs tbd M"
  shows memory_ok_tombstone: "i \<in> set tbd \<Longrightarrow> M i = None"
    and memory_ok_marked: "i \<in> set tbd \<Longrightarrow> \<exists>a. fmlookup accs i = Some a \<and> acc_state a = Deleted"
    and memory_ok_live: "i \<notin> set tbd \<Longrightarrow> fmlookup accs i = M i"
    and memory_ok_deleted: "fmlookup accs i = Some b \<Longrightarrow> acc_state b = Deleted \<Longrightarrow> i \<in> set tbd"
  using assms unfolding memory_ok_def by blast+

lemma memory_okI:
  assumes "\<And>i. i \<in> set tbd \<Longrightarrow> M i = None"
    and "\<And>i. i \<in> set tbd \<Longrightarrow> \<exists>a. fmlookup accs i = Some a \<and> acc_state a = Deleted"
    and "\<And>i. i \<notin> set tbd \<Longrightarrow> fmlookup accs i = M i"
    and "\<And>i b. fmlookup accs i = Some b \<Longrightarrow> acc_state b = Deleted \<Longrightarrow> i \<in> set tbd"
  shows "memory_ok accs tbd M"
  using assms unfolding memory_ok_def by blast

lemma memory_ok_upd:
  assumes mem: "memory_ok accs tbd M" and a: "acc_state a \<noteq> Deleted"
    and old: "\<forall>old. fmlookup accs i = Some old \<longrightarrow> acc_state old \<noteq> Deleted"
  shows "memory_ok (fmupd i a accs) tbd (M(i \<mapsto> a))"
proof (rule memory_okI)
  have i: "i \<notin> set tbd" using memory_ok_marked [OF mem, of i] old by blast
  fix j
  { assume j: "j \<in> set tbd"
    with i have ji: "j \<noteq> i" by blast
    show "(M(i \<mapsto> a)) j = None" using memory_ok_tombstone [OF mem j] ji by simp
    show "\<exists>b. fmlookup (fmupd i a accs) j = Some b \<and> acc_state b = Deleted"
      using memory_ok_marked [OF mem j] ji by simp }
  { assume "j \<notin> set tbd"
    from memory_ok_live [OF mem this] show "fmlookup (fmupd i a accs) j = (M(i \<mapsto> a)) j" by simp }
  { fix b assume b: "fmlookup (fmupd i a accs) j = Some b" "acc_state b = Deleted"
    then have "fmlookup accs j = Some b" using a by (cases "j = i") simp_all
    with b(2) show "j \<in> set tbd" by (rule memory_ok_deleted [OF mem, rotated -1]) }
qed

lemma memory_ok_del:
  assumes mem: "memory_ok accs tbd M" and a: "acc_state a = Deleted"
  shows "memory_ok (fmupd i a accs) (tbd @ [i]) (M(i := None))"
proof (rule memory_okI)
  fix j
  { assume j: "j \<in> set (tbd @ [i])"
    show "(M(i := None)) j = None"
      using memory_ok_tombstone [OF mem, of j] j by (cases "j = i") simp_all
    show "\<exists>b. fmlookup (fmupd i a accs) j = Some b \<and> acc_state b = Deleted"
      using memory_ok_marked [OF mem, of j] j a by (cases "j = i") simp_all }
  { assume "j \<notin> set (tbd @ [i])"
    then show "fmlookup (fmupd i a accs) j = (M(i := None)) j"
      using memory_ok_live [OF mem, of j] by auto }
  { fix b assume "fmlookup (fmupd i a accs) j = Some b" "acc_state b = Deleted"
    then show "j \<in> set (tbd @ [i])"
      using memory_ok_deleted [OF mem, of j b] by (cases "j = i") simp_all }
qed

lemma accounts_ok_upd:
  "accounts_ok sval accs \<Longrightarrow> utf8_string (acc_account_id a) \<Longrightarrow> wf_account sval a \<Longrightarrow>
     (acc_state a = Deleted \<longrightarrow> account_total sval a = 0) \<Longrightarrow>
     accounts_ok sval (fmupd (acc_account_id a) a accs)"
  by (simp add: accounts_ok_def)

lemma core_inv_Upd:
  assumes inv: "core_inv (c_proto C) sval view D W app"
    and ok: "write_ok sval (sm_accounts (fst app)) (Upd a)"
  shows "core_inv (c_proto C) sval view D (wd_write (Upd a) W) (do_write C (Upd a) app)"
proof -
  obtain sm cx where app: "app = (sm, cx)" by (cases app)
  note I = core_invD [OF inv]
  show ?thesis
    using I(1,5,6) ok represents_put_account [OF I(2)] accounts_ok_upd [OF I(3), of a]
      memory_ok_upd [OF I(4), of a "acc_account_id a"]
    by (simp add: core_inv_def app update_account_def Let_def pending_def wb_defs)
qed

lemma core_inv_Del:
  assumes inv: "core_inv (c_proto C) sval view D W app"
    and ok: "write_ok sval (sm_accounts (fst app)) (Del a)"
  shows "core_inv (c_proto C) sval view D (wd_write (Del a) W) (do_write C (Del a) app)"
proof -
  obtain sm cx where app: "app = (sm, cx)" by (cases app)
  note I = core_invD [OF inv]
  show ?thesis
    using I(1,5,6) ok represents_delete_account [OF I(2)] accounts_ok_upd [OF I(3), of a]
      memory_ok_del [OF I(4), of a "acc_account_id a"]
    by (simp add: core_inv_def app delete_account_def Let_def pending_def wb_defs)
qed

lemma write_ok_after_Upd:
  "write_ok sval accs (Upd b) \<Longrightarrow> acc_state a \<noteq> Deleted \<Longrightarrow>
     write_ok sval (fmupd (acc_account_id a) a accs) (Upd b)"
  by auto

lemma core_inv_Upds:
  assumes "core_inv (c_proto C) sval view D W app"
    "\<forall>a \<in> set as. write_ok sval (sm_accounts (fst app)) (Upd a)"
  shows "core_inv (c_proto C) sval view D (fold wd_write (map Upd as) W)
    (fold (do_write C) (map Upd as) app)"
  using assms
proof (induction as arbitrary: W app)
  case Nil
  then show ?case by simp
next
  case (Cons a as)
  have a: "write_ok sval (sm_accounts (fst app)) (Upd a)" using Cons.prems by simp
  have "core_inv (c_proto C) sval view D (wd_write (Upd a) W) (do_write C (Upd a) app)"
    using Cons.prems(1) a by (rule core_inv_Upd)
  moreover have "\<forall>b \<in> set as. write_ok sval (sm_accounts (fst (do_write C (Upd a) app))) (Upd b)"
  proof
    fix b assume "b \<in> set as"
    with Cons.prems have "write_ok sval (sm_accounts (fst app)) (Upd b)" by simp
    with a show "write_ok sval (sm_accounts (fst (do_write C (Upd a) app))) (Upd b)"
      unfolding app_ops_simps written.simps by (intro write_ok_after_Upd) simp_all
  qed
  ultimately show ?case using Cons.IH by (simp del: do_write.simps wd_write.simps)
qed

lemma core_inv_writes:
  assumes inv: "core_inv (c_proto C) sval view D W app"
    and ok: "writes_ok sval (sm_accounts (fst app)) ws"
  shows "core_inv (c_proto C) sval view D (fold wd_write ws W) (fold (do_write C) ws app)"
proof (cases "\<exists>a. ws = [Del a]")
  case True
  with inv ok show ?thesis
    by (auto simp del: do_write.simps wd_write.simps write_ok.simps intro: core_inv_Del)
next
  case False
  with ok have "\<forall>w \<in> set ws. w = Upd (written w)" by (force simp: writes_ok_def)
  then have ws: "ws = map Upd (map written ws)" by (simp add: map_idI)
  have "\<forall>a \<in> set (map written ws). write_ok sval (sm_accounts (fst app)) (Upd a)"
    using ok \<open>\<forall>w \<in> set ws. w = Upd (written w)\<close> by (auto simp: writes_ok_def simp del: write_ok.simps)
  from core_inv_Upds [OF inv this] ws show ?thesis by simp
qed

lemma core_inv_frame [simp]:
  "core_inv pb sval view D W (next_seq_num app) = core_inv pb sval view D W app"
  "core_inv pb sval view D W (send_event pos ev app) = core_inv pb sval view D W app"
  by (cases app; simp add: core_inv_def next_seq_num_def send_event_def pending_def)+

lemma event_log_ok_frame [simp]:
  "event_log_ok (fold wd_write ws W) n = event_log_ok W n"
  by (simp add: event_log_ok_def)

text \<open>Recording the next event keeps the event log; the sequence number must not wrap.\<close>

lemma event_log_ok_record:
  assumes ok: "event_log_ok W n" and fresh: "wd_dedup W cid = None" and wrap: "n + 1 \<noteq> 0"
    and ev: "eh_seq_num (ev_get_header ev) = n + 1" "eh_command_id (ev_get_header ev) = cid"
      "ev_get_event ev \<noteq> None"
  shows "event_log_ok (wd_record cid (n + 1) ev W) (n + 1)"
proof -
  note lt = word_less_succ [OF wrap]
  have none: "wd_events W (n + 1) = None"
    using ok lt by (cases "wd_events W (n + 1)") (fastforce simp: event_log_ok_def)+
  have pos: "0 < n + 1" using wrap by (simp add: word_gt_0)
  have "wd_dedup W c \<noteq> Some (n + 1)" for c
    using ok none by (force simp: event_log_ok_def)
  moreover have "eh_command_id (ev_get_header e) \<noteq> cid" if "wd_events W m = Some e" for m e
    using ok fresh that by (auto simp: event_log_ok_def)
  ultimately show ?thesis
    using ok fresh ev none pos lt unfolding event_log_ok_def wd_record_def
    by (auto simp: word_le_succ [OF wrap])
qed

section \<open>Handling one command\<close>

text \<open>What the reply to a repeated command is.\<close>

definition dup_reply :: "command \<Rightarrow> command_payload \<Rightarrow> event \<Rightarrow> event general_result" where
  "dup_reply c p e =
     (if kinds_match p (the (ev_get_event e)) then Ok e
      else Err (CommonError (ConflictDedupId (command_id c))))"

definition event_for :: "command \<Rightarrow> u64 \<Rightarrow> u64 \<Rightarrow> u64 \<Rightarrow> event_payload \<Rightarrow> event" where
  "event_for c li off n q = set_event_header (event_of_payload q) (cmd_get_header c) li off n"

lemma event_for_simps [simp]:
  "eh_seq_num (ev_get_header (event_for c li off n q)) = n"
  "eh_command_id (ev_get_header (event_for c li off n q)) = command_id c"
  "ev_get_event (event_for c li off n q) = Some q"
  by (simp_all add: event_for_def command_id_def)

text \<open>
  The write batch and the caches. The first conjunct is the documented relation
  \<open>last_seq_num == PERSISTED_LAST_SEQ_NUM + num_of_in_mem_events\<close>. The batch writes accounts, the
  cached entries and the two counters; cached events are newer than the persisted ones, whose
  log is consistent by itself.
\<close>

definition batch_keys :: "'db app \<Rightarrow> bytes set" where
  "batch_keys app =
     range data_key \<union> (\<lambda>c. dedup_key (as_bytes c)) ` fmdom' (sm_seq_num_cache (fst app)) \<union>
     (\<lambda>n. event_key (be_bytes n)) ` fmdom' (sm_event_cache (fst app)) \<union>
     {as_bytes (hs_key APPLIED_INDEX), as_bytes (hs_key PERSISTED_LAST_SEQ_NUM)}"

definition persisted_last :: "wallet_db \<Rightarrow> u64" where
  "persisted_last D = get_or_default 0 (wd_last_seq D)"

definition batch_ok :: "wallet_db \<Rightarrow> 'db app \<Rightarrow> bool" where
  "batch_ok D app \<longleftrightarrow>
     unat (sm_last_seq_num (fst app)) =
       unat (persisted_last D) + fcard (fmdom (sm_event_cache (fst app))) \<and>
     op_key ` set (cx_wb (snd app)) \<subseteq> batch_keys app \<and>
     (\<forall>n \<in> fmdom' (sm_event_cache (fst app)). persisted_last D < n) \<and>
     (\<forall>c n. fmlookup (sm_seq_num_cache (fst app)) c = Some n \<longrightarrow> n \<in> fmdom' (sm_event_cache (fst app))) \<and>
     event_log_ok D (persisted_last D)"

text \<open>The fields that handling a command leaves alone.\<close>

definition same_frame :: "'db app \<Rightarrow> 'db app \<Rightarrow> bool" where
  "same_frame app app' \<longleftrightarrow>
     sm_applied_index (fst app') = sm_applied_index (fst app) \<and>
     sm_rocksdb_state (fst app') = sm_rocksdb_state (fst app) \<and>
     cx_flushed_applied_index (snd app') = cx_flushed_applied_index (snd app) \<and>
     cx_flushed_timestamp (snd app') = cx_flushed_timestamp (snd app) \<and>
     cx_batch_size (snd app') = cx_batch_size (snd app)"

definition hard_states_same :: "wallet_db \<Rightarrow> wallet_db \<Rightarrow> bool" where
  "hard_states_same W W' \<longleftrightarrow> wd_applied W' = wd_applied W \<and> wd_last_seq W' = wd_last_seq W \<and>
     wd_first_seq W' = wd_first_seq W"

text \<open>The accounts a database holds are well formed and live.\<close>

definition db_accounts_ok :: "(string \<Rightarrow> rat option) \<Rightarrow> wallet_db \<Rightarrow> bool" where
  "db_accounts_ok sval D \<longleftrightarrow>
     (\<forall>i a. wd_accounts D i = Some a \<longrightarrow>
        acc_account_id a = i \<and> wf_account sval a \<and> acc_state a \<noteq> Deleted)"

lemma db_accounts_ok_pending:
  assumes inv: "core_inv pb sval view D W app"
  shows "db_accounts_ok sval W"
proof -
  note I = core_invD [OF inv]
  have "acc_account_id a = i \<and> wf_account sval a \<and> acc_state a \<noteq> Deleted"
    if a: "wd_accounts W i = Some a" for i a
  proof -
    have i: "i \<notin> set (cx_to_be_deleted_account_ids (snd app))"
      using memory_ok_tombstone [OF I(4), of i] a by auto
    with a have l: "fmlookup (sm_accounts (fst app)) i = Some a"
      using memory_ok_live [OF I(4), of i] by simp
    with i have "acc_state a \<noteq> Deleted" using memory_ok_deleted [OF I(4), of i a] by blast
    with I(3) l show ?thesis by (simp add: accounts_ok_def)
  qed
  then show ?thesis by (simp add: db_accounts_ok_def)
qed

text \<open>Between two entries the hard states of \<open>W\<close> and \<open>D\<close> are the counters in memory.\<close>

definition boundary :: "wallet_db \<Rightarrow> wallet_db \<Rightarrow> 'db app \<Rightarrow> bool" where
  "boundary D W app \<longleftrightarrow>
     sm_applied_index (fst app) = get_or_default 5 (wd_applied W) \<and>
     sm_last_seq_num (fst app) = get_or_default 0 (wd_last_seq W) \<and>
     cx_flushed_applied_index (snd app) = get_or_default 5 (wd_applied D) \<and>
     cx_flushed_applied_index (snd app) \<le> sm_applied_index (fst app)"

text \<open>The commands of an entry are admissible when each has a request with UTF-8 identifiers and
  none reconfigures an account that was deleted since the last flush.\<close>

fun admissible :: "('d, 'db) crates \<Rightarrow> u64 \<Rightarrow> u64 \<Rightarrow> command list \<Rightarrow> 'db app \<Rightarrow> bool" where
  "admissible C li off [] app = True"
| "admissible C li off (c # cs) app \<longleftrightarrow>
     (case cmd_request c of
        Some p \<Rightarrow> payload_utf8 p \<and> \<not> updates_deleted (fst app) p
      | None \<Rightarrow> False) \<and>
     admissible C li (off + 1) cs (snd (handle_command C app li off c))"

lemma same_frame_refl [simp]: "same_frame app app"
  by (simp add: same_frame_def)

lemma same_frame_trans: "same_frame a b \<Longrightarrow> same_frame b c \<Longrightarrow> same_frame a c"
  by (simp add: same_frame_def)

lemma same_frame_ops [simp]:
  "same_frame app (send_event pos r app') = same_frame app app'"
  "same_frame app (next_seq_num app') = same_frame app app'"
  "same_frame app (do_write C w app') = same_frame app app'"
  "same_frame app (update_seq_num_and_event C cid ev app') = same_frame app app'"
  by (cases app'; cases w; simp add: same_frame_def send_event_def next_seq_num_def update_account_def
      delete_account_def update_seq_num_and_event_def Let_def)+

lemma same_frame_fold [simp]: "same_frame app (fold (do_write C) ws app') = same_frame app app'"
  by (induction ws arbitrary: app') simp_all

lemma seq_num_cache_ops [simp]:
  "sm_seq_num_cache (fst (send_event pos r app)) = sm_seq_num_cache (fst app)"
  "sm_seq_num_cache (fst (next_seq_num app)) = sm_seq_num_cache (fst app)"
  "sm_seq_num_cache (fst (do_write C w app)) = sm_seq_num_cache (fst app)"
  "sm_seq_num_cache (fst (update_seq_num_and_event C cid ev app)) =
     fmupd cid (sm_last_seq_num (fst app)) (sm_seq_num_cache (fst app))"
  by (cases app; cases w; simp add: send_event_def next_seq_num_def update_account_def
      delete_account_def update_seq_num_and_event_def Let_def)+

lemma wb_keys_ops [simp]:
  "cx_wb (snd (send_event pos r app)) = cx_wb (snd app)"
  "cx_wb (snd (next_seq_num app)) = cx_wb (snd app)"
  "op_key ` set (cx_wb (snd (do_write C w app))) =
     insert (data_key (as_bytes (acc_account_id (written w)))) (op_key ` set (cx_wb (snd app)))"
  "op_key ` set (cx_wb (snd (update_seq_num_and_event C cid ev app))) =
     {dedup_key (as_bytes cid), event_key (to_bytes (c_byteorder C) (sm_last_seq_num (fst app)))} \<union>
     op_key ` set (cx_wb (snd app))"
  by (cases app; cases w; auto simp: send_event_def next_seq_num_def update_account_def
      delete_account_def update_seq_num_and_event_def Let_def wb_defs)+

lemma fold_writes_keys [simp]:
  "sm_seq_num_cache (fst (fold (do_write C) ws app)) = sm_seq_num_cache (fst app)"
  "op_key ` set (cx_wb (snd (fold (do_write C) ws app))) =
     (\<lambda>w. data_key (as_bytes (acc_account_id (written w)))) ` set ws \<union> op_key ` set (cx_wb (snd app))"
  by (induction ws arbitrary: app) simp_all

lemma event_cache_ops [simp]:
  "sm_event_cache (fst (send_event pos r app)) = sm_event_cache (fst app)"
  "sm_event_cache (fst (next_seq_num app)) = sm_event_cache (fst app)"
  "sm_event_cache (fst (do_write C w app)) = sm_event_cache (fst app)"
  "sm_event_cache (fst (update_seq_num_and_event C cid ev app)) =
     fmupd (sm_last_seq_num (fst app)) ev (sm_event_cache (fst app))"
  by (cases app; cases w; simp add: send_event_def next_seq_num_def update_account_def
      delete_account_def update_seq_num_and_event_def Let_def)+

lemma batch_keys_ops [simp]:
  "batch_keys (send_event pos r app) = batch_keys app"
  "batch_keys (next_seq_num app) = batch_keys app"
  by (simp_all add: batch_keys_def)

lemma batch_ok_frame [simp]: "batch_ok D (send_event pos r app) = batch_ok D app"
  by (cases app) (simp add: batch_ok_def send_event_def batch_keys_def)

lemma event_cache_fold [simp]:
  "sm_event_cache (fst (fold (do_write C) ws app)) = sm_event_cache (fst app)"
  by (induction ws arbitrary: app) simp_all

context crates_spec
begin

abbreviation Inv :: "wallet_db \<Rightarrow> wallet_db \<Rightarrow> 'db app \<Rightarrow> bool" where
  "Inv \<equiv> core_inv (c_proto C) sv view"

lemma get_seq_num_eq:
  assumes "Inv D W app"
  shows "get_seq_num C (fst app) cid = Ok (wd_dedup W cid)"
  using core_invD [OF assms]
  by (auto simp: get_seq_num_def read_seq_num cached_eq split: option.splits)

lemma get_event_eq:
  assumes "Inv D W app"
  shows "get_event C (fst app) n = Ok (wd_events W n)"
  using core_invD [OF assms]
  by (auto simp: get_event_def read_event cached_eq split: option.splits)

lemma maybe_handle_duplicate_eq:
  assumes inv: "Inv D W app" and log: "event_log_ok W (sm_last_seq_num (fst app))"
    and p: "cmd_request c = Some p"
  shows "maybe_handle_duplicate_command C (fst app) c =
    Ok (map_option (\<lambda>n. dup_reply c p (the (wd_events W n))) (wd_dedup W (command_id c)))"
proof (cases "wd_dedup W (command_id c)")
  case None
  then show ?thesis
    by (simp add: maybe_handle_duplicate_command_def get_seq_num_eq [OF inv])
next
  case (Some n)
  with log obtain e q where e: "wd_events W n = Some e" "ev_get_event e = Some q"
    by (force simp: event_log_ok_def)
  with Some e p show ?thesis
    by (auto simp: maybe_handle_duplicate_command_def get_seq_num_eq [OF inv] get_event_eq [OF inv]
        assert_command_and_event_match_def dup_reply_def)
qed

text \<open>The three outcomes of a command: the reply of the first execution, an error, or a new event.\<close>

lemma handle_command_cases:
  assumes inv: "Inv D W app" and log: "event_log_ok W (sm_last_seq_num (fst app))"
    and p: "cmd_request c = Some p" and u: "payload_utf8 p"
  obtains (dup) n e where "wd_dedup W (command_id c) = Some n" "wd_events W n = Some e"
      "handle_command C app li off c =
         (Ok (), send_event (Position li off) (dup_reply c p e) app)"
    | (err) e where "wd_dedup W (command_id c) = None"
      "fst (dispatch C app li off p) = Err e"
      "handle_command C app li off c = (Ok (), send_event (Position li off) (Err e) app)"
    | (ok) ws q ev where "wd_dedup W (command_id c) = None" "kinds_match p q"
      "dispatch C app li off p =
         (Ok (event_of_payload q), fold (do_write C) ws (next_seq_num app))"
      "\<not> updates_deleted (fst app) p \<Longrightarrow> writes_ok sv (sm_accounts (fst app)) ws"
      "ev = event_for c li off (sm_last_seq_num (fst app) + 1) q"
      "handle_command C app li off c = (Ok (), send_event (Position li off) (Ok ev)
         (update_seq_num_and_event C (command_id c) ev (fold (do_write C) ws (next_seq_num app))))"
proof (cases "wd_dedup W (command_id c)")
  case (Some n)
  moreover from this log obtain e where "wd_events W n = Some e" by (force simp: event_log_ok_def)
  ultimately show ?thesis
    by (intro dup) (auto simp: handle_command_def maybe_handle_duplicate_eq [OF inv log p])
next
  case None
  note core_invD(3) [OF inv]
  from dispatch_effect [OF this u, of li off] consider
      e where "dispatch C app li off p = (Err e, app)"
    | ws q where "dispatch C app li off p =
          (Ok (event_of_payload q), fold (do_write C) ws (next_seq_num app))" "kinds_match p q"
        "\<not> updates_deleted (fst app) p \<longrightarrow> writes_ok sv (sm_accounts (fst app)) ws"
    unfolding handler_effect_def by blast
  then show ?thesis
  proof cases
    case 1
    with None p show ?thesis
      by (intro err) (auto simp: handle_command_def maybe_handle_duplicate_eq [OF inv log p] Let_def)
  next
    case (2 ws q)
    with None p show ?thesis
      by (intro ok [of q ws]) (auto simp: handle_command_def
          maybe_handle_duplicate_eq [OF inv log p] Let_def event_for_def)
  qed
qed

lemma Inv_record:
  assumes inv: "Inv D W app"
  shows "Inv D (wd_record cid (sm_last_seq_num (fst app)) ev W) (update_seq_num_and_event C cid ev app)"
proof -
  obtain sm cx where app: "app = (sm, cx)" by (cases app)
  note I = core_invD [OF inv]
  from I(2) have "represents (c_proto C)
      (pending view (update_seq_num_and_event C cid ev app)) (wd_record cid (sm_last_seq_num sm) ev W)"
    using represents_put_event [OF represents_put_dedup]
    by (fastforce simp: update_seq_num_and_event_def app Let_def pending_def wb_defs wd_record_def)
  then show ?thesis
    using I by (simp add: core_inv_def app update_seq_num_and_event_def Let_def wd_record_def)
qed

lemma update_seq_num_last [simp]:
  "sm_last_seq_num (fst (update_seq_num_and_event C cid ev app)) = sm_last_seq_num (fst app)"
  "sm_last_seq_num (fst (send_event pos r app)) = sm_last_seq_num (fst app)"
  by (cases app; simp add: update_seq_num_and_event_def send_event_def Let_def)+

text \<open>One command keeps the invariant and does not panic.\<close>

abbreviation Full :: "wallet_db \<Rightarrow> wallet_db \<Rightarrow> 'db app \<Rightarrow> bool" where
  "Full D W app \<equiv> Inv D W app \<and> event_log_ok W (sm_last_seq_num (fst app)) \<and> batch_ok D app"

lemma handle_command_inv:
  assumes full: "Full D W app" and p: "cmd_request c = Some p" and u: "payload_utf8 p"
    and nd: "\<not> updates_deleted (fst app) p" and wrap: "sm_last_seq_num (fst app) + 1 \<noteq> 0"
  shows "\<exists>app' W'. handle_command C app li off c = (Ok (), app') \<and> Full D W' app' \<and>
    hard_states_same W W' \<and> same_frame app app' \<and>
    (sm_last_seq_num (fst app') = sm_last_seq_num (fst app) \<or>
     sm_last_seq_num (fst app') = sm_last_seq_num (fst app) + 1)"
proof -
  from full have inv: "Inv D W app" and log: "event_log_ok W (sm_last_seq_num (fst app))"
    and cnt: "batch_ok D app" by simp_all
  from inv log p u show ?thesis
  proof (cases rule: handle_command_cases [where li = li and off = off])
    case (dup n e)
    with full show ?thesis by (auto simp: hard_states_same_def batch_ok_def intro!: exI [of _ W])
  next
    case (err e)
    with full show ?thesis by (auto simp: hard_states_same_def batch_ok_def intro!: exI [of _ W])
  next
    case (ok ws q ev)
    let ?n = "sm_last_seq_num (fst app)"
    let ?app1 = "fold (do_write C) ws (next_seq_num app)"
    let ?W = "wd_record (command_id c) (?n + 1) ev (fold wd_write ws W)"
    let ?app2 = "send_event (Position li off) (Ok ev)
      (update_seq_num_and_event C (command_id c) ev ?app1)"
    have w: "writes_ok sv (sm_accounts (fst (next_seq_num app))) ws"
      using ok(4) [OF nd] by simp
    have i1: "Inv D (fold wd_write ws W) ?app1"
      using core_inv_writes [OF _ w] inv by simp
    have i2: "Inv D ?W ?app2" using Inv_record [OF i1] by simp
    have l2: "event_log_ok ?W (?n + 1)"
      using ok log wrap by (intro event_log_ok_record) simp_all
    have "wd_events W (?n + 1) = None"
      using log word_less_succ [OF wrap] by (cases "wd_events W (?n + 1)") (force simp: event_log_ok_def)+
    then have "fmlookup (sm_event_cache (fst app)) (?n + 1) = None"
      using core_invD(6) [OF inv] by (auto simp: cached_eq split: option.splits)
    then have "?n + 1 |\<notin>| fmdom (sm_event_cache (fst app))" by (rule fmdom_notI)
    moreover have "persisted_last D < ?n + 1"
      using cnt unat_succ [OF wrap] by (simp add: batch_ok_def word_less_nat_alt)
    ultimately have "batch_ok D ?app2"
      using cnt unat_succ [OF wrap]
      by (auto simp: batch_ok_def fcard_finsert_disjoint batch_keys_def)
    with i2 l2 ok(6) show ?thesis
      by (intro exI [of _ ?app2] exI [of _ ?W]) (simp add: hard_states_same_def wd_record_def)
  qed
qed

text \<open>The commands of an entry.\<close>

lemma handle_commands_inv:
  assumes "Full D W app" "admissible C li off cs app"
    "unat (sm_last_seq_num (fst app)) + length cs < 2 ^ 64"
  shows "\<exists>app' W'. handle_commands C li off cs app = (Ok (), app') \<and> Full D W' app' \<and>
    hard_states_same W W' \<and> same_frame app app'"
  using assms
proof (induction cs arbitrary: app off W)
  case Nil
  then show ?case by (auto simp: hard_states_same_def intro!: exI [of _ W])
next
  case (Cons c cs)
  obtain p where p: "cmd_request c = Some p" "payload_utf8 p" "\<not> updates_deleted (fst app) p"
    using Cons.prems(2) by (auto split: option.splits)
  have "unat (sm_last_seq_num (fst app)) + 1 < 2 ^ 64" using Cons.prems(3) by simp
  then have wrap: "sm_last_seq_num (fst app) + 1 \<noteq> 0" by (rule succ_no_wrap)
  from handle_command_inv [OF Cons.prems(1) p wrap, of li off] obtain app1 W1 where
    s1: "handle_command C app li off c = (Ok (), app1)" "Full D W1 app1" "hard_states_same W W1"
      "same_frame app app1"
    and seq: "sm_last_seq_num (fst app1) = sm_last_seq_num (fst app) \<or>
      sm_last_seq_num (fst app1) = sm_last_seq_num (fst app) + 1" by blast
  have "unat (sm_last_seq_num (fst app1)) + length cs < 2 ^ 64"
    using seq Cons.prems(3) unat_succ [OF wrap] by auto
  with Cons.IH [OF s1(2), of "off + 1"] Cons.prems(2) s1(1) obtain app2 W2 where
    "handle_commands C li (off + 1) cs app1 = (Ok (), app2)" "Full D W2 app2"
    "hard_states_same W1 W2" "same_frame app1 app2" by auto
  with s1 show ?case
    by (intro exI [of _ app2] exI [of _ W2]) (auto simp: hard_states_same_def dest: same_frame_trans)
qed

text \<open>A whole entry: the hard states in the batch are those of the memory.\<close>

lemma apply_entry_inv:
  assumes full: "Full D W app" and bnd: "boundary D W app"
    and idx: "li = sm_applied_index (fst app) + 1" "li \<noteq> 0"
    and adm: "admissible C li 0 cs app"
    and wrap: "unat (sm_last_seq_num (fst app)) + length cs < 2 ^ 64"
  shows "\<exists>app' W'. apply_entry C app (li, cs) = (Ok (), app') \<and> Full D W' app' \<and> boundary D W' app' \<and>
    sm_applied_index (fst app') = li \<and> cx_batch_size (snd app') = cx_batch_size (snd app)"
proof -
  from handle_commands_inv [OF full adm wrap] obtain sm cx W1 where
    s1: "handle_commands C li 0 cs app = (Ok (), (sm, cx))" and f1: "Full D W1 (sm, cx)"
    and h1: "hard_states_same W W1" and fr: "same_frame app (sm, cx)" by auto
  let ?sm = "sm\<lparr>sm_applied_index := li\<rparr>"
  let ?cx = "cx\<lparr>cx_wb := cx_wb cx @ [WbPut (as_bytes (hs_key APPLIED_INDEX)) (be_bytes li),
      WbPut (as_bytes (hs_key PERSISTED_LAST_SEQ_NUM)) (be_bytes (sm_last_seq_num sm))]\<rparr>"
  let ?W = "W1\<lparr>wd_applied := Some li, wd_last_seq := Some (sm_last_seq_num sm)\<rparr>"
  from f1 have "core_inv (c_proto C) sv view D W1 (sm, cx)" by simp
  note I = core_invD [OF this]
  from I(2) have "represents (c_proto C) (pending view (?sm, ?cx)) ?W"
    using represents_hard_states(2) [OF represents_hard_states(1)]
    by (fastforce simp: pending_def)
  then have "Inv D ?W (?sm, ?cx)" using I by (simp add: core_inv_def)
  moreover have "event_log_ok ?W (sm_last_seq_num ?sm)" using f1 by (simp add: event_log_ok_def)
  moreover have "batch_ok D (?sm, ?cx)" using f1 by (auto simp: batch_ok_def batch_keys_def)
  moreover have "boundary D ?W (?sm, ?cx)"
    using bnd fr idx word_less_succ [of "sm_applied_index (fst app)"]
    by (auto simp: boundary_def same_frame_def)
  moreover have "apply_entry C app (li, cs) = (Ok (), (?sm, ?cx))"
    using s1 idx by (simp add: apply_entry_def Let_def wb_defs write_u64)
  moreover have "cx_batch_size ?cx = cx_batch_size (snd app)" using fr by (simp add: same_frame_def)
  ultimately show ?thesis by force
qed

text \<open>A flush makes the pending database the persisted one.\<close>

lemma flush_inv:
  assumes full: "Full D W app" and bnd: "boundary D W app"
    and lt: "cx_flushed_applied_index (snd app) < sm_applied_index (fst app)"
  shows "\<exists>app'. flush C now app = (Ok (), app') \<and> Full W W app' \<and> boundary W W app' \<and>
    view (sm_rocksdb_state (fst app')) = pending view app \<and> cx_wb (snd app') = [] \<and>
    cx_to_be_deleted_account_ids (snd app') = [] \<and>
    sm_last_seq_num (fst app') = sm_last_seq_num (fst app) \<and>
    sm_applied_index (fst app') = sm_applied_index (fst app) \<and>
    cx_batch_size (snd app') = cx_batch_size (snd app)"
proof -
  obtain sm cx where app: "app = (sm, cx)" by (cases app)
  let ?tbd = "cx_to_be_deleted_account_ids cx"
  let ?accs = "fold fmdrop ?tbd (sm_accounts sm)"
  let ?sm = "sm\<lparr>sm_rocksdb_state := write_opt (c_rocksdb C) (sm_rocksdb_state sm) (cx_wb cx),
      sm_accounts := ?accs, sm_event_cache := fmempty, sm_seq_num_cache := fmempty\<rparr>"
  let ?cx = "cx\<lparr>cx_wb := [], cx_to_be_deleted_account_ids := [],
      cx_flushed_applied_index := sm_applied_index sm, cx_flushed_timestamp := now\<rparr>"
  have "core_inv (c_proto C) sv view D W (sm, cx)" using full by (simp add: app)
  note I = core_invD [OF this, simplified]
  have drop: "fmlookup (fold fmdrop is m) i = (if i \<in> set is then None else fmlookup m i)" for "is" m i
    by (induction "is" arbitrary: m) auto
  have accs: "fmlookup ?accs i = wd_accounts W i" for i
    using memory_ok_tombstone [OF I(4), of i] memory_ok_live [OF I(4), of i] by (simp add: drop)
  have "memory_ok ?accs [] (wd_accounts W)"
  proof (rule memory_okI)
    fix i b assume b: "fmlookup ?accs i = Some b" "acc_state b = Deleted"
    then have "i \<notin> set ?tbd" "fmlookup (sm_accounts sm) i = Some b" by (simp_all add: drop split: if_splits)
    with b(2) show "i \<in> set []" using memory_ok_deleted [OF I(4), of i b] by simp
  qed (simp_all add: accs)
  have "accounts_ok sv ?accs"
    using I(3) by (auto simp: accounts_ok_def drop split: if_splits)
  have run: "flush C now app = (Ok (), (?sm, ?cx))"
    using lt by (simp add: flush_def app wb_defs)
  have view': "view (sm_rocksdb_state ?sm) = pending view app" by (simp add: pending_def app)
  have rep: "represents (c_proto C) (pending view app) W" using I(2) by (simp add: app)
  have "Inv W W (?sm, ?cx)"
    using rep \<open>memory_ok ?accs [] (wd_accounts W)\<close> \<open>accounts_ok sv ?accs\<close> view'
    by (simp add: core_inv_def pending_def app)
  moreover have "event_log_ok W (sm_last_seq_num ?sm)" using full by (simp add: app)
  moreover have "batch_ok W (?sm, ?cx)"
    using full bnd by (simp add: batch_ok_def app persisted_last_def boundary_def)
  moreover have "boundary W W (?sm, ?cx)" using bnd by (simp add: boundary_def app)
  ultimately show ?thesis using run view' by (simp add: app)
qed

text \<open>Recovery rebuilds the memory from any consistent database.\<close>

lemma recover_inv:
  assumes rep: "represents (c_proto C) (view db) D" and log: "event_log_ok D (persisted_last D)"
    and accs: "db_accounts_ok sv D"
    and env: "parse_u64 (get_or_default ''100'' env) = Some bs"
  shows "\<exists>app. recover_from_db C mem env now db tx = Ok app \<and> Full D D app \<and> boundary D D app \<and>
    fmlookup (sm_accounts (fst app)) = wd_accounts D \<and> sm_rocksdb_state (fst app) = db \<and>
    sm_event_cache (fst app) = fmempty \<and> sm_seq_num_cache (fst app) = fmempty \<and>
    cx_wb (snd app) = [] \<and> cx_to_be_deleted_account_ids (snd app) = [] \<and> cx_batch_size (snd app) = bs"
proof -
  obtain accs where "read_accounts_from_db C mem db = (Ok accs :: (unit, _) res)"
    and lk: "fmlookup accs = wd_accounts D"
    using read_accounts [OF rep] by blast
  moreover have "accounts_ok sv accs"
    using accs rep lk by (auto simp: accounts_ok_def represents_def db_accounts_ok_def)
  moreover have "\<forall>i a. wd_accounts D i = Some a \<longrightarrow> acc_state a \<noteq> Deleted"
    using accs by (auto simp: db_accounts_ok_def)
  ultimately show ?thesis using rep log env
    by (simp add: recover_from_db_def read_hard_state [OF rep] apply_context_new_def core_inv_def
        pending_def boundary_def batch_ok_def persisted_last_def memory_ok_def)
qed

end

end
