(* ===== verification/Event_GC.thy ===== *)
theory Event_GC
  imports Config State_Machine_Inv
begin

text \<open>
  \<^verbatim>\<open>firm-wallet-service/src/gc.rs\<close>: the thread that truncates the event log in RocksDB. It deletes
  the oldest events with their deduplication entries and moves \<open>PERSISTED_FIRST_SEQ_NUM\<close>, one
  atomic batch at a time.
\<close>

definition gc_count :: "event_log_gc_config \<Rightarrow> u64" where
  "gc_count cfg = f64_as_u64 (f64_mul (f64_of_u64 (count_limit cfg)) (percentage cfg))"

definition should_gc :: "event_log_gc_config \<Rightarrow> u64 \<Rightarrow> u64 \<Rightarrow> (unit, u64 option) res" where
  "should_gc cfg first_seq_num last_seq_num =
     (if \<not> first_seq_num \<le> last_seq_num then Panic
      else if last_seq_num - first_seq_num < count_limit cfg then Ok None
      else Ok (Some (first_seq_num + gc_count cfg)))"

text \<open>The closure of the scan: it adds the two deletions to the write batch. An event that does not
  parse is an error, which the \<open>unwrap\<close> after the scan turns into a panic.\<close>

definition gc_scan_step ::
    "wallet_proto \<Rightarrow> bytes \<Rightarrow> bytes \<Rightarrow> write_batch \<Rightarrow> (unit, bool) res \<times> write_batch" where
  "gc_scan_step pb ekey event_value gc_wb =
     (case pb_event_parse pb event_value of
        None \<Rightarrow> (Err (), gc_wb)
      | Some event \<Rightarrow>
          let wb1 = wb_delete gc_wb ekey;
              command_key = dedup_key (as_bytes (eh_command_id (ev_get_header event)))
          in (Ok True, wb_delete wb1 command_key))"

text \<open>One batch. The write batch of the loop is empty between batches, so it is not part of the state.\<close>

definition gc_batch ::
    "('d, 'db) crates \<Rightarrow> memory \<Rightarrow> u64 \<Rightarrow> u64 \<Rightarrow> 'db \<Rightarrow> (unit, 'db) res" where
  "gc_batch C mem from_seq to_seq db =
     (let start_event_key = event_key (to_bytes (c_byteorder C) from_seq);
          end_event_key = event_key (to_bytes (c_byteorder C) to_seq)
      in case scan (c_rocksdb C) mem db start_event_key end_event_key (gc_scan_step (c_proto C)) [] of
           (Ok _, gc_wb) \<Rightarrow>
             let gc_wb' = wb_put gc_wb (as_bytes (hs_key PERSISTED_FIRST_SEQ_NUM))
                            (bo_write_u64 (c_byteorder C) to_seq)
             in Ok (write_opt (c_rocksdb C) db gc_wb')
         | _ \<Rightarrow> Panic)"

text \<open>The loop over the batches; \<open>None\<close> is a loop that does not end.\<close>

partial_function (option) gc_loop_batches ::
    "('d, 'db) crates \<Rightarrow> memory \<Rightarrow> u64 \<Rightarrow> u64 \<Rightarrow> u64 \<Rightarrow> u64 \<Rightarrow> 'db \<Rightarrow> (unit, 'db) res option" where
  "gc_loop_batches C mem batch_size next_first from_seq to_seq db =
     (if from_seq < next_first
      then (case gc_batch C mem from_seq to_seq db of
              Ok db' \<Rightarrow> gc_loop_batches C mem batch_size next_first to_seq
                         (min (to_seq + batch_size) next_first) db'
            | Err e \<Rightarrow> Some (Err e)
            | Panic \<Rightarrow> Some Panic)
      else Some (Ok db))"

definition gc ::
    "('d, 'db) crates \<Rightarrow> memory \<Rightarrow> event_log_gc_config \<Rightarrow> u64 \<Rightarrow> u64 \<Rightarrow> 'db \<Rightarrow> (unit, 'db) res option" where
  "gc C mem cfg first_seq_num next_first_seq_num db =
     (let from_seq = max first_seq_num (default_value PERSISTED_FIRST_SEQ_NUM + 1);
          to_seq = min (from_seq + gc_batch_size cfg) next_first_seq_num
      in gc_loop_batches C mem (gc_batch_size cfg) next_first_seq_num from_seq to_seq db)"

text \<open>One round of the main loop: \<open>None\<close> when the loop does not end, and whether it sleeps after.\<close>

definition gc_round ::
    "('d, 'db) crates \<Rightarrow> memory \<Rightarrow> event_log_gc_config \<Rightarrow> 'db \<Rightarrow> (unit, 'db \<times> bool) res option" where
  "gc_round C mem cfg db =
     (case bind_res (read_hard_state_from_db C db PERSISTED_FIRST_SEQ_NUM) (\<lambda>first_seq_num.
           bind_res (read_hard_state_from_db C db PERSISTED_LAST_SEQ_NUM) (\<lambda>last_seq_num.
           bind_res (should_gc cfg first_seq_num last_seq_num) (\<lambda>nxt. Ok (first_seq_num, nxt)))) of
        Ok (first_seq_num, Some next) \<Rightarrow>
          map_option (\<lambda>r. bind_res r (\<lambda>db'. Ok (db', False))) (gc C mem cfg first_seq_num next db)
      | Ok (_, None) \<Rightarrow> Some (Ok (db, True))
      | _ \<Rightarrow> Some Panic)"

section \<open>The count never exceeds the limit\<close>

lemma gc_count_le:
  assumes "legal_percentage (percentage cfg)"
  shows "gc_count cfg \<le> count_limit cfg"
proof -
  define n where "n = unat (count_limit cfg)"
  define c where "c = (of_nat n :: rat)"
  from assms obtain p where p: "percentage cfg = Fin p" "0 \<le> p" "p \<le> 1 / 4"
    by (auto simp: legal_percentage_def split: f64.splits)
  have lt: "n < 2 ^ 64" using unsigned_less [where w = "count_limit cfg"] by (simp add: n_def)
  then have "c < of_nat (2 ^ 64)" unfolding c_def by (rule of_nat_less_iff [THEN iffD2])
  then have c: "0 \<le> c" "c < 2 ^ 64" by (simp_all add: c_def)
  then have "2 * c < 2 ^ 1024" by simp
  with f64_round_bound [of c] c obtain r where r: "f64_round c = Fin r" "0 \<le> r" "r \<le> 2 * c" by auto
  define y where "y = r * p"
  have rp: "0 \<le> y" "y \<le> c / 2"
    using r p mult_mono [of r "2 * c" p "1 / 4"] c by (auto simp: y_def)
  then have "2 * y < 2 ^ 1024" using c by simp
  with f64_round_bound [of y] rp obtain q where
    q: "f64_round y = Fin q" "0 \<le> q" "q \<le> 2 * y" by auto
  have "q \<le> c" using q rp by simp
  then have fl: "0 \<le> \<lfloor>q\<rfloor>" "\<lfloor>q\<rfloor> \<le> int n"
    using q floor_mono [of q c] by (simp_all add: c_def)
  have "int n < 2 ^ 64" using lt by (metis of_nat_less_iff of_nat_numeral of_nat_power)
  with fl(2) have up: "\<lfloor>q\<rfloor> < 2 ^ 64" by (rule le_less_trans)
  have "unat (of_int \<lfloor>q\<rfloor> :: u64) = nat \<lfloor>q\<rfloor>"
    using fl up by (simp add: unat_eq_nat_uint uint_word_of_int_eq take_bit_int_eq_self)
  moreover have "nat \<lfloor>q\<rfloor> \<le> n" using fl(2) by (rule nat_le_iff [THEN iffD2])
  ultimately have "of_int \<lfloor>q\<rfloor> \<le> count_limit cfg" by (simp add: word_le_nat_alt n_def)
  moreover have "gc_count cfg = of_int \<lfloor>q\<rfloor>"
    using q r p up unfolding gc_count_def f64_of_u64_def n_def [symmetric] c_def [symmetric]
    by (simp add: f64_mul_def f64_as_u64_def y_def)
  ultimately show ?thesis by simp
qed

section \<open>What one batch does to the database\<close>

text \<open>The keys a batch deletes, given the events \<open>E\<close>, and the database after it.\<close>

definition gc_keys :: "u64 \<Rightarrow> u64 \<Rightarrow> (u64 \<rightharpoonup> event) \<Rightarrow> bytes set" where
  "gc_keys from_seq to_seq E =
     {k. \<exists>n e. from_seq \<le> n \<and> n < to_seq \<and> E n = Some e \<and>
        (k = event_key (be_bytes n) \<or> k = dedup_key (as_bytes (eh_command_id (ev_get_header e))))}"

definition gc_view :: "u64 \<Rightarrow> u64 \<Rightarrow> (u64 \<rightharpoonup> event) \<Rightarrow> (bytes \<rightharpoonup> bytes) \<Rightarrow> (bytes \<rightharpoonup> bytes)" where
  "gc_view from_seq to_seq E m = (\<lambda>k.
     if k = as_bytes (hs_key PERSISTED_FIRST_SEQ_NUM) then Some (be_bytes to_seq)
     else if k \<in> gc_keys from_seq to_seq E then None else m k)"

definition gc_typed :: "u64 \<Rightarrow> u64 \<Rightarrow> wallet_db \<Rightarrow> wallet_db" where
  "gc_typed from_seq to_seq W =
     W\<lparr>wd_events := (\<lambda>n. if from_seq \<le> n \<and> n < to_seq then None else wd_events W n),
       wd_dedup := (\<lambda>c. if \<exists>n e. from_seq \<le> n \<and> n < to_seq \<and> wd_events W n = Some e \<and>
                             eh_command_id (ev_get_header e) = c then None else wd_dedup W c),
       wd_first_seq := Some to_seq\<rparr>"

lemma gc_typed_simps [simp]:
  "wd_accounts (gc_typed f t W) = wd_accounts W" "wd_applied (gc_typed f t W) = wd_applied W"
  "wd_last_seq (gc_typed f t W) = wd_last_seq W" "wd_first_seq (gc_typed f t W) = Some t"
  "wd_events (gc_typed f t W) n = (if f \<le> n \<and> n < t then None else wd_events W n)"
  by (simp_all add: gc_typed_def)

lemma gc_view_simps:
  "gc_view f t E m (data_key k) = m (data_key k)"
  "gc_view f t E m (dedup_key (as_bytes c)) =
     (if \<exists>n e. f \<le> n \<and> n < t \<and> E n = Some e \<and> eh_command_id (ev_get_header e) = c then None
      else m (dedup_key (as_bytes c)))"
  "gc_view f t E m (event_key (be_bytes n)) =
     (if f \<le> n \<and> n < t \<and> E n \<noteq> None then None else m (event_key (be_bytes n)))"
  "gc_view f t E m (as_bytes (hs_key APPLIED_INDEX)) = m (as_bytes (hs_key APPLIED_INDEX))"
  "gc_view f t E m (as_bytes (hs_key PERSISTED_LAST_SEQ_NUM)) =
     m (as_bytes (hs_key PERSISTED_LAST_SEQ_NUM))"
  "gc_view f t E m (as_bytes (hs_key PERSISTED_FIRST_SEQ_NUM)) = Some (be_bytes t)"
  by (simp_all add: gc_view_def gc_keys_def) blast

lemma gc_view_event_some: "gc_view f t E m (event_key k) \<noteq> None \<Longrightarrow> m (event_key k) \<noteq> None"
  by (simp add: gc_view_def split: if_splits)

lemma represents_gc:
  assumes "represents pb m W"
  shows "represents pb (gc_view f t (wd_events W) m) (gc_typed f t W)"
proof -
  note r = assms [unfolded represents_def]
  have ev: "gc_view f t (wd_events W) m (event_key (be_bytes n)) =
      map_option (pb_event_write pb) (wd_events (gc_typed f t W) n)" for n
    using r by (cases "wd_events W n") (auto simp: gc_view_simps)
  have dd: "gc_view f t (wd_events W) m (dedup_key (as_bytes c)) =
      map_option be_bytes (wd_dedup (gc_typed f t W) c)" for c
    using r by (auto simp: gc_view_simps gc_typed_def)
  show ?thesis
    unfolding represents_def
    using r ev dd gc_view_event_some [of f t "wd_events W" m]
    by (intro conjI) (simp_all add: gc_view_simps)
qed

lemma event_key_between:
  assumes "event_key a \<le> k" "k < event_key b"
  shows "\<exists>x. k = event_key x"
proof (cases k)
  case Nil
  with assms(1) show ?thesis by (simp add: event_key_def EVENT_PREFIX_KEY_def)
next
  case (Cons y ys)
  with assms have "y = EVENT_PREFIX" by (auto simp: event_key_def EVENT_PREFIX_KEY_def)
  with Cons show ?thesis by (simp add: event_key_def EVENT_PREFIX_KEY_def)
qed

lemma apply_deletes:
  "\<forall>op \<in> set ops. \<exists>k. op = WbDelete k \<Longrightarrow>
     apply_ops ops m k = (if k \<in> op_key ` set ops then None else m k)"
proof (induction ops rule: rev_induct)
  case Nil
  then show ?case by simp
next
  case (snoc op ops)
  then show ?case by (cases op) auto
qed

lemma fold_append_concat: "fold (\<lambda>x acc. acc @ h x) xs acc = acc @ concat (map h xs)"
  by (induction xs arbitrary: acc) simp_all

context crates_spec
begin

lemma gc_entry:
  assumes rep: "represents (c_proto C) (view db) D"
  shows "(k, v) \<in> set (rdb_iter (c_rocksdb C) db (Some (event_key (be_bytes f)))
      (Some (event_key (be_bytes t))) (event_key (be_bytes f))) \<longleftrightarrow>
    (\<exists>n e. f \<le> n \<and> n < t \<and> wd_events D n = Some e \<and> k = event_key (be_bytes n) \<and>
       v = pb_event_write (c_proto C) e)" (is "_ \<longleftrightarrow> ?R")
proof
  assume "(k, v) \<in> set (rdb_iter (c_rocksdb C) db (Some (event_key (be_bytes f)))
      (Some (event_key (be_bytes t))) (event_key (be_bytes f)))"
  then have kv: "view db k = Some v" "event_key (be_bytes f) \<le> k" "k < event_key (be_bytes t)"
    by (auto simp: iter_set in_bounds_def)
  from event_key_between [OF kv(2,3)] kv(1) rep obtain n where "k = event_key (be_bytes n)"
    by (auto simp: represents_def)
  with kv rep show ?R by (auto simp: represents_def)
next
  assume ?R
  with rep show "(k, v) \<in> set (rdb_iter (c_rocksdb C) db (Some (event_key (be_bytes f)))
      (Some (event_key (be_bytes t))) (event_key (be_bytes f)))"
    by (auto simp: iter_set in_bounds_def represents_def)
qed

lemma gc_batch_view:
  assumes rep: "represents (c_proto C) (view db) D"
  shows "\<exists>db'. gc_batch C mem f t db = Ok db' \<and> view db' = gc_view f t (wd_events D) (view db)"
proof -
  define it where "it = rdb_iter (c_rocksdb C) db (Some (event_key (be_bytes f)))
      (Some (event_key (be_bytes t))) (event_key (be_bytes f))"
  define ck where "ck = (\<lambda>v. dedup_key (as_bytes
      (eh_command_id (ev_get_header (the (pb_event_parse (c_proto C) v))))))"
  define h where "h = (\<lambda>kv. [WbDelete (fst kv), WbDelete (ck (snd kv))])"
  have step: "gc_scan_step (c_proto C) k v wb = (Ok True, wb @ h (k, v))" if "(k, v) \<in> set it" for k v wb
    using that gc_entry [OF rep] by (auto simp: it_def gc_scan_step_def h_def ck_def wb_defs)
  have "fold (\<lambda>(k, v) wb. wb @ h (k, v)) it [] = concat (map h it)"
    using fold_append_concat [of h it "[]"] by (simp add: case_prod_beta')
  then have run: "scan (c_rocksdb C) mem db (event_key (be_bytes f)) (event_key (be_bytes t))
      (gc_scan_step (c_proto C)) [] = (Ok (), concat (map h it))"
    using scan_impl_fold [OF step] by (simp add: scan_eq it_def)
  have "op_key ` set (concat (map h it)) = (\<Union>(k, v) \<in> set it. {k, ck v})"
    by (simp add: h_def image_UN case_prod_beta')
  also have "\<dots> = {x. \<exists>k v. (k, v) \<in> set it \<and> (x = k \<or> x = ck v)}" by blast
  also have "\<dots> = gc_keys f t (wd_events D)"
  proof -
    have "(k, v) \<in> set it \<longleftrightarrow> (\<exists>n e. f \<le> n \<and> n < t \<and> wd_events D n = Some e \<and>
        k = event_key (be_bytes n) \<and> v = pb_event_write (c_proto C) e)" for k v
      unfolding it_def by (rule gc_entry [OF rep])
    moreover have "ck (pb_event_write (c_proto C) e) =
        dedup_key (as_bytes (eh_command_id (ev_get_header e)))" for e
      by (simp add: ck_def)
    ultimately show ?thesis unfolding gc_keys_def by (auto, metis+)
  qed
  finally have keys: "op_key ` set (concat (map h it)) = gc_keys f t (wd_events D)" .
  have del: "apply_ops (concat (map h it)) m k =
      (if k \<in> gc_keys f t (wd_events D) then None else m k)" for m k
    using apply_deletes [of "concat (map h it)" m k] keys by (auto simp: h_def)
  have "gc_batch C mem f t db = Ok (write_opt (c_rocksdb C) db (concat (map h it) @
      [WbPut (as_bytes (hs_key PERSISTED_FIRST_SEQ_NUM)) (be_bytes t)]))"
    by (simp add: gc_batch_def run wb_defs write_u64)
  moreover have "view (write_opt (c_rocksdb C) db (concat (map h it) @
      [WbPut (as_bytes (hs_key PERSISTED_FIRST_SEQ_NUM)) (be_bytes t)])) =
      gc_view f t (wd_events D) (view db)"
    by (rule ext) (simp add: gc_view_def del)
  ultimately show ?thesis by blast
qed

end

section \<open>Garbage collection beside the apply loop\<close>

lemma event_log_okD:
  assumes "event_log_ok W last_seq"
  shows "wd_dedup W c = Some n \<Longrightarrow> \<exists>e. wd_events W n = Some e \<and> eh_command_id (ev_get_header e) = c"
    "wd_events W n = Some e \<Longrightarrow> wd_dedup W (eh_command_id (ev_get_header e)) = Some n"
    "wd_events W n = Some e \<Longrightarrow> eh_seq_num (ev_get_header e) = n \<and> ev_get_event e \<noteq> None \<and>
       0 < n \<and> n \<le> last_seq"
    "0 < n \<Longrightarrow> get_or_default 0 (wd_first_seq W) \<le> n \<Longrightarrow> n \<le> last_seq \<Longrightarrow> wd_events W n \<noteq> None"
  using assms by (simp_all add: event_log_ok_def)

lemma gc_typed_dedup:
  assumes ok: "event_log_ok W last_seq"
  shows "wd_dedup (gc_typed f t W) c = Some n \<longleftrightarrow> wd_dedup W c = Some n \<and> \<not> (f \<le> n \<and> n < t)"
proof (cases "wd_dedup W c")
  case None
  then show ?thesis by (simp add: gc_typed_def)
next
  case (Some m)
  then obtain e where e: "wd_events W m = Some e" "eh_command_id (ev_get_header e) = c"
    using event_log_okD(1) [OF ok] by blast
  have "(\<exists>n e. f \<le> n \<and> n < t \<and> wd_events W n = Some e \<and> eh_command_id (ev_get_header e) = c) \<longleftrightarrow>
      f \<le> m \<and> m < t"
    using e event_log_okD(2) [OF ok] Some by (metis option.inject)
  with Some show ?thesis by (auto simp: gc_typed_def)
qed

lemma event_log_ok_gc:
  assumes ok: "event_log_ok W last_seq" and f: "get_or_default 0 (wd_first_seq W) \<le> t"
  shows "event_log_ok (gc_typed f t W) last_seq"
  unfolding event_log_ok_def gc_typed_dedup [OF ok]
proof (intro conjI allI impI; (elim conjE)?)
  fix c n
  assume "wd_dedup W c = Some n" "\<not> (f \<le> n \<and> n < t)"
  with event_log_okD(1) [OF ok] show "\<exists>e. wd_events (gc_typed f t W) n = Some e \<and>
      eh_command_id (ev_get_header e) = c" by auto
next
  fix n
  assume "0 < n" "get_or_default 0 (wd_first_seq (gc_typed f t W)) \<le> n" "n \<le> last_seq"
  moreover from this f have "get_or_default 0 (wd_first_seq W) \<le> n" by simp
  ultimately show "wd_events (gc_typed f t W) n \<noteq> None"
    using event_log_okD(4) [OF ok, of n] by (simp add: leD)
qed (use event_log_okD(2,3) [OF ok] in \<open>auto split: if_splits\<close>)

text \<open>Two adjacent batches are one.\<close>

lemma gc_typed_compose:
  assumes "f \<le> t" "t \<le> u"
  shows "gc_typed t u (gc_typed f t W) = gc_typed f u W"
proof -
  have split: "f \<le> n \<and> n < u \<longleftrightarrow> (f \<le> n \<and> n < t) \<or> (t \<le> n \<and> n < u)" for n
    using assms by (meson le_less_trans less_le_trans not_le order_trans)
  have evs: "(\<lambda>n. if t \<le> n \<and> n < u then None else wd_events (gc_typed f t W) n) =
      (\<lambda>n. if f \<le> n \<and> n < u then None else wd_events W n)"
    by (rule ext) (use split in auto)
  have hit: "(\<exists>n e. t \<le> n \<and> n < u \<and> wd_events (gc_typed f t W) n = Some e \<and> Q e) \<or>
      (\<exists>n e. f \<le> n \<and> n < t \<and> wd_events W n = Some e \<and> Q e) \<longleftrightarrow>
      (\<exists>n e. f \<le> n \<and> n < u \<and> wd_events W n = Some e \<and> Q e)" for Q
  proof -
    have "t \<le> n \<Longrightarrow> wd_events (gc_typed f t W) n = wd_events W n" for n by (simp add: leD)
    moreover have "f \<le> n \<Longrightarrow> n < t \<Longrightarrow> n < u" "t \<le> n \<Longrightarrow> f \<le> n" "\<not> t \<le> n \<Longrightarrow> n < t" for n
      using assms by auto
    ultimately show ?thesis by (intro iffI; elim disjE exE conjE) (metis, metis, metis)
  qed
  have eq: "wd_dedup (gc_typed a b X) c =
      (if \<exists>n e. a \<le> n \<and> n < b \<and> wd_events X n = Some e \<and> eh_command_id (ev_get_header e) = c
       then None else wd_dedup X c)" for a b X c
    by (simp add: gc_typed_def)
  have nest: "(if A then x else if B then x else d) = (if R then x else d)" if "A \<or> B \<longleftrightarrow> R"
    for A B R and x d :: "u64 option"
    using that by auto
  have "wd_dedup (gc_typed t u (gc_typed f t W)) c = wd_dedup (gc_typed f u W) c" for c
    unfolding eq by (rule nest) (rule hit)
  then have "wd_dedup (gc_typed t u (gc_typed f t W)) = wd_dedup (gc_typed f u W)" by (rule ext)
  moreover have "wd_events (gc_typed t u (gc_typed f t W)) = wd_events (gc_typed f u W)"
    using evs by (simp add: fun_eq_iff)
  ultimately show ?thesis by (intro wallet_db.equality) simp_all
qed

context crates_spec
begin

text \<open>The events up to the persisted last one are the same in \<open>D\<close> and in \<open>W\<close>, and so is the first
  sequence number.\<close>

lemma persisted_events_same:
  assumes "Full D W app" "n \<le> persisted_last D"
  shows "wd_events W n = wd_events D n" "n \<notin> fmdom' (sm_event_cache (fst app))"
proof -
  show n: "n \<notin> fmdom' (sm_event_cache (fst app))"
    using assms by (auto simp: batch_ok_def)
  then show "wd_events W n = wd_events D n"
    using assms(1) by (auto simp: core_inv_def cached_eq fmlookup_dom'_iff split: option.splits)
qed

lemma first_seq_same:
  assumes "Full D W app"
  shows "wd_first_seq W = wd_first_seq D"
proof -
  have "as_bytes (hs_key PERSISTED_FIRST_SEQ_NUM) \<notin> batch_keys app"
    by (auto simp: batch_keys_def)
  then have "as_bytes (hs_key PERSISTED_FIRST_SEQ_NUM) \<notin> op_key ` set (cx_wb (snd app))"
    using assms by (auto simp: batch_ok_def)
  then have "pending view app (as_bytes (hs_key PERSISTED_FIRST_SEQ_NUM)) =
      view (sm_rocksdb_state (fst app)) (as_bytes (hs_key PERSISTED_FIRST_SEQ_NUM))"
    by (simp add: pending_def apply_ops_other)
  then have "map_option be_bytes (wd_first_seq W) = map_option be_bytes (wd_first_seq D)"
    using assms by (auto simp: core_inv_def represents_def)
  then show ?thesis by (cases "wd_first_seq W"; cases "wd_first_seq D") simp_all
qed

lemma cached_dedup_kept:
  assumes full: "Full D W app" and n: "n \<le> persisted_last D"
    and c: "c \<in> fmdom' (sm_seq_num_cache (fst app))" and e: "wd_events D n = Some e"
  shows "eh_command_id (ev_get_header e) \<noteq> c"
proof
  assume eq: "eh_command_id (ev_get_header e) = c"
  from c obtain m where m: "fmlookup (sm_seq_num_cache (fst app)) c = Some m"
    by (auto simp: fmlookup_dom'_iff)
  then have "wd_dedup W c = Some m" "m \<in> fmdom' (sm_event_cache (fst app))"
    using full by (auto simp: core_inv_def cached_eq batch_ok_def)
  moreover have "wd_dedup W c = Some n"
    using full persisted_events_same(1) [OF full n] e eq by (auto simp: event_log_ok_def)
  ultimately show False using persisted_events_same(2) [OF full n] by simp
qed

lemma gc_keys_not_batch:
  assumes full: "Full D W app" and t: "t \<le> persisted_last D" and k: "k \<in> gc_keys f t (wd_events D)"
  shows "k \<notin> batch_keys app"
proof -
  from k obtain n e where n: "n < t" "wd_events D n = Some e"
    and k': "k = event_key (be_bytes n) \<or> k = dedup_key (as_bytes (eh_command_id (ev_get_header e)))"
    by (auto simp: gc_keys_def)
  from n(1) t have n': "n \<le> persisted_last D" by simp
  from k' show ?thesis
    using persisted_events_same(2) [OF full n'] cached_dedup_kept [OF full n' _ n(2)]
    by (auto simp: batch_keys_def)
qed

text \<open>One batch, applied to the database under the running apply loop.\<close>

lemma gc_batch_Full:
  assumes full: "Full D W app" and bnd: "boundary D W app"
    and t: "t \<le> persisted_last D" "get_or_default 0 (wd_first_seq D) \<le> t"
  shows "\<exists>db'. gc_batch C mem f t (sm_rocksdb_state (fst app)) = Ok db' \<and>
    Full (gc_typed f t D) (gc_typed f t W) ((fst app)\<lparr>sm_rocksdb_state := db'\<rparr>, snd app) \<and>
    boundary (gc_typed f t D) (gc_typed f t W) ((fst app)\<lparr>sm_rocksdb_state := db'\<rparr>, snd app)"
proof -
  obtain sm cx where app: "app = (sm, cx)" by (cases app)
  let ?db = "sm_rocksdb_state sm"
  have rep: "represents (c_proto C) (view ?db) D" "represents (c_proto C) (pending view app) W"
    using full by (simp_all add: core_inv_def app)
  obtain db' where db': "gc_batch C mem f t ?db = Ok db'"
    "view db' = gc_view f t (wd_events D) (view ?db)"
    using gc_batch_view [OF rep(1)] by blast
  have range: "wd_events W n = wd_events D n" if "n < t" for n
    using persisted_events_same(1) [OF full] that t(1) by (meson le_less order_trans)
  have keys: "gc_keys f t (wd_events W) = gc_keys f t (wd_events D)"
    using range by (auto simp: gc_keys_def)
  have pend: "pending view (sm\<lparr>sm_rocksdb_state := db'\<rparr>, cx) =
      gc_view f t (wd_events W) (pending view app)"
  proof
    fix k
    show "pending view (sm\<lparr>sm_rocksdb_state := db'\<rparr>, cx) k =
        gc_view f t (wd_events W) (pending view app) k"
    proof (cases "k \<in> op_key ` set (cx_wb cx)")
      case True
      then have b: "k \<in> batch_keys app" using full by (auto simp: batch_ok_def app)
      then have "k \<notin> gc_keys f t (wd_events D)"
        using gc_keys_not_batch [OF full t(1)] by blast
      moreover have "k \<noteq> as_bytes (hs_key PERSISTED_FIRST_SEQ_NUM)"
        using b by (auto simp: batch_keys_def)
      ultimately show ?thesis
        using apply_ops_decides [OF True] by (simp add: gc_view_def keys pending_def app)
    next
      case False
      then show ?thesis
        using apply_ops_other [OF False] by (simp add: gc_view_def keys pending_def app db'(2))
    qed
  qed
  have W': "represents (c_proto C) (pending view (sm\<lparr>sm_rocksdb_state := db'\<rparr>, cx)) (gc_typed f t W)"
    unfolding pend by (rule represents_gc [OF rep(2)])
  have D': "represents (c_proto C) (view db') (gc_typed f t D)"
    unfolding db'(2) by (rule represents_gc [OF rep(1)])
  have evs: "wd_events (gc_typed f t W) = cached (sm_event_cache sm) (wd_events (gc_typed f t D))"
  proof
    fix n
    have "fmlookup (sm_event_cache sm) n = None" if "n < t"
      using persisted_events_same(2) [OF full, of n] that t(1) by (simp add: app fmlookup_dom'_iff)
    moreover have "wd_events W n = cached (sm_event_cache sm) (wd_events D) n"
      using full by (simp add: core_inv_def app)
    ultimately show "wd_events (gc_typed f t W) n =
        cached (sm_event_cache sm) (wd_events (gc_typed f t D)) n"
      by (auto simp: cached_eq split: option.splits)
  qed
  have dds: "wd_dedup (gc_typed f t W) = cached (sm_seq_num_cache sm) (wd_dedup (gc_typed f t D))"
  proof
    fix c
    define P where "P E \<longleftrightarrow> (\<exists>n e. f \<le> n \<and> n < t \<and> E n = Some e \<and> eh_command_id (ev_get_header e) = c)"
      for E :: "u64 \<rightharpoonup> event"
    have gc: "wd_dedup (gc_typed f t X) c = (if P (wd_events X) then None else wd_dedup X c)" for X
      by (simp add: gc_typed_def P_def)
    have "P (wd_events W) = P (wd_events D)" using range by (auto simp: P_def)
    moreover have "fmlookup (sm_seq_num_cache sm) c = None" if p: "P (wd_events D)"
    proof -
      from p obtain n e where "n < t" "wd_events D n = Some e" "eh_command_id (ev_get_header e) = c"
        by (auto simp: P_def)
      moreover from this t(1) have "n \<le> persisted_last D" by simp
      ultimately have "c \<notin> fmdom' (sm_seq_num_cache sm)"
        using cached_dedup_kept [OF full, of n c e] by (auto simp: app)
      then show ?thesis by (simp add: fmlookup_dom'_iff)
    qed
    moreover have "wd_dedup W c = cached (sm_seq_num_cache sm) (wd_dedup D) c"
      using full by (simp add: core_inv_def app)
    ultimately show "wd_dedup (gc_typed f t W) c =
        cached (sm_seq_num_cache sm) (wd_dedup (gc_typed f t D)) c"
      by (auto simp: gc cached_eq split: option.splits)
  qed
  have "event_log_ok (gc_typed f t W) (sm_last_seq_num sm)"
    using full t(2) first_seq_same [OF full] by (intro event_log_ok_gc) (simp_all add: app)
  moreover have "event_log_ok (gc_typed f t D) (persisted_last D)"
    using full t(2) by (intro event_log_ok_gc) (simp_all add: batch_ok_def)
  moreover have pl: "persisted_last (gc_typed f t D) = persisted_last D"
    by (simp add: persisted_last_def)
  ultimately have "Full (gc_typed f t D) (gc_typed f t W) (sm\<lparr>sm_rocksdb_state := db'\<rparr>, cx)"
    using full D' W' evs dds by (simp add: core_inv_def app batch_ok_def batch_keys_def)
  moreover have "boundary (gc_typed f t D) (gc_typed f t W) (sm\<lparr>sm_rocksdb_state := db'\<rparr>, cx)"
    using bnd by (auto simp: boundary_def app)
  ultimately show ?thesis using db'(1) by (simp add: app)
qed

text \<open>The loop over the batches ends when the batch size is not zero, and then it has done what one
  batch over the whole range would do.\<close>

lemma gc_loop_ends:
  assumes "represents (c_proto C) (view db) D" "bsize \<noteq> 0" "unat nxt + unat bsize < 2 ^ 64"
    "f \<le> nxt"
  shows "\<exists>db'. gc_loop_batches C mem bsize nxt f (min (f + bsize) nxt) db = Some (Ok db') \<and>
    represents (c_proto C) (view db') (if f < nxt then gc_typed f nxt D else D)"
  using assms(1,4)
proof (induction "unat nxt - unat f" arbitrary: f db D rule: less_induct)
  case less
  show ?case
  proof (cases "f < nxt")
    case False
    with less.prems show ?thesis by (subst gc_loop_batches.simps) auto
  next
    case True
    let ?t = "min (f + bsize) nxt"
    have "unat f + unat bsize < 2 ^ 64" using less.prems(2) assms(3) by (simp add: word_le_nat_alt)
    then have "unat (f + bsize) = unat f + unat bsize" by (simp add: unat_word_ariths)
    moreover have "0 < unat bsize" using assms(2) by (simp add: unat_gt_0)
    ultimately have "f < f + bsize" by (simp add: word_less_nat_alt)
    then have t: "f < ?t" "?t \<le> nxt" using True by auto
    obtain db1 where db1: "gc_batch C mem f ?t db = Ok db1"
      "represents (c_proto C) (view db1) (gc_typed f ?t D)"
      using gc_batch_view [OF less.prems(1)] represents_gc [OF less.prems(1)] by metis
    have "unat nxt - unat ?t < unat nxt - unat f"
      using t True by (simp add: word_less_nat_alt word_le_nat_alt diff_less_mono2)
    from less.hyps [OF this db1(2) t(2)] obtain db2 where
      db2: "gc_loop_batches C mem bsize nxt ?t (min (?t + bsize) nxt) db1 = Some (Ok db2)"
      "represents (c_proto C) (view db2)
        (if ?t < nxt then gc_typed ?t nxt (gc_typed f ?t D) else gc_typed f ?t D)" by blast
    have "(if ?t < nxt then gc_typed ?t nxt (gc_typed f ?t D) else gc_typed f ?t D) = gc_typed f nxt D"
      using gc_typed_compose [of f ?t nxt D] t by (auto simp: le_less)
    with db1 db2 True show ?thesis by (subst gc_loop_batches.simps) auto
  qed
qed

text \<open>With a batch size of zero the loop makes no progress and never ends.\<close>

lemma gc_loop_zero_diverges:
  assumes "represents (c_proto C) (view db) D" "f < nxt"
  shows "gc_loop_batches C mem 0 nxt f f db = None"
proof -
  let ?P = "\<lambda>C' (mem' :: memory) (bs :: u64) n f t db (r :: (unit, 'db) res). C' = C \<and> bs = 0 \<and> t = f \<and> f < n \<longrightarrow>
      \<not> (\<exists>D. represents (c_proto C) (view db) D)"
  have "?P C mem 0 nxt f f db r" if "gc_loop_batches C mem 0 nxt f f db = Some r" for r
    using that
  proof (rule gc_loop_batches.raw_induct [where P = ?P, rotated])
    fix loop C' mem' bs n f t db r
    assume IH: "\<And>C' mem' bs n f t db r. loop C' mem' bs n f t db = Some r \<Longrightarrow> ?P C' mem' bs n f t db r"
      and body: "(if f < n
        then case gc_batch C' mem' f t db of
            Ok db' \<Rightarrow> loop C' mem' bs n t (min (t + bs) n) db'
          | Err e \<Rightarrow> Some (Err e) | Panic \<Rightarrow> Some Panic
        else Some (Ok db)) = Some r"
    show "?P C' mem' bs n f t db r"
    proof (intro impI notI, elim conjE exE)
      fix D
      assume eq: "C' = C" "bs = 0" "t = f" "f < n" and D: "represents (c_proto C) (view db) D"
      obtain db' where db': "gc_batch C mem' f f db = Ok db'"
        "represents (c_proto C) (view db') (gc_typed f f D)"
        using gc_batch_view [OF D] represents_gc [OF D] by metis
      with body eq have "loop C mem' 0 n f f db' = Some r" by simp
      from IH [OF this] eq db'(2) show False by blast
    qed
  qed
  with assms show ?thesis by (metis not_Some_eq)
qed

text \<open>What the loop asks for lies between the first and the last sequence number.\<close>

end

lemma should_gc_range:
  assumes pct: "legal_percentage (percentage cfg)" and "should_gc cfg f l = Ok (Some nxt)"
  shows "f \<le> nxt" "nxt \<le> l" "nxt = f + gc_count cfg"
proof -
  from assms(2) have fl: "f \<le> l" "count_limit cfg \<le> l - f" "nxt = f + gc_count cfg"
    by (auto simp: should_gc_def not_less split: if_splits)
  then have g: "gc_count cfg \<le> l - f" using gc_count_le [OF pct] by simp
  have lf: "unat (l - f) = unat l - unat f" using fl(1) by (simp add: unat_sub)
  have "unat f + unat (gc_count cfg) \<le> unat l" using g fl(1) by (simp add: word_le_nat_alt lf)
  moreover have "unat l < 2 ^ 64" using unsigned_less [where w = l] by simp
  ultimately have "unat (f + gc_count cfg) = unat f + unat (gc_count cfg)"
    by (simp add: unat_word_ariths)
  with \<open>unat f + unat (gc_count cfg) \<le> unat l\<close> fl(3) show "f \<le> nxt" "nxt \<le> l" "nxt = f + gc_count cfg"
    by (simp_all add: word_le_nat_alt)
qed

end
