(* ===== verification/Wallet_System.thy ===== *)
theory Wallet_System
  imports Event_GC
begin

text \<open>
  The wallet process as a transition system: the apply loop (\<^verbatim>\<open>state_machine.rs\<close>) and the event log
  garbage collector (\<^verbatim>\<open>gc.rs\<close>) share one RocksDB instance, and the process may be killed and
  restarted between any two of their steps. A step of the apply loop is a whole raft log entry or a
  \<open>maybe_flush\<close>; a step of the garbage collector is one of its atomic write batches, so batches of
  one truncation interleave with entries, flushes and restarts.
\<close>

section \<open>State and steps\<close>

text \<open>Where the garbage collector is: sleeping, or in the loop with its \<open>from\<close>, \<open>to\<close> and
  \<open>next_first_seq_num\<close>.\<close>

datatype gc_pc = GcIdle | GcAt u64 u64 u64

record 'db system =
  sys_app :: "'db app"
  sys_gc :: gc_pc

definition sys_db :: "'db system \<Rightarrow> 'db" where
  "sys_db s = sm_rocksdb_state (fst (sys_app s))"

definition set_sys_db :: "'db \<Rightarrow> 'db system \<Rightarrow> 'db system" where
  "set_sys_db db s =
     s\<lparr>sys_app := ((fst (sys_app s))\<lparr>sm_rocksdb_state := db\<rparr>, snd (sys_app s))\<rparr>"

inductive wallet_step ::
    "('d, 'db) crates \<Rightarrow> event_log_gc_config \<Rightarrow> 'db system \<Rightarrow> 'db system \<Rightarrow> bool"
  for C :: "('d, 'db) crates" and cfg :: event_log_gc_config where
  entry: "admissible C li 0 cs (sys_app s) \<Longrightarrow> li \<noteq> 0 \<Longrightarrow>
     unat (sm_last_seq_num (fst (sys_app s))) + length cs < 2 ^ 64 \<Longrightarrow>
     apply_entry C (sys_app s) (li, cs) = (Ok (), app') \<Longrightarrow>
     wallet_step C cfg s (s\<lparr>sys_app := app'\<rparr>)"
| flush: "maybe_flush C now (sys_app s) = (Ok (), app') \<Longrightarrow>
     wallet_step C cfg s (s\<lparr>sys_app := app'\<rparr>)"
| restart: "recover_from_db C mem env now (sys_db s) tx = Ok app' \<Longrightarrow> cx_batch_size (snd app') \<noteq> 0 \<Longrightarrow>
     wallet_step C cfg s \<lparr>sys_app = app', sys_gc = GcIdle\<rparr>"
| gc_start: "sys_gc s = GcIdle \<Longrightarrow>
     read_hard_state_from_db C (sys_db s) PERSISTED_FIRST_SEQ_NUM = (Ok first :: (unit, u64) res) \<Longrightarrow>
     read_hard_state_from_db C (sys_db s) PERSISTED_LAST_SEQ_NUM = (Ok lst :: (unit, u64) res) \<Longrightarrow>
     should_gc cfg first lst = Ok (Some nxt) \<Longrightarrow>
     unat nxt + unat (gc_batch_size cfg) < 2 ^ 64 \<Longrightarrow> f = max first 1 \<Longrightarrow>
     wallet_step C cfg s (s\<lparr>sys_gc := GcAt f (min (f + gc_batch_size cfg) nxt) nxt\<rparr>)"
| gc_step: "sys_gc s = GcAt f t nxt \<Longrightarrow> f < nxt \<Longrightarrow> gc_batch C mem f t (sys_db s) = Ok db' \<Longrightarrow>
     wallet_step C cfg s
       (set_sys_db db' (s\<lparr>sys_gc := GcAt t (min (t + gc_batch_size cfg) nxt) nxt\<rparr>))"
| gc_done: "sys_gc s = GcAt f t nxt \<Longrightarrow> \<not> f < nxt \<Longrightarrow> wallet_step C cfg s (s\<lparr>sys_gc := GcIdle\<rparr>)"

text \<open>A run starts on an empty database.\<close>

inductive reachable ::
    "('d, 'db) crates \<Rightarrow> ('db \<Rightarrow> bytes \<rightharpoonup> bytes) \<Rightarrow> event_log_gc_config \<Rightarrow> 'db system \<Rightarrow> bool"
  for C :: "('d, 'db) crates" and view :: "'db \<Rightarrow> bytes \<rightharpoonup> bytes" and cfg :: event_log_gc_config where
  init: "view db = Map.empty \<Longrightarrow> recover_from_db C mem env now db tx = Ok app \<Longrightarrow>
     cx_batch_size (snd app) \<noteq> 0 \<Longrightarrow> reachable C view cfg \<lparr>sys_app = app, sys_gc = GcIdle\<rparr>"
| step: "reachable C view cfg s \<Longrightarrow> wallet_step C cfg s s' \<Longrightarrow> reachable C view cfg s'"

section \<open>The invariant\<close>

fun gc_ok :: "event_log_gc_config \<Rightarrow> gc_pc \<Rightarrow> wallet_db \<Rightarrow> bool" where
  "gc_ok cfg GcIdle D = True"
| "gc_ok cfg (GcAt f t nxt) D \<longleftrightarrow>
     get_or_default 0 (wd_first_seq D) \<le> t \<and> t \<le> nxt \<and> nxt \<le> persisted_last D \<and>
     unat nxt + unat (gc_batch_size cfg) < 2 ^ 64"

lemma sys_db_simps [simp]:
  "sys_db (s\<lparr>sys_gc := g\<rparr>) = sys_db s" "sys_gc (set_sys_db db s) = sys_gc s"
  "sys_app (set_sys_db db s) = ((fst (sys_app s))\<lparr>sm_rocksdb_state := db\<rparr>, snd (sys_app s))"
  by (simp_all add: sys_db_def set_sys_db_def)

lemma gc_ok_mono:
  "gc_ok cfg g D \<Longrightarrow> wd_first_seq D' = wd_first_seq D \<Longrightarrow> persisted_last D \<le> persisted_last D' \<Longrightarrow> gc_ok cfg g D'"
  by (cases g) auto

text \<open>\<open>D\<close> is what the database holds, \<open>W\<close> what it will hold once the write batch is flushed.\<close>

definition system_inv ::
    "wallet_proto \<Rightarrow> (string \<Rightarrow> rat option) \<Rightarrow> ('db \<Rightarrow> bytes \<rightharpoonup> bytes) \<Rightarrow> event_log_gc_config \<Rightarrow>
     'db system \<Rightarrow> wallet_db \<Rightarrow> wallet_db \<Rightarrow> bool" where
  "system_inv pb sval view cfg s D W \<longleftrightarrow>
     core_inv pb sval view D W (sys_app s) \<and>
     event_log_ok W (sm_last_seq_num (fst (sys_app s))) \<and> batch_ok D (sys_app s) \<and>
     boundary D W (sys_app s) \<and> db_accounts_ok sval D \<and>
     cx_batch_size (snd (sys_app s)) \<noteq> 0 \<and> gc_ok cfg (sys_gc s) D"

context crates_spec
begin

abbreviation sys_inv :: "event_log_gc_config \<Rightarrow> 'db system \<Rightarrow> wallet_db \<Rightarrow> wallet_db \<Rightarrow> bool" where
  "sys_inv \<equiv> system_inv (c_proto C) sv view"

lemma sys_inv_entry:
  assumes inv: "sys_inv cfg s D W" and idx: "li = sm_applied_index (fst (sys_app s)) + 1" "li \<noteq> 0"
    and adm: "admissible C li 0 cs (sys_app s)"
    and wrap: "unat (sm_last_seq_num (fst (sys_app s))) + length cs < 2 ^ 64"
  shows "\<exists>app' W'. apply_entry C (sys_app s) (li, cs) = (Ok (), app') \<and>
    sys_inv cfg (s\<lparr>sys_app := app'\<rparr>) D W'"
proof -
  from inv have "Full D W (sys_app s)" "boundary D W (sys_app s)" by (simp_all add: system_inv_def)
  from apply_entry_inv [OF this idx adm wrap] show ?thesis
    using inv by (force simp: system_inv_def)
qed

lemma sys_inv_flush:
  assumes inv: "sys_inv cfg s D W"
  shows "\<exists>app' D'. maybe_flush C now (sys_app s) = (Ok (), app') \<and>
    sys_inv cfg (s\<lparr>sys_app := app'\<rparr>) D' W"
proof (cases "should_flush now (sys_app s)")
  case False
  with inv show ?thesis by (auto simp: maybe_flush_def system_inv_def)
next
  case True
  from inv have full: "Full D W (sys_app s)" and bnd: "boundary D W (sys_app s)"
    and bs: "cx_batch_size (snd (sys_app s)) \<noteq> 0" by (simp_all add: system_inv_def)
  obtain sm cx where app: "sys_app s = (sm, cx)" by (cases "sys_app s")
  have "cx_flushed_applied_index cx \<noteq> sm_applied_index sm"
    using True bs by (auto simp: should_flush_def app)
  then have lt: "cx_flushed_applied_index (snd (sys_app s)) < sm_applied_index (fst (sys_app s))"
    using bnd by (auto simp: boundary_def app)
  have "persisted_last W = sm_last_seq_num (fst (sys_app s))"
    using bnd by (simp add: boundary_def persisted_last_def)
  then have "persisted_last D \<le> persisted_last W"
    using full by (simp add: batch_ok_def word_le_nat_alt)
  then have "gc_ok cfg (sys_gc s) W"
    using gc_ok_mono [of cfg "sys_gc s" D W] inv first_seq_same [OF full] by (simp add: system_inv_def)
  moreover have "db_accounts_ok sv W" using full db_accounts_ok_pending by blast
  ultimately show ?thesis
    using flush_inv [OF full bnd lt, of now] True bs by (force simp: maybe_flush_def system_inv_def)
qed

lemma sys_inv_recover:
  assumes rep: "represents (c_proto C) (view db) D" and log: "event_log_ok D (persisted_last D)"
    and accs: "db_accounts_ok sv D"
    and run: "recover_from_db C mem env now db tx = Ok app" and bs: "cx_batch_size (snd app) \<noteq> 0"
  shows "sys_inv cfg \<lparr>sys_app = app, sys_gc = GcIdle\<rparr> D D"
proof -
  from run obtain n where "parse_u64 (get_or_default ''100'' env) = Some n"
    by (cases "parse_u64 (get_or_default ''100'' env)")
      (auto simp: recover_from_db_def apply_context_new_def bind_res_def split: res.splits)
  from recover_inv [OF rep log accs this, of mem now tx] show ?thesis
    using run bs accs by (auto simp: system_inv_def)
qed

lemma sys_inv_gc_start:
  assumes inv: "sys_inv cfg s D W" and pct: "legal_percentage (percentage cfg)"
    and first: "read_hard_state_from_db C (sys_db s) PERSISTED_FIRST_SEQ_NUM = (Ok first :: (unit, u64) res)"
    and lst: "read_hard_state_from_db C (sys_db s) PERSISTED_LAST_SEQ_NUM = (Ok lst :: (unit, u64) res)"
    and gc: "should_gc cfg first lst = Ok (Some nxt)"
    and wrap: "unat nxt + unat (gc_batch_size cfg) < 2 ^ 64" and f: "f = max first 1"
  shows "sys_inv cfg (s\<lparr>sys_gc := GcAt f (min (f + gc_batch_size cfg) nxt) nxt\<rparr>) D W"
proof -
  have rep: "represents (c_proto C) (view (sys_db s)) D"
    using inv by (simp add: system_inv_def core_inv_def sys_db_def)
  have eq: "first = get_or_default 0 (wd_first_seq D)" "lst = persisted_last D"
    using first lst by (simp_all add: read_hard_state [OF rep] persisted_last_def)
  note range = should_gc_range(1,2) [OF pct gc]
  have "first \<le> f + gc_batch_size cfg"
  proof (cases "f \<le> nxt")
    case True
    then have "unat f + unat (gc_batch_size cfg) < 2 ^ 64" using wrap by (simp add: word_le_nat_alt)
    then have "f \<le> f + gc_batch_size cfg" by (simp add: word_le_nat_alt unat_word_ariths)
    moreover have "first \<le> f" using f by simp
    ultimately show ?thesis by (rule order_trans [rotated])
  next
    case False
    then have "\<not> 1 \<le> nxt" using f range(1) by (auto simp: max_def split: if_splits)
    then have "unat nxt = 0" by (simp add: word_le_nat_alt)
    with range(1) have "first = 0" by (simp add: word_le_nat_alt unat_eq_zero)
    then show ?thesis by simp
  qed
  with range inv wrap show ?thesis unfolding eq by (simp add: system_inv_def)
qed

lemma sys_inv_gc_step:
  assumes inv: "sys_inv cfg s D W" and gc: "sys_gc s = GcAt f t nxt"
  shows "\<exists>db'. gc_batch C mem f t (sys_db s) = Ok db' \<and>
    sys_inv cfg (set_sys_db db' (s\<lparr>sys_gc := GcAt t (min (t + gc_batch_size cfg) nxt) nxt\<rparr>))
      (gc_typed f t D) (gc_typed f t W)"
proof -
  from inv gc have full: "Full D W (sys_app s)" and bnd: "boundary D W (sys_app s)"
    and t: "t \<le> persisted_last D" "get_or_default 0 (wd_first_seq D) \<le> t" "t \<le> nxt"
    and wrap: "unat nxt + unat (gc_batch_size cfg) < 2 ^ 64"
    by (auto simp: system_inv_def)
  have "unat t + unat (gc_batch_size cfg) < 2 ^ 64" using t(3) wrap by (simp add: word_le_nat_alt)
  then have "t \<le> t + gc_batch_size cfg" by (simp add: word_le_nat_alt unat_word_ariths)
  then have "gc_ok cfg (GcAt t (min (t + gc_batch_size cfg) nxt) nxt) (gc_typed f t D)"
    using inv gc t(3) by (simp add: system_inv_def persisted_last_def)
  with gc_batch_Full [OF full bnd t(1,2), of mem f] inv show ?thesis
    by (auto simp: system_inv_def sys_db_def db_accounts_ok_def)
qed

theorem step_inv:
  assumes "sys_inv cfg s D W" "legal_percentage (percentage cfg)" "wallet_step C cfg s s'"
  shows "\<exists>D' W'. sys_inv cfg s' D' W'"
  using assms(3)
proof cases
  case (entry li cs app')
  have "li = sm_applied_index (fst (sys_app s)) + 1"
    using entry(5) by (simp add: apply_entry_def split: if_splits)
  from sys_inv_entry [OF assms(1) this entry(3,2,4)] entry(1,5) show ?thesis by auto
next
  case (flush now app')
  then show ?thesis using sys_inv_flush [OF assms(1), of now] by auto
next
  case (restart mem env now tx app')
  from assms(1) have "represents (c_proto C) (view (sys_db s)) D" "event_log_ok D (persisted_last D)"
    "db_accounts_ok sv D"
    by (simp_all add: system_inv_def core_inv_def sys_db_def batch_ok_def)
  from sys_inv_recover [OF this restart(2,3)] restart(1) show ?thesis by blast
next
  case (gc_start first lst nxt f)
  from sys_inv_gc_start [OF assms(1,2) gc_start(3-7)] gc_start(1) show ?thesis by blast
next
  case (gc_step f t nxt mem db')
  from sys_inv_gc_step [OF assms(1) gc_step(2), of mem] gc_step(1,4) show ?thesis by auto
next
  case (gc_done f t nxt)
  with assms(1) show ?thesis by (auto simp: system_inv_def)
qed

lemma reachable_inv:
  assumes "reachable C view cfg s" "legal_percentage (percentage cfg)"
  shows "\<exists>D W. sys_inv cfg s D W"
  using assms(1)
proof induction
  case (init db mem env now tx app)
  have "represents (c_proto C) (view db) empty_wallet_db" by (simp add: init(1))
  from sys_inv_recover [OF this _ _ init(2,3)] show ?case
    by (auto simp: event_log_ok_def db_accounts_ok_def persisted_last_def empty_wallet_db_def)
next
  case (step s s')
  then show ?case using step_inv assms(2) by blast
qed

end

end
