(* ===== verification/Ledger.thy ===== *)
theory Ledger
  imports Wallet_System
begin

text \<open>
  The money the wallet holds, over all accounts, and how each command changes it. The total of an
  account is its available balance with all its reservations, as rational numbers.
\<close>

definition money :: "(string \<Rightarrow> rat option) \<Rightarrow> (string, account) fmap \<Rightarrow> rat" where
  "money sval accs = fmsum (account_total sval) accs"

text \<open>What a command that succeeds adds to the total. A transfer of an account to itself is the
  debit alone: both new versions of the account are computed from the old one, and the debited one
  is written last.\<close>

fun flow :: "(string \<Rightarrow> rat option) \<Rightarrow> command_payload \<Rightarrow> rat" where
  "flow sval (transfer_request r) =
     (if ts_from_account_id (get_transfer_spec r) = ts_to_account_id (get_transfer_spec r)
      then - num sval (ts_amount (get_transfer_spec r)) else 0)"
| "flow sval (batch_balance_operation_request r) =
     sum_list (map (num sval \<circ> bos_amount) (bbo_balance_operation_spec r))"
| "flow sval _ = 0"

text \<open>A batch whose specs name each account once.\<close>

fun batch_distinct :: "command_payload \<Rightarrow> bool" where
  "batch_distinct (batch_balance_operation_request r) =
     distinct (map bos_account_id (bbo_balance_operation_spec r))"
| "batch_distinct _ = True"

text \<open>A command that moves money only between an account's parts or between two accounts.\<close>

fun conservative :: "command_payload \<Rightarrow> bool" where
  "conservative (transfer_request r) \<longleftrightarrow>
     ts_from_account_id (get_transfer_spec r) \<noteq> ts_to_account_id (get_transfer_spec r)"
| "conservative (batch_balance_operation_request r) = False"
| "conservative _ = True"

definition conservative_command :: "command \<Rightarrow> bool" where
  "conservative_command c = (case cmd_request c of Some p \<Rightarrow> conservative p | None \<Rightarrow> False)"

lemma conservative_flow: "conservative p \<Longrightarrow> batch_distinct p \<and> flow sval p = 0"
  by (cases p) simp_all

definition total_at :: "(string \<Rightarrow> rat option) \<Rightarrow> (string, account) fmap \<Rightarrow> string \<Rightarrow> rat" where
  "total_at sval accs i = (case fmlookup accs i of None \<Rightarrow> 0 | Some a \<Rightarrow> account_total sval a)"

lemma money_upd: "money sval (fmupd i a accs) = money sval accs + account_total sval a - total_at sval accs i"
  by (simp add: money_def fmsum_upd total_at_def)

lemma total_at_upd: "total_at sval (fmupd i a accs) j = (if i = j then account_total sval a else total_at sval accs j)"
  by (simp add: total_at_def)

lemma write_accounts [simp]:
  "sm_accounts (fst (update_account C a app)) = fmupd (acc_account_id a) a (sm_accounts (fst app))"
  "sm_accounts (fst (delete_account a app)) = fmupd (acc_account_id a) a (sm_accounts (fst app))"
  using app_ops_simps(4) [of C "Upd a" app] app_ops_simps(4) [of C "Del a" app] by simp_all

lemma money_drop_zero:
  "(\<And>i a. i \<in> set is \<Longrightarrow> fmlookup accs i = Some a \<Longrightarrow> account_total sval a = 0) \<Longrightarrow>
     money sval (fold fmdrop is accs) = money sval accs"
proof (induction "is" arbitrary: accs)
  case (Cons j js)
  have "money sval (fmdrop j accs) = money sval accs"
  proof (cases "fmlookup accs j")
    case None
    then have "fmdrop j accs = accs" by (intro fmap_ext) auto
    then show ?thesis by simp
  next
    case (Some a)
    then show ?thesis using Cons.prems [of j a] by (simp add: money_def fmsum_drop)
  qed
  moreover have "money sval (fold fmdrop js (fmdrop j accs)) = money sval (fmdrop j accs)"
    using Cons.prems by (intro Cons.IH) (auto split: if_splits)
  ultimately show ?case by simp
qed simp

lemma account_total_frame [simp]:
  "account_total sval (a\<lparr>acc_state := st\<rparr>) = account_total sval a"
  "account_total sval (set_balance_limit a l) = account_total sval a"
  by (simp_all add: account_total_def ledger_total_def ledger_of_def)

lemma lifecycle_total:
  "lock a = Ok a' \<Longrightarrow> account_total sval a' = account_total sval a"
  "unlock a = Ok a' \<Longrightarrow> account_total sval a' = account_total sval a"
  "delete_acc calc a = Ok a' \<Longrightarrow> account_total sval a' = account_total sval a"
  by (auto simp: lock_def unlock_def delete_acc_def bind_res_eq_Ok)

context calculator_spec
begin

lemma new_total [simp]: "account_total sval (account_new i) = 0"
  by (simp add: account_total_def ledger_total_def)

lemma increase_total:
  assumes "increase_balance_by calc a amt = Ok (a', ch)"
  shows "account_total sval a' = account_total sval a + num sval amt"
  by (rule increase_balance_by_OkD [OF assms]) (simp add: account_total_def ledger_total_def)

lemma neg_num: "calc_neg calc amt = Ok n \<Longrightarrow> num sval n = - num sval amt"
  by (drule neg_OkD) auto

lemma reserve_total:
  assumes "wf_account sval a" "reserve calc a rid amt = Ok a'"
  shows "account_total sval a' = account_total sval a"
proof -
  have "assert_amount_gt_zero calc amt = Ok ()"
    using assms(2) by (auto simp: reserve_def bind_res_eq_Ok split: if_splits)
  then obtain v where "sval amt = Some v" using assert_amount_gt_zero_cases(3) [of amt] by fastforce
  from reserve_refines [OF assms(1) this, of rid] assms(2) show ?thesis
    by (simp add: account_total_def spec_reserve_total ok_opt_def)
qed

lemma release_all_total:
  assumes "wf_account sval a" "release_all calc a rid = Ok a'"
  shows "account_total sval a' = account_total sval a"
  using release_all_refines [OF assms(1), of rid] assms(2)
  by (simp add: account_total_def spec_release_all_total ok_opt_def)

lemma partial_release_total:
  assumes "wf_account sval a" "partial_release calc a rid amt = Ok a'"
  shows "account_total sval a' = account_total sval a"
proof -
  obtain v where "sval amt = Some v"
    using assms(2) assert_amount_gt_zero_cases(3) [of amt]
    by (cases "sval amt") (auto simp: partial_release_def bind_res_eq_Ok)
  from partial_release_refines [OF assms(1) this, of rid] assms(2) show ?thesis
    by (simp add: account_total_def spec_partial_release_total ok_opt_def)
qed

end

context crates_spec
begin

lemma new_account_total: "account_total sv (account_new i) = 0"
  by (rule calc.new_total)

lemma get_or_create_total:
  "account_total sv (get_or_create_account sm i) = total_at sv (sm_accounts sm) i"
  by (simp add: get_or_create_account_def total_at_def calc.new_total split: option.splits)

lemma get_or_create_id:
  "accounts_ok sv (sm_accounts sm) \<Longrightarrow> acc_account_id (get_or_create_account sm i) = i"
  by (auto simp: get_or_create_account_def accounts_ok_def split: option.splits)

lemma existing_account:
  assumes "accounts_ok sv (sm_accounts sm)" "assert_account_exists sm i = Ok a"
  shows "total_at sv (sm_accounts sm) i = account_total sv a" "acc_account_id a = i" "wf_account sv a"
  using assms by (auto simp: assert_account_exists_def total_at_def accounts_ok_def split: option.splits)

lemma transfer_money:
  assumes ok: "accounts_ok sv (sm_accounts (fst app))"
    and run: "handle_transfer C app r li off = (Ok ev, app')"
  shows "money sv (sm_accounts (fst app')) = money sv (sm_accounts (fst app)) + flow sv (transfer_request r)"
proof -
  let ?s = "get_transfer_spec r"
  let ?from = "get_or_create_account (fst app) (ts_from_account_id ?s)"
  let ?to = "get_or_create_account (fst app) (ts_to_account_id ?s)"
  from run obtain ut tc n uf fc where
    to: "increase_balance_by (calculator_of C) ?to (ts_amount ?s) = Ok (ut, tc)"
    and n: "calc_neg (calculator_of C) (ts_amount ?s) = Ok n"
    and fr: "increase_balance_by (calculator_of C) ?from n = Ok (uf, fc)"
    and app': "app' = update_account C uf (update_account C ut (next_seq_num app))"
    by (auto simp: handle_transfer_def bind_st_eq_Ok Let_def)
  have "acc_account_id ut = ts_to_account_id ?s" "acc_account_id uf = ts_from_account_id ?s"
    using increase_balance_by_id [OF to] increase_balance_by_id [OF fr] get_or_create_id [OF ok] by simp_all
  then show ?thesis
    using calc.increase_total [OF to] calc.increase_total [OF fr] calc.neg_num [OF n]
    by (simp add: app' money_upd total_at_upd get_or_create_total)
qed

lemma batch_loop_money:
  assumes ok: "accounts_ok sv (sm_accounts sm)"
    and run: "batch_loop (calculator_of C) sm specs = Ok upds"
  shows "map (acc_account_id \<circ> fst) upds = map bos_account_id specs \<and>
    map (account_total sv \<circ> fst) upds =
      map (\<lambda>s. total_at sv (sm_accounts sm) (bos_account_id s) + num sv (bos_amount s)) specs"
  using run
proof (induction specs arbitrary: upds)
  case (Cons s specs)
  from Cons.prems obtain u us where
    u: "increase_balance_by (calculator_of C) (get_or_create_account sm (bos_account_id s)) (bos_amount s) = Ok u"
    and us: "batch_loop (calculator_of C) sm specs = Ok us" "upds = u # us"
    by (auto simp: bind_res_eq_Ok)
  obtain a ch where a: "u = (a, ch)" by (cases u)
  note inc = u [unfolded a]
  have "acc_account_id a = bos_account_id s"
    using increase_balance_by_id [OF inc] by (simp add: get_or_create_id [OF ok])
  moreover have "account_total sv a = total_at sv (sm_accounts sm) (bos_account_id s) + num sv (bos_amount s)"
    using calc.increase_total [OF inc] by (simp add: get_or_create_total)
  ultimately show ?case using Cons.IH [OF us(1)] by (simp add: us(2) a)
qed simp

lemma money_upds:
  assumes "distinct (map acc_account_id as)"
  shows "money sval (sm_accounts (fst (fold (update_account C) as app))) =
    money sval (sm_accounts (fst app)) +
    sum_list (map (\<lambda>a. account_total sval a - total_at sval (sm_accounts (fst app)) (acc_account_id a)) as)"
  using assms
proof (induction as arbitrary: app)
  case (Cons a as)
  have "sum_list (map (\<lambda>b. account_total sval b -
        total_at sval (fmupd (acc_account_id a) a (sm_accounts (fst app))) (acc_account_id b)) as) =
      sum_list (map (\<lambda>b. account_total sval b - total_at sval (sm_accounts (fst app)) (acc_account_id b)) as)"
    using Cons.prems by (intro arg_cong [where f = sum_list] map_cong refl) (auto simp: total_at_upd)
  then show ?case using Cons.IH [of "update_account C a app"] Cons.prems by (simp add: money_upd)
qed simp

lemma batch_money:
  assumes ok: "accounts_ok sv (sm_accounts (fst app))"
    and d: "batch_distinct (batch_balance_operation_request r)"
    and run: "handle_batch_balance_operation C app r li off = (Ok ev, app')"
  shows "money sv (sm_accounts (fst app')) =
    money sv (sm_accounts (fst app)) + flow sv (batch_balance_operation_request r)"
proof -
  let ?specs = "bbo_balance_operation_spec r" and ?accs = "sm_accounts (fst app)"
  from run obtain upds where
    upds: "batch_loop (calculator_of C) (fst app) ?specs = Ok upds"
    and app': "app' = fold (update_account C) (map fst upds) (next_seq_num app)"
    by (auto simp: handle_batch_balance_operation_def bind_st_eq_Ok Let_def)
  from batch_loop_money [OF ok upds] have
    ids: "map acc_account_id (map fst upds) = map bos_account_id ?specs" and
    tot: "map (account_total sv) (map fst upds) =
      map (\<lambda>s. total_at sv ?accs (bos_account_id s) + num sv (bos_amount s)) ?specs" by simp_all
  have "map (\<lambda>a. account_total sv a - total_at sv ?accs (acc_account_id a)) (map fst upds) =
      map (\<lambda>(t, i). t - total_at sv ?accs i)
        (zip (map (account_total sv) (map fst upds)) (map acc_account_id (map fst upds)))"
    by (induction upds) simp_all
  also have "\<dots> = map (num sv \<circ> bos_amount) ?specs"
    unfolding ids tot by (rule nth_equalityI) simp_all
  finally show ?thesis
    using money_upds [of "map fst upds" sv "next_seq_num app"] d ids by (simp add: app')
qed

text \<open>Every command that succeeds changes the total by its \<open>flow\<close> and nothing else does.\<close>

lemma dispatch_money:
  assumes ok: "accounts_ok sv (sm_accounts (fst app))" and d: "batch_distinct p"
    and run: "dispatch C app li off p = (Ok ev, app')"
  shows "money sv (sm_accounts (fst app')) = money sv (sm_accounts (fst app)) + flow sv p"
proof (cases p)
  case (transfer_request r)
  with transfer_money [OF ok] run show ?thesis by simp
next
  case (batch_balance_operation_request r)
  with batch_money [OF ok] run d show ?thesis by simp
next
  case (reserve_request r)
  with run show ?thesis
    using existing_account [OF ok] calc.reserve_total reserve_id
    by (auto simp: handle_reserve_def bind_st_eq_Ok Let_def money_upd)
next
  case (release_request r)
  with run show ?thesis
    using existing_account [OF ok] calc.release_all_total calc.partial_release_total
      release_all_id partial_release_id
    by (auto simp: handle_release_def bind_st_eq_Ok Let_def money_upd split: if_splits)
next
  case (create_account_request r)
  with run show ?thesis
    by (auto simp: handle_create_account_def Let_def money_upd total_at_def fmdom_notD split: if_splits)
next
  case (delete_account_request r)
  with run show ?thesis
    using existing_account [OF ok] lifecycle_total(3) lifecycle_id(3)
    by (auto simp: handle_delete_account_def bind_st_eq_Ok Let_def money_upd)
next
  case (lock_account_request r)
  with run show ?thesis
    using existing_account [OF ok] lifecycle_total(1) lifecycle_id(1)
    by (auto simp: handle_lock_account_def bind_st_eq_Ok Let_def money_upd)
next
  case (unlock_account_request r)
  with run show ?thesis
    using existing_account [OF ok] lifecycle_total(2) lifecycle_id(2)
    by (auto simp: handle_unlock_account_def bind_st_eq_Ok Let_def money_upd)
next
  case (update_account_config_request r)
  with run show ?thesis
    using existing_account [OF ok]
    by (auto simp: handle_update_account_config_def bind_st_eq_Ok Let_def money_upd)
qed

lemma accounts_ops [simp]:
  "sm_accounts (fst (send_event pos r app)) = sm_accounts (fst app)"
  "sm_accounts (fst (update_seq_num_and_event C cid ev app)) = sm_accounts (fst app)"
  by (cases app; simp add: send_event_def update_seq_num_and_event_def Let_def)+

lemma command_money:
  assumes inv: "Inv D W app" and log: "event_log_ok W (sm_last_seq_num (fst app))"
    and p: "cmd_request c = Some p" "payload_utf8 p" and d: "batch_distinct p"
    and run: "handle_command C app li off c = (Ok (), app')"
  shows "money sv (sm_accounts (fst app')) = money sv (sm_accounts (fst app)) +
    (if sm_last_seq_num (fst app') = sm_last_seq_num (fst app) then 0 else flow sv p)"
  using inv log p
proof (cases rule: handle_command_cases [where li = li and off = off])
  case (dup n e)
  with run show ?thesis by auto
next
  case (err e)
  with run show ?thesis by auto
next
  case (ok ws q ev)
  from dispatch_money [OF core_invD(3) [OF inv] d ok(3)]
  have "money sv (sm_accounts (fst (fold (do_write C) ws (next_seq_num app)))) =
    money sv (sm_accounts (fst app)) + flow sv p" .
  moreover have "app' = send_event (Position li off) (Ok ev)
      (update_seq_num_and_event C (command_id c) ev (fold (do_write C) ws (next_seq_num app)))"
    using run ok(6) by simp
  ultimately show ?thesis by simp
qed

lemma commands_money:
  assumes "Full D W app" "admissible C li off cs app"
    "unat (sm_last_seq_num (fst app)) + length cs < 2 ^ 64"
    "list_all conservative_command cs"
    "handle_commands C li off cs app = (Ok (), app')"
  shows "money sv (sm_accounts (fst app')) = money sv (sm_accounts (fst app))"
  using assms
proof (induction cs arbitrary: app off W)
  case (Cons c cs)
  obtain p where p: "cmd_request c = Some p" "payload_utf8 p" "\<not> updates_deleted (fst app) p"
    using Cons.prems(2) by (auto split: option.splits)
  have "unat (sm_last_seq_num (fst app)) + 1 < 2 ^ 64" using Cons.prems(3) by simp
  then have wrap: "sm_last_seq_num (fst app) + 1 \<noteq> 0" by (rule succ_no_wrap)
  from handle_command_inv [OF Cons.prems(1) p wrap, of li off] obtain app1 W1 where
    s1: "handle_command C app li off c = (Ok (), app1)" "Full D W1 app1"
    and seq: "sm_last_seq_num (fst app1) = sm_last_seq_num (fst app) \<or>
      sm_last_seq_num (fst app1) = sm_last_seq_num (fst app) + 1" by blast
  have n: "unat (sm_last_seq_num (fst app1)) + length cs < 2 ^ 64"
    using seq Cons.prems(3) unat_succ [OF wrap] by auto
  have "conservative p" using Cons.prems(4) p(1) by (simp add: conservative_command_def)
  then have "money sv (sm_accounts (fst app1)) = money sv (sm_accounts (fst app))"
    using command_money [of D W app, OF _ _ p(1,2) _ s1(1)] Cons.prems(1) conservative_flow [of p sv] by simp
  moreover have "money sv (sm_accounts (fst app')) = money sv (sm_accounts (fst app1))"
    using Cons.IH [OF s1(2) _ n, of "off + 1"] Cons.prems(2,4,5) s1(1) by simp
  ultimately show ?case by simp
qed simp

lemma flush_money:
  assumes inv: "Inv D W app" and run: "maybe_flush C now app = (Ok (), app')"
  shows "money sv (sm_accounts (fst app')) = money sv (sm_accounts (fst app))"
proof -
  have "account_total sv a = 0"
    if "i \<in> set (cx_to_be_deleted_account_ids (snd app))" "fmlookup (sm_accounts (fst app)) i = Some a" for i a
    using memory_ok_marked [OF core_invD(4) [OF inv] that(1)] that(2) core_invD(3) [OF inv]
    by (auto simp: accounts_ok_def)
  from money_drop_zero [OF this] run show ?thesis
    by (auto simp: maybe_flush_def flush_def split: if_splits prod.splits)
qed

end

end
