(* ===== verification/Example_Run.thy ===== *)
theory Example_Run
  imports Ledger
begin

text \<open>
  Concrete states on the reference packages of \<open>Reference_Crates\<close>: a wallet that has just started
  on an empty database with the default garbage collection settings, and the commands the
  concrete instances of the theorems use.
\<close>

definition ex_cfg :: event_log_gc_config where
  "ex_cfg = event_log_gc_config_default (\<lambda>_. None)"

definition ex_mem :: memory where
  "ex_mem = (\<lambda>_. 0)"

definition ex_start :: "ref_db app" where
  "ex_start =
     (\<lparr>sm_accounts = fmempty, sm_applied_index = 5, sm_last_seq_num = 0, sm_seq_num_cache = fmempty,
       sm_event_cache = fmempty, sm_rocksdb_state = []\<rparr>,
      \<lparr>cx_batch_size = 100, cx_wb = [], cx_to_be_deleted_account_ids = [],
       cx_flushed_applied_index = 5, cx_flushed_timestamp = 0, cx_inflight_event_tx = []\<rparr>)"

definition ex_system :: "ref_db system" where
  "ex_system = \<lparr>sys_app = ex_start, sys_gc = GcIdle\<rparr>"

lemma ex_cfg_legal [simp]: "legal_percentage (percentage ex_cfg)"
  by (simp add: ex_cfg_def event_log_gc_config_default_def Let_def env_or_def percentage_consts
      f64_less_def legal_percentage_def)

lemma ex_start_recover: "recover_from_db ref_crates ex_mem None 0 [] [] = Ok ex_start"
proof -
  have rep: "represents (c_proto ref_crates) (map_of []) empty_wallet_db" by simp
  from crates_spec.read_accounts [OF ref_crates rep] obtain accs where
    "read_accounts_from_db ref_crates ex_mem [] = (Ok accs :: (unit, _) res)"
    "fmlookup accs = wd_accounts empty_wallet_db" by blast
  moreover from this(2) have "accs = fmempty" by (intro fmap_ext) (simp add: empty_wallet_db_def)
  moreover have "parse_u64 (get_or_default ''100'' None) = Some 100"
    by (simp add: parse_u64_def get_or_default_def)
  ultimately show ?thesis
    by (simp add: recover_from_db_def crates_spec.read_hard_state [OF ref_crates rep] apply_context_new_def
        ex_start_def empty_wallet_db_def)
qed

lemma ex_reachable: "reachable ref_crates map_of ex_cfg ex_system"
  unfolding ex_system_def
  by (rule reachable.init [OF _ ex_start_recover]) (simp_all add: ex_start_def)

text \<open>Commands: create an account, delete it, move money.\<close>

definition ex_command :: "string \<Rightarrow> command_payload \<Rightarrow> command" where
  "ex_command cid p =
     \<lparr>cmd_header = Some \<lparr>ch_command_id = cid, ch_process_time_in_sec = 0\<rparr>, cmd_payload = Some (Some p)\<rparr>"

definition ex_create :: command where
  "ex_create = ex_command ''c1'' (create_account_request
     \<lparr>car_header = Some \<lparr>hd_dedup_id = ''c1'', hd_account_id = ''a''\<rparr>, car_account_config = None\<rparr>)"

lemma cmd_request_ex [simp]: "cmd_request (ex_command cid p) = Some p" "command_id (ex_command cid p) = cid"
  by (simp_all add: ex_command_def cmd_request_def command_id_def cmd_get_header_def)

lemma ex_create_simps [simp]:
  "command_id ex_create = ''c1''"
  "\<exists>p. cmd_request ex_create = Some p \<and> payload_utf8 p \<and> conservative p"
  by (simp_all add: ex_create_def payload_utf8_def as_bytes_def byte_of_def)

lemma ex_admissible: "admissible ref_crates 6 0 [ex_create] (sys_app ex_system)"
  by (simp add: ex_create_def payload_utf8_def as_bytes_def byte_of_def)

text \<open>The facts that evaluate a run on the reference packages; written values stay symbolic.\<close>

lemmas run_simps = apply_entry_def handle_command_def maybe_handle_duplicate_command_def
  get_seq_num_def get_event_def read_seq_num_from_db_def read_event_from_db_def get_msg_def get_value_def
  handler_defs Let_def payload_def next_seq_num_def update_account_def delete_account_def
  update_seq_num_and_event_def send_event_def ref.get_view ref.write_u64

text \<open>After the entry with \<open>ex_create\<close>.\<close>

definition ex_app1 :: "ref_db app" where
  "ex_app1 = snd (apply_entry ref_crates ex_start (6, [ex_create]))"

definition ex_system1 :: "ref_db system" where
  "ex_system1 = \<lparr>sys_app = ex_app1, sys_gc = GcIdle\<rparr>"

lemma ex_app1_run: "apply_entry ref_crates ex_start (6, [ex_create]) = (Ok (), ex_app1)"
  by (simp add: ex_app1_def run_simps ex_start_def ex_create_def)

lemma ex_app1_simps [simp]:
  "sm_applied_index (fst ex_app1) = 6" "cx_flushed_applied_index (snd ex_app1) = 5"
  "sm_last_seq_num (fst ex_app1) = 1" "sm_accounts (fst ex_app1) = fmupd ''a'' (account_new ''a'') fmempty"
  "sm_seq_num_cache (fst ex_app1) = fmupd ''c1'' 1 fmempty"
  "cx_to_be_deleted_account_ids (snd ex_app1) = []" "sm_rocksdb_state (fst ex_app1) = []"
  by (simp_all add: ex_app1_def run_simps ex_start_def ex_create_def)

lemma ex_reachable1: "reachable ref_crates map_of ex_cfg ex_system1"
  using reachable.step [OF ex_reachable wallet_step.entry [OF ex_admissible]] ex_app1_run
  by (simp add: ex_system_def ex_system1_def ex_start_def)

lemma ex_flush1: "flush ref_crates now ex_app1 = (Ok (), snd (flush ref_crates now ex_app1))"
  by (simp add: flush_def case_prod_beta)

text \<open>A transfer of ten and what the calculator makes of it.\<close>

definition ex_transfer :: "string \<Rightarrow> string \<Rightarrow> command" where
  "ex_transfer from to = ex_command ''t1'' (transfer_request
     \<lparr>tr_dedup_id = ''t1'', tr_transfer_spec = Some
        \<lparr>ts_amount = ''10'', ts_from_account_id = from, ts_to_account_id = to, ts_metadata = []\<rparr>\<rparr>)"

lemma ref_calculator: "calculator_of ref_crates =
    \<lparr>calc_add = add ref_bigdecimal, calc_neg = neg ref_bigdecimal, calc_cmp = cmp ref_bigdecimal\<rparr>"
  by (simp add: ref_crates_def balance_calculator_def)

lemma ex_amounts:
  "add ref_bigdecimal ''0.0'' ''10'' = Ok ''10''" "neg ref_bigdecimal ''10'' = Ok ''-10''"
  "add ref_bigdecimal ''0.0'' ''-10'' = Ok ''-10''"
  "decimal_value ref_bigdecimal dec_val ''10'' = Some 10"
  "decimal_value ref_bigdecimal dec_val ''0.0'' = Some 0"
  by code_simp+

text \<open>The facts that evaluate an operation on a fresh account.\<close>

lemmas account_simps = increase_balance_by_def account_new_def assert_state_is_normal_def
  acc_get_balance_def default_account_def default_balance_def balance_default_def balance_zero_def
  validate_balance_limitation_def account_config_default_def default_account_config_def
  acc_get_config_def map_balance_def validate_asset_class_compatibility_def cfg_get_asset_class_def
  default_asset_class_def ref_calculator ex_amounts

lemma ex_transfer_runs:
  "fst (handle_command ref_crates ex_app1 7 0 (ex_transfer ''a'' b)) = Ok ()"
  "sm_last_seq_num (fst (snd (handle_command ref_crates ex_app1 7 0 (ex_transfer ''a'' ''a'')))) = 2"
  by (simp_all add: run_simps ex_transfer_def get_transfer_spec_def get_or_create_account_def
      account_simps case_prod_beta)

text \<open>A wallet with eight events and a collector that keeps fewer.\<close>

definition ex_gc_cfg :: event_log_gc_config where
  "ex_gc_cfg = ex_cfg\<lparr>count_limit := 8, percentage := Fin (1 / 4)\<rparr>"

definition ex_creates :: "command list" where
  "ex_creates = map (\<lambda>x. ex_command [x] (create_account_request
     \<lparr>car_header = Some \<lparr>hd_dedup_id = [x], hd_account_id = [x]\<rparr>, car_account_config = None\<rparr>)) ''abcdefgh''"

definition ex_app8 :: "ref_db app" where
  "ex_app8 = snd (apply_entry ref_crates ex_start (6, ex_creates))"

definition ex_system8 :: "ref_db system" where
  "ex_system8 = \<lparr>sys_app = snd (flush ref_crates 1000 ex_app8), sys_gc = GcIdle\<rparr>"

lemma ex_gc_cfg_legal [simp]: "legal_percentage (percentage ex_gc_cfg)"
  by (simp add: ex_gc_cfg_def legal_percentage_def)

lemma ex_should_gc: "should_gc ex_gc_cfg 0 8 = Ok (Some 2)"
  by (simp add: should_gc_def ex_gc_cfg_def gc_count_def f64_of_u64_def f64_mul_def f64_eval f64_as_u64_def)

lemma ex_creates_run:
  "handle_commands ref_crates 6 0 ex_creates ex_start =
     (Ok (), snd (handle_commands ref_crates 6 0 ex_creates ex_start))"
  "sm_last_seq_num (fst (snd (handle_commands ref_crates 6 0 ex_creates ex_start))) = 8"
  "cx_flushed_applied_index (snd (snd (handle_commands ref_crates 6 0 ex_creates ex_start))) = 5"
  "cx_flushed_timestamp (snd (snd (handle_commands ref_crates 6 0 ex_creates ex_start))) = 0"
  "sm_rocksdb_state (fst (snd (handle_commands ref_crates 6 0 ex_creates ex_start))) = []"
  "admissible ref_crates 6 0 ex_creates ex_start"
  by (simp_all add: ex_creates_def run_simps ex_start_def payload_utf8_def as_bytes_def byte_of_def)

lemma apply_entry_fields:
  assumes "handle_commands C li 0 cs app = (Ok (), app1)" "sm_applied_index (fst app) + 1 = li"
  shows "\<exists>app'. apply_entry C app (li, cs) = (Ok (), app') \<and> sm_applied_index (fst app') = li \<and>
    sm_last_seq_num (fst app') = sm_last_seq_num (fst app1) \<and>
    cx_flushed_applied_index (snd app') = cx_flushed_applied_index (snd app1) \<and>
    cx_flushed_timestamp (snd app') = cx_flushed_timestamp (snd app1) \<and>
    sm_rocksdb_state (fst app') = sm_rocksdb_state (fst app1)"
  using assms by (cases app1) (simp add: apply_entry_def Let_def)

lemma ex_app8_run: "apply_entry ref_crates ex_start (6, ex_creates) = (Ok (), ex_app8)"
  and ex_app8_simps [simp]:
    "sm_applied_index (fst ex_app8) = 6" "sm_last_seq_num (fst ex_app8) = 8"
    "cx_flushed_applied_index (snd ex_app8) = 5" "cx_flushed_timestamp (snd ex_app8) = 0"
    "sm_rocksdb_state (fst ex_app8) = []"
  using apply_entry_fields [OF ex_creates_run(1)] ex_creates_run(2-5)
  by (auto simp: ex_app8_def ex_start_def)

lemma ex_flush8: "maybe_flush ref_crates 1000 ex_app8 = (Ok (), snd (flush ref_crates 1000 ex_app8))"
  by (simp add: maybe_flush_def should_flush_def flush_def case_prod_beta)

lemma ex_reachable8: "reachable ref_crates map_of ex_gc_cfg ex_system8"
proof -
  have 0: "reachable ref_crates map_of ex_gc_cfg ex_system"
    unfolding ex_system_def by (rule reachable.init [OF _ ex_start_recover]) (simp_all add: ex_start_def)
  have "wallet_step ref_crates ex_gc_cfg ex_system (ex_system\<lparr>sys_app := ex_app8\<rparr>)"
    using ex_creates_run(6) ex_app8_run
    by (intro wallet_step.entry [of _ 6 ex_creates]) (simp_all add: ex_system_def ex_start_def ex_creates_def)
  from reachable.step [OF 0 this]
  have 1: "reachable ref_crates map_of ex_gc_cfg \<lparr>sys_app = ex_app8, sys_gc = GcIdle\<rparr>"
    by (simp add: ex_system_def)
  from reachable.step [OF this wallet_step.flush] ex_flush8 show ?thesis
    by (simp add: ex_system8_def)
qed

lemma ex_hard_states8:
  "read_hard_state_from_db ref_crates (sys_db ex_system8) PERSISTED_FIRST_SEQ_NUM = (Ok 0 :: (unit, u64) res)"
  "read_hard_state_from_db ref_crates (sys_db ex_system8) PERSISTED_LAST_SEQ_NUM = (Ok 8 :: (unit, u64) res)"
proof -
  have "reachable ref_crates map_of ex_gc_cfg \<lparr>sys_app = ex_app8, sys_gc = GcIdle\<rparr>"
    using reachable.step [OF _ wallet_step.entry [of ref_crates 6 ex_creates ex_system ex_app8]]
      ex_creates_run(6) ex_app8_run
      reachable.init [OF _ ex_start_recover, of map_of ex_gc_cfg]
    by (auto simp: ex_system_def ex_start_def ex_creates_def)
  from ref.reachable_inv [OF this] obtain D W where
    inv: "system_inv (c_proto ref_crates) (decimal_value (c_bigdecimal ref_crates) dec_val) map_of ex_gc_cfg
      \<lparr>sys_app = ex_app8, sys_gc = GcIdle\<rparr> D W" by auto
  then have full: "ref.Full D W ex_app8" and bnd: "boundary D W ex_app8" by (simp_all add: system_inv_def)
  have "represents (c_proto ref_crates) (map_of []) D" using core_invD(1) [of _ _ _ D W ex_app8] full by force
  then have "wd_first_seq D = None" by (simp add: represents_def)
  then have W: "wd_first_seq W = None" using ref.first_seq_same [OF full] by simp
  obtain app' where "flush ref_crates 1000 ex_app8 = (Ok (), app')"
    "map_of (sm_rocksdb_state (fst app')) = pending map_of ex_app8"
    using ref.flush_inv [OF full bnd, of 1000] by auto
  then have rep: "represents (c_proto ref_crates) (map_of (sys_db ex_system8)) W"
    using full core_invD(2) by (fastforce simp: sys_db_def ex_system8_def)
  show "read_hard_state_from_db ref_crates (sys_db ex_system8) PERSISTED_FIRST_SEQ_NUM = (Ok 0 :: (unit, u64) res)"
    "read_hard_state_from_db ref_crates (sys_db ex_system8) PERSISTED_LAST_SEQ_NUM = (Ok 8 :: (unit, u64) res)"
    using crates_spec.read_hard_state(2,3) [OF ref_crates rep] W bnd by (simp_all add: boundary_def)
qed

end
