(* ===== verification/System_Properties.thy ===== *)
theory System_Properties
  imports Example_Run
begin

text \<open>
  What the wallet process guarantees in every state it can reach: entries are applied without a
  panic and answered once each, a restart returns to the last flush, a command is executed once,
  the event log has no gaps, and the total of all balances changes only as the commands say.
\<close>

section \<open>Replies\<close>

lemma write_tx [simp]:
  "cx_inflight_event_tx (snd (update_account C a app)) = cx_inflight_event_tx (snd app)"
  "cx_inflight_event_tx (snd (delete_account a app)) = cx_inflight_event_tx (snd app)"
  "cx_inflight_event_tx (snd (next_seq_num app)) = cx_inflight_event_tx (snd app)"
  "cx_inflight_event_tx (snd (update_seq_num_and_event C cid ev app)) = cx_inflight_event_tx (snd app)"
  "cx_inflight_event_tx (snd (send_event pos r app)) =
     cx_inflight_event_tx (snd app) @ [\<lparr>ie_position = pos, ie_event = r\<rparr>]"
  by (cases app; simp add: update_account_def delete_account_def next_seq_num_def
      update_seq_num_and_event_def send_event_def Let_def)+

lemma fold_update_tx [simp]:
  "cx_inflight_event_tx (snd (fold (update_account C) as app)) = cx_inflight_event_tx (snd app)"
  by (induction as arbitrary: app) simp_all

lemma bind_st_tx:
  "(\<And>x. r = Ok x \<Longrightarrow> cx_inflight_event_tx (snd (snd (k x))) = cx_inflight_event_tx (snd app)) \<Longrightarrow>
     cx_inflight_event_tx (snd (snd (bind_st r app k))) = cx_inflight_event_tx (snd app)"
  by (cases r) simp_all

lemma dispatch_tx:
  "cx_inflight_event_tx (snd (snd (dispatch C app li off p))) = cx_inflight_event_tx (snd app)"
  by (cases p) (auto simp: handler_defs Let_def intro!: bind_st_tx)

lemma handle_command_tx:
  assumes "handle_command C app li off c = (Ok (), app')"
  shows "\<exists>r. cx_inflight_event_tx (snd app') =
    cx_inflight_event_tx (snd app) @ [\<lparr>ie_position = Position li off, ie_event = r\<rparr>]"
proof (cases "maybe_handle_duplicate_command C (fst app) c :: (unit, event general_result option) res")
  case (Ok dup)
  show ?thesis
  proof (cases dup)
    case None
    obtain p where p: "(payload c :: (unit, command_payload) res) = Ok p"
      using assms Ok None by (cases "payload c :: (unit, command_payload) res") (auto simp: handle_command_def)
    obtain res app1 where d: "dispatch C app li off p = (res, app1)"
      by (cases "dispatch C app li off p")
    with assms Ok None p dispatch_tx [of C app li off p] show ?thesis
      by (cases res) (auto simp: handle_command_def Let_def)
  qed (use assms Ok in \<open>auto simp: handle_command_def\<close>)
qed (use assms in \<open>auto simp: handle_command_def\<close>)

lemma handle_commands_tx:
  assumes "handle_commands C li off cs app = (Ok (), app')"
  shows "map ie_position (cx_inflight_event_tx (snd app')) =
    map ie_position (cx_inflight_event_tx (snd app)) @
    map (\<lambda>k. Position li (off + of_nat k)) [0..<length cs]"
  using assms
proof (induction cs arbitrary: off app)
  case (Cons c cs)
  from Cons.prems obtain app1 where c: "handle_command C app li off c = (Ok (), app1)"
    and cs: "handle_commands C li (off + 1) cs app1 = (Ok (), app')"
    by (auto simp: bind_st_eq_Ok split: prod.splits)
  have "map (\<lambda>k. Position li (off + of_nat k)) [0..<length (c # cs)] =
      Position li off # map (\<lambda>k. Position li (off + 1 + of_nat k)) [0..<length cs]"
    by (intro nth_equalityI) (auto simp: nth_Cons' simp del: upt_Suc)
  with handle_command_tx [OF c] Cons.IH [OF cs] show ?case by auto
qed simp

section \<open>Entries\<close>

text \<open>C1: In every reachable state, applying the next raft log entry with admissible commands
  returns without a panic, moves the applied index to the entry, and sends exactly one reply per
  command, at the command's own position and in the order of the entry.\<close>

theorem apply_entry_total:
  assumes C: "crates_spec C val view" and cfg: "legal_percentage (percentage cfg)"
    and s: "reachable C view cfg s"
    and idx: "li = sm_applied_index (fst (sys_app s)) + 1" "li \<noteq> 0"
    and adm: "admissible C li 0 cs (sys_app s)"
    and wrap: "unat (sm_last_seq_num (fst (sys_app s))) + length cs < 2 ^ 64"
  shows "\<exists>app'. apply_entry C (sys_app s) (li, cs) = (Ok (), app') \<and>
    sm_applied_index (fst app') = li \<and>
    map ie_position (cx_inflight_event_tx (snd app')) =
      map ie_position (cx_inflight_event_tx (snd (sys_app s))) @
      map (\<lambda>k. Position li (of_nat k)) [0..<length cs]"
proof -
  from crates_spec.reachable_inv [OF C s cfg] obtain D W where
    "system_inv (c_proto C) (decimal_value (c_bigdecimal C) val) view cfg s D W" by blast
  from crates_spec.sys_inv_entry [OF C this idx adm wrap] obtain app' where
    run: "apply_entry C (sys_app s) (li, cs) = (Ok (), app')" by blast
  then obtain sm cx where hc: "handle_commands C li 0 cs (sys_app s) = (Ok (), (sm, cx))"
    and app': "sm_applied_index (fst app') = li"
      "cx_inflight_event_tx (snd app') = cx_inflight_event_tx cx"
    by (auto simp: apply_entry_def bind_st_eq_Ok Let_def split: if_splits prod.splits)
  with handle_commands_tx [OF hc] run show ?thesis by simp
qed

theorem apply_entry_total_witness:
  "\<exists>app'. apply_entry ref_crates (sys_app ex_system) (6, [ex_create]) = (Ok (), app') \<and>
    sm_applied_index (fst app') = 6"
  using apply_entry_total [OF ref_crates ex_cfg_legal ex_reachable _ _ ex_admissible]
  by (auto simp: ex_system_def ex_start_def)

section \<open>Durability\<close>



text \<open>C3: A restart in any reachable state succeeds and returns to the entry of the last flush: the
  recovered applied index is the flushed one, the accounts are live and well formed, and exactly
  the events that were cached in memory are missing from the sequence.\<close>

theorem restart_returns_to_flush:
  assumes C: "crates_spec C val view" and cfg: "legal_percentage (percentage cfg)"
    and s: "reachable C view cfg s"
    and env: "parse_u64 (get_or_default ''100'' env) = Some bs"
  shows "\<exists>sm cx. recover_from_db C mem env now (sys_db s) tx = Ok (sm, cx) \<and>
    sm_applied_index sm = cx_flushed_applied_index (snd (sys_app s)) \<and>
    unat (sm_last_seq_num (fst (sys_app s))) =
      unat (sm_last_seq_num sm) + fcard (fmdom (sm_event_cache (fst (sys_app s)))) \<and>
    (\<forall>i a. fmlookup (sm_accounts sm) i = Some a \<longrightarrow>
       acc_account_id a = i \<and> acc_state a \<noteq> Deleted \<and>
       wf_account (decimal_value (c_bigdecimal C) val) a)"
proof -
  from crates_spec.reachable_inv [OF C s cfg] obtain D W where
    inv: "system_inv (c_proto C) (decimal_value (c_bigdecimal C) val) view cfg s D W" by blast
  then have rep: "represents (c_proto C) (view (sys_db s)) D"
    and log: "event_log_ok D (persisted_last D)"
    and accs: "db_accounts_ok (decimal_value (c_bigdecimal C) val) D"
    and bnd: "boundary D W (sys_app s)" and bok: "batch_ok D (sys_app s)"
    by (simp_all add: system_inv_def core_inv_def sys_db_def batch_ok_def)
  from crates_spec.recover_inv [OF C rep log accs env, of mem now tx] obtain sm cx where
    "recover_from_db C mem env now (sys_db s) tx = Ok (sm, cx)" "boundary D D (sm, cx)"
    "fmlookup (sm_accounts sm) = wd_accounts D" by auto
  moreover from this(2) bnd have "sm_applied_index sm = cx_flushed_applied_index (snd (sys_app s))"
    "sm_last_seq_num sm = persisted_last D"
    by (simp_all add: boundary_def persisted_last_def)
  ultimately show ?thesis
    using bok accs by (auto simp: batch_ok_def db_accounts_ok_def)
qed

theorem restart_returns_to_flush_witness:
  "\<exists>sm cx. recover_from_db ref_crates ex_mem None 9 (sys_db ex_system1) [] = Ok (sm, cx) \<and>
    sm_applied_index sm = 5 \<and> sm_last_seq_num sm = 0"
proof -
  have "parse_u64 (get_or_default ''100'' None) = Some 100"
    by (simp add: parse_u64_def)
  from restart_returns_to_flush [OF ref_crates ex_cfg_legal ex_reachable1 this, of ex_mem 9 "[]"]
  obtain sm cx where "recover_from_db ref_crates ex_mem None 9 (sys_db ex_system1) [] = Ok (sm, cx)"
    "sm_applied_index sm = 5" "1 = unat (sm_last_seq_num sm) + fcard (fmdom (sm_event_cache (fst ex_app1)))"
    by (auto simp: ex_system1_def)
  moreover have "fcard (fmdom (sm_event_cache (fst ex_app1))) = 1"
    by (simp add: ex_app1_def run_simps ex_start_def ex_create_def fcard_finsert_disjoint)
  ultimately show ?thesis by (auto simp: unat_eq_zero)
qed

section \<open>Exactly once\<close>

context crates_spec
begin

lemma duplicate_step:
  assumes inv: "Inv D W app" and log: "event_log_ok W (sm_last_seq_num (fst app))"
    and p: "cmd_request c = Some p" "payload_utf8 p" and n: "wd_dedup W (command_id c) = Some n"
  shows "\<exists>e. wd_events W n = Some e \<and> eh_command_id (ev_get_header e) = command_id c \<and>
    eh_seq_num (ev_get_header e) = n \<and>
    handle_command C app li off c = (Ok (), send_event (Position li off) (dup_reply c p e) app)"
  using inv log p
proof (cases rule: handle_command_cases [where li = li and off = off])
  case (dup m e)
  with n event_log_okD [OF log] show ?thesis by fastforce
qed (use n in simp_all)

text \<open>A command that was executed is found again, whatever it is asked for later.\<close>

lemma redelivery_step:
  assumes full: "Full D W app" and p: "cmd_request c = Some p" "payload_utf8 p"
    and nd: "\<not> updates_deleted (fst app) p" and wrap: "sm_last_seq_num (fst app) + 1 \<noteq> 0"
    and run: "handle_command C app li off c = (Ok (), app1)"
    and new: "sm_last_seq_num (fst app1) \<noteq> sm_last_seq_num (fst app)"
  shows "\<exists>ev. cx_inflight_event_tx (snd app1) = cx_inflight_event_tx (snd app) @
      [\<lparr>ie_position = Position li off, ie_event = Ok ev\<rparr>] \<and>
    handle_command C app1 li' off' c = (Ok (), send_event (Position li' off') (Ok ev) app1)"
proof -
  from full have inv: "Inv D W app" and log: "event_log_ok W (sm_last_seq_num (fst app))" by simp_all
  from inv log p show ?thesis
  proof (cases rule: handle_command_cases [where li = li and off = off])
    case (ok ws q ev)
    let ?n = "sm_last_seq_num (fst app) + 1"
    let ?W = "wd_record (command_id c) ?n ev (fold wd_write ws W)"
    have app1: "app1 = send_event (Position li off) (Ok ev)
        (update_seq_num_and_event C (command_id c) ev (fold (do_write C) ws (next_seq_num app)))"
      using run ok(6) by simp
    have w: "writes_ok sv (sm_accounts (fst (next_seq_num app))) ws" using ok(4) [OF nd] by simp
    have "Inv D (fold wd_write ws W) (fold (do_write C) ws (next_seq_num app))"
      using core_inv_writes [OF _ w] inv by simp
    from Inv_record [OF this, of "command_id c" ev] have i1: "Inv D ?W app1" by (simp add: app1)
    have l1: "event_log_ok ?W (sm_last_seq_num (fst app1))"
      using ok log wrap event_log_ok_record by (simp add: app1)
    have "wd_dedup ?W (command_id c) = Some ?n" "wd_events ?W ?n = Some ev"
      by (simp_all add: wd_record_def)
    with duplicate_step [OF i1 l1 p, of ?n li' off'] have
      "handle_command C app1 li' off' c = (Ok (), send_event (Position li' off') (dup_reply c p ev) app1)"
      by auto
    moreover have "dup_reply c p ev = Ok ev" using ok(2,5) by (simp add: dup_reply_def)
    moreover have "cx_inflight_event_tx (snd (fold (do_write C) ws a)) = cx_inflight_event_tx (snd a)"
      for a :: "'db app"
    proof (induction ws arbitrary: a)
      case (Cons w ws)
      then show ?case by (cases w) simp_all
    qed simp
    ultimately show ?thesis by (simp add: app1)
  qed (use run new in auto)
qed

end

text \<open>C5: A command whose identifier is already recorded is not executed again in any reachable
  state: the recorded event carries the command's identifier, it is the reply (or a conflict error
  when the command is of another kind), and nothing but the reply is added to the state.\<close>

theorem duplicate_not_executed:
  assumes C: "crates_spec C val view" and cfg: "legal_percentage (percentage cfg)"
    and s: "reachable C view cfg s" and p: "cmd_request c = Some p" "payload_utf8 p"
    and n: "get_seq_num C (fst (sys_app s)) (command_id c) = (Ok (Some n) :: (unit, u64 option) res)"
  shows "\<exists>e. get_event C (fst (sys_app s)) n = (Ok (Some e) :: (unit, event option) res) \<and>
    eh_command_id (ev_get_header e) = command_id c \<and> eh_seq_num (ev_get_header e) = n \<and>
    handle_command C (sys_app s) li off c =
      (Ok (), send_event (Position li off) (dup_reply c p e) (sys_app s))"
proof -
  from crates_spec.reachable_inv [OF C s cfg] obtain D W where
    "system_inv (c_proto C) (decimal_value (c_bigdecimal C) val) view cfg s D W" by blast
  then have inv: "core_inv (c_proto C) (decimal_value (c_bigdecimal C) val) view D W (sys_app s)"
    and log: "event_log_ok W (sm_last_seq_num (fst (sys_app s)))" by (simp_all add: system_inv_def)
  have "wd_dedup W (command_id c) = Some n"
    using n by (simp add: crates_spec.get_seq_num_eq [OF C inv])
  from crates_spec.duplicate_step [OF C inv log p this] show ?thesis
    by (auto simp: crates_spec.get_event_eq [OF C inv])
qed

theorem duplicate_not_executed_witness:
  "\<exists>e p. cmd_request ex_create = Some p \<and>
    handle_command ref_crates (sys_app ex_system1) 7 0 ex_create =
      (Ok (), send_event (Position 7 0) (dup_reply ex_create p e) (sys_app ex_system1))"
proof -
  obtain p where p: "cmd_request ex_create = Some p" "payload_utf8 p" using ex_create_simps(2) by blast
  have "get_seq_num ref_crates (fst (sys_app ex_system1)) (command_id ex_create) =
      (Ok (Some 1) :: (unit, u64 option) res)"
    by (simp add: get_seq_num_def ex_system1_def)
  from duplicate_not_executed [OF ref_crates ex_cfg_legal ex_reachable1 p this] p show ?thesis by blast
qed



section \<open>The event log\<close>

text \<open>C7: In every reachable state the event log has no gaps: from the persisted first sequence
  number to the last one every event can be read, carries its own sequence number, and is found
  again through the identifier of its command; beyond the last one there is no event.\<close>

theorem event_log_contiguous:
  assumes C: "crates_spec C val view" and cfg: "legal_percentage (percentage cfg)"
    and s: "reachable C view cfg s"
  shows "\<exists>first. read_hard_state_from_db C (sys_db s) PERSISTED_FIRST_SEQ_NUM = (Ok first :: (unit, u64) res) \<and>
    (\<forall>n. if 0 < n \<and> first \<le> n \<and> n \<le> sm_last_seq_num (fst (sys_app s))
         then \<exists>e. get_event C (fst (sys_app s)) n = (Ok (Some e) :: (unit, event option) res) \<and>
           eh_seq_num (ev_get_header e) = n \<and>
           get_seq_num C (fst (sys_app s)) (eh_command_id (ev_get_header e)) =
             (Ok (Some n) :: (unit, u64 option) res)
         else n = 0 \<or> sm_last_seq_num (fst (sys_app s)) < n \<longrightarrow>
           get_event C (fst (sys_app s)) n = (Ok None :: (unit, event option) res))"
proof -
  from crates_spec.reachable_inv [OF C s cfg] obtain D W where
    sys: "system_inv (c_proto C) (decimal_value (c_bigdecimal C) val) view cfg s D W" by blast
  then have full: "core_inv (c_proto C) (decimal_value (c_bigdecimal C) val) view D W (sys_app s) \<and>
      event_log_ok W (sm_last_seq_num (fst (sys_app s))) \<and> batch_ok D (sys_app s)"
    by (simp add: system_inv_def)
  note inv = full [THEN conjunct1] and log = full [THEN conjunct2, THEN conjunct1]
  have rep: "represents (c_proto C) (view (sys_db s)) D" using core_invD(1) [OF inv] by (simp add: sys_db_def)
  note reads = crates_spec.get_event_eq [OF C inv] crates_spec.get_seq_num_eq [OF C inv]
    crates_spec.read_hard_state(3) [OF C rep]
  let ?l = "sm_last_seq_num (fst (sys_app s))" and ?first = "get_or_default 0 (wd_first_seq D)"
  have some: "\<exists>e. wd_events W n = Some e \<and> eh_seq_num (ev_get_header e) = n \<and>
      wd_dedup W (eh_command_id (ev_get_header e)) = Some n" if "0 < n \<and> ?first \<le> n \<and> n \<le> ?l" for n
  proof -
    have "wd_events W n \<noteq> None"
      using event_log_okD(4) [OF log, of n] that crates_spec.first_seq_same [OF C full] by simp
    then obtain e where "wd_events W n = Some e" by blast
    with event_log_okD(2,3) [OF log this] show ?thesis by blast
  qed
  have none: "wd_events W n = None" if "n = 0 \<or> ?l < n" for n
  proof (rule ccontr)
    assume "wd_events W n \<noteq> None"
    then obtain e where "wd_events W n = Some e" by blast
    from event_log_okD(3) [OF log this] that show False by auto
  qed
  show ?thesis
    using some none by (intro exI [of _ ?first]) (simp add: reads)
qed

theorem event_log_contiguous_witness:
  "\<exists>e. get_event ref_crates (fst (sys_app ex_system1)) 1 = (Ok (Some e) :: (unit, event option) res) \<and>
    eh_seq_num (ev_get_header e) = 1"
proof -
  have "read_hard_state_from_db ref_crates (sys_db ex_system1) PERSISTED_FIRST_SEQ_NUM = (Ok 0 :: (unit, u64) res)"
    by (simp add: sys_db_def ex_system1_def ex_app1_def run_simps ex_start_def ex_create_def
        read_hard_state_from_db_def hard_state_defs)
  with event_log_contiguous [OF ref_crates ex_cfg_legal ex_reachable1] have
    "if 0 < (1::u64) \<and> 0 \<le> (1::u64) \<and> 1 \<le> sm_last_seq_num (fst (sys_app ex_system1))
         then \<exists>e. get_event ref_crates (fst (sys_app ex_system1)) 1 = (Ok (Some e) :: (unit, event option) res) \<and>
           eh_seq_num (ev_get_header e) = 1 \<and>
           get_seq_num ref_crates (fst (sys_app ex_system1)) (eh_command_id (ev_get_header e)) =
             (Ok (Some 1) :: (unit, u64 option) res)
         else 1 = (0::u64) \<or> sm_last_seq_num (fst (sys_app ex_system1)) < 1 \<longrightarrow>
           get_event ref_crates (fst (sys_app ex_system1)) 1 = (Ok None :: (unit, event option) res)"
    by (metis res.inject(1))
  then show ?thesis by (auto simp: ex_system1_def)
qed

end
