(* ===== verification/Ledger_Properties.thy ===== *)
theory Ledger_Properties
  imports Example_Run
begin

text \<open>
  Money: what a command does to the total over all accounts, and the behaviours of the handlers
  that move money or account states in ways a caller may not expect.
\<close>



text \<open>C12: A raft log entry of transfers between different accounts, reservations, releases and
  account management, followed by \<open>maybe_flush\<close>, leaves the total of all balances unchanged.\<close>

theorem entry_and_flush_conserve_money:
  assumes C: "crates_spec C val view" and cfg: "legal_percentage (percentage cfg)"
    and s: "reachable C view cfg s"
    and idx: "li = sm_applied_index (fst (sys_app s)) + 1" "li \<noteq> 0"
    and adm: "admissible C li 0 cs (sys_app s)"
    and wrap: "unat (sm_last_seq_num (fst (sys_app s))) + length cs < 2 ^ 64"
    and cons: "list_all conservative_command cs"
  shows "\<exists>app1 app2. apply_entry C (sys_app s) (li, cs) = (Ok (), app1) \<and>
    maybe_flush C now app1 = (Ok (), app2) \<and>
    money (decimal_value (c_bigdecimal C) val) (sm_accounts (fst app2)) =
      money (decimal_value (c_bigdecimal C) val) (sm_accounts (fst (sys_app s)))"
proof -
  let ?m = "money (decimal_value (c_bigdecimal C) val)"
  from crates_spec.reachable_inv [OF C s cfg] obtain D W where
    inv: "system_inv (c_proto C) (decimal_value (c_bigdecimal C) val) view cfg s D W" by blast
  then have full: "core_inv (c_proto C) (decimal_value (c_bigdecimal C) val) view D W (sys_app s) \<and>
      event_log_ok W (sm_last_seq_num (fst (sys_app s))) \<and> batch_ok D (sys_app s)"
    by (simp add: system_inv_def)
  from crates_spec.sys_inv_entry [OF C inv idx adm wrap] obtain app1 W1 where
    run: "apply_entry C (sys_app s) (li, cs) = (Ok (), app1)"
    and inv1: "system_inv (c_proto C) (decimal_value (c_bigdecimal C) val) view cfg
      (s\<lparr>sys_app := app1\<rparr>) D W1" by blast
  from run obtain sm cx where hc: "handle_commands C li 0 cs (sys_app s) = (Ok (), (sm, cx))"
    and "sm_accounts (fst app1) = sm_accounts sm"
    by (auto simp: apply_entry_def bind_st_eq_Ok Let_def split: if_splits prod.splits)
  then have m1: "?m (sm_accounts (fst app1)) = ?m (sm_accounts (fst (sys_app s)))"
    using crates_spec.commands_money [OF C full adm wrap cons hc] by simp
  from crates_spec.sys_inv_flush [OF C inv1, of now] obtain app2 where
    fl: "maybe_flush C now app1 = (Ok (), app2)" by auto
  have "core_inv (c_proto C) (decimal_value (c_bigdecimal C) val) view D W1 app1"
    using inv1 by (simp add: system_inv_def)
  from crates_spec.flush_money [OF C this fl] m1 have "?m (sm_accounts (fst app2)) = ?m (sm_accounts (fst (sys_app s)))"
    by simp
  with run fl show ?thesis by blast
qed

theorem entry_and_flush_conserve_money_witness:
  "\<exists>app1 app2. apply_entry ref_crates (sys_app ex_system) (6, [ex_create]) = (Ok (), app1) \<and>
    maybe_flush ref_crates 9 app1 = (Ok (), app2) \<and>
    money (decimal_value ref_bigdecimal dec_val) (sm_accounts (fst app2)) = 0"
proof -
  have "list_all conservative_command [ex_create]"
    by (simp add: ex_create_def conservative_command_def)
  from entry_and_flush_conserve_money [OF ref_crates ex_cfg_legal ex_reachable _ _ ex_admissible _ this, of 9]
  show ?thesis by (simp add: ex_system_def ex_start_def money_def ref_crates_def fmap_simps)
qed

section \<open>Errors\<close>

text \<open>C19: A command handler that fails leaves the state machine and its write batch exactly as they
  were; no handler writes before its last check.\<close>

theorem failed_command_changes_nothing:
  assumes "dispatch C app li off p = (Err e, app')"
  shows "app' = app"
  using assms by (cases p) (auto simp: handler_defs bind_st_eq_Err Let_def split: if_splits prod.splits)

theorem failed_command_changes_nothing_witness:
  "\<exists>e. dispatch ref_crates ex_start 6 0 (lock_account_request \<lparr>lar_header = None\<rparr>) = (Err e, ex_start)"
proof -
  have "fst (dispatch ref_crates ex_start 6 0 (lock_account_request \<lparr>lar_header = None\<rparr>)) =
      Err (AccountManagementError (AccountNotExist []))"
    by (simp add: handle_lock_account_def assert_account_exists_def ex_start_def default_request_header_def)
  then obtain app' where run: "dispatch ref_crates ex_start 6 0 (lock_account_request \<lparr>lar_header = None\<rparr>) =
      (Err (AccountManagementError (AccountNotExist [])), app')" by (metis prod.collapse)
  from failed_command_changes_nothing [OF run] run show ?thesis by blast
qed

section \<open>Behaviour that depends on the time of a flush\<close>

text \<open>C28: Creating an account that was deleted since the last flush is refused, while the same
  command succeeds when a flush comes first. Flushes depend on wall-clock time, so two replicas
  that apply the same log can answer the same command differently.\<close>

theorem create_after_delete_depends_on_flush:
  assumes a: "fmlookup (sm_accounts (fst app)) i = Some a"
    and tomb: "i \<in> set (cx_to_be_deleted_account_ids (snd app))"
    and id: "hd_account_id (get_header (car_header r)) = i"
    and run: "flush C now app = (Ok (), app')"
  shows "handle_create_account C app r li off = (Err (AccountManagementError (AccountAlreadyExist i)), app) \<and>
    (\<exists>ev app''. handle_create_account C app' r li off = (Ok ev, app''))"
proof -
  have drop: "fmlookup (fold fmdrop is m) j = (if j \<in> set is then None else fmlookup m j)"
    for "is" j and m :: "(string, account) fmap"
    by (induction "is" arbitrary: m) auto
  have "sm_accounts (fst app') = fold fmdrop (cx_to_be_deleted_account_ids (snd app)) (sm_accounts (fst app))"
    using run by (auto simp: flush_def split: prod.splits if_splits)
  then have "i |\<notin>| fmdom (sm_accounts (fst app'))" using tomb drop by (simp add: fmdom_notI)
  moreover have "i |\<in>| fmdom (sm_accounts (fst app))" using a by (rule fmdomI)
  ultimately show ?thesis using id by (simp add: handle_create_account_def Let_def)
qed

theorem create_after_delete_depends_on_flush_witness:
  "let app = ((fst ex_start)\<lparr>sm_accounts := fmupd ''a'' (account_new ''a'') fmempty, sm_applied_index := 6\<rparr>,
              (snd ex_start)\<lparr>cx_to_be_deleted_account_ids := [''a'']\<rparr>);
       r = \<lparr>car_header = Some \<lparr>hd_dedup_id = ''c2'', hd_account_id = ''a''\<rparr>, car_account_config = None\<rparr>
   in fst (handle_create_account ref_crates app r 7 0) = Err (AccountManagementError (AccountAlreadyExist ''a'')) \<and>
      (\<exists>ev. fst (handle_create_account ref_crates (snd (flush ref_crates 9 app)) r 7 0) = Ok ev)"
proof -
  let ?app = "((fst ex_start)\<lparr>sm_accounts := fmupd ''a'' (account_new ''a'') fmempty, sm_applied_index := 6\<rparr>,
              (snd ex_start)\<lparr>cx_to_be_deleted_account_ids := [''a'']\<rparr>)"
  have "flush ref_crates 9 ?app = (Ok (), snd (flush ref_crates 9 ?app))"
    by (simp add: flush_def ex_start_def)
  from create_after_delete_depends_on_flush [OF _ _ _ this, of "''a''" "account_new ''a''"
      "\<lparr>car_header = Some \<lparr>hd_dedup_id = ''c2'', hd_account_id = ''a''\<rparr>, car_account_config = None\<rparr>" 7 0]
  show ?thesis by (auto simp: Let_def)
qed

end
