(* ===== verification/Account_Properties.thy ===== *)
theory Account_Properties
  imports Example_Run
begin

text \<open>
  The contract of a single account: its operations on decimal strings implement a ledger on rational
  numbers, keep the configured limits, give back what they reserve, and stop at deletion.
\<close>



lemma spec_reserve_release:
  assumes "spec_reserve l rid v = Some l1" "within_limit (la_limit l) (la_avail l)"
  shows "spec_release_all l1 rid = Some l"
proof (cases l)
  case (fields st avail resv limit)
  have "fmlookup resv rid = None \<Longrightarrow> fmdrop rid (fmupd rid v resv) = resv"
    by (intro fmap_ext) auto
  with assms fields show ?thesis
    by (auto simp: spec_reserve_def spec_increase_def spec_release_all_def split: if_splits)
qed

text \<open>C23: A reservation gives back exactly what it took: reserving an amount and releasing the
  reservation returns the account to the same ledger state, when its balance was within its limits
  before.\<close>

theorem reserve_release_roundtrip:
  assumes bd: "bigdecimal_spec bd val" and wf: "wf_account (decimal_value bd val) a"
    and lim: "within_limit (la_limit (ledger_of (decimal_value bd val) a))
      (la_avail (ledger_of (decimal_value bd val) a))"
    and run: "reserve (balance_calculator bd) a rid amt = Ok a1"
  shows "\<exists>a2. release_all (balance_calculator bd) a1 rid = Ok a2 \<and>
    ledger_of (decimal_value bd val) a2 = ledger_of (decimal_value bd val) a"
proof -
  let ?l = "ledger_of (decimal_value bd val)"
  note calc = bigdecimal_spec.calculator [OF bd]
  have "assert_amount_gt_zero (balance_calculator bd) amt = Ok ()"
    using run by (auto simp: reserve_def bind_res_eq_Ok split: if_splits)
  then obtain v where v: "decimal_value bd val amt = Some v"
    using calculator_spec.assert_amount_gt_zero_cases(3) [OF calc, of amt] by fastforce
  have "spec_reserve (?l a) rid v = Some (?l a1)"
    using calculator_spec.reserve_refines [OF calc wf v, of rid] run by (simp add: ok_opt_def)
  from spec_reserve_release [OF this lim] have "spec_release_all (?l a1) rid = Some (?l a)" .
  moreover have "wf_account (decimal_value bd val) a1"
    using calculator_spec.reserve_wf [OF calc wf run] .
  note calculator_spec.release_all_refines [OF calc this, of rid]
  ultimately show ?thesis by (cases "release_all (balance_calculator bd) a1 rid") (auto simp: ok_opt_def)
qed

theorem reserve_release_roundtrip_witness:
  "\<exists>a1 a2. reserve (balance_calculator ref_bigdecimal) (account_new ''a'') ''r'' ''10'' = Ok a1 \<and>
    release_all (balance_calculator ref_bigdecimal) a1 ''r'' = Ok a2 \<and>
    ledger_of (decimal_value ref_bigdecimal dec_val) a2 =
      ledger_of (decimal_value ref_bigdecimal dec_val) (account_new ''a'')"
proof -
  note calc = bigdecimal_spec.calculator [OF ref_decimal.bigdecimal_spec_axioms]
  have wf: "wf_account (decimal_value ref_bigdecimal dec_val) (account_new ''a'')"
    by (rule calculator_spec.account_new_wf [OF calc])
  have "spec_reserve (ledger_of (decimal_value ref_bigdecimal dec_val) (account_new ''a'')) ''r'' 10 \<noteq> None"
    by (simp add: calculator_spec.ledger_of_new [OF calc] spec_reserve_def spec_increase_def within_limit_def)
  with calculator_spec.reserve_refines [OF calc wf ex_amounts(4), of "''r''"] obtain a1 where
    a1: "reserve (balance_calculator ref_bigdecimal) (account_new ''a'') ''r'' ''10'' = Ok a1"
    by (cases "reserve (balance_calculator ref_bigdecimal) (account_new ''a'') ''r'' ''10''") (auto simp: ok_opt_def)
  have "within_limit (la_limit (ledger_of (decimal_value ref_bigdecimal dec_val) (account_new ''a'')))
      (la_avail (ledger_of (decimal_value ref_bigdecimal dec_val) (account_new ''a'')))"
    by (simp add: calculator_spec.ledger_of_new [OF calc] within_limit_def)
  from reserve_release_roundtrip [OF ref_decimal.bigdecimal_spec_axioms wf this a1] a1 show ?thesis by blast
qed



text \<open>C24: Balance limits: an operation that changes the available balance of an account and succeeds
  leaves it within the configured lower and upper limit, and the limit itself unchanged. A limit
  with a component that is not a number admits no balance at all.\<close>

theorem account_within_limits:
  assumes bd: "bigdecimal_spec bd val"
    and op: "(\<exists>ch. increase_balance_by (balance_calculator bd) a amt = Ok (a', ch)) \<or>
      reserve (balance_calculator bd) a rid amt = Ok a' \<or> release_all (balance_calculator bd) a rid = Ok a' \<or>
      partial_release (balance_calculator bd) a rid amt = Ok a'"
  shows "la_limit (ledger_of (decimal_value bd val) a') = la_limit (ledger_of (decimal_value bd val) a) \<and>
    within_limit (la_limit (ledger_of (decimal_value bd val) a'))
      (la_avail (ledger_of (decimal_value bd val) a'))"
proof -
  note calc = bigdecimal_spec.calculator [OF bd]
  have inc: "la_limit (ledger_of (decimal_value bd val) b') = la_limit (ledger_of (decimal_value bd val) b) \<and>
      within_limit (la_limit (ledger_of (decimal_value bd val) b')) (la_avail (ledger_of (decimal_value bd val) b'))"
    if "increase_balance_by (balance_calculator bd) b x = Ok (b', ch)" for b b' x ch
    by (rule calculator_spec.increase_balance_by_OkD [OF calc that]) simp
  from op show ?thesis
    by (auto simp: reserve_def release_all_def partial_release_def bind_res_eq_Ok dest!: inc
        split: if_splits)
qed

theorem account_within_limits_witness:
  "\<exists>a' ch. increase_balance_by (balance_calculator ref_bigdecimal) (account_new ''a'') ''10'' = Ok (a', ch) \<and>
    within_limit (la_limit (ledger_of (decimal_value ref_bigdecimal dec_val) a'))
      (la_avail (ledger_of (decimal_value ref_bigdecimal dec_val) a'))"
proof -
  have "\<exists>a' ch. increase_balance_by (balance_calculator ref_bigdecimal) (account_new ''a'') ''10'' = Ok (a', ch)"
    using ref_calculator by (simp add: account_simps ref_crates_def)
  then obtain a' ch where
    "increase_balance_by (balance_calculator ref_bigdecimal) (account_new ''a'') ''10'' = Ok (a', ch)" by blast
  with account_within_limits [OF ref_decimal.bigdecimal_spec_axioms, of "account_new ''a''" "''10''" a' "[]"]
  show ?thesis by blast
qed

end
