(* ===== verification/GC_Properties.thy ===== *)
theory GC_Properties
  imports Example_Run
begin

text \<open>
  Truncation of the event log: what the garbage collector deletes, that it stops, and the settings
  under which it does not.
\<close>

lemma gc_typed_dedup_eq:
  assumes "event_log_ok W last_seq"
  shows "wd_dedup (gc_typed f t W) c =
    (case wd_dedup W c of Some n \<Rightarrow> if f \<le> n \<and> n < t then None else Some n | None \<Rightarrow> None)"
proof -
  let ?r = "case wd_dedup W c of Some n \<Rightarrow> if f \<le> n \<and> n < t then None else Some n | None \<Rightarrow> None"
  have eq: "(wd_dedup (gc_typed f t W) c = Some n) = (?r = Some n)" for n
    unfolding gc_typed_dedup [OF assms] by (cases "wd_dedup W c") auto
  show ?thesis
  proof (cases "wd_dedup (gc_typed f t W) c")
    case None
    then have "?r \<noteq> Some n" for n using eq [of n] by simp
    then have "?r = None" by blast
    with None show ?thesis by simp
  next
    case (Some n)
    then have "?r = Some n" using eq [of n] by blast
    with Some show ?thesis by simp
  qed
qed

text \<open>C18: In every reachable state, when the collector decides to truncate, its loop ends and the
  database has lost exactly the events of the range and their deduplication entries: every other
  event, every other deduplication entry and every account reads as before, and the persisted
  first sequence number is the announced one.\<close>

theorem gc_removes_exactly_the_range:
  assumes C: "crates_spec C val view" and cfg: "legal_percentage (percentage cfg)"
    and s: "reachable C view cfg s"
    and first: "read_hard_state_from_db C (sys_db s) PERSISTED_FIRST_SEQ_NUM = (Ok first :: (unit, u64) res)"
    and lst: "read_hard_state_from_db C (sys_db s) PERSISTED_LAST_SEQ_NUM = (Ok lst :: (unit, u64) res)"
    and gc: "should_gc cfg first lst = Ok (Some nxt)" "max first 1 < nxt"
    and bs: "gc_batch_size cfg \<noteq> 0" "unat nxt + unat (gc_batch_size cfg) < 2 ^ 64"
  shows "\<exists>db'. gc C mem cfg first nxt (sys_db s) = Some (Ok db') \<and>
    (\<forall>n. (read_event_from_db C db' n :: (unit, event option) res) =
       (if max first 1 \<le> n \<and> n < nxt then Ok None else read_event_from_db C (sys_db s) n)) \<and>
    (\<forall>c. (read_seq_num_from_db C db' c :: (unit, u64 option) res) =
       (case read_seq_num_from_db C (sys_db s) c of
          Ok (Some n) \<Rightarrow> if max first 1 \<le> n \<and> n < nxt then Ok None else Ok (Some n) | r \<Rightarrow> r)) \<and>
    (read_accounts_from_db C mem' db' :: (unit, (string, account) fmap) res) =
      read_accounts_from_db C mem' (sys_db s) \<and>
    (read_hard_state_from_db C db' PERSISTED_FIRST_SEQ_NUM :: (unit, u64) res) = Ok nxt"
proof -
  from crates_spec.reachable_inv [OF C s cfg] obtain D W where
    inv: "system_inv (c_proto C) (decimal_value (c_bigdecimal C) val) view cfg s D W" by blast
  then have rep: "represents (c_proto C) (view (sys_db s)) D"
    and log: "event_log_ok D (persisted_last D)"
    by (simp_all add: system_inv_def core_inv_def sys_db_def batch_ok_def)
  let ?f = "max first 1"
  have "gc C mem cfg first nxt (sys_db s) = gc_loop_batches C mem (gc_batch_size cfg) nxt ?f
      (min (?f + gc_batch_size cfg) nxt) (sys_db s)"
    by (simp add: gc_def Let_def hard_state_defs)
  with crates_spec.gc_loop_ends [OF C rep bs less_imp_le [OF gc(2)], of mem] obtain db' where
    db': "gc C mem cfg first nxt (sys_db s) = Some (Ok db')"
    and "represents (c_proto C) (view db') (if ?f < nxt then gc_typed ?f nxt D else D)" by metis
  then have rep': "represents (c_proto C) (view db') (gc_typed ?f nxt D)"
    by (simp only: if_P [OF gc(2)])
  have dedup: "wd_dedup (gc_typed ?f nxt D) c =
      (case wd_dedup D c of Some n \<Rightarrow> if ?f \<le> n \<and> n < nxt then None else Some n | None \<Rightarrow> None)" for c
    by (rule gc_typed_dedup_eq [OF log])
  obtain accs where accs: "(read_accounts_from_db C mem' (sys_db s) :: (unit, (string, account) fmap) res) = Ok accs"
      "fmlookup accs = wd_accounts D"
    using crates_spec.read_accounts [OF C rep] by blast
  obtain accs' where accs': "(read_accounts_from_db C mem' db' :: (unit, (string, account) fmap) res) = Ok accs'"
      "fmlookup accs' = wd_accounts (gc_typed ?f nxt D)"
    using crates_spec.read_accounts [OF C rep'] by blast
  have "accs' = accs" using accs(2) accs'(2) by (intro fmap_ext) simp
  then have "(read_accounts_from_db C mem' db' :: (unit, (string, account) fmap) res) =
      read_accounts_from_db C mem' (sys_db s)" using accs(1) accs'(1) by simp
  moreover have "(read_event_from_db C db' n :: (unit, event option) res) =
      (if ?f \<le> n \<and> n < nxt then Ok None else read_event_from_db C (sys_db s) n)" for n
    by (simp add: crates_spec.read_event [OF C rep] crates_spec.read_event [OF C rep'])
  moreover have "(read_seq_num_from_db C db' c :: (unit, u64 option) res) =
      (case read_seq_num_from_db C (sys_db s) c of
         Ok (Some n) \<Rightarrow> if ?f \<le> n \<and> n < nxt then Ok None else Ok (Some n) | r \<Rightarrow> r)" for c
    by (simp add: crates_spec.read_seq_num [OF C rep] crates_spec.read_seq_num [OF C rep'] dedup
        split: option.splits)
  moreover have "(read_hard_state_from_db C db' PERSISTED_FIRST_SEQ_NUM :: (unit, u64) res) = Ok nxt"
    by (simp add: crates_spec.read_hard_state(3) [OF C rep'])
  ultimately show ?thesis using db' by blast
qed

theorem gc_removes_exactly_the_range_witness:
  "\<exists>db'. gc ref_crates ex_mem ex_gc_cfg 0 2 (sys_db ex_system8) = Some (Ok db') \<and>
    (read_event_from_db ref_crates db' 1 :: (unit, event option) res) = Ok None \<and>
    (read_hard_state_from_db ref_crates db' PERSISTED_FIRST_SEQ_NUM :: (unit, u64) res) = Ok 2"
proof -
  have bs: "max 0 1 < (2 :: u64)" "gc_batch_size ex_gc_cfg \<noteq> 0"
    "unat (2 :: u64) + unat (gc_batch_size ex_gc_cfg) < 2 ^ 64"
    by (simp_all add: ex_gc_cfg_def ex_cfg_def event_log_gc_config_default_def Let_def env_or_def
        DEFAULT_GC_BATCH_SIZE_def)
  from gc_removes_exactly_the_range [OF ref_crates ex_gc_cfg_legal ex_reachable8 ex_hard_states8
      ex_should_gc bs, of ex_mem ex_mem]
  obtain db' where "gc ref_crates ex_mem ex_gc_cfg 0 2 (sys_db ex_system8) = Some (Ok db')"
    "(read_event_from_db ref_crates db' 1 :: (unit, event option) res) = Ok None"
    "(read_hard_state_from_db ref_crates db' PERSISTED_FIRST_SEQ_NUM :: (unit, u64) res) = Ok 2" by auto
  then show ?thesis by blast
qed

text \<open>C22: What the collector plans lies inside the log: with a legal percentage it drops at most the
  configured count, never moves past the last persisted event, and does nothing while the log is
  shorter than the limit.\<close>

theorem gc_plan_within_log:
  assumes "legal_percentage (percentage cfg)" "first \<le> lst"
  shows "(\<exists>nxt. should_gc cfg first lst = Ok (Some nxt) \<and> first \<le> nxt \<and> nxt \<le> lst \<and>
      unat nxt = unat first + unat (gc_count cfg) \<and> gc_count cfg \<le> count_limit cfg \<and>
      count_limit cfg \<le> lst - first) \<or>
    should_gc cfg first lst = Ok None \<and> lst - first < count_limit cfg"
proof (cases "lst - first < count_limit cfg")
  case True
  with assms show ?thesis by (simp add: should_gc_def)
next
  case False
  then have run: "should_gc cfg first lst = Ok (Some (first + gc_count cfg))"
    using assms(2) by (simp add: should_gc_def)
  note r = should_gc_range(1,2) [OF assms(1) run]
  have "unat (first + gc_count cfg) = unat first + unat (gc_count cfg)"
    using r(1) unat_plus_simple by blast
  with run r False gc_count_le [OF assms(1)] show ?thesis by (auto simp: not_less)
qed

theorem gc_plan_within_log_witness:
  "should_gc ex_gc_cfg 0 8 = Ok (Some 2) \<and> gc_count ex_gc_cfg \<le> count_limit ex_gc_cfg"
  using gc_plan_within_log [OF ex_gc_cfg_legal, of 0 8] ex_should_gc by auto

text \<open>C29: With a batch size of zero, which the configuration accepts, the loop over the batches
  never ends once there is something to truncate.\<close>

theorem gc_batch_size_zero_never_ends:
  assumes C: "crates_spec C val view" and rep: "represents (c_proto C) (view db) D"
    and bs: "gc_batch_size cfg = 0" and lt: "max first 1 < nxt"
  shows "gc C mem cfg first nxt db = None"
proof -
  have m: "min (max first 1) nxt = max first 1" using less_imp_le [OF lt] by (rule min.absorb1)
  have "gc C mem cfg first nxt db = gc_loop_batches C mem 0 nxt (max first 1) (max first 1) db"
    using bs by (simp add: gc_def Let_def hard_state_defs m del: max_less_iff_conj min_less_iff_conj)
  then show ?thesis using crates_spec.gc_loop_zero_diverges [OF C rep lt] by simp
qed

theorem gc_batch_size_zero_never_ends_witness:
  "gc ref_crates ex_mem (ex_gc_cfg\<lparr>gc_batch_size := 0\<rparr>) 0 2 [] = None"
proof -
  have "represents (c_proto ref_crates) (map_of []) empty_wallet_db" by simp
  from gc_batch_size_zero_never_ends [OF ref_crates this] show ?thesis by simp
qed

text \<open>C30: A percentage that the environment sets to \<open>NaN\<close> passes the range check of the
  configuration, and then the collector plans to drop nothing: once the log is long enough each
  round plans an empty truncation and returns without sleeping.\<close>

theorem nan_percentage_never_truncates:
  assumes "env ''event_log_gc_percentage'' = Some ''NaN''" "first \<le> lst"
    "count_limit (event_log_gc_config_default env) \<le> lst - first"
  shows "percentage (event_log_gc_config_default env) = NaN \<and>
    should_gc (event_log_gc_config_default env) first lst = Ok (Some first)"
proof -
  have nan: "parse_f64 ''NaN'' = Some NaN" by code_simp
  then have "percentage (event_log_gc_config_default env) = NaN"
    using assms(1) by (simp add: event_log_gc_config_default_def Let_def env_or_def f64_less_def
        percentage_consts)
  moreover from this have "gc_count (event_log_gc_config_default env) = 0"
    by (simp add: gc_count_def f64_mul_def f64_as_u64_def split: f64.splits)
  ultimately show ?thesis using assms(2,3) by (simp add: should_gc_def not_less)
qed

theorem nan_percentage_never_truncates_witness:
  "should_gc (event_log_gc_config_default (\<lambda>v. if v = ''event_log_gc_percentage'' then Some ''NaN'' else None))
     0 52428800 = Ok (Some 0)"
  using nan_percentage_never_truncates [of "\<lambda>v. if v = ''event_log_gc_percentage'' then Some ''NaN'' else None"
      0 52428800]
  by (auto simp: event_log_gc_config_default_def Let_def env_or_def DEFAULT_GC_COUNT_LIMIT_def
      simp del: One_nat_def split del: if_split)

end
