(* ===== verification/Raft_Log.thy ===== *)
theory Raft_Log
  imports Rocks_Engine Reference_Crates
begin

text \<open>
  The raft log in RocksDB: what \<open>append\<close>, \<open>fetch_entries_to\<close>, \<open>cut_logs\<close> and \<open>gc\<close> of
  \<^verbatim>\<open>rocks_engine.rs\<close> do to the entries of one raft group. The message type of an entry comes from
  the \<open>raft\<close> package; what the engine needs of it is that a written entry parses back.
\<close>

section \<open>Interface\<close>

locale raft_log_spec = byteorder_spec bo + rocksdb_spec rdb view
  for bo :: byteorder and rdb :: "'db rocksdb" and view :: "'db \<Rightarrow> bytes \<rightharpoonup> bytes" +
  fixes en :: "'en raft_entry"
  assumes entry_parse_write: "en_parse en (en_write en e) = Some e"
    and entry_not_empty: "en_index en e \<noteq> 0 \<Longrightarrow> en_write en e \<noteq> []"

text \<open>A reading of at least one entry that stops once the size limit is reached.\<close>

fun within_budget :: "('en \<Rightarrow> nat) \<Rightarrow> nat \<Rightarrow> nat \<Rightarrow> 'en list \<Rightarrow> 'en list" where
  "within_budget sz max_size used [] = []"
| "within_budget sz max_size used (e # es) =
     (if 0 < used \<and> max_size \<le> used then [] else e # within_budget sz max_size (used + sz e) es)"

text \<open>The entries \<open>low\<close> up to \<open>high\<close> of a group are all there, and nothing else lies among them.\<close>

definition log_range ::
    "byteorder \<Rightarrow> 'en raft_entry \<Rightarrow> (bytes \<rightharpoonup> bytes) \<Rightarrow> u64 \<Rightarrow> u64 \<Rightarrow> u64 \<Rightarrow> (u64 \<Rightarrow> 'en) \<Rightarrow> bool" where
  "log_range bo en m r low high E \<longleftrightarrow>
     (\<forall>i. low \<le> i \<and> i < high \<longrightarrow>
        m (raft_log_key bo r i) = Some (en_write en (E i)) \<and> en_index en (E i) = i) \<and>
     (\<forall>k. m k \<noteq> None \<and> raft_log_key bo r low \<le> k \<and> k < raft_log_key bo r high \<longrightarrow>
        (\<exists>i. k = raft_log_key bo r i))"

section \<open>Fetching\<close>

lemma within_budget_total:
  assumes "\<And>e. e \<in> set es \<Longrightarrow> 0 < sz e"
  shows "within_budget sz m used es = es \<or> m \<le> used + sum_list (map sz (within_budget sz m used es))"
  using assms
proof (induction es arbitrary: used)
  case (Cons e es)
  show ?case
  proof (cases "0 < used \<and> m \<le> used")
    case False
    have "within_budget sz m (used + sz e) es = es \<or>
        m \<le> used + sz e + sum_list (map sz (within_budget sz m (used + sz e) es))"
      using Cons by simp
    with False show ?thesis by (auto simp: add.assoc)
  qed simp
qed simp

lemma assoc_list_eqI:
  assumes "map fst xs = map fst ys" "distinct (map fst xs)" "set xs = set ys"
  shows "xs = ys"
proof (rule nth_equalityI)
  show len: "length xs = length ys" using assms(1) by (metis length_map)
  fix i assume i: "i < length xs"
  have k: "fst (xs ! i) = fst (ys ! i)" using assms(1) i len by (metis nth_map)
  have "xs ! i \<in> set xs" "ys ! i \<in> set xs"
    using i len assms(3) nth_mem [of i xs] nth_mem [of i ys] by simp_all
  then have "(fst (xs ! i), snd (xs ! i)) \<in> set xs" "(fst (xs ! i), snd (ys ! i)) \<in> set xs"
    unfolding k prod.collapse by (simp_all add: k [symmetric])
  from eq_key_imp_eq_value [OF assms(2) this] k show "xs ! i = ys ! i" by (simp add: prod_eq_iff)
qed

context raft_log_spec
begin

abbreviation esize :: "'en \<Rightarrow> nat" where
  "esize e \<equiv> length (en_write en e)"

lemma multi_get_loop_fetch:
  assumes "\<forall>i \<in> set is. view db (raft_log_key bo r i) = Some (en_write en (E i)) \<and> en_index en (E i) = i"
  shows "multi_get_loop rdb bo en db r max_size is s =
    Ok \<lparr>fs_buf = fs_buf s @ within_budget esize max_size (fs_total_size s) (map E is),
        fs_total_size = fs_total_size s +
          sum_list (map esize (within_budget esize max_size (fs_total_size s) (map E is))),
        fs_count = fs_count s + length (within_budget esize max_size (fs_total_size s) (map E is))\<rparr>"
  using assms
  by (induction "is" arbitrary: s)
    (simp_all add: get_value_def get_view entry_parse_write fetch_push_def add.assoc)

lemma fetch_scan_loop:
  assumes "\<forall>i \<in> set is. en_index en (E i) = i \<and> i \<noteq> 0"
    and "is \<noteq> [] \<Longrightarrow> hd is = nxt \<and> (cc \<longrightarrow> nxt = low)"
    and "\<forall>k. Suc k < length is \<longrightarrow> is ! Suc k = is ! k + 1"
    and "fs_total_size s < max_size \<or> fs_total_size s = 0"
  shows "\<exists>cc' nxt'. scan_impl (map (\<lambda>i. (raft_log_key bo r i, en_write en (E i))) is)
      (fetch_scan_step en low max_size) (cc, nxt, s) =
    (Ok (), (cc', nxt',
      \<lparr>fs_buf = fs_buf s @ within_budget esize max_size (fs_total_size s) (map E is),
       fs_total_size = fs_total_size s +
         sum_list (map esize (within_budget esize max_size (fs_total_size s) (map E is))),
       fs_count = fs_count s + length (within_budget esize max_size (fs_total_size s) (map E is))\<rparr>))"
  using assms
proof (induction "is" arbitrary: cc nxt s)
  case (Cons i "is")
  let ?s = "fetch_push s (E i) (en_write en (E i))"
  have i: "i = nxt" "cc \<longrightarrow> i = low" "en_index en (E i) = i" "0 < esize (E i)"
    using Cons.prems(1,2) entry_not_empty [of "E i"] by auto
  have step: "fetch_scan_step en low max_size (raft_log_key bo r i) (en_write en (E i)) (cc, nxt, s) =
      (Ok (fs_total_size ?s < max_size), (False, nxt + 1, ?s))"
    using i by (auto simp: fetch_scan_step_def entry_parse_write Let_def)
  have nil: "\<not> (0 < fs_total_size s \<and> max_size \<le> fs_total_size s)" using Cons.prems(4) by auto
  show ?case
  proof (cases "fs_total_size ?s < max_size")
    case True
    have "is \<noteq> [] \<Longrightarrow> hd is = nxt + 1"
      using Cons.prems(3) [rule_format, of 0] i by (cases "is") auto
    moreover have "\<forall>k. Suc k < length is \<longrightarrow> is ! Suc k = is ! k + 1"
      using Cons.prems(3) by auto
    ultimately obtain cc' nxt' where
      "scan_impl (map (\<lambda>i. (raft_log_key bo r i, en_write en (E i))) is)
        (fetch_scan_step en low max_size) (False, nxt + 1, ?s) =
      (Ok (), (cc', nxt',
        \<lparr>fs_buf = fs_buf ?s @ within_budget esize max_size (fs_total_size ?s) (map E is),
         fs_total_size = fs_total_size ?s +
           sum_list (map esize (within_budget esize max_size (fs_total_size ?s) (map E is))),
         fs_count = fs_count ?s + length (within_budget esize max_size (fs_total_size ?s) (map E is))\<rparr>))"
      using Cons.IH [of "nxt + 1" False ?s] Cons.prems(1) True by auto
    with True step nil show ?thesis by (simp add: fetch_push_def add.assoc)
  next
    case False
    then have "within_budget esize max_size (fs_total_size s + esize (E i)) (map E is) = []"
      using i(4) by (cases "is") (auto simp: fetch_push_def)
    with False step nil show ?thesis
      by (intro exI [of _ False] exI [of _ "nxt + 1"]) (simp add: fetch_push_def)
  qed
qed simp

lemma raft_log_key_inject [simp]: "raft_log_key bo r i = raft_log_key bo r' j \<longleftrightarrow> r = r' \<and> i = j"
  by (metis decode_raft_log_key prod.inject res.inject(1))

lemma raft_log_key_le: "raft_log_key bo r i \<le> raft_log_key bo r j \<longleftrightarrow> i \<le> j"
  by (auto simp: le_less raft_log_key_less)

text \<open>The iterator over the range visits exactly its entries, in the order of the indices.\<close>

lemma log_range_iter:
  assumes "log_range bo en (view db) r low high E"
  shows "rdb_iter rdb db (Some (raft_log_key bo r low)) (Some (raft_log_key bo r high))
      (raft_log_key bo r low) =
    map (\<lambda>i. (raft_log_key bo r i, en_write en (E i))) (index_range low high)"
    (is "?it = ?m")
proof -
  have "set ?it = set ?m"
  proof (rule set_eqI)
    fix e show "e \<in> set ?it \<longleftrightarrow> e \<in> set ?m"
    proof (cases e)
      case (Pair k v)
      show ?thesis
      proof
        assume "e \<in> set ?it"
        then have kv: "view db k = Some v" "raft_log_key bo r low \<le> k" "k < raft_log_key bo r high"
          by (auto simp: Pair iter_set in_bounds_def)
        with assms obtain i where i: "k = raft_log_key bo r i" by (auto simp: log_range_def)
        with kv have "low \<le> i" "i < high" by (simp_all add: raft_log_key_le raft_log_key_less)
        with assms kv i show "e \<in> set ?m" by (auto simp: Pair log_range_def)
      next
        assume "e \<in> set ?m"
        then obtain i where "k = raft_log_key bo r i" "v = en_write en (E i)" "low \<le> i" "i < high"
          by (auto simp: Pair)
        with assms show "e \<in> set ?it"
          by (auto simp: Pair iter_set in_bounds_def raft_log_key_le raft_log_key_less log_range_def)
      qed
    qed
  qed
  then have keys: "set (map fst ?it) = set (map fst ?m)" by (simp only: set_map)
  have "sorted_wrt (<) (map fst ?m)"
    using index_range_sorted [of low high] by (simp add: sorted_wrt_map comp_def raft_log_key_less)
  from strict_sorted_equal [OF this iter_sorted keys] have "map fst ?it = map fst ?m" .
  moreover have "distinct (map fst ?it)" using iter_sorted strict_sorted_iff by blast
  ultimately show ?thesis using \<open>set ?it = set ?m\<close> by (intro assoc_list_eqI)
qed

lemma index_range_step:
  "\<forall>k. Suc k < length (index_range low high) \<longrightarrow> index_range low high ! Suc k = index_range low high ! k + 1"
  by (simp add: index_range_def)

lemma fetch_entries:
  assumes log: "log_range bo en (view db) r low high E" and low: "0 < low" "low < high"
  shows "fetch_entries_to rdb bo mem en db r low high max_size buf =
    (let es = within_budget esize (case max_size of Some m \<Rightarrow> m | None \<Rightarrow> usize_max) 0
                (map E (index_range low high))
     in Ok (length es, buf @ es))"
proof -
  let ?m = "case max_size of Some m \<Rightarrow> m | None \<Rightarrow> usize_max" and ?is = "index_range low high"
  let ?es = "within_budget esize ?m 0 (map E ?is)" and ?s = "\<lparr>fs_buf = buf, fs_total_size = 0, fs_count = 0\<rparr>"
  have nle: "\<not> high \<le> low" using low(2) by simp
  have ok: "\<forall>i \<in> set ?is. view db (raft_log_key bo r i) = Some (en_write en (E i)) \<and> en_index en (E i) = i"
    using log by (simp add: log_range_def)
  show ?thesis
  proof (cases "high - low \<le> RAFT_LOG_MULTI_GET_CNT")
    case True
    with nle show ?thesis
      by (simp add: fetch_entries_to_def Let_def index_range_def [symmetric] multi_get_loop_fetch [OF ok])
  next
    case False
    have nz: "\<forall>i \<in> set ?is. en_index en (E i) = i \<and> i \<noteq> 0" using ok low(1) by auto
    have hd: "?is \<noteq> [] \<Longrightarrow> hd ?is = low \<and> (True \<longrightarrow> low = low)"
      by (simp add: index_range_def hd_map)
    obtain cc nxt where "scan_impl (map (\<lambda>i. (raft_log_key bo r i, en_write en (E i))) ?is)
        (fetch_scan_step en low ?m) (True, low, ?s) =
      (Ok (), (cc, nxt, \<lparr>fs_buf = buf @ ?es, fs_total_size = sum_list (map esize ?es), fs_count = length ?es\<rparr>))"
      using fetch_scan_loop [OF nz hd index_range_step, of ?s ?m r] by auto
    then have scan: "scan rdb mem db (raft_log_key bo r low) (raft_log_key bo r high)
        (fetch_scan_step en low ?m) (True, low, ?s) =
      (Ok (), (cc, nxt, \<lparr>fs_buf = buf @ ?es, fs_total_size = sum_list (map esize ?es), fs_count = length ?es\<rparr>))"
      by (simp add: scan_def iterator_opt_def build_bounds_def log_range_iter [OF log])
    have pos: "e \<in> set (map E ?is) \<Longrightarrow> 0 < esize e" for e
      using nz entry_not_empty by auto
    have "?es = map E ?is \<or> ?m \<le> sum_list (map esize ?es)"
      using within_budget_total [of "map E ?is" esize ?m 0, OF pos] by simp
    moreover have "length (map E ?is) = unat (high - low)"
      using low(2) by (simp add: unat_sub)
    ultimately have "length ?es = unat (high - low) \<or> ?m \<le> sum_list (map esize ?es)" by metis
    with False nle scan show ?thesis by (simp add: fetch_entries_to_def Let_def)
  qed
qed

section \<open>Appending and deleting\<close>

lemma append_impl_ops:
  "append_impl bo en wb r es = wb @ map (\<lambda>e. WbPut (raft_log_key bo r (en_index en e)) (en_write en e)) es"
  unfolding append_impl_def by (induction es arbitrary: wb) (simp_all add: wb_put_def)

lemma append_view:
  "view (append_log rdb bo en db r es) =
     apply_ops (map (\<lambda>e. WbPut (raft_log_key bo r (en_index en e)) (en_write en e)) es) (view db)"
  by (simp add: append_log_def consume_def write_opt_def view_write append_impl_ops)

lemma apply_puts:
  assumes "distinct (map key es)" "e \<in> set es"
  shows "apply_ops (map (\<lambda>e. WbPut (key e) (v e)) es) m (key e) = Some (v e)"
  using assms
proof (induction es arbitrary: m)
  case (Cons a es)
  show ?case
  proof (cases "e = a")
    case True
    with Cons.prems(1) have "key e \<notin> op_key ` set (map (\<lambda>e. WbPut (key e) (v e)) es)" by auto
    with True show ?thesis by (simp add: apply_ops_other)
  qed (use Cons in auto)
qed simp

lemma append_then_entry:
  assumes "distinct (map (en_index en) es)" "e \<in> set es"
  shows "view (append_log rdb bo en db r es) (raft_log_key bo r (en_index en e)) = Some (en_write en e)"
proof -
  have "distinct (map (\<lambda>e. raft_log_key bo r (en_index en e)) es)"
    using assms(1) by (simp add: distinct_map inj_on_def)
  from apply_puts [OF this assms(2)] show ?thesis by (simp add: append_view)
qed

lemma within_budget_all:
  "used + sum_list (map sz es) < m \<Longrightarrow> within_budget sz m used es = es"
  by (induction es arbitrary: used) (auto simp: add.assoc)

lemma append_then_fetch:
  assumes idx: "map (en_index en) es = index_range low high" and low: "0 < low" "low < high"
    and alien: "\<forall>k. view db k \<noteq> None \<and> raft_log_key bo r low \<le> k \<and> k < raft_log_key bo r high \<longrightarrow>
        (\<exists>i. k = raft_log_key bo r i)"
    and sz: "sum_list (map esize es) < usize_max"
  shows "fetch_entries_to rdb bo mem en (append_log rdb bo en db r es) r low high None buf =
    Ok (length es, buf @ es)"
proof -
  let ?db = "append_log rdb bo en db r es"
  define E where "E i = the (map_of (map (\<lambda>e. (en_index en e, e)) es) i)" for i
  have d: "distinct (map (en_index en) es)"
    using index_range_sorted [of low high] strict_sorted_iff unfolding idx by blast
  have E: "E (en_index en e) = e" if "e \<in> set es" for e
  proof -
    have "map_of (map (\<lambda>e. (en_index en e, e)) es) (en_index en e) = Some e"
      using that d by (intro map_of_is_SomeI) (auto simp: comp_def)
    then show ?thesis by (simp add: E_def)
  qed
  have keys: "view ?db k = None \<or> (\<exists>i. k = raft_log_key bo r i)"
    if "raft_log_key bo r low \<le> k" "k < raft_log_key bo r high" for k
  proof (cases "k \<in> op_key ` set (map (\<lambda>e. WbPut (raft_log_key bo r (en_index en e)) (en_write en e)) es)")
    case False
    with alien that show ?thesis by (auto simp: append_view apply_ops_other)
  qed auto
  have vals: "view ?db (raft_log_key bo r i) = Some (en_write en (E i)) \<and> en_index en (E i) = i"
    if "low \<le> i" "i < high" for i
  proof -
    have "i \<in> set (map (en_index en) es)" unfolding idx using that by simp
    then obtain e where "e \<in> set es" "i = en_index en e" by auto
    with E append_then_entry [OF d] show ?thesis by simp
  qed
  have "log_range bo en (view ?db) r low high E"
    unfolding log_range_def
  proof (intro conjI allI impI)
    fix k assume "view ?db k \<noteq> None \<and> raft_log_key bo r low \<le> k \<and> k < raft_log_key bo r high"
    with keys [of k] show "\<exists>i. k = raft_log_key bo r i" by simp
  qed (use vals in simp_all)
  moreover have "map E (index_range low high) = es"
    unfolding idx [symmetric] using E by (simp add: comp_def map_idI)
  ultimately show ?thesis
    using fetch_entries [of ?db r low high E mem None buf] low within_budget_all [of 0 esize es usize_max] sz
    by (simp add: Let_def)
qed

text \<open>Deletions, written in portions of 256.\<close>

lemma gc_loop_view:
  "gc_loop rdb bo r is (db, wb) = (db', wb') \<Longrightarrow>
     apply_ops wb' (view db') =
       apply_ops (map (\<lambda>i. WbDelete (raft_log_key bo r i)) is) (apply_ops wb (view db))"
proof (induction "is" arbitrary: db wb)
  case (Cons i "is")
  let ?wb = "wb_delete wb (raft_log_key bo r i)"
  show ?case
  proof (cases "256 \<le> wb_count ?wb")
    case True
    with Cons.prems Cons.IH [of "write_opt rdb db ?wb" "wb_clear ?wb"] show ?thesis
      by (simp add: Let_def write_opt_def view_write wb_defs fun_upd_def)
  next
    case False
    with Cons.prems Cons.IH [of db ?wb] show ?thesis by (simp add: Let_def wb_defs fun_upd_def)
  qed
qed simp

lemma apply_deletes_view:
  "apply_ops (map (\<lambda>i. WbDelete (key i)) is) m = (\<lambda>k. if k \<in> key ` set is then None else m k)"
  by (induction "is" arbitrary: m) auto

lemma gc_run_view:
  assumes "gc_loop rdb bo r is (db, []) = (db', wb')"
  shows "view (if \<not> wb_is_empty wb' then write_opt rdb db' wb' else db') =
    (\<lambda>k. if k \<in> raft_log_key bo r ` set is then None else view db k)"
  using gc_loop_view [OF assms]
  by (cases "wb_is_empty wb'") (simp_all add: wb_is_empty_def write_opt_def view_write apply_deletes_view)

lemma log_gc_from:
  assumes "from_idx \<noteq> 0" "from_idx < to_idx"
  shows "\<exists>db'. log_gc rdb bo db r from_idx to_idx = (Ok (unat (to_idx - from_idx)), db') \<and>
    view db' = (\<lambda>k. if \<exists>i. k = raft_log_key bo r i \<and> from_idx \<le> i \<and> i < to_idx then None else view db k)"
proof -
  obtain db1 wb1 where run: "gc_loop rdb bo r (index_range from_idx to_idx) (db, []) = (db1, wb1)"
    by (cases "gc_loop rdb bo r (index_range from_idx to_idx) (db, [])")
  have nle: "\<not> to_idx \<le> from_idx" using assms(2) by simp
  have "k \<in> raft_log_key bo r ` set (index_range from_idx to_idx) \<longleftrightarrow>
      (\<exists>i. k = raft_log_key bo r i \<and> from_idx \<le> i \<and> i < to_idx)" for k by auto
  with gc_run_view [OF run] run nle assms(1) show ?thesis
    by (simp add: log_gc_def Let_def index_range_def [symmetric])
qed

lemma seek_first:
  assumes "view db k = Some v" "start \<le> k"
    and "\<And>k'. view db k' \<noteq> None \<Longrightarrow> start \<le> k' \<Longrightarrow> k \<le> k'"
  shows "seek rdb db start = Some (k, v)"
proof -
  have mem: "(k', v') \<in> set (rdb_iter rdb db None None start) \<longleftrightarrow> view db k' = Some v' \<and> start \<le> k'"
    for k' v' by (simp add: iter_set in_bounds_def)
  obtain a b it where it: "rdb_iter rdb db None None start = (a, b) # it"
    using mem [of k v] assms(1,2) by (cases "rdb_iter rdb db None None start") auto
  have "view db a = Some b" "start \<le> a" using mem [of a b] it by simp_all
  with assms(3) [of a] have "k \<le> a" by simp
  have "(k, v) \<in> set ((a, b) # it)" using mem [of k v] assms(1,2) it by simp
  moreover have "k \<notin> fst ` set it"
    using iter_sorted [of db None None start] it \<open>k \<le> a\<close> by fastforce
  ultimately have "(a, b) = (k, v)" by force
  then show ?thesis by (simp add: seek_def iterator_opt_def build_bounds_def it)
qed

lemma log_gc_zero:
  assumes "view db (raft_log_key bo r first) = Some v" "0 < to_idx"
    and "\<And>k. view db k \<noteq> None \<Longrightarrow> raft_log_key bo r 0 \<le> k \<Longrightarrow> raft_log_key bo r first \<le> k"
  shows "\<exists>db'. log_gc rdb bo db r 0 to_idx = (Ok (unat (to_idx - first)), db') \<and>
    view db' = (\<lambda>k. if \<exists>i. k = raft_log_key bo r i \<and> i < to_idx then None else view db k)"
proof -
  have seek: "seek rdb db (raft_log_key bo r 0) = Some (raft_log_key bo r first, v)"
    using assms(1,3) by (intro seek_first) (simp_all add: raft_log_key_le)
  have prefix: "starts_with (raft_log_key bo r first) (raft_log_prefix bo r)"
    by (simp add: starts_with_iff raft_log_key_def make_region_key_def raft_log_prefix_def make_region_prefix_def)
  obtain db1 wb1 where run: "gc_loop rdb bo r (index_range first to_idx) (db, []) = (db1, wb1)"
    by (cases "gc_loop rdb bo r (index_range first to_idx) (db, [])")
  have "(if k \<in> raft_log_key bo r ` set (index_range first to_idx) then None else view db k) =
      (if \<exists>i. k = raft_log_key bo r i \<and> i < to_idx then None else view db k)" for k
  proof (cases "\<exists>i. k = raft_log_key bo r i \<and> i < to_idx")
    case True
    then obtain i where i: "k = raft_log_key bo r i" "i < to_idx" by blast
    have "view db k = None" if "i < first"
    proof (rule ccontr)
      assume "view db k \<noteq> None"
      with assms(3) [of k] i have "first \<le> i" by (simp add: raft_log_key_le)
      with that show False by simp
    qed
    with i show ?thesis by (cases "first \<le> i") auto
  qed auto
  moreover have "to_idx \<noteq> 0" using assms(2) by auto
  ultimately show ?thesis using gc_run_view [OF run] run seek prefix
    by (simp add: log_gc_def Let_def index_range_def [symmetric])
qed

end

section \<open>A reference entry type\<close>

definition ref_entry :: "(u64 \<times> bytes) raft_entry" where
  "ref_entry = \<lparr>en_write = (\<lambda>(i, d). be_bytes i @ d),
     en_parse = (\<lambda>bs. if length bs < 8 then None else Some (of_nat (be_nat (take 8 bs)), drop 8 bs)),
     en_index = fst\<rparr>"

lemma be_bytes_not_empty: "be_bytes a \<noteq> []"
proof
  assume "be_bytes a = []"
  then have "length (be_bytes a) = 0" by simp
  then show False by simp
qed

interpretation ref_log: raft_log_spec ref_byteorder ref_rocksdb map_of ref_entry
proof unfold_locales
  fix e :: "u64 \<times> bytes"
  show "en_parse ref_entry (en_write ref_entry e) = Some e" by (cases e) (simp add: ref_entry_def)
  show "en_write ref_entry e \<noteq> []"
    by (cases e) (simp add: ref_entry_def be_bytes_not_empty)
qed

lemmas ref_log = ref_log.raft_log_spec_axioms

definition ex_entries :: "(u64 \<times> bytes) list" where
  "ex_entries = map (\<lambda>i. (i, [7])) (index_range 1 11)"

definition ex_log :: ref_db where
  "ex_log = [(raft_log_key ref_byteorder 1 5, be_bytes 5 @ [7])]"

lemma ex_entries_simps:
  "map (en_index ref_entry) ex_entries = index_range 1 11"
  "sum_list (map (\<lambda>e. length (en_write ref_entry e)) ex_entries) < usize_max"
  by (simp_all add: ex_entries_def ref_entry_def comp_def index_range_def usize_max_def map_replicate_const sum_list_replicate)

lemma ex_log_view: "map_of ex_log k = (if k = raft_log_key ref_byteorder 1 5 then Some (be_bytes 5 @ [7]) else None)"
  by (simp add: ex_log_def)

section \<open>Properties\<close>

text \<open>C20: Fetching a range of raft log entries that are all present returns, whichever of its two
  strategies it picks by the size of the range (single reads up to eight entries, a scan beyond),
  the entries in order from the first one until the size limit is reached, and at least one.\<close>

theorem fetch_strategies_agree:
  assumes "raft_log_spec bo rdb view en" and "log_range bo en (view db) r low high E"
    and "0 < low" "low < high"
  shows "fetch_entries_to rdb bo mem en db r low high max_size buf =
    (let es = within_budget (\<lambda>e. length (en_write en e))
                (case max_size of Some m \<Rightarrow> m | None \<Rightarrow> usize_max) 0 (map E (index_range low high))
     in Ok (length es, buf @ es))"
  using raft_log_spec.fetch_entries [OF assms] .

text \<open>Raft log entries with consecutive indices that are appended are fetched back unchanged and
  in order.\<close>

theorem append_fetch_roundtrip:
  assumes "raft_log_spec bo rdb view en" and "map (en_index en) es = index_range low high"
    and "0 < low" "low < high"
    and "\<forall>k. view db k \<noteq> None \<and> raft_log_key bo r low \<le> k \<and> k < raft_log_key bo r high \<longrightarrow>
        (\<exists>i. k = raft_log_key bo r i)"
    and "sum_list (map (\<lambda>e. length (en_write en e)) es) < usize_max"
  shows "fetch_entries_to rdb bo mem en (append_log rdb bo en db r es) r low high None buf =
    Ok (length es, buf @ es)"
  using raft_log_spec.append_then_fetch [OF assms] .

theorem append_fetch_roundtrip_witness:
  "fetch_entries_to ref_rocksdb ref_byteorder (\<lambda>_. 0) ref_entry
     (append_log ref_rocksdb ref_byteorder ref_entry [] 1 ex_entries) 1 1 11 None [] = Ok (10, ex_entries)"
proof -
  have "length ex_entries = 10" by (simp add: ex_entries_def index_range_def)
  moreover have "(0 :: u64) < 1" "(1 :: u64) < 11" by simp_all
  ultimately show ?thesis
    using append_fetch_roundtrip [OF ref_log ex_entries_simps(1) _ _ _ ex_entries_simps(2),
        where db = "[]" and r = 1 and buf = "[]" and mem = "\<lambda>_. 0"]
    by simp
qed

theorem fetch_strategies_agree_witness:
  "fetch_entries_to ref_rocksdb ref_byteorder (\<lambda>_. 0) ref_entry ex_log 1 5 6 (Some 3) [] = Ok (1, [(5, [7])])"
proof -
  have i: "i = 5" if "5 \<le> i" "i < 6" for i :: u64
  proof -
    have "unat i = 5" using that by (simp add: word_le_nat_alt word_less_nat_alt)
    then show ?thesis by (simp add: word_unat_eq_iff)
  qed
  have "log_range ref_byteorder ref_entry (map_of ex_log) 1 5 6 (\<lambda>i. (i, [7]))"
    unfolding log_range_def
  proof (intro conjI allI impI)
    fix i :: u64 assume "5 \<le> i \<and> i < 6"
    with i have "i = 5" by blast
    then show "map_of ex_log (raft_log_key ref_byteorder 1 i) = Some (en_write ref_entry (i, [7]))"
      by (simp add: ex_log_view ref_entry_def)
    show "en_index ref_entry (i, [7]) = i" by (simp add: ref_entry_def)
  next
    fix k assume "map_of ex_log k \<noteq> None \<and> raft_log_key ref_byteorder 1 5 \<le> k \<and> k < raft_log_key ref_byteorder 1 6"
    then show "\<exists>i. k = raft_log_key ref_byteorder 1 i" by (auto simp: ex_log_view split: if_splits)
  qed
  moreover have "index_range 5 6 = [5]" by (simp add: index_range_def)
  moreover have "(0 :: u64) < 5" "(5 :: u64) < 6" by simp_all
  ultimately show ?thesis using fetch_strategies_agree [OF ref_log, of ex_log 1 5 6 "\<lambda>i. (i, [7])" "\<lambda>_. 0" "Some 3" "[]"]
    by simp
qed

text \<open>C21: Removing the raft log entries before an index from the first index \<open>first\<close> on removes
  exactly these entries and leaves every other key of the store as it was. The count it returns is
  the difference of the two indices as 64 bit words: when the log starts after the requested end, it
  is not zero but a wrapped number.\<close>

theorem raft_log_gc_exact:
  assumes "raft_log_spec bo rdb view en"
    and "view db (raft_log_key bo r first) = Some v" "0 < to_idx"
    and "\<And>k. view db k \<noteq> None \<Longrightarrow> raft_log_key bo r 0 \<le> k \<Longrightarrow> raft_log_key bo r first \<le> k"
  shows "\<exists>db'. log_gc rdb bo db r 0 to_idx = (Ok (unat (to_idx - first)), db') \<and>
    view db' = (\<lambda>k. if \<exists>i. k = raft_log_key bo r i \<and> i < to_idx then None else view db k)"
  using raft_log_spec.log_gc_zero [OF assms] .

theorem raft_log_gc_exact_witness:
  "\<exists>db'. (log_gc ref_rocksdb ref_byteorder ex_log 1 0 3 :: (unit, _) res \<times> _) = (Ok (2 ^ 64 - 2), db') \<and>
    map_of db' (raft_log_key ref_byteorder 1 5) \<noteq> None"
proof -
  have wrap: "unat (3 - 5 :: u64) = 2 ^ 64 - 2" by simp
  have less: "(0 :: u64) < 3" "\<not> (5 :: u64) < 3" by simp_all
  have least: "raft_log_key ref_byteorder 1 5 \<le> k" if "map_of ex_log k \<noteq> None" for k
    using that by (simp add: ex_log_view split: if_splits)
  have start: "map_of ex_log (raft_log_key ref_byteorder 1 5) = Some (be_bytes 5 @ [7])" by (simp add: ex_log_view)
  obtain db' where db': "(log_gc ref_rocksdb ref_byteorder ex_log 1 0 3 :: (unit, _) res \<times> _) =
      (Ok (unat (3 - 5 :: u64)), db')"
    "map_of db' = (\<lambda>k. if \<exists>i. k = raft_log_key ref_byteorder 1 i \<and> i < 3 then None else map_of ex_log k)"
    using raft_log_gc_exact [OF ref_log start less(1) least] by blast
  have "\<not> (\<exists>i. raft_log_key ref_byteorder 1 5 = raft_log_key ref_byteorder 1 i \<and> i < 3)"
    using less(2) by (metis ref_log.raft_log_key_inject)
  then have "map_of db' (raft_log_key ref_byteorder 1 5) \<noteq> None" unfolding db'(2) start by simp
  with db'(1) show ?thesis unfolding wrap by blast
qed

end
