(* ===== verification/Broker_Properties.thy ===== *)
theory Broker_Properties
  imports Message_Broker
begin

text \<open>
  What the message broker promises: it joins a request with an event of the same position, or with
  a time-out, and every sender it was given is answered once or still waits.
\<close>

section \<open>A predicate on everything the broker holds\<close>

text \<open>\<open>Q\<close> holds of the events the broker holds or has sent, \<open>R\<close> of every sender and its position.\<close>

definition broker_all :: "(inflight_event \<Rightarrow> bool) \<Rightarrow> (sender \<Rightarrow> position \<Rightarrow> bool) \<Rightarrow> message_broker \<Rightarrow> bool" where
  "broker_all Q R mb \<longleftrightarrow>
     (\<forall>x \<in> set (mb_event_rx mb). Q x) \<and>
     (\<forall>(p, x) \<in> set (mb_inflight_events mb). Q x \<and> ie_position x = p) \<and>
     (\<forall>r \<in> set (mb_request_rx mb). R (ir_resp_to r) (ir_position r)) \<and>
     (\<forall>(p, t, n) \<in> set (mb_inflight_requests mb). R n p) \<and>
     (\<forall>(n, x) \<in> set (mb_replies mb). R n (ie_position x) \<and> Q x)"

definition timeout_event :: "position \<Rightarrow> inflight_event" where
  "timeout_event p = \<lparr>ie_position = p, ie_event = Err (CommonError Timeout)\<rparr>"

lemma set_bt_insert: "set (bt_insert k v m) \<subseteq> insert (k, v) (set m)"
  by (induction k v m rule: bt_insert.induct) auto

lemma set_bt_remove: "set (bt_remove k m) \<subseteq> set m"
  by (auto simp: bt_remove_def)

lemma batch_recv_append: "batch_recv n rx = (buf, rest) \<Longrightarrow> rx = buf @ rest"
  by (induction n rx arbitrary: buf rest rule: batch_recv.induct) (auto split: prod.splits)

lemma handle_inflight_request_all:
  assumes "broker_all Q R mb" "R (ir_resp_to r) (ir_position r)"
  shows "broker_all Q R (handle_inflight_request mb r)"
proof (cases "map_of (mb_inflight_events mb) (ir_position r)")
  case None
  with assms set_bt_insert [of "ir_position r" "(ir_send_time r, ir_resp_to r)" "mb_inflight_requests mb"]
  show ?thesis
    by (auto simp: handle_inflight_request_def register_inflight_request_def broker_all_def)
next
  case (Some x)
  from map_of_SomeD [OF this] assms(1) have "Q x" "ie_position x = ir_position r"
    by (auto simp: broker_all_def)
  with Some assms set_bt_remove [of "ir_position r" "mb_inflight_events mb"] show ?thesis
    by (auto simp: handle_inflight_request_def send_reply_def broker_all_def)
qed

lemma handle_inflight_event_all:
  assumes "broker_all Q R mb" "Q x"
  shows "broker_all Q R (handle_inflight_event mb x)"
proof (cases "map_of (mb_inflight_requests mb) (ie_position x)")
  case None
  with assms set_bt_insert [of "ie_position x" x "mb_inflight_events mb"] show ?thesis
    by (auto simp: handle_inflight_event_def register_inflight_event_def broker_all_def)
next
  case (Some tn)
  obtain t n where tn: "tn = (t, n)" by (cases tn)
  from map_of_SomeD [OF Some] assms(1) tn have "R n (ie_position x)" by (auto simp: broker_all_def)
  with Some tn assms set_bt_remove [of "ie_position x" "mb_inflight_requests mb"] show ?thesis
    by (auto simp: handle_inflight_event_def send_reply_def broker_all_def)
qed

lemma fold_requests_all:
  "broker_all Q R mb \<Longrightarrow> \<forall>r \<in> set rs. R (ir_resp_to r) (ir_position r) \<Longrightarrow>
   broker_all Q R (fold (\<lambda>r mb. handle_inflight_request mb r) rs mb)"
  by (induction rs arbitrary: mb) (simp_all add: handle_inflight_request_all)

lemma fold_events_all:
  "broker_all Q R mb \<Longrightarrow> \<forall>x \<in> set xs. Q x \<Longrightarrow>
   broker_all Q R (fold (\<lambda>x mb. handle_inflight_event mb x) xs mb)"
  by (induction xs arbitrary: mb) (simp_all add: handle_inflight_event_all)

lemma gc_inflight_events_eq:
  "gc_inflight_events mb =
     mb\<lparr>mb_inflight_events := drop (length (mb_inflight_events mb) - event_gc_limit) (mb_inflight_events mb)\<rparr>"
proof (induction mb rule: gc_inflight_events.induct)
  case (1 mb)
  show ?case
  proof (cases "event_gc_limit < length (mb_inflight_events mb)")
    case True
    then have "drop (length (mb_inflight_events mb) - 1 - event_gc_limit) (tl (mb_inflight_events mb)) =
        drop (length (mb_inflight_events mb) - event_gc_limit) (mb_inflight_events mb)"
      by (simp add: Suc_diff_Suc flip: drop_Suc)
    with True 1 show ?thesis by (subst gc_inflight_events.simps) simp
  next
    case False
    then show ?thesis by (subst gc_inflight_events.simps) simp
  qed
qed

lemma gc_inflight_events_all:
  "broker_all Q R mb \<Longrightarrow> broker_all Q R (gc_inflight_events mb)"
  unfolding gc_inflight_events_eq by (auto simp: broker_all_def dest!: in_set_dropD)

lemma gc_inflight_requests_all:
  assumes "broker_all Q R mb" "\<And>p. Q (timeout_event p)" "gc_inflight_requests now mb = Ok mb'"
  shows "broker_all Q R mb'"
  using assms(1,3)
proof (induction now mb arbitrary: mb' rule: gc_inflight_requests.induct)
  case (1 now mb)
  show ?case
  proof (cases "mb_inflight_requests mb")
    case Nil
    with 1(2,3) show ?thesis by (simp add: gc_inflight_requests.simps)
  next
    case (Cons e rest)
    obtain p t n where e: "e = (p, t, n)" by (cases e)
    let ?mb1 = "send_reply (mb\<lparr>mb_inflight_requests := rest\<rparr>) n
      \<lparr>ie_position = p, ie_event = Err (CommonError Timeout)\<rparr>"
    have "broker_all Q R ?mb1"
      using 1(2) assms(2) [of p] Cons e by (auto simp: broker_all_def send_reply_def timeout_event_def)
    with 1 Cons e show ?thesis
      by (simp add: gc_inflight_requests.simps [of now mb] split: if_splits)
  qed
qed

lemma broker_round_all:
  assumes all: "broker_all Q R mb" and Q: "\<And>p. Q (timeout_event p)" and run: "broker_round now mb = Ok mb'"
  shows "broker_all Q R mb'"
proof -
  obtain reqs rest where r: "batch_recv 1000 (mb_request_rx mb) = (reqs, rest)" by force
  let ?mb1 = "fold (\<lambda>r mb. handle_inflight_request mb r) reqs (mb\<lparr>mb_request_rx := rest\<rparr>)"
  have mb1: "broker_all Q R ?mb1"
    using all batch_recv_append [OF r] by (intro fold_requests_all) (auto simp: broker_all_def)
  obtain evs erest where e: "batch_recv 1000 (mb_event_rx ?mb1) = (evs, erest)" by force
  let ?mb2 = "fold (\<lambda>x mb. handle_inflight_event mb x) evs (?mb1\<lparr>mb_event_rx := erest\<rparr>)"
  have "broker_all Q R ?mb2"
    using mb1 batch_recv_append [OF e] by (intro fold_events_all) (auto simp: broker_all_def)
  from gc_inflight_requests_all [OF gc_inflight_events_all [OF this] Q] run r e show ?thesis
    by (simp add: broker_round_def Let_def)
qed

section \<open>Every sender is answered once or still waits\<close>

definition senders :: "message_broker \<Rightarrow> sender multiset" where
  "senders mb = image_mset ir_resp_to (mset (mb_request_rx mb)) +
     image_mset (\<lambda>(p, t, n). n) (mset (mb_inflight_requests mb)) + image_mset fst (mset (mb_replies mb))"

definition request_positions :: "message_broker \<Rightarrow> position set" where
  "request_positions mb = fst ` set (mb_inflight_requests mb)"

definition broker_wf :: "message_broker \<Rightarrow> bool" where
  "broker_wf mb \<longleftrightarrow> bt_inv (mb_inflight_requests mb) \<and> distinct (map ir_position (mb_request_rx mb)) \<and>
     ir_position ` set (mb_request_rx mb) \<inter> request_positions mb = {}"

lemma mset_bt_insert: "k \<notin> fst ` set m \<Longrightarrow> mset (bt_insert k v m) = add_mset (k, v) (mset m)"
  by (induction k v m rule: bt_insert.induct) auto

lemma mset_bt_remove:
  assumes "bt_inv m" "map_of m k = Some v"
  shows "mset m = add_mset (k, v) (mset (bt_remove k m))"
proof -
  have "distinct (map fst m)" using assms(1) by (simp add: bt_inv_def strict_sorted_iff)
  with assms(2) show ?thesis
  proof (induction m)
    case (Cons e m)
    have "bt_remove k m = m" if "k \<notin> fst ` set m"
      using that by (auto simp: bt_remove_def intro!: filter_True)
    with Cons show ?case by (cases e) (auto split: if_splits)
  qed simp
qed

lemma disjoint_mono: "A \<subseteq> A' \<Longrightarrow> B \<subseteq> B' \<Longrightarrow> A' \<inter> B' = {} \<Longrightarrow> A \<inter> B = {}"
  by blast

lemma handle_request_senders:
  assumes "bt_inv (mb_inflight_requests mb)" "ir_position r \<notin> request_positions mb"
  shows "senders (handle_inflight_request mb r) = add_mset (ir_resp_to r) (senders mb)"
    "bt_inv (mb_inflight_requests (handle_inflight_request mb r))"
    "request_positions (handle_inflight_request mb r) \<subseteq> insert (ir_position r) (request_positions mb)"
    "mb_request_rx (handle_inflight_request mb r) = mb_request_rx mb"
  using assms mset_bt_insert [of "ir_position r" "mb_inflight_requests mb"]
  by (auto simp: handle_inflight_request_def register_inflight_request_def send_reply_def senders_def
      request_positions_def set_fst_bt_insert bt_inv_insert split: option.split)

lemma fold_request_senders:
  assumes "bt_inv (mb_inflight_requests mb)" "distinct (map ir_position rs)"
    "ir_position ` set rs \<inter> request_positions mb = {}"
  shows "senders (fold (\<lambda>r mb. handle_inflight_request mb r) rs mb) = mset (map ir_resp_to rs) + senders mb \<and>
    bt_inv (mb_inflight_requests (fold (\<lambda>r mb. handle_inflight_request mb r) rs mb)) \<and>
    request_positions (fold (\<lambda>r mb. handle_inflight_request mb r) rs mb) \<subseteq>
      ir_position ` set rs \<union> request_positions mb \<and>
    mb_request_rx (fold (\<lambda>r mb. handle_inflight_request mb r) rs mb) = mb_request_rx mb"
  using assms
proof (induction rs arbitrary: mb)
  case (Cons r rs)
  have "ir_position r \<notin> request_positions mb" using Cons.prems(3) by auto
  note step = handle_request_senders [OF Cons.prems(1) this]
  have "ir_position ` set rs \<inter> insert (ir_position r) (request_positions mb) = {}"
    using Cons.prems(2,3) by simp
  then have "ir_position ` set rs \<inter> request_positions (handle_inflight_request mb r) = {}"
    by (rule disjoint_mono [OF order.refl step(3)])
  note IH = Cons.IH [OF step(2) _ this]
  have d: "distinct (map ir_position rs)" using Cons.prems(2) by simp
  let ?f = "fold (\<lambda>r mb. handle_inflight_request mb r) rs (handle_inflight_request mb r)"
  from IH [OF d] have ih: "senders ?f = mset (map ir_resp_to rs) + senders (handle_inflight_request mb r)"
    "bt_inv (mb_inflight_requests ?f)"
    "request_positions ?f \<subseteq> ir_position ` set rs \<union> request_positions (handle_inflight_request mb r)"
    "mb_request_rx ?f = mb_request_rx (handle_inflight_request mb r)" by blast+
  have "request_positions ?f \<subseteq> ir_position ` set (r # rs) \<union> request_positions mb"
    using subset_trans [OF ih(3) Un_mono [OF order.refl step(3)]] by simp
  with ih(1,2,4) step(1,4) show ?case by simp
qed simp

lemma handle_event_senders:
  assumes "bt_inv (mb_inflight_requests mb)"
  shows "senders (handle_inflight_event mb x) = senders mb"
    "bt_inv (mb_inflight_requests (handle_inflight_event mb x))"
    "request_positions (handle_inflight_event mb x) \<subseteq> request_positions mb"
    "mb_request_rx (handle_inflight_event mb x) = mb_request_rx mb"
  using assms mset_bt_remove [OF assms, of "ie_position x"]
    set_bt_remove [of "ie_position x" "mb_inflight_requests mb"]
  by (auto simp: handle_inflight_event_def register_inflight_event_def send_reply_def senders_def
      request_positions_def bt_inv_remove split: option.split)

lemma fold_event_senders:
  assumes "bt_inv (mb_inflight_requests mb)"
  shows "senders (fold (\<lambda>x mb. handle_inflight_event mb x) xs mb) = senders mb \<and>
    bt_inv (mb_inflight_requests (fold (\<lambda>x mb. handle_inflight_event mb x) xs mb)) \<and>
    request_positions (fold (\<lambda>x mb. handle_inflight_event mb x) xs mb) \<subseteq> request_positions mb \<and>
    mb_request_rx (fold (\<lambda>x mb. handle_inflight_event mb x) xs mb) = mb_request_rx mb"
  using assms
proof (induction xs arbitrary: mb)
  case (Cons x xs)
  note step = handle_event_senders [OF Cons.prems, of x]
  from Cons.IH [OF step(2)] step show ?case by auto
qed simp

text \<open>The second clean-up: it panics only on a send time in the future, answers a prefix of the
  requests and stops at the first one that is younger than the time-out.\<close>

definition expired :: "nat \<Rightarrow> position \<times> nat \<times> sender \<Rightarrow> bool" where
  "expired now = (\<lambda>(p, t, n). max_timeout_ms \<le> (now - t) div 1000000)"

lemma gc_inflight_requests_eq:
  assumes "\<forall>e \<in> set (mb_inflight_requests mb). fst (snd e) \<le> now"
  shows "gc_inflight_requests now mb = (Ok (mb\<lparr>
      mb_inflight_requests := dropWhile (expired now) (mb_inflight_requests mb),
      mb_replies := mb_replies mb @
        map (\<lambda>(p, t, n). (n, timeout_event p)) (takeWhile (expired now) (mb_inflight_requests mb))\<rparr>)
      :: ('e, message_broker) res)"
  using assms
proof (induction "mb_inflight_requests mb" arbitrary: mb)
  case Nil
  from Nil(1) [symmetric] show ?case by (simp add: gc_inflight_requests.simps [of now mb])
next
  case (Cons e rest)
  obtain p t n where e: "e = (p, t, n)" by (cases e)
  have m: "mb_inflight_requests mb = (p, t, n) # rest" using Cons.hyps(2) e by simp
  have t: "\<not> now < t" using Cons.prems m by auto
  show ?case
  proof (cases "expired now (p, t, n)")
    case False
    then have "gc_inflight_requests now mb = (Ok mb :: ('e, message_broker) res)"
      using t by (simp add: gc_inflight_requests.simps [of now mb] m expired_def)
    moreover have "mb\<lparr>mb_inflight_requests := mb_inflight_requests mb, mb_replies := mb_replies mb\<rparr> = mb" by simp
    ultimately show ?thesis using False by (simp add: m)
  next
    case True
    define mb1 where "mb1 = send_reply (mb\<lparr>mb_inflight_requests := rest\<rparr>) n (timeout_event p)"
    have mb1: "mb_inflight_requests mb1 = rest" "mb_replies mb1 = mb_replies mb @ [(n, timeout_event p)]"
      "mb1\<lparr>mb_inflight_requests := x, mb_replies := y\<rparr> = mb\<lparr>mb_inflight_requests := x, mb_replies := y\<rparr>" for x y
      by (simp_all add: mb1_def send_reply_def)
    have "gc_inflight_requests now mb = (gc_inflight_requests now mb1 :: ('e, message_broker) res)"
      using True t by (simp add: gc_inflight_requests.simps [of now mb] m expired_def mb1_def timeout_event_def)
    moreover have "\<forall>e \<in> set (mb_inflight_requests mb1). fst (snd e) \<le> now" using Cons.prems m mb1(1) by simp
    note Cons.hyps(1) [OF mb1(1) [symmetric] this]
    ultimately show ?thesis using True by (simp add: m mb1)
  qed
qed

lemma fold_requests_inflight:
  "set (mb_inflight_requests (fold (\<lambda>r mb. handle_inflight_request mb r) rs mb)) \<subseteq>
     (\<lambda>r. (ir_position r, ir_send_time r, ir_resp_to r)) ` set rs \<union> set (mb_inflight_requests mb)"
proof (induction rs arbitrary: mb)
  case (Cons r rs)
  have "set (mb_inflight_requests (handle_inflight_request mb r)) \<subseteq>
      insert (ir_position r, ir_send_time r, ir_resp_to r) (set (mb_inflight_requests mb))"
    using set_bt_insert [of "ir_position r" "(ir_send_time r, ir_resp_to r)" "mb_inflight_requests mb"]
    by (cases "map_of (mb_inflight_events mb) (ir_position r)")
      (simp_all add: handle_inflight_request_def register_inflight_request_def send_reply_def subset_insertI)
  from subset_trans [OF Cons.IH Un_mono [OF order.refl this]] show ?case by simp
qed simp

lemma fold_events_inflight:
  "set (mb_inflight_requests (fold (\<lambda>x mb. handle_inflight_event mb x) xs mb)) \<subseteq> set (mb_inflight_requests mb)"
proof (induction xs arbitrary: mb)
  case (Cons x xs)
  have "set (mb_inflight_requests (handle_inflight_event mb x)) \<subseteq> set (mb_inflight_requests mb)"
    using set_bt_remove [of "ie_position x" "mb_inflight_requests mb"]
    by (auto simp: handle_inflight_event_def register_inflight_event_def send_reply_def split: option.split)
  from subset_trans [OF Cons.IH this] show ?case by simp
qed simp

lemma gc_events_frame:
  "mb_inflight_requests (gc_inflight_events mb) = mb_inflight_requests mb"
  "mb_request_rx (gc_inflight_events mb) = mb_request_rx mb" "senders (gc_inflight_events mb) = senders mb"
  "request_positions (gc_inflight_events mb) = request_positions mb"
  by (simp_all add: gc_inflight_events_eq senders_def request_positions_def)

lemma ball_subset: "A \<subseteq> B \<Longrightarrow> \<forall>x \<in> B. P x \<Longrightarrow> \<forall>x \<in> A. P x"
  by blast

lemma gc_requests_senders:
  assumes wf: "broker_wf mb" and times: "\<forall>e \<in> set (mb_inflight_requests mb). fst (snd e) \<le> now"
  shows "\<exists>mb'. gc_inflight_requests now mb = (Ok mb' :: ('e, message_broker) res) \<and> broker_wf mb' \<and>
    senders mb' = senders mb \<and> mb_inflight_events mb' = mb_inflight_events mb \<and>
    set (mb_inflight_requests mb') \<subseteq> set (mb_inflight_requests mb) \<and> mb_request_rx mb' = mb_request_rx mb \<and>
    (case mb_inflight_requests mb' of [] \<Rightarrow> True | e # _ \<Rightarrow> \<not> expired now e)"
proof -
  let ?l = "mb_inflight_requests mb"
  let ?mb = "mb\<lparr>mb_inflight_requests := dropWhile (expired now) ?l, mb_replies := mb_replies mb @
      map (\<lambda>(p, t, n). (n, timeout_event p)) (takeWhile (expired now) ?l)\<rparr>"
  have "mset ?l = mset (takeWhile (expired now) ?l) + mset (dropWhile (expired now) ?l)"
    using mset_append [of "takeWhile (expired now) ?l" "dropWhile (expired now) ?l"] by simp
  then have "senders ?mb = senders mb"
    by (simp add: senders_def image_mset.compositionality comp_def case_prod_beta')
  moreover have "bt_inv (dropWhile (expired now) ?l)"
  proof -
    have "sorted_wrt (<) (map fst (takeWhile (expired now) ?l @ dropWhile (expired now) ?l))"
      using wf by (simp add: broker_wf_def bt_inv_def)
    then show ?thesis unfolding bt_inv_def map_append sorted_wrt_append by blast
  qed
  moreover have "request_positions ?mb \<subseteq> request_positions mb"
    by (auto simp: request_positions_def dest: set_dropWhileD)
  then have "ir_position ` set (mb_request_rx mb) \<inter> request_positions ?mb = {}"
    by (rule disjoint_mono [OF order.refl]) (use wf in \<open>simp add: broker_wf_def\<close>)
  ultimately have "broker_wf ?mb" "senders ?mb = senders mb"
    using wf by (simp_all add: broker_wf_def)
  moreover have "case dropWhile (expired now) ?l of [] \<Rightarrow> True | e # _ \<Rightarrow> \<not> expired now e"
    by (simp split: list.split) (metis dropWhile_eq_Cons_conv)
  moreover have "set (dropWhile (expired now) ?l) \<subseteq> set ?l" by (auto dest: set_dropWhileD)
  ultimately show ?thesis using gc_inflight_requests_eq [OF times] by (intro exI [of _ ?mb]) simp
qed

definition times_ok :: "nat \<Rightarrow> message_broker \<Rightarrow> bool" where
  "times_ok now mb \<longleftrightarrow> (\<forall>r \<in> set (mb_request_rx mb). ir_send_time r \<le> now) \<and>
     (\<forall>e \<in> set (mb_inflight_requests mb). fst (snd e) \<le> now)"

lemma broker_round_once:
  assumes wf: "broker_wf mb" and times_ok: "times_ok now mb"
  shows "\<exists>mb'. broker_round now mb = (Ok mb' :: ('e, message_broker) res) \<and> broker_wf mb' \<and> times_ok now mb' \<and>
    senders mb' = senders mb \<and> length (mb_inflight_events mb') \<le> event_gc_limit \<and>
    (case mb_inflight_requests mb' of [] \<Rightarrow> True | e # _ \<Rightarrow> \<not> expired now e)"
proof -
  note times = times_ok [unfolded times_ok_def, THEN conjunct1] times_ok [unfolded times_ok_def, THEN conjunct2]
  obtain reqs rest where r: "batch_recv 1000 (mb_request_rx mb) = (reqs, rest)" by force
  note rx = batch_recv_append [OF r]
  let ?mb0 = "mb\<lparr>mb_request_rx := rest\<rparr>"
  define mb1 where "mb1 = fold (\<lambda>r mb. handle_inflight_request mb r) reqs ?mb0"
  obtain evs erest where e: "batch_recv 1000 (mb_event_rx mb1) = (evs, erest)" by force
  define mb2 where "mb2 = fold (\<lambda>x mb. handle_inflight_event mb x) evs (mb1\<lparr>mb_event_rx := erest\<rparr>)"
  have w: "bt_inv (mb_inflight_requests ?mb0)" "distinct (map ir_position reqs)"
    "ir_position ` set reqs \<inter> request_positions ?mb0 = {}"
    "distinct (map ir_position rest)" "ir_position ` set reqs \<inter> ir_position ` set rest = {}"
    "ir_position ` set rest \<inter> request_positions mb = {}"
    using wf by (simp_all add: broker_wf_def rx request_positions_def image_Un Int_Un_distrib2)
  note one = fold_request_senders [OF w(1-3), folded mb1_def]
  have two: "senders mb2 = senders (mb1\<lparr>mb_event_rx := erest\<rparr>)" "bt_inv (mb_inflight_requests mb2)"
    "request_positions mb2 \<subseteq> request_positions (mb1\<lparr>mb_event_rx := erest\<rparr>)" "mb_request_rx mb2 = mb_request_rx mb1"
    using fold_event_senders [of "mb1\<lparr>mb_event_rx := erest\<rparr>" evs, folded mb2_def] one by simp_all
  have pos: "request_positions mb2 \<subseteq> ir_position ` set reqs \<union> request_positions mb"
  proof -
    have "request_positions mb2 \<subseteq> request_positions mb1" using two(3) by (simp add: request_positions_def)
    moreover have "request_positions mb1 \<subseteq> ir_position ` set reqs \<union> request_positions mb"
      using one by (simp add: request_positions_def)
    ultimately show ?thesis by (rule subset_trans)
  qed
  have "ir_position ` set rest \<inter> request_positions mb2 = {}"
    by (rule disjoint_mono [OF order.refl pos])
      (use w(5,6) in \<open>simp add: Int_Un_distrib Int_commute [of "ir_position ` set rest"]\<close>)
  then have wf2: "broker_wf (gc_inflight_events mb2)"
    using two(2,4) one w(4) by (simp add: broker_wf_def gc_events_frame)
  have "set (mb_inflight_requests mb2) \<subseteq>
      (\<lambda>r. (ir_position r, ir_send_time r, ir_resp_to r)) ` set reqs \<union> set (mb_inflight_requests mb)"
    using fold_events_inflight [of evs "mb1\<lparr>mb_event_rx := erest\<rparr>", folded mb2_def]
      fold_requests_inflight [of reqs ?mb0, folded mb1_def] by simp
  moreover have "\<forall>e \<in> (\<lambda>r. (ir_position r, ir_send_time r, ir_resp_to r)) ` set reqs \<union> set (mb_inflight_requests mb).
      fst (snd e) \<le> now"
    using times rx by auto
  ultimately have "\<forall>e \<in> set (mb_inflight_requests (gc_inflight_events mb2)). fst (snd e) \<le> now"
    unfolding gc_events_frame by (rule ball_subset)
  note t2 = this
  from gc_requests_senders [OF wf2 this] obtain mb' where mb':
    "gc_inflight_requests now (gc_inflight_events mb2) = (Ok mb' :: ('e, message_broker) res)" "broker_wf mb'"
    "senders mb' = senders (gc_inflight_events mb2)"
    "mb_inflight_events mb' = mb_inflight_events (gc_inflight_events mb2)"
    "case mb_inflight_requests mb' of [] \<Rightarrow> True | e # _ \<Rightarrow> \<not> expired now e"
    and sub: "set (mb_inflight_requests mb') \<subseteq> set (mb_inflight_requests (gc_inflight_events mb2))"
      "mb_request_rx mb' = mb_request_rx (gc_inflight_events mb2)" by blast
  have "times_ok now mb'"
    using ball_subset [OF sub(1) t2] times(1) sub(2) two(4) one rx by (simp add: times_ok_def gc_events_frame)
  have "senders (gc_inflight_events mb2) = senders mb1"
    using two(1) unfolding gc_events_frame by (simp add: senders_def)
  also have "\<dots> = mset (map ir_resp_to reqs) + senders ?mb0" using one by blast
  also have "\<dots> = senders mb" by (simp add: senders_def rx)
  finally have "senders (gc_inflight_events mb2) = senders mb" .
  moreover have "broker_round now mb = (gc_inflight_requests now (gc_inflight_events mb2) :: ('e, message_broker) res)"
    by (simp add: broker_round_def r e mb1_def [symmetric] mb2_def [symmetric] Let_def)
  moreover have "length (mb_inflight_events mb') \<le> event_gc_limit" using mb'(4) by (simp add: gc_inflight_events_eq)
  ultimately show ?thesis using mb'(1-3,5) \<open>times_ok now mb'\<close> by (intro exI [of _ mb']) simp
qed

definition ex_request :: "sender \<Rightarrow> position \<Rightarrow> inflight_request" where
  "ex_request n p = \<lparr>ir_position = p, ir_resp_to = n, ir_send_time = 0\<rparr>"

definition ex_broker :: message_broker where
  "ex_broker = broker_new [ex_request 1 (Position 6 0), ex_request 2 (Position 6 1)]
     [\<lparr>ie_position = Position 6 1, ie_event = Err (CommonError (ConflictDedupId ''x''))\<rparr>]"

definition waiting :: "message_broker \<Rightarrow> (sender \<times> position) set" where
  "waiting mb = (\<lambda>r. (ir_resp_to r, ir_position r)) ` set (mb_request_rx mb) \<union>
     (\<lambda>(p, t, n). (n, p)) ` set (mb_inflight_requests mb)"

definition known_events :: "message_broker \<Rightarrow> inflight_event set" where
  "known_events mb = set (mb_event_rx mb) \<union> snd ` set (mb_inflight_events mb)"

section \<open>Properties\<close>

text \<open>C36: A round of the broker never panics as long as time does not run backwards, and it loses
  nobody and answers nobody twice: the senders that wait or have been answered are the same before
  and after, when no two requests wait at the same position. After the round the oldest position
  that still waits is not timed out, and at most ten thousand events are kept.\<close>

theorem broker_answers_once:
  assumes "broker_wf mb" "times_ok now mb"
  shows "\<exists>mb'. broker_round now mb = (Ok mb' :: ('e, message_broker) res) \<and> broker_wf mb' \<and> times_ok now mb' \<and>
    senders mb' = senders mb \<and> length (mb_inflight_events mb') \<le> event_gc_limit \<and>
    (case mb_inflight_requests mb' of [] \<Rightarrow> True | e # _ \<Rightarrow> \<not> expired now e)"
  using broker_round_once [OF assms] .

theorem broker_answers_once_witness:
  "\<exists>mb'. broker_round 7 ex_broker = (Ok mb' :: (unit, message_broker) res) \<and> senders mb' = {#1, 2#}"
proof -
  have "broker_wf ex_broker" by (simp add: broker_wf_def ex_broker_def broker_new_def ex_request_def bt_inv_def request_positions_def)
  moreover have "senders ex_broker = {#1, 2#}" by (simp add: senders_def ex_broker_def broker_new_def ex_request_def)
  ultimately show ?thesis
    using broker_answers_once [of ex_broker 7] by (auto simp: ex_broker_def broker_new_def ex_request_def times_ok_def)
qed

text \<open>C37: A reply of a round goes to a sender that was waiting, at the position it was waiting for,
  and carries an event the broker had received for exactly this position, or the time-out error.\<close>

theorem broker_joins_by_position:
  assumes run: "broker_round now mb = Ok mb'" and fresh: "mb_replies mb = []"
    and keys: "\<forall>(p, x) \<in> set (mb_inflight_events mb). ie_position x = p"
    and reply: "(n, x) \<in> set (mb_replies mb')"
  shows "(n, ie_position x) \<in> waiting mb \<and> (x \<in> known_events mb \<or> x = timeout_event (ie_position x))"
proof -
  let ?Q = "\<lambda>x. x \<in> known_events mb \<or> x = timeout_event (ie_position x)"
  let ?R = "\<lambda>n p. (n, p) \<in> waiting mb"
  have "broker_all ?Q ?R mb"
    unfolding broker_all_def
  proof (intro conjI)
    show "\<forall>(p, x) \<in> set (mb_inflight_events mb). ?Q x \<and> ie_position x = p"
      using keys by (auto simp: known_events_def intro: rev_image_eqI)
    show "\<forall>(p, t, n) \<in> set (mb_inflight_requests mb). ?R n p" by (force simp: waiting_def)
  qed (simp_all add: fresh known_events_def waiting_def)
  from broker_round_all [OF this _ run] have "broker_all ?Q ?R mb'" by (simp add: timeout_event_def)
  with reply show ?thesis unfolding broker_all_def by blast
qed

theorem broker_joins_by_position_witness:
  "\<exists>mb'. broker_round 7 ex_broker = (Ok mb' :: (unit, message_broker) res) \<and>
    (\<forall>(n, x) \<in> set (mb_replies mb'). (n, ie_position x) \<in> waiting ex_broker)"
proof -
  have "broker_wf ex_broker" by (simp add: broker_wf_def ex_broker_def broker_new_def ex_request_def bt_inv_def request_positions_def)
  then obtain mb' where run: "broker_round 7 ex_broker = (Ok mb' :: (unit, message_broker) res)"
    using broker_round_once [of ex_broker 7, where 'e = unit] by (auto simp: ex_broker_def broker_new_def ex_request_def times_ok_def)
  have fresh: "mb_replies ex_broker = []" "\<forall>(p, x) \<in> set (mb_inflight_events ex_broker). ie_position x = p"
    by (simp_all add: ex_broker_def broker_new_def)
  have "\<forall>(n, x) \<in> set (mb_replies mb'). (n, ie_position x) \<in> waiting ex_broker"
    using broker_joins_by_position [OF run fresh] by blast
  with run show ?thesis by blast
qed

end
