(* ===== verification/Service.thy ===== *)
theory Service
  imports State_Machine Config
begin

text \<open>
  \<^verbatim>\<open>firm-wallet-service/src/service.rs\<close>: the gRPC service. An RPC that writes is an asynchronous
  task: it hands its command to the message queue, waits for the position of the command in the
  raft log, registers at that position with the message broker and waits for the event. A task is
  modelled by what it does next, with a continuation for the answer of the environment. The RPCs
  that read are functions of the state machine or of the database. Log lines and latency metrics
  are left out.
\<close>

section \<open>Tasks\<close>

text \<open>
  \<open>Send_payload\<close> awaits \<open>send_payload\<close> of the message queue, which answers with an error text or with
  log index and offset. \<open>Await\<close> sends an in-flight request for the position to the broker and
  awaits its oneshot channel; the answer is \<open>None\<close> when the broker is gone. \<open>Exit\<close> is
  \<^verbatim>\<open>std::process::exit(1)\<close>.
\<close>

datatype 'r task =
    Reply 'r
  | Send_payload bytes "(string, u64 \<times> u64) res \<Rightarrow> 'r task"
  | Await position "inflight_event option \<Rightarrow> 'r task"
  | Exit
  | Task_panic

definition on_result :: "('e, 'a) res \<Rightarrow> ('a \<Rightarrow> 'r task) \<Rightarrow> ('e \<Rightarrow> 'r task) \<Rightarrow> 'r task" where
  "on_result r ok err = (case r of Ok x \<Rightarrow> ok x | Err e \<Rightarrow> err e | Panic \<Rightarrow> Task_panic)"

definition wait_for_response ::
    "u64 \<Rightarrow> u64 \<Rightarrow> string \<Rightarrow> (event general_result \<Rightarrow> 'r task) \<Rightarrow> 'r task" where
  "wait_for_response li off cid k =
     Await (Position li off) (\<lambda>answer.
       case answer of
         None \<Rightarrow> Task_panic
       | Some inflight \<Rightarrow>
           (case ie_event inflight of
              Ok event \<Rightarrow>
                if eh_command_id (ev_get_header event) \<noteq> cid then Exit else k (Ok event)
            | r \<Rightarrow> k r))"

section \<open>Responses\<close>

definition default_transfer_response :: transfer_response where
  "default_transfer_response =
     \<lparr>trr_error = None, trr_header = None, trr_request = None, trr_from = None, trr_to = None\<rparr>"

definition default_batch_response :: batch_balance_operation_response where
  "default_batch_response =
     \<lparr>bbor_error = None, bbor_header = None, bbor_request = None, bbor_balance_changes = []\<rparr>"

definition default_reserve_response :: reserve_response where
  "default_reserve_response =
     \<lparr>rsvr_error = None, rsvr_header = None, rsvr_request = None, rsvr_prev_balance = None,
      rsvr_curr_balance = None\<rparr>"

definition default_release_response :: release_response where
  "default_release_response =
     \<lparr>rlsr_error = None, rlsr_header = None, rlsr_request = None, rlsr_prev_balance = None,
      rlsr_curr_balance = None\<rparr>"

definition default_account_response :: "'req account_response" where
  "default_account_response =
     \<lparr>ar_error = None, ar_header = None, ar_request = None, ar_account = None\<rparr>"

text \<open>The accessors \<open>get_payload().get_*_event().get_response()\<close>: the default instance when the
  event is of another kind.\<close>

definition get_transfer_event :: "event \<Rightarrow> transfer_response" where
  "get_transfer_event ev =
     (case ev_get_event ev of
        Some (transfer_event r) \<Rightarrow> get_or_default default_transfer_response r
      | _ \<Rightarrow> default_transfer_response)"

definition get_batch_balance_operation_event :: "event \<Rightarrow> batch_balance_operation_response" where
  "get_batch_balance_operation_event ev =
     (case ev_get_event ev of
        Some (batch_balance_operation_event r) \<Rightarrow> get_or_default default_batch_response r
      | _ \<Rightarrow> default_batch_response)"

definition get_reserve_event :: "event \<Rightarrow> reserve_response" where
  "get_reserve_event ev =
     (case ev_get_event ev of
        Some (reserve_event r) \<Rightarrow> get_or_default default_reserve_response r
      | _ \<Rightarrow> default_reserve_response)"

definition get_release_event :: "event \<Rightarrow> release_response" where
  "get_release_event ev =
     (case ev_get_event ev of
        Some (release_event r) \<Rightarrow> get_or_default default_release_response r
      | _ \<Rightarrow> default_release_response)"

definition get_account_created_event :: "event \<Rightarrow> create_account_request account_response" where
  "get_account_created_event ev =
     (case ev_get_event ev of
        Some (account_created_event r) \<Rightarrow> get_or_default default_account_response r
      | _ \<Rightarrow> default_account_response)"

definition get_account_locked_event :: "event \<Rightarrow> lock_account_request account_response" where
  "get_account_locked_event ev =
     (case ev_get_event ev of
        Some (account_locked_event r) \<Rightarrow> get_or_default default_account_response r
      | _ \<Rightarrow> default_account_response)"

definition get_account_unlock_event :: "event \<Rightarrow> unlock_account_request account_response" where
  "get_account_unlock_event ev =
     (case ev_get_event ev of
        Some (account_unlock_event r) \<Rightarrow> get_or_default default_account_response r
      | _ \<Rightarrow> default_account_response)"

definition get_account_deleted_event :: "event \<Rightarrow> delete_account_request account_response" where
  "get_account_deleted_event ev =
     (case ev_get_event ev of
        Some (account_deleted_event r) \<Rightarrow> get_or_default default_account_response r
      | _ \<Rightarrow> default_account_response)"

definition get_account_config_update_event ::
    "event \<Rightarrow> update_account_config_request account_response" where
  "get_account_config_update_event ev =
     (case ev_get_event ev of
        Some (account_config_update_event r) \<Rightarrow> get_or_default default_account_response r
      | _ \<Rightarrow> default_account_response)"

section \<open>QueryEvents\<close>

text \<open>The \<open>Display\<close> form of a number.\<close>

fun nat_display :: "nat \<Rightarrow> string" where
  "nat_display n = (if n < 10 then [char_of (48 + n)] else nat_display (n div 10) @ [char_of (48 + n mod 10)])"

declare nat_display.simps [simp del]

definition u64_display :: "u64 \<Rightarrow> string" where
  "u64_display n = nat_display (unat n)"

definition maybe_adjust_query_range ::
    "u64 \<Rightarrow> u64 \<Rightarrow> u64 \<Rightarrow> u64 \<Rightarrow> u64 \<Rightarrow> (u64 \<times> u64) internal_result" where
  "maybe_adjust_query_range first_seq_num last_seq_num persisted_first_seq_num
     persisted_last_seq_num max_count =
     (if first_seq_num \<noteq> 0 \<and> first_seq_num \<le> last_seq_num \<and>
         persisted_first_seq_num \<le> first_seq_num \<and> first_seq_num \<le> persisted_last_seq_num
      then Ok (first_seq_num,
             min (min last_seq_num (first_seq_num + max_count - 1))
               persisted_last_seq_num)
      else Err (OtherReason
             (if persisted_first_seq_num = 0 \<and> persisted_last_seq_num = 0
              then ''No available events on server.''
              else ''Request's first_seq_num '' @ u64_display first_seq_num @
                   '' should be within server's available range of ['' @
                   u64_display persisted_first_seq_num @ ''-'' @ u64_display persisted_last_seq_num @
                   ''], and less equal to last_seq_num '' @ u64_display last_seq_num @ ''.'')))"

text \<open>
  The state machine flushes and the collector truncates while the RPC reads: \<open>dbs k\<close> is the
  database at the \<open>k\<close>-th read of the call. Reads 0 and 1 are those of the two hard states. The
  addition wraps, so the loop need not end; \<open>None\<close> stands for that.
\<close>

partial_function (option) query_events_loop ::
    "('d, 'db) crates \<Rightarrow> (nat \<Rightarrow> 'db) \<Rightarrow> u64 \<Rightarrow> u64 \<Rightarrow> event list \<Rightarrow>
     (u64 \<times> event list) internal_result option" where
  "query_events_loop C dbs adjusted_last_seq_num seq_num events =
     (if seq_num \<le> adjusted_last_seq_num then
        (case (read_event_from_db C (dbs (2 + length events)) seq_num :: (unit, event option) res) of
           Ok None \<Rightarrow> Some (Err LogTruncated)
         | Ok (Some event) \<Rightarrow>
             if seq_num \<noteq> eh_seq_num (ev_get_header event) then Some Panic
             else query_events_loop C dbs adjusted_last_seq_num (seq_num + 1) (events @ [event])
         | _ \<Rightarrow> Some Panic)
      else Some (Ok (seq_num, events)))"

definition query_events_impl ::
    "('d, 'db) crates \<Rightarrow> (nat \<Rightarrow> 'db) \<Rightarrow> u64 \<Rightarrow> u64 \<Rightarrow> u64 \<Rightarrow> u64 \<Rightarrow> u64 \<Rightarrow>
     (u64 \<times> u64 \<times> event list) internal_result option" where
  "query_events_impl C dbs first_seq_num last_seq_num persisted_first_seq_num persisted_last_seq_num
     max_count =
     (case maybe_adjust_query_range first_seq_num last_seq_num persisted_first_seq_num
             persisted_last_seq_num max_count of
        Ok (adjusted_first_seq_num, adjusted_last_seq_num) \<Rightarrow>
          map_option (\<lambda>r. bind_res r (\<lambda>(seq_num, events).
              if seq_num - 1 \<noteq> adjusted_last_seq_num then Panic
              else Ok (adjusted_first_seq_num, adjusted_last_seq_num, events)))
            (query_events_loop C dbs adjusted_last_seq_num adjusted_first_seq_num [])
      | Err e \<Rightarrow> Some (Err e)
      | Panic \<Rightarrow> Some Panic)"

definition query_events ::
    "('d, 'db) crates \<Rightarrow> wallet_service_config \<Rightarrow> (nat \<Rightarrow> 'db) \<Rightarrow> query_events_request \<Rightarrow>
     (unit, query_events_response) res option" where
  "query_events C cfg dbs request =
     (case (read_hard_state_from_db C (dbs 0) PERSISTED_LAST_SEQ_NUM :: (unit, u64) res,
            read_hard_state_from_db C (dbs 1) PERSISTED_FIRST_SEQ_NUM :: (unit, u64) res) of
        (Ok persisted_last_seq_num, Ok persisted_first_seq_num) \<Rightarrow>
          let response = \<lparr>qer_error = None, qer_first_seq_num = 0, qer_last_seq_num = 0,
                qer_events = [], qer_persisted_first_seq_num = persisted_first_seq_num,
                qer_persisted_last_seq_num = persisted_last_seq_num\<rparr>
          in map_option (\<lambda>r.
               case r of
                 Err err \<Rightarrow> Ok (response\<lparr>qer_error := Some (internal_error_into_proto err)\<rparr>)
               | Ok (first_seq_num, last_seq_num, events) \<Rightarrow>
                   Ok (response\<lparr>qer_first_seq_num := first_seq_num, qer_last_seq_num := last_seq_num,
                                qer_events := events\<rparr>)
               | Panic \<Rightarrow> Panic)
               (query_events_impl C dbs (qe_first_seq_num request) (qe_last_seq_num request)
                  persisted_first_seq_num persisted_last_seq_num (query_events_max_count cfg))
      | _ \<Rightarrow> Some Panic)"

section \<open>AccountManagementService\<close>

text \<open>\<open>now\<close> is the time in the header of the command.\<close>

definition create_account_rpc ::
    "('d, 'db) crates \<Rightarrow> debug_fmt \<Rightarrow> u64 \<Rightarrow> create_account_request \<Rightarrow> create_account_request account_response task" where
  "create_account_rpc C D now request =
     (let command = from_payload now (create_account_request request);
          response = default_account_response
      in Send_payload (pb_command_write (c_proto C) command) (\<lambda>result.
         on_result result
           (\<lambda>(li, off). wait_for_response li off (command_id command) (\<lambda>resp.
              on_result resp
                (\<lambda>event. Reply (get_account_created_event event))
                (\<lambda>err. Reply (response\<lparr>ar_error := Some (into_proto D err)\<rparr>))))
           (\<lambda>e. Reply (response\<lparr>ar_error := Some (common_error_into_proto D (MessageQueueError e))\<rparr>))))"

definition lock_account_rpc ::
    "('d, 'db) crates \<Rightarrow> debug_fmt \<Rightarrow> u64 \<Rightarrow> lock_account_request \<Rightarrow> lock_account_request account_response task" where
  "lock_account_rpc C D now request =
     (let command = from_payload now (lock_account_request request);
          response = default_account_response
      in Send_payload (pb_command_write (c_proto C) command) (\<lambda>result.
         on_result result
           (\<lambda>(li, off). wait_for_response li off (command_id command) (\<lambda>resp.
              on_result resp
                (\<lambda>event. Reply (get_account_locked_event event))
                (\<lambda>err. Reply (response\<lparr>ar_error := Some (into_proto D err)\<rparr>))))
           (\<lambda>e. Reply (response\<lparr>ar_error := Some (common_error_into_proto D (MessageQueueError e))\<rparr>))))"

definition unlock_account_rpc ::
    "('d, 'db) crates \<Rightarrow> debug_fmt \<Rightarrow> u64 \<Rightarrow> unlock_account_request \<Rightarrow> unlock_account_request account_response task" where
  "unlock_account_rpc C D now request =
     (let command = from_payload now (unlock_account_request request);
          response = default_account_response
      in Send_payload (pb_command_write (c_proto C) command) (\<lambda>result.
         on_result result
           (\<lambda>(li, off). wait_for_response li off (command_id command) (\<lambda>resp.
              on_result resp
                (\<lambda>event. Reply (get_account_unlock_event event))
                (\<lambda>err. Reply (response\<lparr>ar_error := Some (into_proto D err)\<rparr>))))
           (\<lambda>e. Reply (response\<lparr>ar_error := Some (common_error_into_proto D (MessageQueueError e))\<rparr>))))"

definition delete_account_rpc ::
    "('d, 'db) crates \<Rightarrow> debug_fmt \<Rightarrow> u64 \<Rightarrow> delete_account_request \<Rightarrow> delete_account_request account_response task" where
  "delete_account_rpc C D now request =
     (let command = from_payload now (delete_account_request request);
          response = default_account_response
      in Send_payload (pb_command_write (c_proto C) command) (\<lambda>result.
         on_result result
           (\<lambda>(li, off). wait_for_response li off (command_id command) (\<lambda>resp.
              on_result resp
                (\<lambda>event. Reply (get_account_deleted_event event))
                (\<lambda>err. Reply (response\<lparr>ar_error := Some (into_proto D err)\<rparr>))))
           (\<lambda>e. Reply (response\<lparr>ar_error := Some (common_error_into_proto D (MessageQueueError e))\<rparr>))))"

definition update_account_config_rpc ::
    "('d, 'db) crates \<Rightarrow> debug_fmt \<Rightarrow> u64 \<Rightarrow> update_account_config_request \<Rightarrow> update_account_config_request account_response task" where
  "update_account_config_rpc C D now request =
     (let command = from_payload now (update_account_config_request request);
          response = default_account_response
      in Send_payload (pb_command_write (c_proto C) command) (\<lambda>result.
         on_result result
           (\<lambda>(li, off). wait_for_response li off (command_id command) (\<lambda>resp.
              on_result resp
                (\<lambda>event. Reply (get_account_config_update_event event))
                (\<lambda>err. Reply (response\<lparr>ar_error := Some (into_proto D err)\<rparr>))))
           (\<lambda>e. Reply (response\<lparr>ar_error := Some (common_error_into_proto D (MessageQueueError e))\<rparr>))))"

definition get_account_rpc ::
    "debug_fmt \<Rightarrow> 'db state_machine \<Rightarrow> get_account_request \<Rightarrow> get_account_response" where
  "get_account_rpc D guard request =
     (let response = \<lparr>gar_error = None, gar_seq_num = 0, gar_account = None\<rparr>
      in if sm_last_seq_num guard < ga_seq_num request
         then response\<lparr>gar_error := Some (common_error_into_proto D
                (DataNotReady (ga_seq_num request) (sm_last_seq_num guard)))\<rparr>
         else (let response = response\<lparr>gar_seq_num := sm_last_seq_num guard\<rparr>
               in case fmlookup (sm_accounts guard) (ga_account_id request) of
                    Some acc \<Rightarrow> response\<lparr>gar_account := Some acc\<rparr>
                  | None \<Rightarrow> response\<lparr>gar_error := Some (account_error_into_proto D
                      (AccountNotExist (ga_account_id request)))\<rparr>))"

section \<open>BalanceOperationService\<close>

definition reserve_rpc ::
    "('d, 'db) crates \<Rightarrow> debug_fmt \<Rightarrow> u64 \<Rightarrow> reserve_request \<Rightarrow> reserve_response task" where
  "reserve_rpc C D now request =
     (let command = from_payload now (reserve_request request);
          response = default_reserve_response
      in Send_payload (pb_command_write (c_proto C) command) (\<lambda>result.
         on_result result
           (\<lambda>(li, off). wait_for_response li off (command_id command) (\<lambda>resp.
              on_result resp
                (\<lambda>event. Reply (get_reserve_event event))
                (\<lambda>err. Reply (response\<lparr>rsvr_error := Some (into_proto D err)\<rparr>))))
           (\<lambda>e. Reply (response\<lparr>rsvr_error := Some (common_error_into_proto D (MessageQueueError e))\<rparr>))))"

definition release_rpc ::
    "('d, 'db) crates \<Rightarrow> debug_fmt \<Rightarrow> u64 \<Rightarrow> release_request \<Rightarrow> release_response task" where
  "release_rpc C D now request =
     (let command = from_payload now (release_request request);
          response = default_release_response
      in Send_payload (pb_command_write (c_proto C) command) (\<lambda>result.
         on_result result
           (\<lambda>(li, off). wait_for_response li off (command_id command) (\<lambda>resp.
              on_result resp
                (\<lambda>event. Reply (get_release_event event))
                (\<lambda>err. Reply (response\<lparr>rlsr_error := Some (into_proto D err)\<rparr>))))
           (\<lambda>e. Reply (response\<lparr>rlsr_error := Some (common_error_into_proto D (MessageQueueError e))\<rparr>))))"

definition batch_balance_operation_rpc ::
    "('d, 'db) crates \<Rightarrow> debug_fmt \<Rightarrow> u64 \<Rightarrow> batch_balance_operation_request \<Rightarrow> batch_balance_operation_response task" where
  "batch_balance_operation_rpc C D now request =
     (let command = from_payload now (batch_balance_operation_request request);
          response = default_batch_response
      in Send_payload (pb_command_write (c_proto C) command) (\<lambda>result.
         on_result result
           (\<lambda>(li, off). wait_for_response li off (command_id command) (\<lambda>resp.
              on_result resp
                (\<lambda>event. Reply (get_batch_balance_operation_event event))
                (\<lambda>err. Reply (response\<lparr>bbor_error := Some (into_proto D err)\<rparr>))))
           (\<lambda>e. Reply (response\<lparr>bbor_error := Some (common_error_into_proto D (MessageQueueError e))\<rparr>))))"

definition transfer_rpc ::
    "('d, 'db) crates \<Rightarrow> debug_fmt \<Rightarrow> u64 \<Rightarrow> transfer_request \<Rightarrow> transfer_response task" where
  "transfer_rpc C D now request =
     (let command = from_payload now (transfer_request request);
          response = default_transfer_response
      in Send_payload (pb_command_write (c_proto C) command) (\<lambda>result.
         on_result result
           (\<lambda>(li, off). wait_for_response li off (command_id command) (\<lambda>resp.
              on_result resp
                (\<lambda>event. Reply (get_transfer_event event))
                (\<lambda>err. Reply (response\<lparr>trr_error := Some (into_proto D err)\<rparr>))))
           (\<lambda>e. Reply (response\<lparr>trr_error := Some (common_error_into_proto D (MessageQueueError e))\<rparr>))))"

definition query_balance_rpc ::
    "debug_fmt \<Rightarrow> 'db state_machine \<Rightarrow> query_balance_request \<Rightarrow> query_balance_response" where
  "query_balance_rpc D guard request =
     (let response = \<lparr>qbr_error = None, qbr_seq_num = 0, qbr_account_id = qb_account_id request,
                      qbr_balance = None\<rparr>
      in if sm_last_seq_num guard < qb_seq_num request
         then response\<lparr>qbr_error := Some (common_error_into_proto D
                (DataNotReady (qb_seq_num request) (sm_last_seq_num guard)))\<rparr>
         else (let response = response\<lparr>qbr_seq_num := sm_last_seq_num guard\<rparr>
               in case fmlookup (sm_accounts guard) (qb_account_id request) of
                    Some acc \<Rightarrow> response\<lparr>qbr_balance := Some (acc_get_balance acc)\<rparr>
                  | None \<Rightarrow> response\<lparr>qbr_error := Some (balance_error_into_proto D
                      (BalanceAccountNotExist (qb_account_id request)))\<rparr>))"

section \<open>The query loop\<close>

lemma word_succ:
  assumes "x \<le> y" "y \<noteq> - 1"
  shows "unat (x + 1 :: u64) = unat x + 1" "unat (y + 1) = unat y + 1"
proof -
  have "unat (y + 1) = unat y + 1" if "y \<noteq> - 1" for y :: u64
  proof -
    have "unat y < 2 ^ LENGTH(64)" by (rule unsigned_less)
    moreover have "unat y \<noteq> 2 ^ LENGTH(64) - 1"
      using that by (simp add: word_unat_eq_iff unsigned_minus_1_eq_mask mask_eq_exp_minus_1)
    ultimately show ?thesis by (simp add: unat_word_ariths)
  qed
  moreover have "x \<noteq> - 1" using assms by (metis word_order.extremum_unique)
  ultimately show "unat (x + 1) = unat x + 1" "unat (y + 1) = unat y + 1" using assms(2) by blast+
qed

text \<open>When every read returns nothing or the event of its number, the loop returns the events of the
  range in order, or meets one that is gone.\<close>

lemma query_events_loop:
  assumes "\<And>k n. read_event_from_db C (dbs k) n = (Ok None :: (unit, event option) res) \<or>
      (\<exists>e. read_event_from_db C (dbs k) n = (Ok (Some e) :: (unit, event option) res) \<and>
        eh_seq_num (ev_get_header e) = n)"
    and "lst \<noteq> - 1" "seq_num \<le> lst + 1"
  shows "query_events_loop C dbs lst seq_num evs = Some (Err LogTruncated) \<and>
      (\<exists>k n. seq_num \<le> n \<and> n \<le> lst \<and>
        read_event_from_db C (dbs k) n = (Ok None :: (unit, event option) res)) \<or>
    (\<exists>es. query_events_loop C dbs lst seq_num evs = Some (Ok (lst + 1, evs @ es)) \<and>
      map (\<lambda>e. eh_seq_num (ev_get_header e)) es = index_range seq_num (lst + 1) \<and>
      (\<forall>i < length es. read_event_from_db C (dbs (2 + length evs + i)) (seq_num + of_nat i) =
        (Ok (Some (es ! i)) :: (unit, event option) res)))"
  using assms(3)
proof (induction "unat (lst + 1) - unat seq_num" arbitrary: seq_num evs)
  case 0
  then have "seq_num = lst + 1" by (simp add: word_le_nat_alt word_unat_eq_iff)
  moreover have "\<not> lst + 1 \<le> lst"
    using word_succ(2) [OF order.refl assms(2)] by (simp add: word_le_nat_alt)
  ultimately show ?case by (simp add: query_events_loop.simps [of C dbs lst "lst + 1"] index_range_empty)
next
  case (Suc d)
  note succ = word_succ [OF _ assms(2)]
  have le: "seq_num \<le> lst"
    using Suc.hyps(2) succ(2) [OF order.refl] by (simp add: word_le_nat_alt)
  have lt: "seq_num < lst + 1" using le succ(2) [OF le] by (simp add: word_less_nat_alt word_le_nat_alt)
  consider "read_event_from_db C (dbs (2 + length evs)) seq_num = (Ok None :: (unit, event option) res)"
    | e where "read_event_from_db C (dbs (2 + length evs)) seq_num = (Ok (Some e) :: (unit, event option) res)"
      "eh_seq_num (ev_get_header e) = seq_num"
    using assms(1) by blast
  then show ?case
  proof cases
    case 1
    then show ?thesis using le by (subst query_events_loop.simps) auto
  next
    case (2 e)
    have run: "query_events_loop C dbs lst seq_num evs = query_events_loop C dbs lst (seq_num + 1) (evs @ [e])"
      using 2 le by (subst query_events_loop.simps) simp
    have "d = unat (lst + 1) - unat (seq_num + 1)" "seq_num + 1 \<le> lst + 1"
      using Suc.hyps(2) succ [OF le] le by (simp_all add: word_le_nat_alt)
    from Suc.hyps(1) [OF this, of "evs @ [e]"] show ?thesis
    proof (elim disjE conjE exE)
      fix k n assume "query_events_loop C dbs lst (seq_num + 1) (evs @ [e]) = Some (Err LogTruncated)"
        "seq_num + 1 \<le> n" "n \<le> lst" "read_event_from_db C (dbs k) n = (Ok None :: (unit, event option) res)"
      moreover from this(2) have "seq_num \<le> n" using succ(1) [OF le] by (simp add: word_le_nat_alt)
      ultimately show ?thesis using run by auto
    next
      fix es assume es: "query_events_loop C dbs lst (seq_num + 1) (evs @ [e]) = Some (Ok (lst + 1, (evs @ [e]) @ es))"
        "map (\<lambda>e. eh_seq_num (ev_get_header e)) es = index_range (seq_num + 1) (lst + 1)"
        "\<forall>i < length es. read_event_from_db C (dbs (2 + length (evs @ [e]) + i)) (seq_num + 1 + of_nat i) =
          (Ok (Some (es ! i)) :: (unit, event option) res)"
      have "read_event_from_db C (dbs (2 + length evs + i)) (seq_num + of_nat i) =
          (Ok (Some ((e # es) ! i)) :: (unit, event option) res)" if "i < length (e # es)" for i
        using 2(1) es(3) that by (cases i) (auto simp: add_ac)
      moreover have "map (\<lambda>e. eh_seq_num (ev_get_header e)) (e # es) = index_range seq_num (lst + 1)"
        using es(2) 2(2) index_range_Cons [OF lt] by simp
      ultimately show ?thesis using run es(1) by (intro disjI2 exI [of _ "e # es"]) simp
    qed
  qed
qed

lemma query_range_bounds:
  fixes fs ls pl mx :: u64
  assumes "fs \<noteq> 0" "fs \<le> ls" "fs \<le> pl" "unat fs + unat mx < 2 ^ 64"
  shows "min (min ls (fs + mx - 1)) pl \<noteq> - 1" "fs \<le> min (min ls (fs + mx - 1)) pl + 1"
proof -
  have sum: "unat (fs + mx) = unat fs + unat mx" using assms(4) by (simp add: unat_word_ariths)
  have pos: "0 < unat fs" using assms(1) by (metis gr0I unat_eq_zero)
  have nz: "fs + mx \<noteq> 0"
  proof
    assume "fs + mx = 0"
    then have "unat (fs + mx) = 0" by simp
    with sum pos show False by linarith
  qed
  have pred: "unat (fs + mx - 1) = unat fs + unat mx - 1" using unat_minus_one [OF nz] sum by simp
  have top: "unat (- 1 :: u64) = 2 ^ 64 - 1" by (simp add: unsigned_minus_1_eq_mask mask_eq_exp_minus_1)
  let ?l = "min (min ls (fs + mx - 1)) pl"
  have "?l \<le> fs + mx - 1" by (rule order_trans [OF min.cobounded1 min.cobounded2])
  then have "unat ?l \<le> unat fs + unat mx - 1" using pred by (simp only: word_le_nat_alt)
  then have "unat ?l < 2 ^ 64 - 1" using assms(4) pos by linarith
  then show ne: "?l \<noteq> - 1" using top by auto
  have "unat fs \<le> unat x + 1" if "x = ls \<or> x = fs + mx - 1 \<or> x = pl" for x
    using that assms(2,3) pred by (elim disjE) (simp_all add: word_le_nat_alt)
  moreover have "?l = ls \<or> ?l = fs + mx - 1 \<or> ?l = pl" by (simp add: min_def)
  ultimately have "unat fs \<le> unat ?l + 1" by blast
  then show "fs \<le> ?l + 1" using word_succ(2) [OF order.refl ne] by (simp add: word_le_nat_alt)
qed

end
