(* ===== verification/Service_System.thy ===== *)
theory Service_System
  imports Service Wallet_System Broker_Properties
begin

text \<open>
  One wallet node: the gRPC tasks of \<^verbatim>\<open>service.rs\<close>, the state machine, the message broker and the
  committed raft log, as a transition system. The message queue is the environment: it commits
  commands to the log and tells a task the position of its command.
\<close>

section \<open>The nine write RPCs as one\<close>

datatype rpc_response =
    TransferResponse transfer_response
  | BatchBalanceOperationResponse batch_balance_operation_response
  | ReserveResponse reserve_response
  | ReleaseResponse release_response
  | CreateAccountResponse "create_account_request account_response"
  | DeleteAccountResponse "delete_account_request account_response"
  | LockAccountResponse "lock_account_request account_response"
  | UnlockAccountResponse "unlock_account_request account_response"
  | UpdateAccountConfigResponse "update_account_config_request account_response"

fun wallet_rpc ::
    "('d, 'db) crates \<Rightarrow> debug_fmt \<Rightarrow> u64 \<Rightarrow> command_payload \<Rightarrow> rpc_response task" where
  "wallet_rpc C D now (transfer_request r) = map_task TransferResponse (transfer_rpc C D now r)"
| "wallet_rpc C D now (batch_balance_operation_request r) =
     map_task BatchBalanceOperationResponse (batch_balance_operation_rpc C D now r)"
| "wallet_rpc C D now (reserve_request r) = map_task ReserveResponse (reserve_rpc C D now r)"
| "wallet_rpc C D now (release_request r) = map_task ReleaseResponse (release_rpc C D now r)"
| "wallet_rpc C D now (create_account_request r) =
     map_task CreateAccountResponse (create_account_rpc C D now r)"
| "wallet_rpc C D now (delete_account_request r) =
     map_task DeleteAccountResponse (delete_account_rpc C D now r)"
| "wallet_rpc C D now (lock_account_request r) =
     map_task LockAccountResponse (lock_account_rpc C D now r)"
| "wallet_rpc C D now (unlock_account_request r) =
     map_task UnlockAccountResponse (unlock_account_rpc C D now r)"
| "wallet_rpc C D now (update_account_config_request r) =
     map_task UpdateAccountConfigResponse (update_account_config_rpc C D now r)"

text \<open>The response to a request of some kind: from the event, or with an error.\<close>

fun response_of_event :: "command_payload \<Rightarrow> event \<Rightarrow> rpc_response" where
  "response_of_event (transfer_request _) ev = TransferResponse (get_transfer_event ev)"
| "response_of_event (batch_balance_operation_request _) ev =
     BatchBalanceOperationResponse (get_batch_balance_operation_event ev)"
| "response_of_event (reserve_request _) ev = ReserveResponse (get_reserve_event ev)"
| "response_of_event (release_request _) ev = ReleaseResponse (get_release_event ev)"
| "response_of_event (create_account_request _) ev = CreateAccountResponse (get_account_created_event ev)"
| "response_of_event (delete_account_request _) ev = DeleteAccountResponse (get_account_deleted_event ev)"
| "response_of_event (lock_account_request _) ev = LockAccountResponse (get_account_locked_event ev)"
| "response_of_event (unlock_account_request _) ev = UnlockAccountResponse (get_account_unlock_event ev)"
| "response_of_event (update_account_config_request _) ev =
     UpdateAccountConfigResponse (get_account_config_update_event ev)"

fun error_response :: "command_payload \<Rightarrow> error_pb \<Rightarrow> rpc_response" where
  "error_response (transfer_request _) e = TransferResponse (default_transfer_response\<lparr>trr_error := Some e\<rparr>)"
| "error_response (batch_balance_operation_request _) e =
     BatchBalanceOperationResponse (default_batch_response\<lparr>bbor_error := Some e\<rparr>)"
| "error_response (reserve_request _) e = ReserveResponse (default_reserve_response\<lparr>rsvr_error := Some e\<rparr>)"
| "error_response (release_request _) e = ReleaseResponse (default_release_response\<lparr>rlsr_error := Some e\<rparr>)"
| "error_response (create_account_request _) e =
     CreateAccountResponse (default_account_response\<lparr>ar_error := Some e\<rparr>)"
| "error_response (delete_account_request _) e =
     DeleteAccountResponse (default_account_response\<lparr>ar_error := Some e\<rparr>)"
| "error_response (lock_account_request _) e =
     LockAccountResponse (default_account_response\<lparr>ar_error := Some e\<rparr>)"
| "error_response (unlock_account_request _) e =
     UnlockAccountResponse (default_account_response\<lparr>ar_error := Some e\<rparr>)"
| "error_response (update_account_config_request _) e =
     UpdateAccountConfigResponse (default_account_response\<lparr>ar_error := Some e\<rparr>)"

text \<open>The task between the answer of the message queue and the answer of the broker.\<close>

definition awaiting :: "debug_fmt \<Rightarrow> command_payload \<Rightarrow> u64 \<Rightarrow> u64 \<Rightarrow> rpc_response task" where
  "awaiting D p li off =
     wait_for_response li off (payload_command_id p) (\<lambda>resp.
       on_result resp (\<lambda>ev. Reply (response_of_event p ev))
         (\<lambda>err. Reply (error_response p (into_proto D err))))"

lemma map_task_simps [simp]:
  "map_task f (on_result r ok err) = on_result r (\<lambda>x. map_task f (ok x)) (\<lambda>e. map_task f (err e))"
  "map_task f (wait_for_response li off cid k) = wait_for_response li off cid (\<lambda>r. map_task f (k r))"
  by (auto simp: on_result_def wait_for_response_def comp_def split: res.split option.split)

lemma wallet_rpc_eq:
  "wallet_rpc C D now p =
     Send_payload (pb_command_write (c_proto C) (from_payload now p)) (\<lambda>result.
       on_result result (\<lambda>(li, off). awaiting D p li off)
         (\<lambda>e. Reply (error_response p (common_error_into_proto D (MessageQueueError e)))))"
  by (cases p) (auto simp: transfer_rpc_def batch_balance_operation_rpc_def reserve_rpc_def release_rpc_def
      create_account_rpc_def delete_account_rpc_def lock_account_rpc_def unlock_account_rpc_def
      update_account_config_rpc_def awaiting_def Let_def comp_def case_prod_beta')

section \<open>The node\<close>

text \<open>
  \<open>nd_tasks\<close> holds the RPC in progress or finished under the number of its oneshot channel, with the
  request it serves. \<open>nd_log\<close> is the committed raft log, \<open>nd_acked\<close> the positions the message queue has
  told, \<open>nd_clock\<close> the monotonic clock.
\<close>

record 'db node =
  nd_sys :: "'db system"
  nd_broker :: message_broker
  nd_tasks :: "sender \<rightharpoonup> command_payload \<times> rpc_response task"
  nd_log :: "u64 \<rightharpoonup> command list"
  nd_acked :: "position set"
  nd_clock :: nat

abbreviation sent_events :: "'db system \<Rightarrow> inflight_event list" where
  "sent_events s \<equiv> cx_inflight_event_tx (snd (sys_app s))"

text \<open>
  The steps: an RPC arrives; the message queue refuses its command; a raft log entry is committed;
  the message queue tells a task the position of its command, and the task registers with the
  broker; the state machine applies the next entry; it flushes, or the collector works; the broker
  runs a round; a task receives the reply sent on its channel; the clock advances; the process is
  restarted.
\<close>

inductive node_step ::
    "('d, 'db) crates \<Rightarrow> debug_fmt \<Rightarrow> event_log_gc_config \<Rightarrow> 'db node \<Rightarrow> 'db node \<Rightarrow> bool"
  for C :: "('d, 'db) crates" and D :: debug_fmt and cfg :: event_log_gc_config where
  call: "nd_tasks nd n = None \<Longrightarrow>
     node_step C D cfg nd (nd\<lparr>nd_tasks := (nd_tasks nd)(n \<mapsto> (p, wallet_rpc C D now p))\<rparr>)"
| queue_error: "nd_tasks nd n = Some (p, Send_payload bs k) \<Longrightarrow>
     node_step C D cfg nd (nd\<lparr>nd_tasks := (nd_tasks nd)(n \<mapsto> (p, k (Err e)))\<rparr>)"
| commit: "nd_log nd li = None \<Longrightarrow> node_step C D cfg nd (nd\<lparr>nd_log := (nd_log nd)(li \<mapsto> cs)\<rparr>)"
| queue_ok: "nd_tasks nd n = Some (p, Send_payload bs k) \<Longrightarrow> nd_log nd li = Some cs \<Longrightarrow>
     unat off < length cs \<Longrightarrow> pb_command_parse (c_proto C) bs = Some (cs ! unat off) \<Longrightarrow>
     Position li off \<notin> nd_acked nd \<Longrightarrow> k (Ok (li, off)) = Await pos k' \<Longrightarrow>
     node_step C D cfg nd
       (nd\<lparr>nd_tasks := (nd_tasks nd)(n \<mapsto> (p, Await pos k')),
           nd_broker := (nd_broker nd)\<lparr>mb_request_rx := mb_request_rx (nd_broker nd) @
             [\<lparr>ir_position = pos, ir_resp_to = n, ir_send_time = nd_clock nd\<rparr>]\<rparr>,
           nd_acked := insert pos (nd_acked nd)\<rparr>)"
| apply_log: "nd_log nd li = Some cs \<Longrightarrow> admissible C li 0 cs (sys_app (nd_sys nd)) \<Longrightarrow> li \<noteq> 0 \<Longrightarrow>
     unat (sm_last_seq_num (fst (sys_app (nd_sys nd)))) + length cs < 2 ^ 64 \<Longrightarrow>
     apply_entry C (sys_app (nd_sys nd)) (li, cs) = (Ok (), app') \<Longrightarrow>
     node_step C D cfg nd
       (nd\<lparr>nd_sys := (nd_sys nd)\<lparr>sys_app := app'\<rparr>,
           nd_broker := (nd_broker nd)\<lparr>mb_event_rx := mb_event_rx (nd_broker nd) @
             drop (length (sent_events (nd_sys nd))) (cx_inflight_event_tx (snd app'))\<rparr>\<rparr>)"
| background: "wallet_step C cfg (nd_sys nd) s' \<Longrightarrow> sent_events s' = sent_events (nd_sys nd) \<Longrightarrow>
     node_step C D cfg nd (nd\<lparr>nd_sys := s'\<rparr>)"
| broker: "broker_round (nd_clock nd) (nd_broker nd) = (Ok mb' :: (unit, message_broker) res) \<Longrightarrow>
     node_step C D cfg nd (nd\<lparr>nd_broker := mb'\<rparr>)"
| deliver: "nd_tasks nd n = Some (p, Await pos k) \<Longrightarrow> (n, ev) \<in> set (mb_replies (nd_broker nd)) \<Longrightarrow>
     node_step C D cfg nd (nd\<lparr>nd_tasks := (nd_tasks nd)(n \<mapsto> (p, k (Some ev)))\<rparr>)"
| tick: "node_step C D cfg nd (nd\<lparr>nd_clock := Suc (nd_clock nd)\<rparr>)"
| restart: "recover_from_db C mem env now (sys_db (nd_sys nd)) [] = Ok app' \<Longrightarrow>
     cx_batch_size (snd app') \<noteq> 0 \<Longrightarrow>
     node_step C D cfg nd
       (nd\<lparr>nd_sys := \<lparr>sys_app = app', sys_gc = GcIdle\<rparr>, nd_broker := broker_new [] [],
           nd_tasks := Map.empty, nd_acked := {}\<rparr>)"

inductive node_reachable ::
    "('d, 'db) crates \<Rightarrow> ('db \<Rightarrow> bytes \<rightharpoonup> bytes) \<Rightarrow> debug_fmt \<Rightarrow> event_log_gc_config \<Rightarrow> 'db node \<Rightarrow> bool"
  for C :: "('d, 'db) crates" and view :: "'db \<Rightarrow> bytes \<rightharpoonup> bytes" and D :: debug_fmt
    and cfg :: event_log_gc_config where
  init: "view db = Map.empty \<Longrightarrow> recover_from_db C mem env now db [] = Ok app \<Longrightarrow>
     cx_batch_size (snd app) \<noteq> 0 \<Longrightarrow>
     node_reachable C view D cfg
       \<lparr>nd_sys = \<lparr>sys_app = app, sys_gc = GcIdle\<rparr>, nd_broker = broker_new [] [],
        nd_tasks = Map.empty, nd_log = Map.empty, nd_acked = {}, nd_clock = clock\<rparr>"
| step: "node_reachable C view D cfg nd \<Longrightarrow> node_step C D cfg nd nd' \<Longrightarrow> node_reachable C view D cfg nd'"

section \<open>Replies that belong to a command\<close>

definition answers :: "command \<Rightarrow> event \<Rightarrow> bool" where
  "answers c ev \<longleftrightarrow> eh_command_id (ev_get_header ev) = command_id c \<and>
     (\<exists>p q. cmd_request c = Some p \<and> ev_get_event ev = Some q \<and> kinds_match p q)"

definition reply_ok :: "command \<Rightarrow> event general_result \<Rightarrow> bool" where
  "reply_ok c r \<longleftrightarrow> (case r of Ok ev \<Rightarrow> answers c ev | Err _ \<Rightarrow> True | Panic \<Rightarrow> False)"

definition log_command :: "(u64 \<rightharpoonup> command list) \<Rightarrow> position \<Rightarrow> command option" where
  "log_command lg pos =
     (case lg (log_index pos) of
        Some cs \<Rightarrow> if unat (offset pos) < length cs then Some (cs ! unat (offset pos)) else None
      | None \<Rightarrow> None)"

text \<open>An event in flight is an error, or the answer to the command at its position in the log.\<close>

definition event_ok :: "(u64 \<rightharpoonup> command list) \<Rightarrow> inflight_event \<Rightarrow> bool" where
  "event_ok lg x \<longleftrightarrow>
     (case ie_event x of
        Ok ev \<Rightarrow> (\<exists>c. log_command lg (ie_position x) = Some c \<and> answers c ev)
      | Err _ \<Rightarrow> True
      | Panic \<Rightarrow> False)"

definition response_ok :: "command_payload \<Rightarrow> rpc_response \<Rightarrow> bool" where
  "response_ok p r \<longleftrightarrow> (\<exists>e. r = error_response p e) \<or>
     (\<exists>ev q. r = response_of_event p ev \<and> eh_command_id (ev_get_header ev) = payload_command_id p \<and>
        ev_get_event ev = Some q \<and> kinds_match p q)"

definition task_ok ::
    "('d, 'db) crates \<Rightarrow> debug_fmt \<Rightarrow> (u64 \<rightharpoonup> command list) \<Rightarrow> command_payload \<Rightarrow> rpc_response task \<Rightarrow> bool" where
  "task_ok C D lg p t \<longleftrightarrow>
     (\<exists>now. t = wallet_rpc C D now p) \<or>
     (\<exists>now li off. t = awaiting D p li off \<and>
        log_command lg (Position li off) = Some (from_payload now p)) \<or>
     (\<exists>r. t = Reply r \<and> response_ok p r)"

text \<open>What the broker knows of a sender: its task waits at this position, or is finished.\<close>

definition sender_ok :: "(sender \<rightharpoonup> command_payload \<times> rpc_response task) \<Rightarrow> position set \<Rightarrow> sender \<Rightarrow> position \<Rightarrow> bool" where
  "sender_ok tasks acked n pos \<longleftrightarrow> pos \<in> acked \<and>
     (case tasks n of
        Some (p, Await pos' k) \<Rightarrow> pos' = pos
      | Some (p, Reply r) \<Rightarrow> True
      | _ \<Rightarrow> False)"

lemma do_write_tx [simp]: "cx_inflight_event_tx (snd (do_write C w app)) = cx_inflight_event_tx (snd app)"
  by (cases w; cases app) (simp_all add: update_account_def delete_account_def Let_def)

lemma fold_do_write_tx:
  fixes app :: "'db app"
  shows "cx_inflight_event_tx (snd (fold (do_write C) ws (next_seq_num app))) = cx_inflight_event_tx (snd app)"
proof -
  have "cx_inflight_event_tx (snd (fold (do_write C) ws app)) = cx_inflight_event_tx (snd app)" for app :: "'db app"
    by (induction ws arbitrary: app) simp_all
  then show ?thesis by (simp add: next_seq_num_def split: prod.split)
qed

context crates_spec
begin

lemma command_reply:
  assumes full: "Full Db W app" and p: "cmd_request c = Some p" "payload_utf8 p"
    and run: "handle_command C app li off c = (Ok (), app')"
  shows "\<exists>r. cx_inflight_event_tx (snd app') =
      cx_inflight_event_tx (snd app) @ [\<lparr>ie_position = Position li off, ie_event = r\<rparr>] \<and> reply_ok c r"
proof -
  from full have inv: "Inv Db W app" and log: "event_log_ok W (sm_last_seq_num (fst app))" by simp_all
  from inv log p show ?thesis
  proof (cases rule: handle_command_cases [where li = li and off = off])
    case (dup n e)
    from event_log_okD(3) [OF log dup(2)] have "ev_get_event e \<noteq> None" by blast
    moreover from event_log_okD(1) [OF log dup(1)] dup(2) have "eh_command_id (ev_get_header e) = command_id c" by auto
    ultimately have "reply_ok c (dup_reply c p e)" using p(1) by (auto simp: reply_ok_def dup_reply_def answers_def)
    with dup(3) run show ?thesis by (auto simp: send_event_def split: prod.splits)
  next
    case (err e)
    with run show ?thesis by (auto simp: send_event_def reply_ok_def split: prod.splits)
  next
    case (ok ws q ev)
    have tx: "cx_inflight_event_tx (snd (fold (do_write C) ws (next_seq_num app))) = cx_inflight_event_tx (snd app)"
      by (simp add: fold_do_write_tx)
    have "reply_ok c (Ok ev)"
      using ok(2,5) p(1) by (simp add: reply_ok_def answers_def event_for_def command_id_def)
    with ok(6) run tx show ?thesis
      by (auto simp: send_event_def update_seq_num_and_event_def Let_def split: prod.splits)
  qed
qed

lemma commands_replies:
  assumes "Full Db W app" "admissible C li off cs app"
    "unat (sm_last_seq_num (fst app)) + length cs < 2 ^ 64" "handle_commands C li off cs app = (Ok (), app')"
  shows "\<exists>xs. cx_inflight_event_tx (snd app') = cx_inflight_event_tx (snd app) @ xs \<and> length xs = length cs \<and>
    (\<forall>k < length cs. ie_position (xs ! k) = Position li (off + of_nat k) \<and> reply_ok (cs ! k) (ie_event (xs ! k)))"
  using assms
proof (induction cs arbitrary: app off W)
  case (Cons c cs)
  obtain p where p: "cmd_request c = Some p" "payload_utf8 p" "\<not> updates_deleted (fst app) p"
    using Cons.prems(2) by (auto split: option.splits)
  have "unat (sm_last_seq_num (fst app)) + 1 < 2 ^ 64" using Cons.prems(3) by simp
  then have wrap: "sm_last_seq_num (fst app) + 1 \<noteq> 0" by (rule succ_no_wrap)
  from handle_command_inv [OF Cons.prems(1) p wrap, of li off] obtain app1 W1 where
    s1: "handle_command C app li off c = (Ok (), app1)" "Full Db W1 app1"
    and seq: "sm_last_seq_num (fst app1) = sm_last_seq_num (fst app) \<or>
      sm_last_seq_num (fst app1) = sm_last_seq_num (fst app) + 1" by blast
  from command_reply [OF Cons.prems(1) p(1,2) s1(1)] obtain r where r:
    "cx_inflight_event_tx (snd app1) = cx_inflight_event_tx (snd app) @ [\<lparr>ie_position = Position li off, ie_event = r\<rparr>]"
    "reply_ok c r" by blast
  have "unat (sm_last_seq_num (fst app1)) + length cs < 2 ^ 64"
    using seq Cons.prems(3) unat_succ [OF wrap] by auto
  moreover have "admissible C li (off + 1) cs app1" "handle_commands C li (off + 1) cs app1 = (Ok (), app')"
    using Cons.prems(2,4) s1(1) by simp_all
  ultimately obtain xs where xs: "cx_inflight_event_tx (snd app') = cx_inflight_event_tx (snd app1) @ xs"
    "length xs = length cs"
    "\<forall>k < length cs. ie_position (xs ! k) = Position li (off + 1 + of_nat k) \<and> reply_ok (cs ! k) (ie_event (xs ! k))"
    using Cons.IH [OF s1(2)] by blast
  let ?xs = "\<lparr>ie_position = Position li off, ie_event = r\<rparr> # xs"
  have "ie_position (?xs ! k) = Position li (off + of_nat k) \<and> reply_ok ((c # cs) ! k) (ie_event (?xs ! k))"
    if "k < length (c # cs)" for k
    using xs(3) r(2) that by (cases k) (auto simp: add_ac)
  with xs(1,2) r(1) show ?case by (intro exI [of _ ?xs]) auto
qed simp

lemma entry_events_ok:
  assumes s: "reachable C view cfg s" "legal_percentage (percentage cfg)"
    and run: "apply_entry C (sys_app s) (li, cs) = (Ok (), app')"
    and adm: "admissible C li 0 cs (sys_app s)"
    and wrap: "unat (sm_last_seq_num (fst (sys_app s))) + length cs < 2 ^ 64"
    and lg: "lg li = Some cs"
  shows "\<forall>x \<in> set (drop (length (sent_events s)) (cx_inflight_event_tx (snd app'))). event_ok lg x"
proof -
  from reachable_inv [OF s] obtain Db W where "sys_inv cfg s Db W" by blast
  then have full: "Full Db W (sys_app s)" by (simp add: system_inv_def)
  obtain app1 where run1: "handle_commands C li 0 cs (sys_app s) = (Ok (), app1)"
    and tx: "cx_inflight_event_tx (snd app') = cx_inflight_event_tx (snd app1)"
    using run by (auto simp: apply_entry_def bind_st_eq_Ok Let_def split: if_splits prod.splits)
  from commands_replies [OF full adm wrap run1] obtain xs where
    xs: "cx_inflight_event_tx (snd app1) = sent_events s @ xs" "length xs = length cs"
    "\<forall>k < length cs. ie_position (xs ! k) = Position li (0 + of_nat k) \<and> reply_ok (cs ! k) (ie_event (xs ! k))"
    by blast
  have "event_ok lg (xs ! k)" if k: "k < length xs" for k
  proof -
    have "k < 2 ^ 64" using k xs(2) wrap by simp
    then have "unat (of_nat k :: u64) = k" by (simp add: unat_of_nat)
    then have "log_command lg (ie_position (xs ! k)) = Some (cs ! k)"
      using k xs(2,3) lg by (simp add: log_command_def)
    with k xs(2,3) show ?thesis by (auto simp: event_ok_def reply_ok_def split: res.splits)
  qed
  then show ?thesis using tx xs(1) by (auto simp: in_set_conv_nth)
qed

end

section \<open>The invariant of a node\<close>

definition tasks_inv :: "('d, 'db) crates \<Rightarrow> debug_fmt \<Rightarrow> 'db node \<Rightarrow> bool" where
  "tasks_inv C D nd \<longleftrightarrow>
     (\<forall>n p t. nd_tasks nd n = Some (p, t) \<longrightarrow> task_ok C D (nd_log nd) p t)"

definition registered :: "'db node \<Rightarrow> bool" where
  "registered nd \<longleftrightarrow> (\<forall>n. count (senders (nd_broker nd)) n \<le> 1) \<and>
     (\<forall>n p pos k. nd_tasks nd n = Some (p, Await pos k) \<longrightarrow> n \<in># senders (nd_broker nd))"

definition joined :: "'db node \<Rightarrow> bool" where
  "joined nd \<longleftrightarrow> broker_all (event_ok (nd_log nd)) (sender_ok (nd_tasks nd) (nd_acked nd)) (nd_broker nd)"

definition node_inv ::
    "('d, 'db) crates \<Rightarrow> ('db \<Rightarrow> bytes \<rightharpoonup> bytes) \<Rightarrow> debug_fmt \<Rightarrow> event_log_gc_config \<Rightarrow> 'db node \<Rightarrow> bool" where
  "node_inv C view D cfg nd \<longleftrightarrow> reachable C view cfg (nd_sys nd) \<and> tasks_inv C D nd \<and> joined nd \<and>
     broker_wf (nd_broker nd) \<and> times_ok (nd_clock nd) (nd_broker nd) \<and> registered nd"

lemma wallet_rpc_not_await [simp]: "wallet_rpc C D now p \<noteq> Await pos k" "wallet_rpc C D now p \<noteq> Reply r"
  by (simp_all add: wallet_rpc_eq)

lemma awaiting_eq: "\<exists>k. awaiting D p li off = Await (Position li off) k"
  by (simp add: awaiting_def wait_for_response_def)

lemma awaiting_not [simp]: "awaiting D p li off \<noteq> Send_payload bs k" "awaiting D p li off \<noteq> Reply r"
  by (simp_all add: awaiting_def wait_for_response_def)

lemma broker_all_mono:
  "broker_all Q R mb \<Longrightarrow> (\<And>x. Q x \<Longrightarrow> Q' x) \<Longrightarrow> (\<And>n p. R n p \<Longrightarrow> R' n p) \<Longrightarrow> broker_all Q' R' mb"
  unfolding broker_all_def by (auto split: prod.splits)

lemma broker_all_sender:
  assumes "broker_all Q R mb" "n \<in># senders mb"
  shows "\<exists>p. R n p"
  using assms unfolding broker_all_def senders_def by fastforce

lemma broker_all_positions:
  assumes "broker_all Q R mb"
  shows "\<forall>r \<in> set (mb_request_rx mb). \<exists>n. R n (ir_position r)" "\<forall>p \<in> request_positions mb. \<exists>n. R n p"
  using assms unfolding broker_all_def request_positions_def by fastforce+

text \<open>A task whose number no sender has can change freely.\<close>

lemma joined_task_update:
  assumes "joined nd" "case nd_tasks nd n of Some (p, Await pos k) \<Rightarrow> False | Some (p, Reply r) \<Rightarrow> False | _ \<Rightarrow> True"
  shows "joined (nd\<lparr>nd_tasks := (nd_tasks nd)(n := pt)\<rparr>)" "n \<notin># senders (nd_broker nd)"
proof -
  let ?R = "sender_ok (nd_tasks nd) (nd_acked nd)"
  have no: "\<not> ?R n pos" for pos using assms(2) by (auto simp: sender_ok_def split: option.splits task.splits)
  have "sender_ok ((nd_tasks nd)(n := pt)) (nd_acked nd) m pos" if "?R m pos" for m pos
    using that no [of pos] by (cases "m = n") (auto simp: sender_ok_def)
  then show "joined (nd\<lparr>nd_tasks := (nd_tasks nd)(n := pt)\<rparr>)"
    using assms(1) unfolding joined_def by (auto intro: broker_all_mono)
  show "n \<notin># senders (nd_broker nd)"
    using broker_all_sender [of _ ?R "nd_broker nd" n] assms(1) no unfolding joined_def by blast
qed

lemma node_inv_init:
  assumes "reachable C view cfg s"
  shows "node_inv C view D cfg \<lparr>nd_sys = s, nd_broker = broker_new [] [], nd_tasks = Map.empty,
    nd_log = lg, nd_acked = {}, nd_clock = clock\<rparr>"
  using assms by (simp add: node_inv_def tasks_inv_def joined_def broker_all_def broker_new_def broker_wf_def
      bt_inv_def request_positions_def times_ok_def registered_def senders_def)

lemma node_inv_call:
  assumes inv: "node_inv C view D cfg nd" and n: "nd_tasks nd n = None"
  shows "node_inv C view D cfg (nd\<lparr>nd_tasks := (nd_tasks nd)(n \<mapsto> (p, wallet_rpc C D now p))\<rparr>)"
proof -
  from inv have j: "joined nd" by (simp add: node_inv_def)
  have "task_ok C D (nd_log nd) p (wallet_rpc C D now p)" by (auto simp: task_ok_def)
  with joined_task_update [OF j, of n] n inv show ?thesis
    by (auto simp: node_inv_def tasks_inv_def registered_def)
qed

lemma node_inv_queue_error:
  assumes inv: "node_inv C view D cfg nd" and n: "nd_tasks nd n = Some (p, Send_payload bs k)"
  shows "node_inv C view D cfg (nd\<lparr>nd_tasks := (nd_tasks nd)(n \<mapsto> (p, k (Err e)))\<rparr>)"
proof -
  from inv have j: "joined nd" and "task_ok C D (nd_log nd) p (Send_payload bs k)"
    using n by (auto simp: node_inv_def tasks_inv_def)
  then obtain now where "Send_payload bs k = wallet_rpc C D now p" by (auto simp: task_ok_def dest: sym)
  then have k: "k (Err e) = Reply (error_response p (common_error_into_proto D (MessageQueueError e)))"
    by (auto simp: wallet_rpc_eq on_result_def)
  then have "task_ok C D (nd_log nd) p (k (Err e))" by (auto simp: task_ok_def response_ok_def)
  with joined_task_update [OF j, of n] n inv k show ?thesis
    by (auto simp: node_inv_def tasks_inv_def registered_def)
qed

lemma node_inv_commit:
  assumes inv: "node_inv C view D cfg nd" and li: "nd_log nd li = None"
  shows "node_inv C view D cfg (nd\<lparr>nd_log := (nd_log nd)(li \<mapsto> cs)\<rparr>)"
proof -
  have lc: "log_command ((nd_log nd)(li \<mapsto> cs)) pos = Some c" if "log_command (nd_log nd) pos = Some c" for pos c
    using that li by (auto simp: log_command_def split: option.splits if_splits)
  have "task_ok C D ((nd_log nd)(li \<mapsto> cs)) p t" if "task_ok C D (nd_log nd) p t" for p t
    using that unfolding task_ok_def by (blast intro: lc)
  moreover have "event_ok ((nd_log nd)(li \<mapsto> cs)) x" if "event_ok (nd_log nd) x" for x
    using that lc unfolding event_ok_def by (cases "ie_event x") auto
  ultimately show ?thesis
    using inv unfolding node_inv_def tasks_inv_def registered_def joined_def by (auto intro: broker_all_mono)
qed

lemma node_invI:
  assumes "reachable C view cfg (nd_sys nd)"
    and "\<And>n p t. nd_tasks nd n = Some (p, t) \<Longrightarrow> task_ok C D (nd_log nd) p t"
    and "broker_all (event_ok (nd_log nd)) (sender_ok (nd_tasks nd) (nd_acked nd)) (nd_broker nd)"
    and "broker_wf (nd_broker nd)" "times_ok (nd_clock nd) (nd_broker nd)"
    and "\<And>n. count (senders (nd_broker nd)) n \<le> 1"
    and "\<And>n p pos k. nd_tasks nd n = Some (p, Await pos k) \<Longrightarrow> n \<in># senders (nd_broker nd)"
  shows "node_inv C view D cfg nd"
  using assms unfolding node_inv_def tasks_inv_def joined_def registered_def by blast

lemma sender_ok_acked: "sender_ok tasks acked n pos \<Longrightarrow> pos \<in> acked"
  by (simp add: sender_ok_def)

lemma sender_ok_insert: "sender_ok tasks acked n pos \<Longrightarrow> sender_ok tasks (insert pos' acked) n pos"
  by (simp add: sender_ok_def)

lemma node_inv_queue_ok:
  assumes C: "proto_spec (c_proto C)" and inv: "node_inv C view D cfg nd"
    and n: "nd_tasks nd n = Some (p, Send_payload bs k)"
    and lg: "nd_log nd li = Some cs" "unat off < length cs"
    and parse: "pb_command_parse (c_proto C) bs = Some (cs ! unat off)"
    and fresh: "Position li off \<notin> nd_acked nd" and k: "k (Ok (li, off)) = Await pos k'"
  shows "node_inv C view D cfg
       (nd\<lparr>nd_tasks := (nd_tasks nd)(n \<mapsto> (p, Await pos k')),
           nd_broker := (nd_broker nd)\<lparr>mb_request_rx := mb_request_rx (nd_broker nd) @
             [\<lparr>ir_position = pos, ir_resp_to = n, ir_send_time = nd_clock nd\<rparr>]\<rparr>,
           nd_acked := insert pos (nd_acked nd)\<rparr>)"
proof -
  from inv have j: "joined nd" and "task_ok C D (nd_log nd) p (Send_payload bs k)"
    using n by (auto simp: node_inv_def tasks_inv_def)
  then obtain now where "Send_payload bs k = wallet_rpc C D now p" by (auto simp: task_ok_def dest: sym)
  then have bs: "bs = pb_command_write (c_proto C) (from_payload now p)"
    and aw: "Await pos k' = awaiting D p li off"
    using k by (auto simp: wallet_rpc_eq on_result_def)
  have pos: "pos = Position li off" using awaiting_eq [of D p li off] aw by auto
  have "log_command (nd_log nd) (Position li off) = Some (from_payload now p)"
    using lg parse proto_spec.command_parse_write [OF C] by (simp add: log_command_def bs)
  then have t: "task_ok C D (nd_log nd) p (Await pos k')" unfolding aw task_ok_def by blast
  have jt: "joined (nd\<lparr>nd_tasks := (nd_tasks nd)(n \<mapsto> (p, Await pos k'))\<rparr>)" "n \<notin># senders (nd_broker nd)"
    by (rule joined_task_update [OF j], simp add: n)+
  define mb where "mb = nd_broker nd"
  define mb' where "mb' = mb\<lparr>mb_request_rx := mb_request_rx mb @
    [\<lparr>ir_position = pos, ir_resp_to = n, ir_send_time = nd_clock nd\<rparr>]\<rparr>"
  let ?tasks = "(nd_tasks nd)(n \<mapsto> (p, Await pos k'))" and ?acked = "insert pos (nd_acked nd)"
  have "broker_all (event_ok (nd_log nd)) (sender_ok ?tasks (nd_acked nd)) mb"
    using jt(1) by (simp add: joined_def mb_def)
  then have "broker_all (event_ok (nd_log nd)) (sender_ok ?tasks ?acked) mb"
    by (rule broker_all_mono) (auto intro: sender_ok_insert)
  moreover have "sender_ok ?tasks ?acked n pos" by (simp add: sender_ok_def)
  ultimately have all: "broker_all (event_ok (nd_log nd)) (sender_ok ?tasks ?acked) mb'"
    unfolding broker_all_def mb'_def by simp
  have "pos \<notin> ir_position ` set (mb_request_rx mb)" "pos \<notin> request_positions mb"
  proof -
    have "pos \<notin> nd_acked nd" using fresh pos by simp
    with broker_all_positions [OF j [unfolded joined_def]] sender_ok_acked [of "nd_tasks nd" "nd_acked nd"]
    show "pos \<notin> ir_position ` set (mb_request_rx mb)" "pos \<notin> request_positions mb" unfolding mb_def by blast+
  qed
  moreover have "request_positions mb' = request_positions mb" by (simp add: request_positions_def mb'_def)
  moreover have "broker_wf mb" using inv by (simp add: node_inv_def mb_def)
  ultimately have wf: "broker_wf mb'" by (simp add: broker_wf_def mb'_def)
  from inv have reg: "registered nd" by (simp add: node_inv_def)
  have n0: "count (senders mb) n = 0" using jt(2) by (simp add: count_eq_zero_iff mb_def)
  have add: "senders mb' = add_mset n (senders mb)" by (simp add: senders_def mb'_def)
  have once: "count (senders mb') m \<le> 1" for m
    using reg n0 by (cases "m = n") (simp_all add: registered_def add mb_def [symmetric])
  have waits: "m \<in># senders mb'" if "?tasks m = Some (q, Await pos1 k1)" for m q pos1 k1
    using that reg by (cases "m = n") (auto simp: registered_def add mb_def)
  have times: "times_ok (nd_clock nd) mb'" using inv by (simp add: node_inv_def times_ok_def mb'_def mb_def)
  have tasks: "task_ok C D (nd_log nd) q t'" if "?tasks m = Some (q, t')" for m q t'
    using that t inv by (cases "m = n") (auto simp: node_inv_def tasks_inv_def)
  have "reachable C view cfg (nd_sys nd)" using inv by (simp add: node_inv_def)
  then have "node_inv C view D cfg (nd\<lparr>nd_tasks := ?tasks, nd_broker := mb', nd_acked := ?acked\<rparr>)"
    by (rule node_invI [where nd = "nd\<lparr>nd_tasks := ?tasks, nd_broker := mb', nd_acked := ?acked\<rparr>", simplified])
      (use all wf times once waits tasks in \<open>simp_all add: fun_upd_def\<close>)
  then show ?thesis by (simp add: mb'_def mb_def)
qed

lemma node_inv_apply:
  assumes C: "crates_spec C val view" and cfg: "legal_percentage (percentage cfg)"
    and inv: "node_inv C view D cfg nd" and lg: "nd_log nd li = Some cs"
    and adm: "admissible C li 0 cs (sys_app (nd_sys nd))" and li: "li \<noteq> 0"
    and wrap: "unat (sm_last_seq_num (fst (sys_app (nd_sys nd)))) + length cs < 2 ^ 64"
    and run: "apply_entry C (sys_app (nd_sys nd)) (li, cs) = (Ok (), app')"
  shows "node_inv C view D cfg
       (nd\<lparr>nd_sys := (nd_sys nd)\<lparr>sys_app := app'\<rparr>,
           nd_broker := (nd_broker nd)\<lparr>mb_event_rx := mb_event_rx (nd_broker nd) @
             drop (length (sent_events (nd_sys nd))) (cx_inflight_event_tx (snd app'))\<rparr>\<rparr>)"
proof -
  from inv have s: "reachable C view cfg (nd_sys nd)" by (simp add: node_inv_def)
  note ev = crates_spec.entry_events_ok [where lg = "nd_log nd", OF C s cfg run adm wrap lg]
  have "reachable C view cfg ((nd_sys nd)\<lparr>sys_app := app'\<rparr>)"
    by (rule reachable.step [OF s wallet_step.entry [OF adm li wrap run]])
  with inv ev show ?thesis
    by (auto simp: node_inv_def tasks_inv_def joined_def broker_all_def broker_wf_def request_positions_def
        times_ok_def registered_def senders_def)
qed

lemma node_inv_broker:
  assumes inv: "node_inv C view D cfg nd"
    and run: "broker_round (nd_clock nd) (nd_broker nd) = (Ok mb' :: (unit, message_broker) res)"
  shows "node_inv C view D cfg (nd\<lparr>nd_broker := mb'\<rparr>)"
proof -
  from inv have wf: "broker_wf (nd_broker nd)" "times_ok (nd_clock nd) (nd_broker nd)" and j: "joined nd"
    by (simp_all add: node_inv_def)
  from broker_round_once [OF wf, where 'e = unit] run have
    "broker_wf mb'" "times_ok (nd_clock nd) mb'" "senders mb' = senders (nd_broker nd)" by auto
  moreover have "broker_all (event_ok (nd_log nd)) (sender_ok (nd_tasks nd) (nd_acked nd)) mb'"
    by (rule broker_round_all [OF j [unfolded joined_def] _ run]) (simp add: event_ok_def timeout_event_def)
  ultimately show ?thesis using inv by (simp add: node_inv_def tasks_inv_def joined_def registered_def)
qed

lemma node_inv_deliver:
  assumes inv: "node_inv C view D cfg nd" and n: "nd_tasks nd n = Some (p, Await pos k)"
    and reply: "(n, ev) \<in> set (mb_replies (nd_broker nd))"
  shows "node_inv C view D cfg (nd\<lparr>nd_tasks := (nd_tasks nd)(n \<mapsto> (p, k (Some ev)))\<rparr>)"
proof -
  from inv have j: "joined nd" and "task_ok C D (nd_log nd) p (Await pos k)"
    using n by (auto simp: node_inv_def tasks_inv_def)
  then obtain now li off where aw: "Await pos k = awaiting D p li off"
    and lc: "log_command (nd_log nd) (Position li off) = Some (from_payload now p)"
    by (auto simp: task_ok_def dest: sym)
  have pos: "pos = Position li off" using awaiting_eq [of D p li off] aw by auto
  from j reply have so: "sender_ok (nd_tasks nd) (nd_acked nd) n (ie_position ev)" and eo: "event_ok (nd_log nd) ev"
    unfolding joined_def broker_all_def by auto
  from so n have at: "ie_position ev = pos" by (simp add: sender_ok_def)
  obtain r where r: "k (Some ev) = Reply r" "response_ok p r"
  proof (cases "ie_event ev")
    case (Ok e)
    with eo at pos lc have "answers (from_payload now p) e" by (auto simp: event_ok_def)
    then have "eh_command_id (ev_get_header e) = payload_command_id p" "\<exists>q. ev_get_event e = Some q \<and> kinds_match p q"
      by (auto simp: answers_def)
    with Ok aw that show ?thesis
      by (auto simp: awaiting_def wait_for_response_def on_result_def response_ok_def)
  next
    case (Err e)
    with aw that show ?thesis
      by (auto simp: awaiting_def wait_for_response_def on_result_def response_ok_def)
  next
    case Panic
    with eo show ?thesis by (simp add: event_ok_def)
  qed
  have "sender_ok ((nd_tasks nd)(n \<mapsto> (p, Reply r))) (nd_acked nd) m pos'"
    if "sender_ok (nd_tasks nd) (nd_acked nd) m pos'" for m pos'
    using that by (cases "m = n") (simp_all add: sender_ok_def)
  then have "joined (nd\<lparr>nd_tasks := (nd_tasks nd)(n \<mapsto> (p, Reply r))\<rparr>)"
    using broker_all_mono [OF j [unfolded joined_def]] by (simp add: joined_def)
  with inv r show ?thesis by (auto simp: node_inv_def tasks_inv_def registered_def task_ok_def)
qed

lemma node_reachable_inv:
  assumes C: "crates_spec C val view" and cfg: "legal_percentage (percentage cfg)"
    and nd: "node_reachable C view D cfg nd"
  shows "node_inv C view D cfg nd"
  using nd
proof (induction rule: node_reachable.induct)
  case (init db mem env now app clock)
  then show ?case by (intro node_inv_init reachable.init)
next
  case (step nd nd')
  have proto: "proto_spec (c_proto C)" using C by (simp add: crates_spec_def)
  note IH = step.IH
  from step(2) show ?case
  proof (cases rule: node_step.cases)
    case (call n p now)
    from node_inv_call [OF IH call(2)] call(1) show ?thesis by simp
  next
    case (queue_error n p bs k e)
    from node_inv_queue_error [OF IH queue_error(2)] queue_error(1) show ?thesis by simp
  next
    case (commit li cs)
    from node_inv_commit [OF IH commit(2)] commit(1) show ?thesis by simp
  next
    case (queue_ok n p bs k li cs off pos k')
    from node_inv_queue_ok [OF proto IH queue_ok(2-7)] queue_ok(1) show ?thesis by simp
  next
    case (apply_log li cs app')
    from node_inv_apply [OF C cfg IH apply_log(2-6)] apply_log(1) show ?thesis by simp
  next
    case (background s')
    with IH show ?thesis
      by (auto simp: node_inv_def tasks_inv_def joined_def registered_def intro: reachable.step)
  next
    case (broker mb')
    from node_inv_broker [OF IH broker(2)] broker(1) show ?thesis by simp
  next
    case (deliver n p pos k ev)
    from node_inv_deliver [OF IH deliver(2,3)] deliver(1) show ?thesis by simp
  next
    case tick
    with IH show ?thesis
      by (auto simp: node_inv_def tasks_inv_def joined_def registered_def times_ok_def intro: le_SucI)
  next
    case (restart mem env now app')
    from IH have s: "reachable C view cfg (nd_sys nd)" by (simp add: node_inv_def)
    have "reachable C view cfg \<lparr>sys_app = app', sys_gc = GcIdle\<rparr>"
      by (rule reachable.step [OF s wallet_step.restart [OF restart(2,3)]])
    from node_inv_init [OF this, of D "nd_log nd" "nd_clock nd"] restart(1) show ?thesis
      by (simp add: node_inv_def tasks_inv_def joined_def registered_def)
  qed
qed

end
