(* ===== verification/Service_Properties.thy ===== *)
theory Service_Properties
  imports Service_System Example_Run
begin

text \<open>
  What the gRPC service promises its clients: the ranges of events it returns, and the reads of
  accounts and balances.
\<close>

section \<open>Reading a reachable database\<close>

lemma reachable_reads:
  assumes C: "crates_spec C val view" and cfg: "legal_percentage (percentage gcfg)"
    and s: "reachable C view gcfg s"
  obtains D where "represents (c_proto C) (view (sys_db s)) D" "event_log_ok D (persisted_last D)"
proof -
  from crates_spec.reachable_inv [OF C s cfg] obtain D W where
    "system_inv (c_proto C) (decimal_value (c_bigdecimal C) val) view gcfg s D W" by blast
  then have inv: "core_inv (c_proto C) (decimal_value (c_bigdecimal C) val) view D W (sys_app s)"
    and log: "event_log_ok D (persisted_last D)" by (simp_all add: system_inv_def batch_ok_def)
  show thesis using that [OF _ log] core_invD(1) [OF inv] by (simp add: sys_db_def)
qed

lemma reachable_event_read:
  assumes "crates_spec C val view" "legal_percentage (percentage gcfg)" "reachable C view gcfg s"
  shows "read_event_from_db C (sys_db s) n = (Ok None :: (unit, event option) res) \<or>
      (\<exists>e. read_event_from_db C (sys_db s) n = (Ok (Some e) :: (unit, event option) res) \<and>
        eh_seq_num (ev_get_header e) = n)"
proof -
  obtain D where D: "represents (c_proto C) (view (sys_db s)) D" "event_log_ok D (persisted_last D)"
    using reachable_reads [OF assms] by blast
  show ?thesis
    using crates_spec.read_event [OF assms(1) D(1), of n] event_log_okD(3) [OF D(2), of n]
    by (cases "wd_events D n") auto
qed

lemma reachable_hard_states:
  assumes "crates_spec C val view" "legal_percentage (percentage gcfg)" "reachable C view gcfg s"
  shows "\<exists>pf. read_hard_state_from_db C (sys_db s) PERSISTED_FIRST_SEQ_NUM = (Ok pf :: (unit, u64) res)"
    "\<exists>pl. read_hard_state_from_db C (sys_db s) PERSISTED_LAST_SEQ_NUM = (Ok pl :: (unit, u64) res)"
proof -
  obtain D where D: "represents (c_proto C) (view (sys_db s)) D" "event_log_ok D (persisted_last D)"
    using reachable_reads [OF assms] by blast
  show "\<exists>pf. read_hard_state_from_db C (sys_db s) PERSISTED_FIRST_SEQ_NUM = (Ok pf :: (unit, u64) res)"
    "\<exists>pl. read_hard_state_from_db C (sys_db s) PERSISTED_LAST_SEQ_NUM = (Ok pl :: (unit, u64) res)"
    using crates_spec.read_hard_state [OF assms(1) D(1)] by blast+
qed

lemma reachable_event_present:
  assumes "crates_spec C val view" "legal_percentage (percentage gcfg)" "reachable C view gcfg s"
    and "read_hard_state_from_db C (sys_db s) PERSISTED_FIRST_SEQ_NUM = (Ok pf :: (unit, u64) res)"
    and "read_hard_state_from_db C (sys_db s) PERSISTED_LAST_SEQ_NUM = (Ok pl :: (unit, u64) res)"
    and "0 < n" "pf \<le> n" "n \<le> pl"
  shows "read_event_from_db C (sys_db s) n \<noteq> (Ok None :: (unit, event option) res)"
proof -
  obtain D where D: "represents (c_proto C) (view (sys_db s)) D" "event_log_ok D (persisted_last D)"
    using reachable_reads [OF assms(1-3)] by blast
  have "pf = get_or_default 0 (wd_first_seq D)" "pl = persisted_last D"
    using assms(4,5) by (simp_all add: crates_spec.read_hard_state [OF assms(1) D(1)] persisted_last_def)
  then have "wd_events D n \<noteq> None" using event_log_okD(4) [OF D(2), of n] assms(6-8) by simp
  then show ?thesis by (simp add: crates_spec.read_event [OF assms(1) D(1)])
qed

section \<open>QueryEvents\<close>

lemma query_count_bound:
  fixes f l mx :: u64
  assumes "f \<noteq> 0" "unat f + unat mx < 2 ^ 64" "l \<le> f + mx - 1"
  shows "length (index_range f (l + 1)) \<le> unat mx"
proof -
  have pos: "0 < unat f" using assms(1) by (metis gr0I unat_eq_zero)
  have sum: "unat (f + mx) = unat f + unat mx" using assms(2) by (simp add: unat_word_ariths)
  have nz: "f + mx \<noteq> 0"
  proof
    assume "f + mx = 0"
    then have "unat (f + mx) = 0" by simp
    with sum pos show False by linarith
  qed
  have "unat l \<le> unat (f + mx - 1)" using assms(3) by (simp only: word_le_nat_alt)
  then have "unat l + 1 \<le> unat f + unat mx" using unat_minus_one [OF nz] sum pos by linarith
  moreover have "unat (l + 1) \<le> unat l + 1" by (simp add: unat_word_ariths)
  ultimately show ?thesis by simp
qed

definition in_range :: "query_events_request \<Rightarrow> u64 \<Rightarrow> u64 \<Rightarrow> bool" where
  "in_range request pf pl \<longleftrightarrow> qe_first_seq_num request \<noteq> 0 \<and>
     qe_first_seq_num request \<le> qe_last_seq_num request \<and> pf \<le> qe_first_seq_num request \<and>
     qe_first_seq_num request \<le> pl"

definition last_in_range :: "wallet_service_config \<Rightarrow> query_events_request \<Rightarrow> u64 \<Rightarrow> u64" where
  "last_in_range cfg request pl =
     min (min (qe_last_seq_num request)
            (qe_first_seq_num request + query_events_max_count cfg - 1)) pl"

lemma query_events_cases:
  assumes reads: "\<And>k n. read_event_from_db C (dbs k) n = (Ok None :: (unit, event option) res) \<or>
      (\<exists>e. read_event_from_db C (dbs k) n = (Ok (Some e) :: (unit, event option) res) \<and>
        eh_seq_num (ev_get_header e) = n)"
    and pf: "read_hard_state_from_db C (dbs 1) PERSISTED_FIRST_SEQ_NUM = (Ok pf :: (unit, u64) res)"
    and pl: "read_hard_state_from_db C (dbs 0) PERSISTED_LAST_SEQ_NUM = (Ok pl :: (unit, u64) res)"
    and bound: "unat (qe_first_seq_num request) + unat (query_events_max_count cfg) < 2 ^ 64"
  obtains r where "query_events C cfg dbs request = Some (Ok r)" "qer_error r \<noteq> None" "qer_events r = []"
      "qer_persisted_first_seq_num r = pf" "qer_persisted_last_seq_num r = pl"
      "in_range request pf pl \<Longrightarrow> \<exists>k n. qe_first_seq_num request \<le> n \<and> n \<le> last_in_range cfg request pl \<and>
        read_event_from_db C (dbs k) n = (Ok None :: (unit, event option) res)"
  | es where "query_events C cfg dbs request = Some (Ok
        \<lparr>qer_error = None, qer_first_seq_num = qe_first_seq_num request,
         qer_last_seq_num = last_in_range cfg request pl, qer_events = es,
         qer_persisted_first_seq_num = pf, qer_persisted_last_seq_num = pl\<rparr>)"
      "in_range request pf pl"
      "map (\<lambda>e. eh_seq_num (ev_get_header e)) es =
        index_range (qe_first_seq_num request) (last_in_range cfg request pl + 1)"
      "\<forall>i < length es. read_event_from_db C (dbs (2 + i)) (qe_first_seq_num request + of_nat i) =
        (Ok (Some (es ! i)) :: (unit, event option) res)"
proof (cases "in_range request pf pl")
  case False
  then obtain t where "maybe_adjust_query_range (qe_first_seq_num request) (qe_last_seq_num request) pf pl
      (query_events_max_count cfg) = Err (OtherReason t)"
    unfolding maybe_adjust_query_range_def in_range_def by (simp only: if_False)
  with False show ?thesis
    using that(1) pf pl by (simp add: query_events_def query_events_impl_def)
next
  case True
  let ?l = "last_in_range cfg request pl" and ?f = "qe_first_seq_num request"
  have b: "?l \<noteq> - 1" "?f \<le> ?l + 1"
    using query_range_bounds [of ?f "qe_last_seq_num request" pl "query_events_max_count cfg"] True bound
    by (simp_all add: in_range_def last_in_range_def)
  have adj: "maybe_adjust_query_range ?f (qe_last_seq_num request) pf pl (query_events_max_count cfg) = Ok (?f, ?l)"
    using True by (simp add: maybe_adjust_query_range_def in_range_def last_in_range_def)
  from query_events_loop [where dbs = dbs and evs = "[]", OF reads b] show ?thesis
  proof (elim disjE conjE exE)
    assume "query_events_loop C dbs ?l ?f [] = Some (Err LogTruncated)"
    fix k n assume "?f \<le> n" "n \<le> ?l" "read_event_from_db C (dbs k) n = (Ok None :: (unit, event option) res)"
    with \<open>query_events_loop C dbs ?l ?f [] = _\<close> show ?thesis
      using that(1) pf pl adj by (auto simp: query_events_def query_events_impl_def)
  next
    fix es assume "query_events_loop C dbs ?l ?f [] = Some (Ok (?l + 1, [] @ es))"
      "map (\<lambda>e. eh_seq_num (ev_get_header e)) es = index_range ?f (?l + 1)"
      "\<forall>i < length es. read_event_from_db C (dbs (2 + length [] + i)) (?f + of_nat i) =
        (Ok (Some (es ! i)) :: (unit, event option) res)"
    with True show ?thesis
      using that(2) [of es] pf pl adj by (simp add: query_events_def query_events_impl_def)
  qed
qed

text \<open>C33: While the state machine flushes and the collector truncates, a query of events still
  answers: it never panics and its loop ends. It returns either an error and no event, or the
  events of the request from its first number on without a gap, at most the configured count of
  them and none beyond the last persisted one.\<close>

theorem query_events_consistent:
  assumes C: "crates_spec C val view" and legal: "legal_percentage (percentage gcfg)"
    and reach: "\<And>k. reachable C view gcfg (ss k)"
    and bound: "unat (qe_first_seq_num request) + unat (query_events_max_count cfg) < 2 ^ 64"
  shows "\<exists>r. query_events C cfg (\<lambda>k. sys_db (ss k)) request = Some (Ok r) \<and>
    (if qer_error r = None
     then qer_first_seq_num r = qe_first_seq_num request \<and>
       map (\<lambda>e. eh_seq_num (ev_get_header e)) (qer_events r) =
         index_range (qer_first_seq_num r) (qer_last_seq_num r + 1) \<and>
       qer_last_seq_num r \<le> qe_last_seq_num request \<and>
       qer_last_seq_num r \<le> qer_persisted_last_seq_num r \<and>
       length (qer_events r) \<le> unat (query_events_max_count cfg)
     else qer_events r = [])"
proof -
  note reads = reachable_event_read [OF C legal reach]
  obtain pf pl where hs:
    "read_hard_state_from_db C (sys_db (ss 1)) PERSISTED_FIRST_SEQ_NUM = (Ok pf :: (unit, u64) res)"
    "read_hard_state_from_db C (sys_db (ss 0)) PERSISTED_LAST_SEQ_NUM = (Ok pl :: (unit, u64) res)"
    using reachable_hard_states [OF C legal reach] by meson
  from query_events_cases [of C "\<lambda>k. sys_db (ss k)", OF reads hs bound] show ?thesis
  proof cases
    case (1 r)
    then show ?thesis by auto
  next
    case (2 es)
    let ?f = "qe_first_seq_num request" and ?l = "last_in_range cfg request pl"
    have le: "?l \<le> qe_last_seq_num request" "?l \<le> pl" "?l \<le> ?f + query_events_max_count cfg - 1"
      unfolding last_in_range_def
      by (rule order_trans [OF min.cobounded1 min.cobounded1] min.cobounded2
          order_trans [OF min.cobounded1 min.cobounded2])+
    have "length es = length (index_range ?f (?l + 1))" using 2(3) by (metis length_map)
    then have "length es \<le> unat (query_events_max_count cfg)"
      using query_count_bound [OF _ bound le(3)] 2(2) by (simp add: in_range_def)
    with 2(1,3) le show ?thesis by simp
  qed
qed

text \<open>C34: On a quiet wallet a query of events within the persisted range returns exactly the
  persisted events of the range, cut at the configured count and at the last persisted event; a
  query outside the range returns an error.\<close>

theorem query_events_exact:
  assumes C: "crates_spec C val view" and legal: "legal_percentage (percentage gcfg)"
    and reach: "reachable C view gcfg s"
    and pf: "read_hard_state_from_db C (sys_db s) PERSISTED_FIRST_SEQ_NUM = (Ok pf :: (unit, u64) res)"
    and pl: "read_hard_state_from_db C (sys_db s) PERSISTED_LAST_SEQ_NUM = (Ok pl :: (unit, u64) res)"
    and bound: "unat (qe_first_seq_num request) + unat (query_events_max_count cfg) < 2 ^ 64"
  shows "if in_range request pf pl
    then \<exists>es. query_events C cfg (\<lambda>_. sys_db s) request = Some (Ok
        \<lparr>qer_error = None, qer_first_seq_num = qe_first_seq_num request,
         qer_last_seq_num = last_in_range cfg request pl, qer_events = es,
         qer_persisted_first_seq_num = pf, qer_persisted_last_seq_num = pl\<rparr>) \<and>
      map (\<lambda>n. read_event_from_db C (sys_db s) n)
        (index_range (qe_first_seq_num request) (last_in_range cfg request pl + 1)) =
      map (\<lambda>e. Ok (Some e) :: (unit, event option) res) es
    else \<exists>r. query_events C cfg (\<lambda>_. sys_db s) request = Some (Ok r) \<and>
      qer_error r \<noteq> None \<and> qer_events r = []"
proof -
  note reads = reachable_event_read [OF C legal reach]
  let ?f = "qe_first_seq_num request" and ?l = "last_in_range cfg request pl"
  have le: "?l \<le> pl" unfolding last_in_range_def by (rule min.cobounded2)
  from query_events_cases [of C "\<lambda>_. sys_db s", OF reads pf pl bound] show ?thesis
  proof cases
    case (1 r)
    have "\<not> in_range request pf pl"
    proof
      assume ir: "in_range request pf pl"
      from 1(6) [OF this] obtain n where n: "?f \<le> n" "n \<le> ?l"
        "read_event_from_db C (sys_db s) n = (Ok None :: (unit, event option) res)" by blast
      have "0 < n" using ir n(1) by (auto simp: in_range_def word_gt_0)
      moreover have "pf \<le> n" "n \<le> pl"
        using ir n(1) order_trans [OF n(2) le] by (auto simp: in_range_def)
      ultimately show False using reachable_event_present [OF C legal reach pf pl] n(3) by blast
    qed
    with 1 show ?thesis by auto
  next
    case (2 es)
    have len: "length es = length (index_range ?f (?l + 1))" using 2(3) by (metis length_map)
    have "map (\<lambda>n. read_event_from_db C (sys_db s) n) (index_range ?f (?l + 1)) =
        map (\<lambda>e. Ok (Some e) :: (unit, event option) res) es"
      using 2(4) len by (intro nth_equalityI) (simp_all add: index_range_nth)
    with 2(1,2) show ?thesis by auto
  qed
qed

definition ex_query :: query_events_request where
  "ex_query = \<lparr>qe_first_seq_num = 2, qe_last_seq_num = 7\<rparr>"

definition ex_service_cfg :: wallet_service_config where
  "ex_service_cfg = \<lparr>query_events_max_count = 3\<rparr>"

lemma ex_query_bound: "unat (qe_first_seq_num ex_query) + unat (query_events_max_count ex_service_cfg) < 2 ^ 64"
  by (simp add: ex_query_def ex_service_cfg_def)

lemma ex_query_range: "in_range ex_query 0 8" "last_in_range ex_service_cfg ex_query 8 = 4"
  by (simp_all add: in_range_def last_in_range_def ex_query_def ex_service_cfg_def min_def)

theorem query_events_consistent_witness:
  "\<exists>r. query_events ref_crates ex_service_cfg (\<lambda>k. sys_db ex_system8) ex_query = Some (Ok r) \<and>
    length (qer_events r) \<le> 3"
proof -
  from query_events_consistent [OF ref_crates ex_gc_cfg_legal, of "\<lambda>_. ex_system8", OF ex_reachable8 ex_query_bound]
  obtain r where r: "query_events ref_crates ex_service_cfg (\<lambda>k. sys_db ex_system8) ex_query = Some (Ok r)"
    "if qer_error r = None then length (qer_events r) \<le> unat (query_events_max_count ex_service_cfg)
     else qer_events r = []" by (auto split: if_splits)
  then have "length (qer_events r) \<le> 3" by (simp add: ex_service_cfg_def split: if_splits)
  with r(1) show ?thesis by blast
qed

theorem query_events_exact_witness:
  "\<exists>es. query_events ref_crates ex_service_cfg (\<lambda>_. sys_db ex_system8) ex_query = Some (Ok
      \<lparr>qer_error = None, qer_first_seq_num = 2, qer_last_seq_num = 4, qer_events = es,
       qer_persisted_first_seq_num = 0, qer_persisted_last_seq_num = 8\<rparr>) \<and> length es = 3"
proof -
  have len: "length (index_range 2 5) = 3" by simp
  from query_events_exact [OF ref_crates ex_gc_cfg_legal ex_reachable8 ex_hard_states8 ex_query_bound]
  obtain es where "query_events ref_crates ex_service_cfg (\<lambda>_. sys_db ex_system8) ex_query = Some (Ok
      \<lparr>qer_error = None, qer_first_seq_num = 2, qer_last_seq_num = 4, qer_events = es,
       qer_persisted_first_seq_num = 0, qer_persisted_last_seq_num = 8\<rparr>)"
    "map (\<lambda>n. read_event_from_db ref_crates (sys_db ex_system8) n) (index_range 2 5) =
      map (\<lambda>e. Ok (Some e) :: (unit, event option) res) es"
    by (auto simp: ex_query_range) (auto simp: ex_query_def)
  moreover from this(2) len have "length es = 3" by (metis length_map)
  ultimately show ?thesis by blast
qed

text \<open>C39: A configured maximum count near the largest number makes the addition wrap: with the
  largest count, a query that starts at the second event or later and lies within the persisted
  range panics on the assertion after its loop instead of returning the events.\<close>

theorem query_events_count_wraps:
  assumes pf: "read_hard_state_from_db C (dbs 1) PERSISTED_FIRST_SEQ_NUM = (Ok pf :: (unit, u64) res)"
    and pl: "read_hard_state_from_db C (dbs 0) PERSISTED_LAST_SEQ_NUM = (Ok pl :: (unit, u64) res)"
    and range: "in_range request pf pl" "1 < qe_first_seq_num request"
    and max: "query_events_max_count cfg = - 1"
  shows "query_events C cfg dbs request = Some Panic"
proof -
  define f where "f = qe_first_seq_num request"
  have "unat (f - 2) = unat f - 2" and lt: "1 < unat f"
    using range(2) by (simp_all add: f_def word_less_nat_alt unat_sub word_le_nat_alt)
  then have less: "f - 2 < f" by (simp add: word_less_nat_alt)
  have "f \<le> qe_last_seq_num request" "f \<le> pl" using range(1) by (simp_all add: in_range_def f_def)
  with less have le: "f - 2 \<le> qe_last_seq_num request" "f - 2 \<le> pl"
    by (meson less_imp_le order_trans)+
  have "min (min (qe_last_seq_num request) (f - 2)) pl = f - 2"
    using le by (metis min.absorb2 min.absorb1)
  then have adj: "maybe_adjust_query_range f (qe_last_seq_num request) pf pl (- 1) = Ok (f, f - 2)"
    using range(1) by (simp add: maybe_adjust_query_range_def in_range_def f_def)
  have "query_events_loop C dbs (f - 2) f [] = Some (Ok (f, []))"
  proof -
    have "\<not> f \<le> f - 2" using less by (simp only: not_le)
    then show ?thesis by (subst query_events_loop.simps) (simp only: if_False)
  qed
  moreover have "f - 1 \<noteq> f - 2" by simp
  ultimately show ?thesis
    using pf pl adj max by (simp add: query_events_def query_events_impl_def f_def)
qed

theorem query_events_count_wraps_witness:
  "query_events ref_crates \<lparr>query_events_max_count = - 1\<rparr> (\<lambda>_. sys_db ex_system8) ex_query = Some Panic"
  using query_events_count_wraps [of ref_crates "\<lambda>_. sys_db ex_system8", OF ex_hard_states8 ex_query_range(1)]
  by (simp add: ex_query_def)

section \<open>The write RPCs\<close>


definition ex_fmt :: debug_fmt where
  "ex_fmt = \<lparr>fmt_balance = (\<lambda>_. []), fmt_account = (\<lambda>_. []), fmt_common = (\<lambda>_. []), fmt_string = (\<lambda>s. s)\<rparr>"

definition ex_payload :: command_payload where
  "ex_payload = create_account_request
     \<lparr>car_header = Some \<lparr>hd_dedup_id = ''c1'', hd_account_id = ''a''\<rparr>, car_account_config = None\<rparr>"

text \<open>A node that has been asked to create an account; the queue has committed the command.\<close>

definition ex_node :: "ref_db node" where
  "ex_node =
     \<lparr>nd_sys = ex_system,
      nd_broker = broker_new [\<lparr>ir_position = Position 6 0, ir_resp_to = 1, ir_send_time = 0\<rparr>] [],
      nd_tasks = [1 \<mapsto> (ex_payload, awaiting ex_fmt ex_payload 6 0)], nd_log = [6 \<mapsto> [ex_create]],
      nd_acked = {Position 6 0}, nd_clock = 0\<rparr>"

lemma ex_node_reachable: "node_reachable ref_crates map_of ex_fmt ex_cfg ex_node"
proof -
  let ?nd0 = "\<lparr>nd_sys = ex_system, nd_broker = broker_new [] [], nd_tasks = Map.empty, nd_log = Map.empty,
    nd_acked = {}, nd_clock = 0\<rparr>"
  let ?nd1 = "?nd0\<lparr>nd_tasks := [1 \<mapsto> (ex_payload, wallet_rpc ref_crates ex_fmt 0 ex_payload)]\<rparr>"
  let ?nd2 = "?nd1\<lparr>nd_log := [6 \<mapsto> [ex_create]]\<rparr>"
  have 0: "node_reachable ref_crates map_of ex_fmt ex_cfg ?nd0"
    unfolding ex_system_def by (rule node_reachable.init [OF _ ex_start_recover]) (simp_all add: ex_start_def)
  have 1: "node_reachable ref_crates map_of ex_fmt ex_cfg ?nd1"
    using node_reachable.step [OF 0 node_step.call [of ?nd0 1]] by simp
  have 2: "node_reachable ref_crates map_of ex_fmt ex_cfg ?nd2"
    using node_reachable.step [OF 1 node_step.commit [of ?nd1 6]] by simp
  have cmd: "from_payload 0 ex_payload = ex_create"
    by (simp add: from_payload_def ex_payload_def ex_create_def ex_command_def build_command_header_def)
  obtain k where k: "awaiting ex_fmt ex_payload 6 0 = Await (Position 6 0) k"
    using awaiting_eq by blast
  have task: "nd_tasks ?nd2 1 = Some (ex_payload, Send_payload (pb_command_write (c_proto ref_crates) ex_create)
      (\<lambda>result. on_result result (\<lambda>(li, off). awaiting ex_fmt ex_payload li off)
         (\<lambda>e. Reply (error_response ex_payload (common_error_into_proto ex_fmt (MessageQueueError e))))))"
    by (simp add: wallet_rpc_eq cmd)
  have parse: "pb_command_parse (c_proto ref_crates) (pb_command_write (c_proto ref_crates) ex_create) =
      Some ([ex_create] ! unat 0)"
    using ref.command_parse_write [of ex_create] by simp
  from node_reachable.step [OF 2 node_step.queue_ok [where li = 6 and cs = "[ex_create]" and off = 0 and
        pos = "Position 6 0" and k' = k, OF task _ _ parse]]
  show ?thesis by (simp add: on_result_def k ex_node_def broker_new_def)
qed



text \<open>C32: In every reachable state of a node an RPC that waits is known to the broker exactly once,
  as a waiting request or as a reply that was sent, so no request is lost; and a round of the broker
  runs without a panic.\<close>

theorem waiting_rpc_known_once:
  assumes "crates_spec C val view" "legal_percentage (percentage cfg)" "node_reachable C view D cfg nd"
    and "nd_tasks nd n = Some (p, Await pos k)"
  shows "count (senders (nd_broker nd)) n = 1 \<and>
    (\<exists>mb'. broker_round (nd_clock nd) (nd_broker nd) = (Ok mb' :: (unit, message_broker) res) \<and>
      count (senders mb') n = 1)"
proof -
  note inv = node_reachable_inv [OF assms(1-3)]
  then have "registered nd" and wf: "broker_wf (nd_broker nd)" "times_ok (nd_clock nd) (nd_broker nd)"
    by (simp_all add: node_inv_def)
  then have "count (senders (nd_broker nd)) n \<le> 1" "n \<in># senders (nd_broker nd)"
    using assms(4) unfolding registered_def by blast+
  then have one: "count (senders (nd_broker nd)) n = 1"
    using count_greater_zero_iff [of "senders (nd_broker nd)" n] by linarith
  obtain mb' where "broker_round (nd_clock nd) (nd_broker nd) = (Ok mb' :: (unit, message_broker) res)"
    "senders mb' = senders (nd_broker nd)"
    using broker_round_once [OF wf, where 'e = unit] by blast
  with one show ?thesis by auto
qed

theorem waiting_rpc_known_once_witness:
  "count (senders (nd_broker ex_node)) 1 = 1"
proof -
  obtain k where "nd_tasks ex_node 1 = Some (ex_payload, Await (Position 6 0) k)"
    using awaiting_eq [of ex_fmt ex_payload 6 0] by (auto simp: ex_node_def)
  from waiting_rpc_known_once [OF ref_crates ex_cfg_legal ex_node_reachable this] show ?thesis by blast
qed

section \<open>Reads\<close>

lemma increase_balance_change:
  assumes "increase_balance_by calc a amount = Ok (a', ch)"
  shows "bc_curr_balance ch = Some (acc_get_balance a')" "acc_account_id a' = acc_account_id a"
  using assms by (auto simp: increase_balance_by_def bind_res_eq_Ok Let_def)

lemma update_account_simps:
  "sm_accounts (fst (update_account C a app)) = fmupd (acc_account_id a) a (sm_accounts (fst app))"
  "sm_last_seq_num (fst (update_account C a app)) = sm_last_seq_num (fst app)"
  by (simp_all add: update_account_def Let_def split: prod.split)

lemma handle_transfer_Ok:
  assumes "handle_transfer C app r li off = (Ok e, app1)"
  shows "\<exists>ut tc uf fc amount.
    increase_balance_by (calculator_of C) (get_or_create_account (fst app) (ts_to_account_id (get_transfer_spec r)))
      (ts_amount (get_transfer_spec r)) = Ok (ut, tc) \<and>
    increase_balance_by (calculator_of C) (get_or_create_account (fst app) (ts_from_account_id (get_transfer_spec r)))
      amount = Ok (uf, fc) \<and>
    app1 = update_account C uf (update_account C ut (next_seq_num app)) \<and>
    e = build_transfer_event (sm_last_seq_num (fst app) + 1) li off r fc tc"
proof -
  from assms obtain ut tc x uf fc where
    "increase_balance_by (calculator_of C) (get_or_create_account (fst app) (ts_to_account_id (get_transfer_spec r)))
      (ts_amount (get_transfer_spec r)) = Ok (ut, tc)"
    "increase_balance_by (calculator_of C) (get_or_create_account (fst app) (ts_from_account_id (get_transfer_spec r)))
      x = Ok (uf, fc)"
    "app1 = update_account C uf (update_account C ut (next_seq_num app))"
    "e = build_transfer_event (sm_last_seq_num (fst app1)) li off r fc tc"
    by (auto simp: handle_transfer_def Let_def bind_st_eq_Ok)
  then show ?thesis by (auto simp: update_account_simps)
qed

lemma transfer_queried:
  assumes "acc_account_id (get_or_create_account (fst app) from_id) = from_id"
    "acc_account_id (get_or_create_account (fst app) to_id) = to_id"
    and ids: "from_id = ts_from_account_id (get_transfer_spec r)" "to_id = ts_to_account_id (get_transfer_spec r)"
    and ne: "from_id \<noteq> to_id"
    and run: "handle_transfer C app r li off = (Ok e, app1)"
  shows "\<exists>fc tc uf ut. e = build_transfer_event (sm_last_seq_num (fst app) + 1) li off r fc tc \<and>
    sm_last_seq_num (fst app1) = sm_last_seq_num (fst app) + 1 \<and>
    fmlookup (sm_accounts (fst app1)) from_id = Some uf \<and> bc_curr_balance fc = Some (acc_get_balance uf) \<and>
    fmlookup (sm_accounts (fst app1)) to_id = Some ut \<and> bc_curr_balance tc = Some (acc_get_balance ut)"
proof -
  from handle_transfer_Ok [OF run] obtain ut tc uf fc amount where
    t: "increase_balance_by (calculator_of C)
      (get_or_create_account (fst app) (ts_to_account_id (get_transfer_spec r)))
      (ts_amount (get_transfer_spec r)) = Ok (ut, tc)"
    and f: "increase_balance_by (calculator_of C)
      (get_or_create_account (fst app) (ts_from_account_id (get_transfer_spec r))) amount = Ok (uf, fc)"
    and app1: "app1 = update_account C uf (update_account C ut (next_seq_num app))"
    and e: "e = build_transfer_event (sm_last_seq_num (fst app) + 1) li off r fc tc" by blast
  have "acc_account_id uf = from_id" "acc_account_id ut = to_id"
    using increase_balance_change(2) [OF f] increase_balance_change(2) [OF t] assms(1,2) ids by simp_all
  with increase_balance_change(1) [OF f] increase_balance_change(1) [OF t] app1 e ne show ?thesis
    by (intro exI [of _ fc] exI [of _ tc] exI [of _ uf] exI [of _ ut]) (simp add: update_account_simps)
qed

context crates_spec
begin

lemma executed_command:
  assumes "Inv Db W app" "event_log_ok W (sm_last_seq_num (fst app))" "cmd_request c = Some p" "payload_utf8 p"
    and run: "handle_command C app li off c = (Ok (), app')"
    and new: "sm_last_seq_num (fst app') \<noteq> sm_last_seq_num (fst app)"
  shows "\<exists>ws q ev. dispatch C app li off p = (Ok (event_of_payload q), fold (do_write C) ws (next_seq_num app)) \<and>
    ev = event_for c li off (sm_last_seq_num (fst app) + 1) q \<and>
    app' = send_event (Position li off) (Ok ev) (update_seq_num_and_event C (command_id c) ev
      (fold (do_write C) ws (next_seq_num app)))"
  using assms(1-4)
proof (cases rule: handle_command_cases [where li = li and off = off])
  case (dup n e)
  with run new show ?thesis by (auto simp: send_event_def split: prod.splits)
next
  case (err e)
  with run new show ?thesis by (auto simp: send_event_def split: prod.splits)
next
  case (ok ws q ev)
  with run show ?thesis by auto
qed

end

text \<open>C35: A client reads what its transfer wrote: the response of an executed transfer between two
  accounts reports the sequence number of the event and the two new balances, and a query with that
  sequence number, right after, returns exactly these balances.\<close>

theorem transfer_response_matches_query:
  assumes C: "crates_spec C val view" and legal: "legal_percentage (percentage cfg)"
    and s: "reachable C view cfg s"
    and p: "cmd_request c = Some (transfer_request r)" "payload_utf8 (transfer_request r)"
    and ids: "from_id = ts_from_account_id (get_transfer_spec r)" "to_id = ts_to_account_id (get_transfer_spec r)"
      "from_id \<noteq> to_id"
    and run: "handle_command C (sys_app s) li off c = (Ok (), app')"
    and new: "sm_last_seq_num (fst app') \<noteq> sm_last_seq_num (fst (sys_app s))"
  shows "\<exists>ev fc tc. sent_events (s\<lparr>sys_app := app'\<rparr>) =
      sent_events s @ [\<lparr>ie_position = Position li off, ie_event = Ok ev\<rparr>] \<and>
    get_transfer_event ev = \<lparr>trr_error = None,
      trr_header = Some (build_response_header (sm_last_seq_num (fst app')) li off),
      trr_request = Some r, trr_from = Some fc, trr_to = Some tc\<rparr> \<and>
    query_balance_rpc D (fst app') \<lparr>qb_account_id = from_id, qb_seq_num = sm_last_seq_num (fst app')\<rparr> =
      \<lparr>qbr_error = None, qbr_seq_num = sm_last_seq_num (fst app'), qbr_account_id = from_id,
       qbr_balance = bc_curr_balance fc\<rparr> \<and>
    query_balance_rpc D (fst app') \<lparr>qb_account_id = to_id, qb_seq_num = sm_last_seq_num (fst app')\<rparr> =
      \<lparr>qbr_error = None, qbr_seq_num = sm_last_seq_num (fst app'), qbr_account_id = to_id,
       qbr_balance = bc_curr_balance tc\<rparr>"
proof -
  from crates_spec.reachable_inv [OF C s legal] obtain Db W where
    "system_inv (c_proto C) (decimal_value (c_bigdecimal C) val) view cfg s Db W" by blast
  then have inv: "core_inv (c_proto C) (decimal_value (c_bigdecimal C) val) view Db W (sys_app s)"
    and log: "event_log_ok W (sm_last_seq_num (fst (sys_app s)))" by (simp_all add: system_inv_def)
  let ?app = "sys_app s"
  from crates_spec.executed_command [OF C inv log p run new] obtain ws q ev where
    d: "handle_transfer C ?app r li off = (Ok (event_of_payload q), fold (do_write C) ws (next_seq_num ?app))"
    and ev: "ev = event_for c li off (sm_last_seq_num (fst ?app) + 1) q"
    and app': "app' = send_event (Position li off) (Ok ev) (update_seq_num_and_event C (command_id c) ev
         (fold (do_write C) ws (next_seq_num ?app)))" by auto
  have accs: "accounts_ok (decimal_value (c_bigdecimal C) val) (sm_accounts (fst ?app))"
    using core_invD(3) [OF inv] .
  have own: "acc_account_id (get_or_create_account (fst ?app) i) = i" if "i = from_id \<or> i = to_id" for i
    using crates_spec.get_or_create_ok(2) [OF C accs, of i] that p(2) ids(1,2) by (auto simp: payload_utf8_def)
  from transfer_queried [OF own own ids d] obtain fc tc uf ut where
    q: "event_of_payload q = build_transfer_event (sm_last_seq_num (fst ?app) + 1) li off r fc tc"
    and seq: "sm_last_seq_num (fst (fold (do_write C) ws (next_seq_num ?app))) = sm_last_seq_num (fst ?app) + 1"
    and look: "fmlookup (sm_accounts (fst (fold (do_write C) ws (next_seq_num ?app)))) from_id = Some uf"
      "bc_curr_balance fc = Some (acc_get_balance uf)"
      "fmlookup (sm_accounts (fst (fold (do_write C) ws (next_seq_num ?app)))) to_id = Some ut"
      "bc_curr_balance tc = Some (acc_get_balance ut)" by auto
  have fst': "sm_accounts (fst app') = sm_accounts (fst (fold (do_write C) ws (next_seq_num ?app)))"
    "sm_last_seq_num (fst app') = sm_last_seq_num (fst ?app) + 1"
    using seq by (simp_all add: app' send_event_def update_seq_num_and_event_def Let_def case_prod_beta)
  have tx: "cx_inflight_event_tx (snd app') =
      cx_inflight_event_tx (snd ?app) @ [\<lparr>ie_position = Position li off, ie_event = Ok ev\<rparr>]"
    using fold_do_write_tx [of C ws ?app]
    by (simp add: app' send_event_def update_seq_num_and_event_def Let_def case_prod_beta)
  have "ev_get_event ev = ev_get_event (event_of_payload q)" by (simp add: ev event_for_def)
  then have "get_transfer_event ev = \<lparr>trr_error = None,
      trr_header = Some (build_response_header (sm_last_seq_num (fst app')) li off),
      trr_request = Some r, trr_from = Some fc, trr_to = Some tc\<rparr>"
    unfolding q by (simp add: get_transfer_event_def build_transfer_event_def fst'(2))
  with tx look fst'(1) show ?thesis
    by (intro exI [of _ ev] exI [of _ fc] exI [of _ tc]) (simp add: query_balance_rpc_def)
qed

theorem transfer_response_matches_query_witness:
  "\<exists>b. query_balance_rpc ex_fmt (fst (snd (handle_command ref_crates ex_app1 7 0 (ex_transfer ''a'' ''b''))))
      \<lparr>qb_account_id = ''b'', qb_seq_num = 2\<rparr> =
    \<lparr>qbr_error = None, qbr_seq_num = 2, qbr_account_id = ''b'', qbr_balance = b\<rparr>"
proof -
  let ?r = "\<lparr>tr_dedup_id = ''t1'', tr_transfer_spec = Some
      \<lparr>ts_amount = ''10'', ts_from_account_id = ''a'', ts_to_account_id = ''b'', ts_metadata = []\<rparr>\<rparr>"
  let ?app = "snd (handle_command ref_crates ex_app1 7 0 (ex_transfer ''a'' ''b''))"
  have p: "cmd_request (ex_transfer ''a'' ''b'') = Some (transfer_request ?r)" "payload_utf8 (transfer_request ?r)"
    by (simp_all add: ex_transfer_def payload_utf8_def as_bytes_def byte_of_def get_transfer_spec_def)
  have run: "handle_command ref_crates (sys_app ex_system1) 7 0 (ex_transfer ''a'' ''b'') = (Ok (), ?app)"
    using ex_transfer_runs(1) [of "''b''"] by (simp add: ex_system1_def prod_eq_iff)
  have seq: "sm_last_seq_num (fst ?app) = 2"
    by (simp add: run_simps ex_transfer_def get_transfer_spec_def get_or_create_account_def
        account_simps case_prod_beta)
  from transfer_response_matches_query [OF ref_crates ex_cfg_legal ex_reachable1 p, of "''a''" "''b''", OF _ _ _ run]
  show ?thesis by (auto simp: seq get_transfer_spec_def ex_system1_def)
qed

end
