(* ===== verification/Raft_Proto.thy ===== *)
theory Raft_Proto
  imports Crates
begin

text \<open>
  The messages of the message queue, from \<^verbatim>\<open>dependencies/tiny-mq/kvproto/proto\<close> and its
  \<^verbatim>\<open>include/eraftpb.proto\<close>: one record per message and one datatype per enum, as in
  \<open>Proto\<close>. Messages with a single field, and those without one, are that field and \<open>unit\<close>.
  The encoders and decoders are generated code, so they are the record \<open>raft_proto\<close> of functions,
  with the round trip they promise as a locale.
\<close>

section \<open>metapb\<close>

record region_epoch =
  re_conf_ver :: u64
  re_version :: u64

datatype peer_role = Voter | Learner | IncomingVoter | DemotingVoter

record peer =
  pr_id :: u64
  pr_store_id :: u64
  pr_role :: peer_role

record region =
  rg_id :: u64
  rg_start_key :: bytes
  rg_end_key :: bytes
  rg_region_epoch :: "region_epoch option"
  rg_peers :: "peer list"

section \<open>eraftpb\<close>

datatype entry_type = EntryNormal | EntryConfChange | EntryConfChangeV2

record entry =
  ent_entry_type :: entry_type
  ent_term :: u64
  ent_index :: u64
  ent_data :: bytes
  ent_context :: bytes
  ent_sync_log :: bool

record hard_state =
  hst_term :: u64
  hst_vote :: u64
  hst_commit :: u64

record conf_state =
  cst_voters :: "u64 list"
  cst_learners :: "u64 list"
  cst_voters_outgoing :: "u64 list"
  cst_learners_next :: "u64 list"
  cst_auto_leave :: bool

section \<open>raft_serverpb\<close>

record raft_truncated_state =
  rts_index :: u64
  rts_term :: u64

record store_ident =
  si_cluster_id :: u64
  si_store_id :: u64

record raft_local_state =
  rlo_hard_state :: "hard_state option"
  rlo_last_index :: u64

record raft_apply_state =
  ras_applied_index :: u64
  ras_last_commit_index :: u64
  ras_commit_index :: u64
  ras_commit_term :: u64
  ras_truncated_state :: "raft_truncated_state option"

record region_local_state =
  rgl_region :: "region option"

section \<open>kvrpcpb\<close>

record mq_context =
  mqc_region_id :: u64
  mqc_peer :: "peer option"
  mqc_term :: u64

record message_queue_request =
  mqr_context :: "mq_context option"
  mqr_payload :: bytes

record message_queue_response =
  mqs_index :: u64
  mqs_offset :: u64
  mqs_error :: string

section \<open>errorpb\<close>

record not_leader_error =
  nle_region_id :: u64
  nle_leader :: "peer option"

record store_not_match_error =
  snm_request_store_id :: u64
  snm_actual_store_id :: u64

record server_is_busy_error =
  sib_reason :: string
  sib_backoff_ms :: u64

record entry_too_large_error =
  etl_region_id :: u64
  etl_entry_size :: u64

record region_error =
  rer_message :: string
  rer_not_leader :: "not_leader_error option"
  rer_region_not_found :: "u64 option"
  rer_server_is_busy :: "server_is_busy_error option"
  rer_stale_command :: "unit option"
  rer_store_not_match :: "store_not_match_error option"
  rer_raft_entry_too_large :: "entry_too_large_error option"
  rer_region_not_initialized :: "u64 option"

section \<open>raft_cmdpb\<close>

datatype cmd_type = InvalidCmd | MessageQueue

record request =
  rq_cmd_type :: cmd_type
  rq_message_queue :: "message_queue_request option"

record response =
  rs_cmd_type :: cmd_type
  rs_message_queue :: "message_queue_response option"

record compact_log_request =
  clr_compact_index :: u64
  clr_compact_term :: u64

datatype admin_cmd_type = InvalidAdmin | CompactLog

record admin_request =
  adq_cmd_type :: admin_cmd_type
  adq_compact_log :: "compact_log_request option"

record admin_response =
  ads_cmd_type :: admin_cmd_type
  ads_compact_log :: "unit option"

datatype status_cmd_type = InvalidStatus | RegionLeader | RegionDetail

record status_request =
  stq_cmd_type :: status_cmd_type
  stq_region_leader :: "unit option"
  stq_region_detail :: "unit option"

record region_leader_response =
  rlr_leader :: "peer option"

record region_detail_response =
  rdr_region :: "region option"
  rdr_leader :: "peer option"

record status_response =
  sts_cmd_type :: status_cmd_type
  sts_region_leader :: "region_leader_response option"
  sts_region_detail :: "region_detail_response option"

record raft_request_header =
  rqh_region_id :: u64
  rqh_peer :: "peer option"
  rqh_uuid :: bytes
  rqh_term :: u64

record raft_response_header =
  rsh_error :: "region_error option"
  rsh_uuid :: bytes
  rsh_current_term :: u64

record raft_cmd_request =
  rcq_header :: "raft_request_header option"
  rcq_requests :: "request list"
  rcq_admin_request :: "admin_request option"
  rcq_status_request :: "status_request option"

record raft_cmd_response =
  rcs_header :: "raft_response_header option"
  rcs_responses :: "response list"
  rcs_admin_response :: "admin_response option"
  rcs_status_response :: "status_response option"

section \<open>Default instances\<close>

definition default_region_epoch :: region_epoch where
  "default_region_epoch = \<lparr>re_conf_ver = 0, re_version = 0\<rparr>"

definition default_peer :: peer where
  "default_peer = \<lparr>pr_id = 0, pr_store_id = 0, pr_role = Voter\<rparr>"

definition default_region :: region where
  "default_region =
     \<lparr>rg_id = 0, rg_start_key = [], rg_end_key = [], rg_region_epoch = None,
      rg_peers = []\<rparr>"

definition default_hard_state :: hard_state where
  "default_hard_state = \<lparr>hst_term = 0, hst_vote = 0, hst_commit = 0\<rparr>"

definition default_conf_state :: conf_state where
  "default_conf_state =
     \<lparr>cst_voters = [], cst_learners = [], cst_voters_outgoing = [],
      cst_learners_next = [], cst_auto_leave = False\<rparr>"

definition default_raft_truncated_state :: raft_truncated_state where
  "default_raft_truncated_state = \<lparr>rts_index = 0, rts_term = 0\<rparr>"

definition default_raft_local_state :: raft_local_state where
  "default_raft_local_state = \<lparr>rlo_hard_state = None, rlo_last_index = 0\<rparr>"

definition default_raft_apply_state :: raft_apply_state where
  "default_raft_apply_state =
     \<lparr>ras_applied_index = 0, ras_last_commit_index = 0, ras_commit_index = 0,
      ras_commit_term = 0, ras_truncated_state = None\<rparr>"

definition default_mq_context :: mq_context where
  "default_mq_context = \<lparr>mqc_region_id = 0, mqc_peer = None, mqc_term = 0\<rparr>"

definition default_message_queue_request :: message_queue_request where
  "default_message_queue_request = \<lparr>mqr_context = None, mqr_payload = []\<rparr>"

definition default_message_queue_response :: message_queue_response where
  "default_message_queue_response = \<lparr>mqs_index = 0, mqs_offset = 0, mqs_error = []\<rparr>"

definition default_not_leader_error :: not_leader_error where
  "default_not_leader_error = \<lparr>nle_region_id = 0, nle_leader = None\<rparr>"

definition default_store_not_match_error :: store_not_match_error where
  "default_store_not_match_error = \<lparr>snm_request_store_id = 0,
      snm_actual_store_id = 0\<rparr>"

definition default_server_is_busy_error :: server_is_busy_error where
  "default_server_is_busy_error = \<lparr>sib_reason = [], sib_backoff_ms = 0\<rparr>"

definition default_entry_too_large_error :: entry_too_large_error where
  "default_entry_too_large_error = \<lparr>etl_region_id = 0, etl_entry_size = 0\<rparr>"

definition default_region_error :: region_error where
  "default_region_error =
     \<lparr>rer_message = [], rer_not_leader = None, rer_region_not_found = None,
      rer_server_is_busy = None, rer_stale_command = None, rer_store_not_match = None,
      rer_raft_entry_too_large = None, rer_region_not_initialized = None\<rparr>"

definition default_request :: request where
  "default_request = \<lparr>rq_cmd_type = InvalidCmd, rq_message_queue = None\<rparr>"

definition default_response :: response where
  "default_response = \<lparr>rs_cmd_type = InvalidCmd, rs_message_queue = None\<rparr>"

definition default_compact_log_request :: compact_log_request where
  "default_compact_log_request = \<lparr>clr_compact_index = 0, clr_compact_term = 0\<rparr>"

definition default_admin_request :: admin_request where
  "default_admin_request = \<lparr>adq_cmd_type = InvalidAdmin, adq_compact_log = None\<rparr>"

definition default_admin_response :: admin_response where
  "default_admin_response = \<lparr>ads_cmd_type = InvalidAdmin, ads_compact_log = None\<rparr>"

definition default_status_request :: status_request where
  "default_status_request =
     \<lparr>stq_cmd_type = InvalidStatus, stq_region_leader = None,
      stq_region_detail = None\<rparr>"

definition default_region_leader_response :: region_leader_response where
  "default_region_leader_response = \<lparr>rlr_leader = None\<rparr>"

definition default_region_detail_response :: region_detail_response where
  "default_region_detail_response = \<lparr>rdr_region = None, rdr_leader = None\<rparr>"

definition default_status_response :: status_response where
  "default_status_response =
     \<lparr>sts_cmd_type = InvalidStatus, sts_region_leader = None,
      sts_region_detail = None\<rparr>"

definition default_raft_request_header :: raft_request_header where
  "default_raft_request_header =
     \<lparr>rqh_region_id = 0, rqh_peer = None, rqh_uuid = [], rqh_term = 0\<rparr>"

definition default_raft_response_header :: raft_response_header where
  "default_raft_response_header = \<lparr>rsh_error = None, rsh_uuid = [],
      rsh_current_term = 0\<rparr>"

definition default_raft_cmd_request :: raft_cmd_request where
  "default_raft_cmd_request =
     \<lparr>rcq_header = None, rcq_requests = [], rcq_admin_request = None,
      rcq_status_request = None\<rparr>"

definition default_raft_cmd_response :: raft_cmd_response where
  "default_raft_cmd_response =
     \<lparr>rcs_header = None, rcs_responses = [], rcs_admin_response = None,
      rcs_status_response = None\<rparr>"

section \<open>Accessors\<close>

text \<open>The accessors \<open>get_*\<close> of the generated code return the default instance for an unset field.\<close>

definition get_hard_state :: "raft_local_state \<Rightarrow> hard_state" where
  "get_hard_state s = get_or_default default_hard_state (rlo_hard_state s)"

definition get_truncated_state :: "raft_apply_state \<Rightarrow> raft_truncated_state" where
  "get_truncated_state s = get_or_default default_raft_truncated_state (ras_truncated_state s)"

definition get_request_header :: "raft_cmd_request \<Rightarrow> raft_request_header" where
  "get_request_header r = get_or_default default_raft_request_header (rcq_header r)"

definition get_response_header :: "raft_cmd_response \<Rightarrow> raft_response_header" where
  "get_response_header r = get_or_default default_raft_response_header (rcs_header r)"

definition get_message_queue :: "request \<Rightarrow> message_queue_request" where
  "get_message_queue r = get_or_default default_message_queue_request (rq_message_queue r)"

definition get_header_peer :: "raft_request_header \<Rightarrow> peer" where
  "get_header_peer h = get_or_default default_peer (rqh_peer h)"

lemmas raft_getters = get_hard_state_def get_truncated_state_def get_request_header_def
  get_response_header_def get_message_queue_def get_header_peer_def

text \<open>\<open>mut_header\<close> of a response: it sets the default instance first where the field is unset.\<close>

definition map_response_header ::
    "(raft_response_header \<Rightarrow> raft_response_header) \<Rightarrow> raft_cmd_response \<Rightarrow> raft_cmd_response" where
  "map_response_header f r = r\<lparr>rcs_header := Some (f (get_response_header r))\<rparr>"

section \<open>Wire format\<close>

record raft_proto =
  rp_entry_write :: "entry \<Rightarrow> bytes"
  rp_entry_parse :: "bytes \<Rightarrow> entry option"
  rp_local_state_write :: "raft_local_state \<Rightarrow> bytes"
  rp_local_state_parse :: "bytes \<Rightarrow> raft_local_state option"
  rp_apply_state_write :: "raft_apply_state \<Rightarrow> bytes"
  rp_apply_state_parse :: "bytes \<Rightarrow> raft_apply_state option"
  rp_region_state_write :: "region_local_state \<Rightarrow> bytes"
  rp_region_state_parse :: "bytes \<Rightarrow> region_local_state option"
  rp_store_ident_write :: "store_ident \<Rightarrow> bytes"
  rp_store_ident_parse :: "bytes \<Rightarrow> store_ident option"
  rp_cmd_request_write :: "raft_cmd_request \<Rightarrow> bytes"
  rp_cmd_request_parse :: "bytes \<Rightarrow> raft_cmd_request option"

text \<open>A message that is not the default instance has at least one field to encode.\<close>

locale raft_proto_spec =
  fixes rp :: raft_proto
  assumes entry_parse_write [simp]: "rp_entry_parse rp (rp_entry_write rp e) = Some e"
    and entry_write_not_empty: "ent_index e \<noteq> 0 \<Longrightarrow> rp_entry_write rp e \<noteq> []"
    and local_state_parse_write [simp]: "rp_local_state_parse rp (rp_local_state_write rp l) = Some l"
    and apply_state_parse_write [simp]: "rp_apply_state_parse rp (rp_apply_state_write rp a) = Some a"
    and region_state_parse_write [simp]: "rp_region_state_parse rp (rp_region_state_write rp g) = Some g"
    and store_ident_parse_write [simp]: "rp_store_ident_parse rp (rp_store_ident_write rp s) = Some s"
    and cmd_request_parse_write [simp]: "rp_cmd_request_parse rp (rp_cmd_request_write rp c) = Some c"
    and cmd_request_write_not_empty: "rcq_requests c \<noteq> [] \<or> rcq_admin_request c \<noteq> None \<Longrightarrow>
      rp_cmd_request_write rp c \<noteq> []"

end
