(* ===== verification/Engines.thy ===== *)
theory Engines
  imports Rocks_Engine Raft_Proto
begin

text \<open>
  The part of \<^verbatim>\<open>dependencies/tiny-mq/src/rocks_engine.rs\<close> that works on column families, and the
  pair \<open>Engines\<close> of stores of a peer. A column family is a key space of its own, so an engine is
  one database of the \<open>rocksdb\<close> package for every family. The raft engine is used with its default
  family only and is that database.
\<close>

section \<open>Column families\<close>

datatype cf_name = CF_DEFAULT | CF_RAFT

type_synonym 'db rocks_engine = "cf_name \<Rightarrow> 'db"

definition get_value_cf :: "'db rocksdb \<Rightarrow> 'db rocks_engine \<Rightarrow> cf_name \<Rightarrow> bytes \<Rightarrow> bytes option" where
  "get_value_cf rdb e cf key = rdb_get rdb (e cf) key"

definition get_msg_cf ::
    "'db rocksdb \<Rightarrow> (bytes \<Rightarrow> 'm option) \<Rightarrow> 'db rocks_engine \<Rightarrow> cf_name \<Rightarrow> bytes \<Rightarrow> ('e, 'm option) res" where
  "get_msg_cf rdb parse e cf key =
     (case get_value_cf rdb e cf key of
        Some v \<Rightarrow> bind_res (unwrap (parse v)) (\<lambda>m. Ok (Some m))
      | None \<Rightarrow> Ok None)"

definition put_cf ::
    "'db rocksdb \<Rightarrow> 'db rocks_engine \<Rightarrow> cf_name \<Rightarrow> bytes \<Rightarrow> bytes \<Rightarrow> 'db rocks_engine" where
  "put_cf rdb e cf key v = e(cf := rdb_write rdb (e cf) [WbPut key v])"

definition put_msg_cf ::
    "'db rocksdb \<Rightarrow> ('m \<Rightarrow> bytes) \<Rightarrow> 'db rocks_engine \<Rightarrow> cf_name \<Rightarrow> bytes \<Rightarrow> 'm \<Rightarrow> 'db rocks_engine" where
  "put_msg_cf rdb write e cf key m = put_cf rdb e cf key (write m)"

section \<open>Write batches\<close>

text \<open>A batch is the list of its operations with the stack of its save points, each the number of
  operations there were when it was set. Taking a save point off an empty stack is an error, and
  the caller unwraps it.\<close>

record cf_write_batch =
  cw_ops :: "(cf_name \<times> wb_op) list"
  cw_save_points :: "nat list"

definition cw_new :: cf_write_batch where
  "cw_new = \<lparr>cw_ops = [], cw_save_points = []\<rparr>"

definition cw_put_cf :: "cf_write_batch \<Rightarrow> cf_name \<Rightarrow> bytes \<Rightarrow> bytes \<Rightarrow> cf_write_batch" where
  "cw_put_cf wb cf key v = wb\<lparr>cw_ops := cw_ops wb @ [(cf, WbPut key v)]\<rparr>"

definition cw_delete_cf :: "cf_write_batch \<Rightarrow> cf_name \<Rightarrow> bytes \<Rightarrow> cf_write_batch" where
  "cw_delete_cf wb cf key = wb\<lparr>cw_ops := cw_ops wb @ [(cf, WbDelete key)]\<rparr>"

definition cw_put_msg_cf :: "('m \<Rightarrow> bytes) \<Rightarrow> cf_write_batch \<Rightarrow> cf_name \<Rightarrow> bytes \<Rightarrow> 'm \<Rightarrow> cf_write_batch" where
  "cw_put_msg_cf write wb cf key m = cw_put_cf wb cf key (write m)"

definition cw_is_empty :: "cf_write_batch \<Rightarrow> bool" where
  "cw_is_empty wb \<longleftrightarrow> cw_ops wb = []"

definition cw_clear :: "cf_write_batch \<Rightarrow> cf_write_batch" where
  "cw_clear wb = cw_new"

definition set_save_point :: "cf_write_batch \<Rightarrow> cf_write_batch" where
  "set_save_point wb = wb\<lparr>cw_save_points := length (cw_ops wb) # cw_save_points wb\<rparr>"

definition pop_save_point :: "cf_write_batch \<Rightarrow> ('e, cf_write_batch) res" where
  "pop_save_point wb =
     (case cw_save_points wb of [] \<Rightarrow> Panic | n # ns \<Rightarrow> Ok (wb\<lparr>cw_save_points := ns\<rparr>))"

definition rollback_to_save_point :: "cf_write_batch \<Rightarrow> ('e, cf_write_batch) res" where
  "rollback_to_save_point wb =
     (case cw_save_points wb of
        [] \<Rightarrow> Panic
      | n # ns \<Rightarrow> Ok (wb\<lparr>cw_ops := take n (cw_ops wb), cw_save_points := ns\<rparr>))"

definition cf_ops :: "cf_name \<Rightarrow> (cf_name \<times> wb_op) list \<Rightarrow> wb_op list" where
  "cf_ops cf ops = map snd (filter (\<lambda>(c, _). c = cf) ops)"

definition cw_write_opt :: "'db rocksdb \<Rightarrow> 'db rocks_engine \<Rightarrow> cf_write_batch \<Rightarrow> 'db rocks_engine" where
  "cw_write_opt rdb e wb = (\<lambda>cf. rdb_write rdb (e cf) (cf_ops cf (cw_ops wb)))"

lemmas cw_defs = cw_new_def cw_put_cf_def cw_delete_cf_def cw_put_msg_cf_def cw_is_empty_def cw_clear_def

lemma cf_ops_simps [simp]:
  "cf_ops cf [] = []" "cf_ops cf (xs @ ys) = cf_ops cf xs @ cf_ops cf ys"
  "cf_ops cf ((c, op) # xs) = (if c = cf then op # cf_ops cf xs else cf_ops cf xs)"
  by (simp_all add: cf_ops_def)

text \<open>A transaction on a batch: what is added after a save point is gone after the rollback.\<close>

lemma rollback_set_save_point:
  assumes "cw_ops wb' = cw_ops wb @ ops" "cw_save_points wb' = cw_save_points (set_save_point wb)"
  shows "rollback_to_save_point wb' = Ok wb"
  using assms by (simp add: rollback_to_save_point_def set_save_point_def)

lemma pop_set_save_point:
  assumes "cw_save_points wb' = cw_save_points (set_save_point wb)"
  shows "pop_save_point wb' = Ok (wb'\<lparr>cw_save_points := cw_save_points wb\<rparr>)"
  using assms by (simp add: pop_save_point_def set_save_point_def)

section \<open>The engines of a peer\<close>

record 'db engines =
  eng_kv :: "'db rocks_engine"
  eng_raft :: 'db

text \<open>The raft log's entries are messages of the generated code.\<close>

definition raft_entry_of :: "raft_proto \<Rightarrow> entry raft_entry" where
  "raft_entry_of rp = \<lparr>en_write = rp_entry_write rp, en_parse = rp_entry_parse rp, en_index = ent_index\<rparr>"

lemma raft_entry_of_simps [simp]:
  "en_write (raft_entry_of rp) = rp_entry_write rp" "en_parse (raft_entry_of rp) = rp_entry_parse rp"
  "en_index (raft_entry_of rp) = ent_index"
  by (simp_all add: raft_entry_of_def)

definition get_raft_state ::
    "'db rocksdb \<Rightarrow> byteorder \<Rightarrow> raft_proto \<Rightarrow> 'db \<Rightarrow> u64 \<Rightarrow> ('e, raft_local_state option) res" where
  "get_raft_state rdb bo rp db raft_group_id =
     get_msg rdb (rp_local_state_parse rp) db (raft_state_key bo raft_group_id)"

definition put_raft_state ::
    "'db rocksdb \<Rightarrow> byteorder \<Rightarrow> raft_proto \<Rightarrow> 'db \<Rightarrow> u64 \<Rightarrow> raft_local_state \<Rightarrow> 'db" where
  "put_raft_state rdb bo rp db raft_group_id state =
     put_msg rdb (rp_local_state_write rp) db (raft_state_key bo raft_group_id) state"

definition wb_put_raft_state ::
    "byteorder \<Rightarrow> raft_proto \<Rightarrow> write_batch \<Rightarrow> u64 \<Rightarrow> raft_local_state \<Rightarrow> write_batch" where
  "wb_put_raft_state bo rp wb raft_group_id state =
     wb_put_msg (rp_local_state_write rp) wb (raft_state_key bo raft_group_id) state"

text \<open>\<open>append\<close> of a write batch reserves a buffer for the largest entry and does nothing when there is none.\<close>

definition wb_append :: "byteorder \<Rightarrow> raft_proto \<Rightarrow> write_batch \<Rightarrow> u64 \<Rightarrow> entry list \<Rightarrow> write_batch" where
  "wb_append bo rp wb raft_group_id entries =
     (if entries = [] then wb else append_impl bo (raft_entry_of rp) wb raft_group_id entries)"

section \<open>The packages of the message queue\<close>

record 'db mq_crates =
  m_rocksdb :: "'db rocksdb"
  m_byteorder :: byteorder
  m_proto :: raft_proto
  m_memory :: memory

locale mq_spec =
  rocksdb_spec "m_rocksdb M" view + byteorder_spec "m_byteorder M" + raft_proto_spec "m_proto M"
  for M :: "'db mq_crates" and view :: "'db \<Rightarrow> bytes \<rightharpoonup> bytes"

end
