(* ===== verification/Mq_Errors.thy ===== *)
theory Mq_Errors
  imports Raft_Proto
begin

text \<open>
  \<^verbatim>\<open>dependencies/tiny-mq/src/errors.rs\<close> and \<^verbatim>\<open>dependencies/tiny-mq/src/cmd_resp.rs\<close>: the errors of
  the message queue, their message form, and the responses that carry them. The errors of other
  packages are only printed, so a variant that wraps one carries a string. \<open>fmt\<close> stands for the
  derived \<open>Debug\<close> form of an error.
\<close>

datatype mq_error =
    OtherError string | IoError string | ProtobufError string | GrpcError string
  | AddrParseError string | Sink | RecvError | SendError string | TrySendError string
  | RaftEntryTooLarge u64 u64
  | StoreNotMatch u64 u64
  | RegionNotFound u64
  | RegionNotInitialized u64
  | NotLeader u64 "peer option"
  | RaftError string
  | TimeoutError string
  | StaleCommand
  | RequestFailed region_error
  | EngineError string

text \<open>The \<open>Display\<close> form of an unsigned number.\<close>

fun show_nat :: "nat \<Rightarrow> string" where
  "show_nat n = (if n < 10 then [char_of (48 + n)] else show_nat (n div 10) @ [char_of (48 + n mod 10)])"

declare show_nat.simps [simp del]

definition show_u64 :: "u64 \<Rightarrow> string" where
  "show_u64 n = show_nat (unat n)"

type_synonym 'a mq_result = "(mq_error, 'a) res"

definition mq_error_into :: "(mq_error \<Rightarrow> string) \<Rightarrow> mq_error \<Rightarrow> region_error" where
  "mq_error_into fmt err =
     (let e = default_region_error\<lparr>rer_message := fmt err\<rparr>
      in case err of
           RegionNotFound region_id \<Rightarrow> e\<lparr>rer_region_not_found := Some region_id\<rparr>
         | NotLeader region_id leader \<Rightarrow>
             e\<lparr>rer_not_leader := Some \<lparr>nle_region_id = region_id, nle_leader = leader\<rparr>\<rparr>
         | RaftEntryTooLarge region_id entry_size \<Rightarrow>
             e\<lparr>rer_raft_entry_too_large := Some \<lparr>etl_region_id = region_id, etl_entry_size = entry_size\<rparr>\<rparr>
         | StoreNotMatch to_store_id my_store_id \<Rightarrow>
             e\<lparr>rer_store_not_match :=
               Some \<lparr>snm_request_store_id = to_store_id, snm_actual_store_id = my_store_id\<rparr>\<rparr>
         | StaleCommand \<Rightarrow> e\<lparr>rer_stale_command := Some ()\<rparr>
         | RegionNotInitialized region_id \<Rightarrow> e\<lparr>rer_region_not_initialized := Some region_id\<rparr>
         | _ \<Rightarrow> e)"

section \<open>Responses\<close>

definition bind_term :: "raft_cmd_response \<Rightarrow> u64 \<Rightarrow> raft_cmd_response" where
  "bind_term resp term =
     (if term = 0 then resp else map_response_header (rsh_current_term_update (\<lambda>_. term)) resp)"

definition bind_error :: "(mq_error \<Rightarrow> string) \<Rightarrow> raft_cmd_response \<Rightarrow> mq_error \<Rightarrow> raft_cmd_response" where
  "bind_error fmt resp err =
     map_response_header (rsh_error_update (\<lambda>_. Some (mq_error_into fmt err))) resp"

definition new_error :: "(mq_error \<Rightarrow> string) \<Rightarrow> mq_error \<Rightarrow> raft_cmd_response" where
  "new_error fmt err = bind_error fmt default_raft_cmd_response err"

definition err_resp :: "(mq_error \<Rightarrow> string) \<Rightarrow> mq_error \<Rightarrow> u64 \<Rightarrow> raft_cmd_response" where
  "err_resp fmt e term = bind_term (new_error fmt e) term"

definition has_error :: "raft_cmd_response \<Rightarrow> bool" where
  "has_error resp \<longleftrightarrow> rsh_error (get_response_header resp) \<noteq> None"

lemma response_header_simps [simp]:
  "get_response_header (map_response_header f r) = f (get_response_header r)"
  "rcs_responses (map_response_header f r) = rcs_responses r"
  "rcs_admin_response (map_response_header f r) = rcs_admin_response r"
  by (simp_all add: map_response_header_def raft_getters)

lemma bind_term_simps [simp]:
  "rcs_responses (bind_term r t) = rcs_responses r" "has_error (bind_term r t) = has_error r"
  by (simp_all add: bind_term_def has_error_def)

lemma has_error_err_resp [simp]: "has_error (new_error fmt e)" "has_error (err_resp fmt e t)"
  by (simp_all add: new_error_def bind_error_def err_resp_def has_error_def bind_term_def)

lemma responses_err_resp [simp]: "rcs_responses (new_error fmt e) = []" "rcs_responses (err_resp fmt e t) = []"
  by (simp_all add: new_error_def bind_error_def err_resp_def default_raft_cmd_response_def)

end
