(* ===== verification/Raft_Util.thy ===== *)
theory Raft_Util
  imports Mq_Errors
begin

text \<open>
  \<^verbatim>\<open>dependencies/tiny-mq/src/util.rs\<close>: peers of a region and the checks of a command's header.
\<close>

definition find_peer :: "region \<Rightarrow> u64 \<Rightarrow> peer option" where
  "find_peer region store_id = List.find (\<lambda>p. pr_store_id p = store_id) (rg_peers region)"

definition new_peer :: "u64 \<Rightarrow> u64 \<Rightarrow> peer" where
  "new_peer store_id peer_id = default_peer\<lparr>pr_store_id := store_id, pr_id := peer_id, pr_role := Voter\<rparr>"

definition is_region_initialized :: "region \<Rightarrow> bool" where
  "is_region_initialized r \<longleftrightarrow> rg_peers r \<noteq> []"

fun push_voters :: "peer list \<Rightarrow> conf_state \<Rightarrow> ('e, conf_state) res" where
  "push_voters [] cs = Ok cs"
| "push_voters (p # ps) cs =
     (case pr_role p of
        Voter \<Rightarrow> push_voters ps (cs\<lparr>cst_voters := cst_voters cs @ [pr_id p]\<rparr>)
      | _ \<Rightarrow> Panic)"

definition conf_state_from_region :: "region \<Rightarrow> ('e, conf_state) res" where
  "conf_state_from_region region = push_voters (rg_peers region) default_conf_state"

definition check_store_id :: "raft_cmd_request \<Rightarrow> u64 \<Rightarrow> unit mq_result" where
  "check_store_id req store_id =
     (let peer = get_header_peer (get_request_header req)
      in if pr_store_id peer = store_id then Ok () else Err (StoreNotMatch (pr_store_id peer) store_id))"

definition check_term :: "raft_cmd_request \<Rightarrow> u64 \<Rightarrow> unit mq_result" where
  "check_term req term =
     (let header = get_request_header req
      in if rqh_term header = 0 \<or> term \<le> rqh_term header + 1 then Ok () else Err StaleCommand)"

definition check_peer_id :: "raft_cmd_request \<Rightarrow> u64 \<Rightarrow> unit mq_result" where
  "check_peer_id req peer_id =
     (let header = get_request_header req
      in if pr_id (get_header_peer header) = peer_id then Ok ()
         else Err (OtherError (''mismatch peer id '' @ show_u64 (pr_id (get_header_peer header)) @ '' != '' @
                show_u64 peer_id)))"

definition parse_data_at :: "(bytes \<Rightarrow> 'm option) \<Rightarrow> bytes \<Rightarrow> ('e, 'm) res" where
  "parse_data_at parse data = unwrap (parse data)"

lemma push_voters_all:
  assumes "\<forall>p \<in> set ps. pr_role p = Voter"
  shows "push_voters ps cs = Ok (cs\<lparr>cst_voters := cst_voters cs @ map pr_id ps\<rparr>)"
  using assms by (induction ps arbitrary: cs) simp_all

text \<open>A region has a configuration exactly when all of its peers are voters.\<close>

lemma conf_state_from_region:
  "conf_state_from_region region =
     (if \<forall>p \<in> set (rg_peers region). pr_role p = Voter
      then Ok (default_conf_state\<lparr>cst_voters := map pr_id (rg_peers region)\<rparr>) else Panic)"
proof -
  have "\<not> (\<forall>p \<in> set ps. pr_role p = Voter) \<Longrightarrow> push_voters ps cs = Panic" for ps cs
    by (induction ps arbitrary: cs) (auto split: peer_role.splits)
  then show ?thesis
    by (auto simp: conf_state_from_region_def push_voters_all default_conf_state_def)
qed

end
