(* ===== verification/Peer_Storage.thy ===== *)
theory Peer_Storage
  imports Engines Raft_Util Raft_Log
begin

text \<open>
  \<^verbatim>\<open>dependencies/tiny-mq/src/peer_storage.rs\<close> and \<^verbatim>\<open>dependencies/tiny-mq/src/bootstrap.rs\<close>: the raft
  log and the two persistent states of a peer, with the checks a peer makes when it opens them.
  The engines are shared with the apply thread, the log consumer and the collector, so the
  operations that read them take them as an argument.
\<close>

section \<open>The initial state\<close>

definition RAFT_INIT_LOG_TERM :: u64 where "RAFT_INIT_LOG_TERM = 5"

definition RAFT_INIT_LOG_INDEX :: u64 where "RAFT_INIT_LOG_INDEX = 5"

definition INIT_EPOCH_VER :: u64 where "INIT_EPOCH_VER = 1"

definition INIT_EPOCH_CONF_VER :: u64 where "INIT_EPOCH_CONF_VER = 1"

definition write_initial_raft_state :: "'db mq_crates \<Rightarrow> write_batch \<Rightarrow> u64 \<Rightarrow> write_batch" where
  "write_initial_raft_state M raft_wb region_id =
     wb_put_raft_state (m_byteorder M) (m_proto M) raft_wb region_id
       \<lparr>rlo_hard_state = Some (default_hard_state\<lparr>hst_term := RAFT_INIT_LOG_TERM, hst_commit := RAFT_INIT_LOG_INDEX\<rparr>),
        rlo_last_index = RAFT_INIT_LOG_INDEX\<rparr>"

definition write_initial_apply_state :: "'db mq_crates \<Rightarrow> cf_write_batch \<Rightarrow> u64 \<Rightarrow> cf_write_batch" where
  "write_initial_apply_state M kv_wb region_id =
     cw_put_msg_cf (rp_apply_state_write (m_proto M)) kv_wb CF_RAFT (apply_state_key (m_byteorder M) region_id)
       (default_raft_apply_state\<lparr>ras_applied_index := RAFT_INIT_LOG_INDEX,
          ras_truncated_state := Some \<lparr>rts_index = RAFT_INIT_LOG_INDEX, rts_term = RAFT_INIT_LOG_TERM\<rparr>\<rparr>)"

definition initial_region :: "u64 \<Rightarrow> (u64 \<times> u64) list \<Rightarrow> region" where
  "initial_region region_id peers =
     default_region\<lparr>rg_id := region_id, rg_start_key := [], rg_end_key := [],
       rg_region_epoch := Some \<lparr>re_conf_ver = INIT_EPOCH_CONF_VER, re_version = INIT_EPOCH_VER\<rparr>,
       rg_peers := map (\<lambda>(store_id, peer_id). new_peer store_id peer_id) peers\<rparr>"

definition bootstrap_store :: "'db mq_crates \<Rightarrow> 'db engines \<Rightarrow> u64 \<Rightarrow> u64 \<Rightarrow> 'db engines" where
  "bootstrap_store M engines cluster_id store_id =
     engines\<lparr>eng_kv := put_msg_cf (m_rocksdb M) (rp_store_ident_write (m_proto M)) (eng_kv engines) CF_DEFAULT
       STORE_IDENT_KEY \<lparr>si_cluster_id = cluster_id, si_store_id = store_id\<rparr>\<rparr>"

definition prepare_bootstrap_cluster :: "'db mq_crates \<Rightarrow> 'db engines \<Rightarrow> region \<Rightarrow> 'db engines" where
  "prepare_bootstrap_cluster M engines region =
     (let wb = cw_put_msg_cf (rp_region_state_write (m_proto M)) cw_new CF_RAFT
                 (region_state_key (m_byteorder M) (rg_id region)) \<lparr>rgl_region = Some region\<rparr>;
          wb = write_initial_apply_state M wb (rg_id region);
          engines = engines\<lparr>eng_kv := cw_write_opt (m_rocksdb M) (eng_kv engines) wb\<rparr>;
          raft_wb = write_initial_raft_state M [] (rg_id region)
      in engines\<lparr>eng_raft := fst (consume (m_rocksdb M) (eng_raft engines) raft_wb)\<rparr>)"

section \<open>Opening\<close>

definition first_index :: "raft_apply_state \<Rightarrow> u64" where
  "first_index state = rts_index (get_truncated_state state) + 1"

definition last_index :: "raft_local_state \<Rightarrow> u64" where
  "last_index state = rlo_last_index state"

definition raft_entry_at :: "'db mq_crates \<Rightarrow> 'db engines \<Rightarrow> u64 \<Rightarrow> u64 \<Rightarrow> ('e, entry option) res" where
  "raft_entry_at M engines region_id index =
     get_entry (m_rocksdb M) (m_byteorder M) (raft_entry_of (m_proto M)) (eng_raft engines) region_id index"

definition init_raft_state :: "'db mq_crates \<Rightarrow> 'db engines \<Rightarrow> region \<Rightarrow> ('e, raft_local_state) res" where
  "init_raft_state M engines region =
     bind_res (get_raft_state (m_rocksdb M) (m_byteorder M) (m_proto M) (eng_raft engines) (rg_id region)) unwrap"

definition init_apply_state :: "'db mq_crates \<Rightarrow> 'db engines \<Rightarrow> region \<Rightarrow> ('e, raft_apply_state) res" where
  "init_apply_state M engines region =
     bind_res (get_msg_cf (m_rocksdb M) (rp_apply_state_parse (m_proto M)) (eng_kv engines) CF_RAFT
         (apply_state_key (m_byteorder M) (rg_id region))) unwrap"

definition init_last_term ::
    "'db mq_crates \<Rightarrow> 'db engines \<Rightarrow> region \<Rightarrow> raft_local_state \<Rightarrow> raft_apply_state \<Rightarrow> ('e, u64) res" where
  "init_last_term M engines region raft_state apply_state =
     (let last_idx = rlo_last_index raft_state;
          read = bind_res (raft_entry_at M engines (rg_id region) last_idx) (\<lambda>e.
            bind_res (unwrap e) (\<lambda>entry. Ok (ent_term entry)))
      in if last_idx = 0 then Ok 0
         else if last_idx = RAFT_INIT_LOG_INDEX then Ok RAFT_INIT_LOG_TERM
         else if last_idx = rts_index (get_truncated_state apply_state)
         then Ok (rts_term (get_truncated_state apply_state))
         else if \<not> RAFT_INIT_LOG_INDEX < last_idx then Panic
         else read)"

definition init_applied_index_term ::
    "'db mq_crates \<Rightarrow> 'db engines \<Rightarrow> region \<Rightarrow> raft_apply_state \<Rightarrow> ('e, u64) res" where
  "init_applied_index_term M engines region apply_state =
     (if ras_applied_index apply_state = RAFT_INIT_LOG_INDEX then Ok RAFT_INIT_LOG_TERM
      else let truncated_state = get_truncated_state apply_state
      in if ras_applied_index apply_state = rts_index truncated_state then Ok (rts_term truncated_state)
         else bind_res (raft_entry_at M engines (rg_id region) (ras_applied_index apply_state)) (\<lambda>e.
              bind_res (unwrap e) (\<lambda>entry. Ok (ent_term entry))))"

definition validate_states ::
    "'db mq_crates \<Rightarrow> u64 \<Rightarrow> 'db engines \<Rightarrow> raft_local_state \<Rightarrow> raft_apply_state \<Rightarrow> ('e, raft_local_state) res" where
  "validate_states M region_id engines raft_state apply_state =
     (let last_idx = rlo_last_index raft_state;
          commit_index = hst_commit (get_hard_state raft_state);
          recorded_commit_index = ras_commit_index apply_state;
          finish = (\<lambda>commit_index.
            if commit_index < ras_applied_index apply_state then Panic
            else if last_idx < commit_index then Panic
            else if hst_term (get_hard_state raft_state) < ras_commit_term apply_state then Panic
            else Ok (raft_state\<lparr>rlo_hard_state := Some ((get_hard_state raft_state)\<lparr>hst_commit := commit_index\<rparr>)\<rparr>))
      in if commit_index < recorded_commit_index
         then bind_res (raft_entry_at M engines region_id recorded_commit_index) (\<lambda>entry.
              case entry of
                None \<Rightarrow> Panic
              | Some e \<Rightarrow> if ent_term e \<noteq> ras_commit_term apply_state then Panic else finish recorded_commit_index)
         else finish commit_index)"

section \<open>The storage\<close>

record peer_storage =
  ps_peer_id :: u64
  ps_region :: region
  ps_raft_state :: raft_local_state
  ps_apply_state :: raft_apply_state
  ps_applied_index_term :: u64
  ps_last_term :: u64

definition ps_new :: "'db mq_crates \<Rightarrow> 'db engines \<Rightarrow> region \<Rightarrow> u64 \<Rightarrow> ('e, peer_storage) res" where
  "ps_new M engines region peer_id =
     bind_res (init_raft_state M engines region) (\<lambda>raft_state.
     bind_res (init_apply_state M engines region) (\<lambda>apply_state.
     bind_res (validate_states M (rg_id region) engines raft_state apply_state) (\<lambda>raft_state.
     bind_res (init_last_term M engines region raft_state apply_state) (\<lambda>last_term.
     bind_res (init_applied_index_term M engines region apply_state) (\<lambda>applied_index_term.
     Ok \<lparr>ps_peer_id = peer_id, ps_region = region, ps_raft_state = raft_state,
         ps_apply_state = apply_state, ps_applied_index_term = applied_index_term,
         ps_last_term = last_term\<rparr>)))))"

definition truncated_index :: "peer_storage \<Rightarrow> u64" where
  "truncated_index self = rts_index (get_truncated_state (ps_apply_state self))"

definition truncated_term :: "peer_storage \<Rightarrow> u64" where
  "truncated_term self = rts_term (get_truncated_state (ps_apply_state self))"

definition ps_last_index :: "peer_storage \<Rightarrow> u64" where
  "ps_last_index self = last_index (ps_raft_state self)"

definition ps_first_index :: "peer_storage \<Rightarrow> u64" where
  "ps_first_index self = first_index (ps_apply_state self)"

definition ps_commit_index :: "peer_storage \<Rightarrow> u64" where
  "ps_commit_index self = hst_commit (get_hard_state (ps_raft_state self))"

definition set_commit_index :: "peer_storage \<Rightarrow> u64 \<Rightarrow> ('e, peer_storage) res" where
  "set_commit_index self commit =
     (if \<not> ps_commit_index self \<le> commit then Panic
      else Ok (self\<lparr>ps_raft_state := (ps_raft_state self)
                \<lparr>rlo_hard_state := Some ((get_hard_state (ps_raft_state self))\<lparr>hst_commit := commit\<rparr>)\<rparr>\<rparr>))"

definition check_range :: "peer_storage \<Rightarrow> u64 \<Rightarrow> u64 \<Rightarrow> ('e, unit) res" where
  "check_range self low high =
     (if high < low then Panic
      else if low \<le> truncated_index self then Panic
      else if ps_last_index self + 1 < high then Panic
      else Ok ())"

definition initial_state :: "peer_storage \<Rightarrow> ('e, hard_state \<times> conf_state) res" where
  "initial_state self =
     (let hard_state = get_hard_state (ps_raft_state self)
      in if hard_state = default_hard_state then Ok (hard_state, default_conf_state)
         else bind_res (conf_state_from_region (ps_region self)) (\<lambda>cs. Ok (hard_state, cs)))"

definition ps_entries ::
    "'db mq_crates \<Rightarrow> 'db engines \<Rightarrow> peer_storage \<Rightarrow> u64 \<Rightarrow> u64 \<Rightarrow> u64 \<Rightarrow> (unit, entry list) res" where
  "ps_entries M engines self low high max_size =
     bind_res (check_range self low high) (\<lambda>_.
     if low = high then Ok []
     else bind_res (fetch_entries_to (m_rocksdb M) (m_byteorder M) (m_memory M) (raft_entry_of (m_proto M))
              (eng_raft engines) (rg_id (ps_region self)) low high (Some (unat max_size)) []) (\<lambda>(_, ents).
          Ok ents))"

text \<open>\<open>NO_LIMIT\<close> of the raft package is the largest \<open>u64\<close>. Indexing an empty vector panics.\<close>

definition NO_LIMIT :: u64 where "NO_LIMIT = - 1"

definition ps_term :: "'db mq_crates \<Rightarrow> 'db engines \<Rightarrow> peer_storage \<Rightarrow> u64 \<Rightarrow> (unit, u64) res" where
  "ps_term M engines self idx =
     (if idx = truncated_index self then Ok (truncated_term self)
      else bind_res (check_range self idx (idx + 1)) (\<lambda>_.
           if truncated_term self = ps_last_term self \<or> idx = ps_last_index self then Ok (ps_last_term self)
           else bind_res (ps_entries M engines self idx (idx + 1) NO_LIMIT) (\<lambda>entries.
                case entries of [] \<Rightarrow> Panic | e # _ \<Rightarrow> Ok (ent_term e))))"

section \<open>Ready\<close>

text \<open>What the storage reads of a \<open>Ready\<close> of the raft package: the new entries and the hard state,
  when it changed.\<close>

record ready =
  rd_entries :: "entry list"
  rd_hs :: "hard_state option"

record invoke_context =
  ic_region_id :: u64
  ic_raft_state :: raft_local_state
  ic_apply_state :: raft_apply_state
  ic_last_term :: u64
  ic_has_new_entries :: bool

definition invoke_context_new :: "peer_storage \<Rightarrow> invoke_context" where
  "invoke_context_new store =
     \<lparr>ic_region_id = rg_id (ps_region store), ic_raft_state = ps_raft_state store,
      ic_apply_state = ps_apply_state store, ic_last_term = ps_last_term store,
      ic_has_new_entries = False\<rparr>"

definition save_raft_state_to :: "'db mq_crates \<Rightarrow> invoke_context \<Rightarrow> write_batch \<Rightarrow> write_batch" where
  "save_raft_state_to M ctx raft_wb =
     wb_put_raft_state (m_byteorder M) (m_proto M) raft_wb (ic_region_id ctx) (ic_raft_state ctx)"

definition save_apply_state_to :: "'db mq_crates \<Rightarrow> invoke_context \<Rightarrow> cf_write_batch \<Rightarrow> cf_write_batch" where
  "save_apply_state_to M ctx kv_wb =
     cw_put_msg_cf (rp_apply_state_write (m_proto M)) kv_wb CF_RAFT
       (apply_state_key (m_byteorder M) (ic_region_id ctx)) (ic_apply_state ctx)"

definition ps_append ::
    "'db mq_crates \<Rightarrow> peer_storage \<Rightarrow> invoke_context \<Rightarrow> entry list \<Rightarrow> write_batch \<Rightarrow>
     u64 \<times> invoke_context \<times> write_batch" where
  "ps_append M self invoke_ctx entries raft_wb =
     (let region_id = rg_id (ps_region self);
          prev_last_index = rlo_last_index (ic_raft_state invoke_ctx)
      in if entries = [] then (prev_last_index, invoke_ctx, raft_wb)
         else let last_idx = ent_index (last entries);
                  last_term = ent_term (last entries);
                  raft_wb = wb_append (m_byteorder M) (m_proto M) raft_wb region_id entries;
                  raft_wb = cut_logs (m_byteorder M) raft_wb region_id (last_idx + 1) (prev_last_index + 1);
                  invoke_ctx = invoke_ctx\<lparr>ic_has_new_entries := True,
                    ic_raft_state := (ic_raft_state invoke_ctx)\<lparr>rlo_last_index := last_idx\<rparr>,
                    ic_last_term := last_term\<rparr>
              in (last_idx, invoke_ctx, raft_wb))"

definition handle_raft_ready ::
    "'db mq_crates \<Rightarrow> peer_storage \<Rightarrow> ready \<Rightarrow> write_batch \<Rightarrow> invoke_context \<times> write_batch" where
  "handle_raft_ready M self ready raft_wb =
     (let ctx = invoke_context_new self;
          (ctx, raft_wb) = (if rd_entries ready \<noteq> [] then snd (ps_append M self ctx (rd_entries ready) raft_wb)
                            else (ctx, raft_wb));
          ctx = (if 0 < rlo_last_index (ic_raft_state ctx)
                 then (case rd_hs ready of
                         Some hs \<Rightarrow> ctx\<lparr>ic_raft_state := (ic_raft_state ctx)\<lparr>rlo_hard_state := Some hs\<rparr>\<rparr>
                       | None \<Rightarrow> ctx)
                 else ctx);
          raft_wb = (if ic_raft_state ctx \<noteq> ps_raft_state self then save_raft_state_to M ctx raft_wb else raft_wb)
      in (ctx, raft_wb))"

definition post_ready :: "peer_storage \<Rightarrow> invoke_context \<Rightarrow> peer_storage" where
  "post_ready self ctx =
     self\<lparr>ps_raft_state := ic_raft_state ctx, ps_apply_state := ic_apply_state ctx,
          ps_last_term := ic_last_term ctx\<rparr>"

section \<open>Committed entries\<close>

record cached_entries =
  ce_range :: "u64 \<times> u64"
  ce_entries :: "entry list"

definition cached_entries_new :: "entry list \<Rightarrow> ('e, cached_entries) res" where
  "cached_entries_new entries =
     (if entries = [] then Panic
      else Ok \<lparr>ce_range = (ent_index (hd entries), ent_index (last entries) + 1), ce_entries = entries\<rparr>)"

definition take_entries :: "cached_entries \<Rightarrow> entry list \<times> cached_entries" where
  "take_entries c = (ce_entries c, c\<lparr>ce_entries := []\<rparr>)"

end
