(* ===== verification/Callback.thy ===== *)
theory Callback
  imports Mq_Errors
begin

text \<open>
  \<^verbatim>\<open>Callback\<close> of \<^verbatim>\<open>dependencies/tiny-mq/src/msg.rs\<close>. A callback is a closure; what it does is
  modelled by the list of the replies \<open>'r\<close> it sends when it is invoked, or a panic. The two
  extension callbacks of a write are the lists of the callers they notify.
\<close>

type_synonym 'r reply_fn = "raft_cmd_response \<Rightarrow> (unit, 'r list) res"
type_synonym ext_callback = "nat list"

datatype 'r callback =
    Cb_None
  | Cb_Read "'r reply_fn"
  | Cb_Write "'r reply_fn" "ext_callback option" "ext_callback option"

definition write_ext :: "'r reply_fn \<Rightarrow> ext_callback option \<Rightarrow> ext_callback option \<Rightarrow> 'r callback" where
  "write_ext cb proposed_cb committed_cb = Cb_Write cb proposed_cb committed_cb"

fun invoke_with_response :: "'r callback \<Rightarrow> raft_cmd_response \<Rightarrow> (unit, 'r list) res" where
  "invoke_with_response Cb_None resp = Ok []"
| "invoke_with_response (Cb_Read read) resp = read resp"
| "invoke_with_response (Cb_Write cb _ _) resp = cb resp"

text \<open>The extension callbacks are taken out when they are called, so each is called once.\<close>

fun invoke_proposed :: "'r callback \<Rightarrow> ext_callback \<times> 'r callback" where
  "invoke_proposed (Cb_Write cb (Some p) c) = (p, Cb_Write cb None c)"
| "invoke_proposed cb = ([], cb)"

fun invoke_committed :: "'r callback \<Rightarrow> ext_callback \<times> 'r callback" where
  "invoke_committed (Cb_Write cb p (Some c)) = (c, Cb_Write cb p None)"
| "invoke_committed cb = ([], cb)"

fun cb_is_none :: "'r callback \<Rightarrow> bool" where
  "cb_is_none Cb_None = True"
| "cb_is_none _ = False"

lemma invoke_ext_same [simp]:
  "invoke_with_response (snd (invoke_proposed cb)) resp = invoke_with_response cb resp"
  "invoke_with_response (snd (invoke_committed cb)) resp = invoke_with_response cb resp"
  by (cases cb rule: invoke_proposed.cases; simp) (cases cb rule: invoke_committed.cases; simp)

end
