(* ===== verification/Apply.thy ===== *)
theory Apply
  imports Peer_Storage Callback
begin

text \<open>
  \<^verbatim>\<open>dependencies/tiny-mq/src/apply.rs\<close>: the apply thread of a raft group. It takes the committed
  entries of the peer thread, executes them, keeps the apply state in the kv engine and calls the
  callbacks of the proposals. A panic ends the thread. The maps \<open>wallet_map\<close> and \<open>dedup_map\<close> of
  the delegate are filled when it is created and never read, so they are left out.
\<close>

section \<open>Pending commands\<close>

record 'r pending_cmd =
  pc_index :: u64
  pc_term :: u64
  pc_cb :: "'r callback option"

definition pending_cmd_new :: "u64 \<Rightarrow> u64 \<Rightarrow> 'r callback \<Rightarrow> 'r pending_cmd" where
  "pending_cmd_new index term cb = \<lparr>pc_index = index, pc_term = term, pc_cb = Some cb\<rparr>"

text \<open>The order of the pairs \<open>(term, index)\<close>.\<close>

definition pos_less :: "u64 \<times> u64 \<Rightarrow> u64 \<times> u64 \<Rightarrow> bool" where
  "pos_less p q \<longleftrightarrow> fst p < fst q \<or> fst p = fst q \<and> snd p < snd q"

fun pop_normal :: "'r pending_cmd list \<Rightarrow> u64 \<Rightarrow> u64 \<Rightarrow> 'r pending_cmd option \<times> 'r pending_cmd list" where
  "pop_normal [] index term = (None, [])"
| "pop_normal (cmd # normals) index term =
     (if pos_less (term, index) (pc_term cmd, pc_index cmd) then (None, cmd # normals)
      else (Some cmd, normals))"

definition append_normal :: "'r pending_cmd list \<Rightarrow> 'r pending_cmd \<Rightarrow> 'r pending_cmd list" where
  "append_normal normals cmd = normals @ [cmd]"

lemma pop_normal_length: "pop_normal q i t = (Some c, q') \<Longrightarrow> length q' < length q"
  by (cases q) (auto split: if_splits)

section \<open>State\<close>

datatype exec_result = Exec_CompactLog (er_state: raft_truncated_state) (er_first_index: u64)

datatype apply_result = Apply_None | Apply_Res exec_result

record exec_context =
  ec_apply_state :: raft_apply_state
  ec_index :: u64
  ec_term :: u64

record apply_res =
  ar_region_id :: u64
  ar_apply_state :: raft_apply_state
  ar_applied_index_term :: u64
  ar_exec_res :: "exec_result list"

record 'r apply_ctx =
  ax_timer :: bool
  ax_applied_batch :: "('r callback \<times> raft_cmd_response) list"
  ax_apply_res :: "apply_res list"
  ax_exec_ctx :: "exec_context option"
  ax_kv_wb :: cf_write_batch
  ax_committed_count :: nat
  ax_sync_log_hint :: bool

record 'r apply_delegate =
  ad_id :: u64
  ad_term :: u64
  ad_region :: region
  ad_pending_cmds :: "'r pending_cmd list"
  ad_apply_state :: raft_apply_state
  ad_applied_index_term :: u64
  ad_last_flush_applied_index :: u64

text \<open>What the thread changes: the delegate, its context, the kv engine, the replies it has sent and
  the results it has given to the peer thread.\<close>

record ('db, 'r) apply_fsm =
  af_delegate :: "'r apply_delegate"
  af_ctx :: "'r apply_ctx"
  af_kv :: "'db rocks_engine"
  af_replies :: "'r list"
  af_notified :: "apply_res list"

definition apply_ctx_new :: "'r apply_ctx" where
  "apply_ctx_new =
     \<lparr>ax_timer = False, ax_applied_batch = [], ax_apply_res = [], ax_exec_ctx = None, ax_kv_wb = cw_new,
      ax_committed_count = 0, ax_sync_log_hint = False\<rparr>"

definition delegate_from_registration ::
    "u64 \<Rightarrow> u64 \<Rightarrow> raft_apply_state \<Rightarrow> u64 \<Rightarrow> region \<Rightarrow> 'r apply_delegate" where
  "delegate_from_registration peer_id term apply_state applied_index_term region =
     \<lparr>ad_id = peer_id, ad_term = term, ad_region = region, ad_pending_cmds = [], ad_apply_state = apply_state,
      ad_applied_index_term = applied_index_term,
      ad_last_flush_applied_index = ras_applied_index apply_state\<rparr>"

definition registration_of :: "u64 \<Rightarrow> peer_storage \<Rightarrow> 'r apply_delegate" where
  "registration_of term store =
     delegate_from_registration (ps_peer_id store) term (ps_apply_state store)
       (ps_applied_index_term store) (ps_region store)"

definition send_replies :: "'r list \<Rightarrow> ('db, 'r) apply_fsm \<Rightarrow> ('db, 'r) apply_fsm" where
  "send_replies rs f = f\<lparr>af_replies := af_replies f @ rs\<rparr>"

definition push_cb :: "'r callback \<Rightarrow> raft_cmd_response \<Rightarrow> ('db, 'r) apply_fsm \<Rightarrow> ('db, 'r) apply_fsm" where
  "push_cb cb resp f =
     f\<lparr>af_ctx := (af_ctx f)\<lparr>ax_applied_batch := ax_applied_batch (af_ctx f) @ [(cb, resp)]\<rparr>\<rparr>"

definition push_cmd ::
    "'r callback option \<Rightarrow> raft_cmd_response \<Rightarrow> ('db, 'r) apply_fsm \<Rightarrow> ('db, 'r) apply_fsm" where
  "push_cmd cb resp f = (case cb of Some cb \<Rightarrow> push_cb cb resp f | None \<Rightarrow> f)"

section \<open>Writing\<close>

definition write_apply_state :: "'db mq_crates \<Rightarrow> 'r apply_delegate \<Rightarrow> cf_write_batch \<Rightarrow> cf_write_batch" where
  "write_apply_state M self wb =
     cw_put_msg_cf (rp_apply_state_write (m_proto M)) wb CF_RAFT
       (apply_state_key (m_byteorder M) (rg_id (ad_region self))) (ad_apply_state self)"

fun invoke_callbacks :: "('r callback \<times> raft_cmd_response) list \<Rightarrow> (unit, 'r list) res" where
  "invoke_callbacks [] = Ok []"
| "invoke_callbacks ((cb, resp) # cbs) =
     bind_res (invoke_with_response cb resp) (\<lambda>rs.
     bind_res (invoke_callbacks cbs) (\<lambda>rs'. Ok (rs @ rs')))"

definition write_to_db :: "'db mq_crates \<Rightarrow> ('db, 'r) apply_fsm \<Rightarrow> (unit, bool \<times> ('db, 'r) apply_fsm) res" where
  "write_to_db M f =
     (let ctx = af_ctx f;
          need_sync = ax_sync_log_hint ctx;
          f1 = (if \<not> cw_is_empty (ax_kv_wb ctx)
                then f\<lparr>af_kv := cw_write_opt (m_rocksdb M) (af_kv f) (ax_kv_wb ctx),
                       af_ctx := ctx\<lparr>ax_sync_log_hint := False, ax_kv_wb := cw_clear (ax_kv_wb ctx)\<rparr>\<rparr>
                else f)
      in bind_res (invoke_callbacks (ax_applied_batch (af_ctx f1))) (\<lambda>rs.
         Ok (need_sync, send_replies rs (f1\<lparr>af_ctx := (af_ctx f1)\<lparr>ax_applied_batch := []\<rparr>\<rparr>))))"

definition commit_opt ::
    "'db mq_crates \<Rightarrow> bool \<Rightarrow> ('db, 'r) apply_fsm \<Rightarrow> (unit, ('db, 'r) apply_fsm) res" where
  "commit_opt M persistent f =
     (if persistent
      then bind_res (write_to_db M f) (\<lambda>(_, f).
           Ok (f\<lparr>af_delegate := (af_delegate f)
                 \<lparr>ad_last_flush_applied_index := ras_applied_index (ad_apply_state (af_delegate f))\<rparr>\<rparr>))
      else Ok f)"

definition finish_for ::
    "'db mq_crates \<Rightarrow> exec_result list \<Rightarrow> ('db, 'r) apply_fsm \<Rightarrow> (unit, ('db, 'r) apply_fsm) res" where
  "finish_for M results f =
     (let d = af_delegate f;
          f1 = f\<lparr>af_ctx := (af_ctx f)\<lparr>ax_kv_wb := write_apply_state M d (ax_kv_wb (af_ctx f))\<rparr>\<rparr>
      in bind_res (commit_opt M False f1) (\<lambda>f2.
         Ok (f2\<lparr>af_ctx := (af_ctx f2)\<lparr>ax_apply_res := ax_apply_res (af_ctx f2) @
               [\<lparr>ar_region_id = rg_id (ad_region d), ar_apply_state = ad_apply_state d,
                 ar_applied_index_term = ad_applied_index_term d, ar_exec_res = results\<rparr>]\<rparr>\<rparr>)))"

definition ctx_flush :: "'db mq_crates \<Rightarrow> ('db, 'r) apply_fsm \<Rightarrow> (unit, bool \<times> ('db, 'r) apply_fsm) res" where
  "ctx_flush M f =
     (if \<not> ax_timer (af_ctx f) then Ok (False, f)
      else bind_res (write_to_db M (f\<lparr>af_ctx := (af_ctx f)\<lparr>ax_timer := False\<rparr>\<rparr>)) (\<lambda>(is_synced, f1).
           Ok (is_synced,
               f1\<lparr>af_notified := af_notified f1 @ ax_apply_res (af_ctx f1),
                  af_ctx := (af_ctx f1)\<lparr>ax_apply_res := [], ax_committed_count := 0\<rparr>\<rparr>)))"

section \<open>Stale commands\<close>

definition notify_stale_req :: "(mq_error \<Rightarrow> string) \<Rightarrow> u64 \<Rightarrow> 'r callback \<Rightarrow> (unit, 'r list) res" where
  "notify_stale_req fmt term cb = invoke_with_response cb (err_resp fmt StaleCommand term)"

definition notify_stale_command :: "(mq_error \<Rightarrow> string) \<Rightarrow> u64 \<Rightarrow> 'r pending_cmd \<Rightarrow> (unit, 'r list) res" where
  "notify_stale_command fmt term cmd =
     bind_res (unwrap (pc_cb cmd)) (\<lambda>cb. notify_stale_req fmt term cb)"

fun clear_all_commands_as_stale ::
    "(mq_error \<Rightarrow> string) \<Rightarrow> u64 \<Rightarrow> 'r pending_cmd list \<Rightarrow> (unit, 'r list) res" where
  "clear_all_commands_as_stale fmt term [] = Ok []"
| "clear_all_commands_as_stale fmt term (cmd # cmds) =
     bind_res (notify_stale_command fmt term cmd) (\<lambda>rs.
     bind_res (clear_all_commands_as_stale fmt term cmds) (\<lambda>rs'. Ok (rs @ rs')))"

text \<open>The loop of \<open>find_pending\<close>: the callback found, the replies to the stale commands before it and
  the queue that is left.\<close>

function find_pending ::
    "(mq_error \<Rightarrow> string) \<Rightarrow> u64 \<Rightarrow> u64 \<Rightarrow> u64 \<Rightarrow> 'r pending_cmd list \<Rightarrow>
     (unit, 'r callback option \<times> 'r list \<times> 'r pending_cmd list) res" where
  "find_pending fmt self_term index term q =
     (case pop_normal q index term of
        (None, q') \<Rightarrow> Ok (None, [], q')
      | (Some head, q') \<Rightarrow>
          if pc_term head = term
          then if pc_index head = index
               then bind_res (unwrap (pc_cb head)) (\<lambda>cb. Ok (Some cb, [], q'))
               else Panic
          else bind_res (notify_stale_command fmt self_term head) (\<lambda>rs.
               bind_res (find_pending fmt self_term index term q') (\<lambda>(cb, rs', q''). Ok (cb, rs @ rs', q''))))"
  by pat_completeness auto
termination
  by (relation "measure (\<lambda>(_, _, _, _, q). length q)") (auto dest: pop_normal_length [OF sym])

declare find_pending.simps [simp del]

text \<open>The loop over the commands of earlier terms when the empty entry of a new leader is applied.\<close>

function pop_earlier_terms ::
    "u64 \<Rightarrow> 'r pending_cmd list \<Rightarrow> 'r callback list \<times> 'r pending_cmd list" where
  "pop_earlier_terms term q =
     (case pop_normal q (- 1) (term - 1) of
        (None, q') \<Rightarrow> ([], q')
      | (Some cmd, q') \<Rightarrow>
          let (cbs, q'') = pop_earlier_terms term q'
          in (case pc_cb cmd of Some cb \<Rightarrow> (cb # cbs, q'') | None \<Rightarrow> (cbs, q'')))"
  by pat_completeness auto
termination
  by (relation "measure (\<lambda>(_, q). length q)") (auto dest: pop_normal_length [OF sym])

declare pop_earlier_terms.simps [simp del]

section \<open>Executing a command\<close>

definition handle_message_queue :: "u64 \<Rightarrow> u64 \<Rightarrow> response mq_result" where
  "handle_message_queue index offset =
     Ok (default_response\<lparr>rs_message_queue :=
       Some (default_message_queue_response\<lparr>mqs_error := ''OK'', mqs_index := index, mqs_offset := offset\<rparr>)\<rparr>)"

fun write_cmd_loop :: "u64 \<Rightarrow> nat \<Rightarrow> request list \<Rightarrow> response list mq_result" where
  "write_cmd_loop index offset [] = Ok []"
| "write_cmd_loop index offset (req # requests) =
     bind_res (case rq_cmd_type req of
                 MessageQueue \<Rightarrow> handle_message_queue index (of_nat offset)
               | _ \<Rightarrow> Panic) (\<lambda>resp.
     bind_res (write_cmd_loop index (offset + 1) requests) (\<lambda>responses.
     Ok (resp\<lparr>rs_cmd_type := rq_cmd_type req\<rparr> # responses)))"

definition response_with_uuid :: "raft_cmd_request \<Rightarrow> raft_cmd_response" where
  "response_with_uuid req =
     (let uuid = rqh_uuid (get_request_header req)
      in if uuid \<noteq> [] then map_response_header (rsh_uuid_update (\<lambda>_. uuid)) default_raft_cmd_response
         else default_raft_cmd_response)"

definition exec_write_cmd :: "exec_context \<Rightarrow> raft_cmd_request \<Rightarrow> (raft_cmd_response \<times> apply_result) mq_result" where
  "exec_write_cmd ctx req =
     bind_res (write_cmd_loop (ec_index ctx) 0 (rcq_requests req)) (\<lambda>responses.
     Ok ((response_with_uuid req)\<lparr>rcs_responses := responses\<rparr>, Apply_None))"

definition compact_raft_log :: "raft_apply_state \<Rightarrow> u64 \<Rightarrow> u64 \<Rightarrow> raft_apply_state mq_result" where
  "compact_raft_log state compact_index compact_term =
     (if compact_index \<le> rts_index (get_truncated_state state)
      then Err (OtherError ''try to truncate compacted entries'')
      else if ras_applied_index state < compact_index
      then Err (OtherError (''compact index '' @ show_u64 compact_index @ '' > applied index '' @
             show_u64 (ras_applied_index state)))
      else Ok (state\<lparr>ras_truncated_state := Some ((get_truncated_state state)
                \<lparr>rts_index := compact_index, rts_term := compact_term\<rparr>)\<rparr>))"

definition get_compact_log :: "admin_request \<Rightarrow> compact_log_request" where
  "get_compact_log req = get_or_default default_compact_log_request (adq_compact_log req)"

definition exec_compact_log ::
    "exec_context \<Rightarrow> admin_request \<Rightarrow> ((admin_response \<times> apply_result) \<times> exec_context) mq_result" where
  "exec_compact_log ctx req =
     (let compact_index = clr_compact_index (get_compact_log req);
          resp = default_admin_response;
          first_idx = first_index (ec_apply_state ctx)
      in if compact_index \<le> first_idx then Ok ((resp, Apply_None), ctx)
         else let compact_term = clr_compact_term (get_compact_log req)
         in if compact_term = 0 then Err (OtherError ''command format is outdated, please upgrade leader'')
            else bind_res (compact_raft_log (ec_apply_state ctx) compact_index compact_term) (\<lambda>state.
                 Ok ((resp, Apply_Res (Exec_CompactLog (get_truncated_state state) first_idx)),
                     ctx\<lparr>ec_apply_state := state\<rparr>)))"

definition exec_admin_cmd ::
    "exec_context \<Rightarrow> raft_cmd_request \<Rightarrow> ((raft_cmd_response \<times> apply_result) \<times> exec_context) mq_result" where
  "exec_admin_cmd ctx req =
     (let request = get_or_default default_admin_request (rcq_admin_request req);
          cmd_type = adq_cmd_type request
      in bind_res (case cmd_type of
                     CompactLog \<Rightarrow> exec_compact_log ctx request
                   | InvalidAdmin \<Rightarrow> Err (OtherError ''unsupported admin command type''))
         (\<lambda>((response, exec_result), ctx).
         Ok (((response_with_uuid req)\<lparr>rcs_admin_response := Some (response\<lparr>ads_cmd_type := cmd_type\<rparr>)\<rparr>,
              exec_result), ctx)))"

definition exec_raft_cmd ::
    "exec_context \<Rightarrow> raft_cmd_request \<Rightarrow> ((raft_cmd_response \<times> apply_result) \<times> exec_context) mq_result" where
  "exec_raft_cmd ctx req =
     (if rcq_admin_request req \<noteq> None then exec_admin_cmd ctx req
      else bind_res (exec_write_cmd ctx req) (\<lambda>r. Ok (r, ctx)))"

definition new_ctx :: "'r apply_delegate \<Rightarrow> u64 \<Rightarrow> u64 \<Rightarrow> exec_context" where
  "new_ctx self index term = \<lparr>ec_apply_state = ad_apply_state self, ec_index = index, ec_term = term\<rparr>"

section \<open>Applying entries\<close>

definition apply_raft_cmd ::
    "(mq_error \<Rightarrow> string) \<Rightarrow> u64 \<Rightarrow> u64 \<Rightarrow> raft_cmd_request \<Rightarrow> ('db, 'r) apply_fsm \<Rightarrow>
     (unit, (raft_cmd_response \<times> apply_result) \<times> ('db, 'r) apply_fsm) res" where
  "apply_raft_cmd fmt index term req f =
     (let exec_ctx = new_ctx (af_delegate f) index term;
          wb = set_save_point (ax_kv_wb (af_ctx f));
          finish = (\<lambda>out exec_ctx wb.
            Ok (out, f\<lparr>af_ctx := (af_ctx f)\<lparr>ax_kv_wb := wb, ax_exec_ctx := None\<rparr>,
                       af_delegate := (af_delegate f)
                         \<lparr>ad_apply_state := (ec_apply_state exec_ctx)\<lparr>ras_applied_index := index\<rparr>,
                          ad_applied_index_term := term\<rparr>\<rparr>))
      in case exec_raft_cmd exec_ctx req of
           Ok (out, exec_ctx') \<Rightarrow> bind_res (pop_save_point wb) (\<lambda>wb. finish out exec_ctx' wb)
         | Err e \<Rightarrow> bind_res (rollback_to_save_point wb) (\<lambda>wb. finish (new_error fmt e, Apply_None) exec_ctx wb)
         | Panic \<Rightarrow> Panic)"

definition should_sync_log :: "raft_cmd_request \<Rightarrow> bool" where
  "should_sync_log cmd = False"

definition process_raft_cmd ::
    "(mq_error \<Rightarrow> string) \<Rightarrow> u64 \<Rightarrow> u64 \<Rightarrow> raft_cmd_request \<Rightarrow> ('db, 'r) apply_fsm \<Rightarrow>
     (unit, apply_result \<times> ('db, 'r) apply_fsm) res" where
  "process_raft_cmd fmt index term cmd f =
     (if index = 0 then Panic
      else let f = f\<lparr>af_ctx := (af_ctx f)\<lparr>ax_sync_log_hint := ax_sync_log_hint (af_ctx f) \<or> should_sync_log cmd\<rparr>\<rparr>
      in bind_res (apply_raft_cmd fmt index term cmd f) (\<lambda>((resp, exec_result), f).
         let resp = bind_term resp (ad_term (af_delegate f))
         in bind_res (find_pending fmt (ad_term (af_delegate f)) index term (ad_pending_cmds (af_delegate f)))
              (\<lambda>(cmd_cb, rs, pending).
            let f = send_replies rs (f\<lparr>af_delegate := (af_delegate f)\<lparr>ad_pending_cmds := pending\<rparr>\<rparr>)
            in Ok (exec_result, push_cmd cmd_cb resp f))))"

definition handle_raft_entry_normal ::
    "'db mq_crates \<Rightarrow> (mq_error \<Rightarrow> string) \<Rightarrow> entry \<Rightarrow> ('db, 'r) apply_fsm \<Rightarrow>
     (unit, apply_result \<times> ('db, 'r) apply_fsm) res" where
  "handle_raft_entry_normal M fmt entry f =
     (let index = ent_index entry; term = ent_term entry; data = ent_data entry
      in if data \<noteq> []
         then bind_res (parse_data_at (rp_cmd_request_parse (m_proto M)) data) (\<lambda>cmd.
              process_raft_cmd fmt index term cmd f)
         else if \<not> 0 < term then Panic
         else let d = af_delegate f;
                  (cbs, pending) = pop_earlier_terms term (ad_pending_cmds d);
                  d' = d\<lparr>ad_apply_state := (ad_apply_state d)\<lparr>ras_applied_index := index\<rparr>,
                         ad_applied_index_term := term, ad_pending_cmds := pending\<rparr>
              in Ok (Apply_None,
                     fold (\<lambda>cb f. push_cb cb (err_resp fmt StaleCommand term) f) cbs (f\<lparr>af_delegate := d'\<rparr>)))"

fun committed_entries_loop ::
    "'db mq_crates \<Rightarrow> (mq_error \<Rightarrow> string) \<Rightarrow> entry list \<Rightarrow> exec_result list \<Rightarrow> ('db, 'r) apply_fsm \<Rightarrow>
     (unit, exec_result list \<times> ('db, 'r) apply_fsm) res" where
  "committed_entries_loop M fmt [] results f = Ok (results, f)"
| "committed_entries_loop M fmt (entry # entries) results f =
     (if ras_applied_index (ad_apply_state (af_delegate f)) + 1 \<noteq> ent_index entry then Panic
      else bind_res (case ent_entry_type entry of
                       EntryNormal \<Rightarrow> handle_raft_entry_normal M fmt entry f
                     | _ \<Rightarrow> Panic) (\<lambda>(res, f).
           committed_entries_loop M fmt entries
             (case res of Apply_None \<Rightarrow> results | Apply_Res r \<Rightarrow> results @ [r]) f))"

definition handle_raft_committed_entries ::
    "'db mq_crates \<Rightarrow> (mq_error \<Rightarrow> string) \<Rightarrow> entry list \<Rightarrow> ('db, 'r) apply_fsm \<Rightarrow>
     (unit, ('db, 'r) apply_fsm) res" where
  "handle_raft_committed_entries M fmt entries f =
     (if entries = [] then Ok f
      else let f = f\<lparr>af_ctx := (af_ctx f)\<lparr>ax_committed_count := ax_committed_count (af_ctx f) + length entries\<rparr>\<rparr>
      in bind_res (committed_entries_loop M fmt entries [] f) (\<lambda>(results, f).
         finish_for M results f))"

section \<open>Tasks\<close>

record 'r proposal =
  prop_is_conf_change :: bool
  prop_index :: u64
  prop_term :: u64
  prop_cb :: "'r callback"
  prop_propose_time :: "nat option"
  prop_must_pass_epoch_check :: bool

record 'r apply_task =
  at_peer_id :: u64
  at_region_id :: u64
  at_term :: u64
  at_entries :: cached_entries
  at_cbs :: "'r proposal list"

definition apply_task_new ::
    "u64 \<Rightarrow> u64 \<Rightarrow> u64 \<Rightarrow> entry list \<Rightarrow> 'r proposal list \<Rightarrow> ('e, 'r apply_task) res" where
  "apply_task_new peer_id region_id term entries cbs =
     bind_res (cached_entries_new entries) (\<lambda>entries.
     Ok \<lparr>at_peer_id = peer_id, at_region_id = region_id, at_term = term, at_entries = entries, at_cbs = cbs\<rparr>)"

definition append_proposal :: "'r proposal list \<Rightarrow> 'r apply_delegate \<Rightarrow> 'r apply_delegate" where
  "append_proposal props d =
     fold (\<lambda>p d. d\<lparr>ad_pending_cmds := append_normal (ad_pending_cmds d)
             (pending_cmd_new (prop_index p) (prop_term p) (prop_cb p))\<rparr>) props d"

definition handle_apply ::
    "'db mq_crates \<Rightarrow> (mq_error \<Rightarrow> string) \<Rightarrow> 'r apply_task \<Rightarrow> ('db, 'r) apply_fsm \<Rightarrow>
     (unit, ('db, 'r) apply_fsm) res" where
  "handle_apply M fmt task f =
     (let f = f\<lparr>af_ctx := (af_ctx f)\<lparr>ax_timer := True\<rparr>\<rparr>;
          entries = fst (take_entries (at_entries task));
          d = (af_delegate f)\<lparr>ad_term := at_term task\<rparr>
      in if entries = [] then Panic
         else let state = ad_apply_state d;
                  cur_index = ent_index (last entries); cur_term = ent_term (last entries)
         in if cur_index < ras_commit_index state \<or> cur_term < ras_commit_term state then Panic
            else let d = d\<lparr>ad_apply_state := state\<lparr>ras_commit_index := cur_index, ras_commit_term := cur_term\<rparr>\<rparr>;
                     d = append_proposal (at_cbs task) d
                 in handle_raft_committed_entries M fmt entries (f\<lparr>af_delegate := d\<rparr>))"

text \<open>\<open>Registration\<close> messages are unreachable and \<open>Noop\<close> does nothing.\<close>

datatype 'r apply_msg = Msg_Apply "'r apply_task" | Msg_Registration | Msg_Noop

fun handle_tasks ::
    "'db mq_crates \<Rightarrow> (mq_error \<Rightarrow> string) \<Rightarrow> 'r apply_msg list \<Rightarrow> ('db, 'r) apply_fsm \<Rightarrow>
     (unit, ('db, 'r) apply_fsm) res" where
  "handle_tasks M fmt [] f = Ok f"
| "handle_tasks M fmt (Msg_Apply task # msgs) f =
     bind_res (handle_apply M fmt task f) (\<lambda>f. handle_tasks M fmt msgs f)"
| "handle_tasks M fmt (Msg_Registration # msgs) f = Panic"
| "handle_tasks M fmt (Msg_Noop # msgs) f = handle_tasks M fmt msgs f"

text \<open>A round of the poller on the messages received, at most \<open>messages_per_tick\<close> of them.\<close>

definition messages_per_tick :: nat where "messages_per_tick = 4096"

definition poll_round ::
    "'db mq_crates \<Rightarrow> (mq_error \<Rightarrow> string) \<Rightarrow> 'r apply_msg list \<Rightarrow> ('db, 'r) apply_fsm \<Rightarrow>
     (unit, 'r apply_msg list \<times> ('db, 'r) apply_fsm) res" where
  "poll_round M fmt msgs f =
     bind_res (handle_tasks M fmt (take messages_per_tick msgs) f) (\<lambda>f.
     bind_res (ctx_flush M f) (\<lambda>(_, f).
     Ok (drop messages_per_tick msgs,
         f\<lparr>af_delegate := (af_delegate f)
            \<lparr>ad_last_flush_applied_index := ras_applied_index (ad_apply_state (af_delegate f))\<rparr>\<rparr>)))"

end
