(* ===== verification/Batch_Builder.thy ===== *)
theory Batch_Builder
  imports Callback Float64
begin

text \<open>
  \<^verbatim>\<open>BatchRaftCmdRequestBuilder\<close> of \<^verbatim>\<open>dependencies/tiny-mq/src/peer.rs\<close>: it merges write commands with
  the same header into one command, whose callback gives every merged callback its share of the
  responses.
\<close>

record 'r raft_command =
  rc_request :: raft_cmd_request
  rc_callback :: "'r callback"

record 'r batch_builder =
  bb_raft_entry_max_size :: f64
  bb_batch_req_size :: "32 word"
  bb_request :: "raft_cmd_request option"
  bb_callbacks :: "('r callback \<times> nat) list"

definition builder_new :: "f64 \<Rightarrow> 'r batch_builder" where
  "builder_new raft_entry_max_size =
     \<lparr>bb_raft_entry_max_size = raft_entry_max_size, bb_batch_req_size = 0, bb_request = None,
      bb_callbacks = []\<rparr>"

text \<open>The size of a batch that a peer is created with.\<close>

definition raft_entry_max_size :: f64 where "raft_entry_max_size = Fin (8 * 1024 * 1024)"

definition f64_of_u32 :: "32 word \<Rightarrow> f64" where
  "f64_of_u32 n = f64_round (of_nat (unat n))"

text \<open>The literals \<open>0.2\<close> and \<open>0.4\<close>.\<close>

definition f64_0_2 :: f64 where "f64_0_2 = f64_round (2 / 10)"

definition f64_0_4 :: f64 where "f64_0_4 = f64_round (4 / 10)"

definition can_batch :: "'r batch_builder \<Rightarrow> raft_cmd_request \<Rightarrow> 32 word \<Rightarrow> bool" where
  "can_batch self req req_size =
     (if rcq_requests req = [] \<or>
         f64_less (f64_mul (bb_raft_entry_max_size self) f64_0_2) (f64_of_u32 req_size) then False
      else if \<not> list_all (\<lambda>r. rq_cmd_type r = MessageQueue) (rcq_requests req) then False
      else case bb_request self of
             Some batch_req \<Rightarrow> get_request_header batch_req = get_request_header req
           | None \<Rightarrow> True)"

definition builder_add :: "'r batch_builder \<Rightarrow> 'r raft_command \<Rightarrow> 32 word \<Rightarrow> 'r batch_builder" where
  "builder_add self cmd req_size =
     (let req_num = length (rcq_requests (rc_request cmd));
          request = (case bb_request self of
                       Some batch_req \<Rightarrow>
                         batch_req\<lparr>rcq_requests := rcq_requests batch_req @ rcq_requests (rc_request cmd)\<rparr>
                     | None \<Rightarrow> rc_request cmd)
      in self\<lparr>bb_request := Some request,
              bb_callbacks := bb_callbacks self @ [(rc_callback cmd, req_num)],
              bb_batch_req_size := bb_batch_req_size self + req_size\<rparr>)"

definition should_finish :: "'r batch_builder \<Rightarrow> bool" where
  "should_finish self =
     (case bb_request self of
        Some batch_req \<Rightarrow>
          f64_less (f64_mul (bb_raft_entry_max_size self) f64_0_4) (f64_of_u32 (bb_batch_req_size self)) \<or>
          256 < length (rcq_requests batch_req)
      | None \<Rightarrow> False)"

fun take_proposed :: "'r callback \<Rightarrow> ext_callback option \<times> 'r callback" where
  "take_proposed (Cb_Write cb p c) = (p, Cb_Write cb None c)"
| "take_proposed cb = (None, cb)"

fun take_committed :: "'r callback \<Rightarrow> ext_callback option \<times> 'r callback" where
  "take_committed (Cb_Write cb p c) = (c, Cb_Write cb p None)"
| "take_committed cb = (None, cb)"

text \<open>The merged extension callback calls the ones it was made of in turn.\<close>

definition merge_ext :: "ext_callback option list \<Rightarrow> ext_callback option" where
  "merge_ext cbs = (let cbs = List.map_filter id cbs in if cbs = [] then None else Some (concat cbs))"

text \<open>The callback of a merged command. Taking responses beyond the end of the list panics.\<close>

fun batch_reply ::
    "('r callback \<times> nat) list \<Rightarrow> raft_cmd_response \<Rightarrow> nat \<Rightarrow> (unit, 'r list) res" where
  "batch_reply [] resp last_index = Ok []"
| "batch_reply ((cb, req_num) # cbs) resp last_index =
     (let next_index = last_index + req_num;
          cmd_resp = default_raft_cmd_response\<lparr>rcs_header := Some (get_response_header resp)\<rparr>
      in if \<not> has_error resp \<and> length (rcs_responses resp) < next_index then Panic
         else let cmd_resp = (if \<not> has_error resp
                              then cmd_resp\<lparr>rcs_responses := take req_num (drop last_index (rcs_responses resp))\<rparr>
                              else cmd_resp)
              in bind_res (invoke_with_response cb cmd_resp) (\<lambda>rs.
                 bind_res (batch_reply cbs resp next_index) (\<lambda>rs'. Ok (rs @ rs'))))"

definition builder_build :: "'r batch_builder \<Rightarrow> 'r raft_command option \<times> 'r batch_builder" where
  "builder_build self =
     (case bb_request self of
        None \<Rightarrow> (None, self)
      | Some req \<Rightarrow>
          let self = self\<lparr>bb_request := None, bb_batch_req_size := 0\<rparr>
          in if length (bb_callbacks self) = 1
             then (Some \<lparr>rc_request = req, rc_callback = fst (last (bb_callbacks self))\<rparr>,
                   self\<lparr>bb_callbacks := butlast (bb_callbacks self)\<rparr>)
             else let cbs = bb_callbacks self;
                      proposed_cb = merge_ext (map (\<lambda>(cb, _). fst (take_proposed cb)) cbs);
                      cbs = map (\<lambda>(cb, n). (snd (take_proposed cb), n)) cbs;
                      committed_cb = merge_ext (map (\<lambda>(cb, _). fst (take_committed cb)) cbs);
                      cbs = map (\<lambda>(cb, n). (snd (take_committed cb), n)) cbs;
                      cb = write_ext (\<lambda>resp. batch_reply cbs resp 0) proposed_cb committed_cb
                  in (Some \<lparr>rc_request = req, rc_callback = cb\<rparr>, self\<lparr>bb_callbacks := []\<rparr>))"

section \<open>A batch\<close>

text \<open>A builder holds a batch of commands when it was filled with them since it was last empty.\<close>

fun add_all :: "('r raft_command \<times> 32 word) list \<Rightarrow> 'r batch_builder \<Rightarrow> 'r batch_builder" where
  "add_all [] b = b"
| "add_all ((cmd, sz) # cmds) b = add_all cmds (builder_add b cmd sz)"

fun batchable :: "('r raft_command \<times> 32 word) list \<Rightarrow> 'r batch_builder \<Rightarrow> bool" where
  "batchable [] b = True"
| "batchable ((cmd, sz) # cmds) b \<longleftrightarrow>
     can_batch b (rc_request cmd) sz \<and> \<not> should_finish b \<and> batchable cmds (builder_add b cmd sz)"

lemma take_ext_same [simp]:
  "invoke_with_response (snd (take_proposed cb)) resp = invoke_with_response cb resp"
  "invoke_with_response (snd (take_committed cb)) resp = invoke_with_response cb resp"
  by (cases cb; simp)+

lemma batch_reply_taken:
  "batch_reply (map (\<lambda>(cb, n). (snd (take_committed cb), n)) (map (\<lambda>(cb, n). (snd (take_proposed cb), n)) cbs)) resp i =
   batch_reply cbs resp i"
  by (induction cbs arbitrary: i) (auto simp: Let_def)

lemma add_all_simps:
  "bb_callbacks (add_all cmds b) =
     bb_callbacks b @ map (\<lambda>(cmd, _). (rc_callback cmd, length (rcq_requests (rc_request cmd)))) cmds"
  "bb_raft_entry_max_size (add_all cmds b) = bb_raft_entry_max_size b"
  by (induction cmds b rule: add_all.induct) (simp_all add: builder_add_def)

lemma add_all_request:
  assumes "bb_request b = Some req"
  shows "bb_request (add_all cmds b) =
    Some (req\<lparr>rcq_requests := rcq_requests req @ concat (map (\<lambda>(cmd, _). rcq_requests (rc_request cmd)) cmds)\<rparr>)"
  using assms
proof (induction cmds b arbitrary: req rule: add_all.induct)
  case (2 cmd sz cmds b)
  then show ?case by (simp add: builder_add_def)
qed simp

end
