(* ===== verification/Raft_Kv.thy ===== *)
theory Raft_Kv
  imports Batch_Builder
begin

text \<open>
  \<^verbatim>\<open>dependencies/tiny-mq/src/raftkv.rs\<close>, \<^verbatim>\<open>dependencies/tiny-mq/src/storage.rs\<close> and \<open>send_payload\<close> of
  \<^verbatim>\<open>dependencies/tiny-mq/src/message_queue_adapter.rs\<close>: a payload becomes a write command with one
  request, and the response of the command becomes the position of the payload in the log.
\<close>

section \<open>raftkv.rs\<close>

datatype modify = Modify_MessageQueue message_queue_request

definition new_request_header :: "mq_context \<Rightarrow> raft_request_header" where
  "new_request_header ctx =
     (let header = default_raft_request_header\<lparr>rqh_region_id := mqc_region_id ctx,
            rqh_peer := Some (get_or_default default_peer (mqc_peer ctx))\<rparr>
      in if mqc_term ctx \<noteq> 0 then header\<lparr>rqh_term := mqc_term ctx\<rparr> else header)"

fun modify_to_request :: "modify \<Rightarrow> request" where
  "modify_to_request (Modify_MessageQueue message_queue) =
     default_request\<lparr>rq_cmd_type := MessageQueue, rq_message_queue := Some message_queue\<rparr>"

definition modifies_to_requests :: "modify list \<Rightarrow> request list" where
  "modifies_to_requests modifies = map modify_to_request modifies"

definition check_raft_cmd_response :: "raft_cmd_response \<Rightarrow> nat \<Rightarrow> unit mq_result" where
  "check_raft_cmd_response resp req_cnt =
     (case rsh_error (get_response_header resp) of
        Some e \<Rightarrow> Err (RequestFailed e)
      | None \<Rightarrow>
          if req_cnt \<noteq> length (rcs_responses resp)
          then Err (OtherError (''responses count '' @ show_nat (length (rcs_responses resp)) @
                 '' is not equal to requests count '' @ show_nat req_cnt))
          else Ok ())"

definition on_write_result :: "raft_cmd_response \<Rightarrow> nat \<Rightarrow> u64 option \<times> response list mq_result" where
  "on_write_result write_resp req_cnt =
     (let cb_ctx = Some (rsh_current_term (get_response_header write_resp))
      in (cb_ctx, bind_res (check_raft_cmd_response write_resp req_cnt) (\<lambda>_. Ok (rcs_responses write_resp))))"

definition exec_write_requests ::
    "mq_context \<Rightarrow> modify list \<Rightarrow> (u64 option \<times> response list mq_result \<Rightarrow> (unit, 'r list) res) \<Rightarrow>
     ext_callback option \<Rightarrow> ext_callback option \<Rightarrow> 'r raft_command" where
  "exec_write_requests ctx modifies write_cb proposed_cb committed_cb =
     (let reqs = modifies_to_requests modifies;
          cmd = default_raft_cmd_request\<lparr>rcq_header := Some (new_request_header ctx), rcq_requests := reqs\<rparr>;
          cb = write_ext (\<lambda>resp. write_cb (on_write_result resp (length reqs))) proposed_cb committed_cb
      in \<lparr>rc_request = cmd, rc_callback = cb\<rparr>)"

section \<open>storage.rs\<close>

text \<open>The callback asserts that there is one response; \<open>take_message_queue\<close> of an unset field is the
  default instance.\<close>

definition message_queue_result :: "response list mq_result \<Rightarrow> (unit, message_queue_response mq_result) res" where
  "message_queue_result res =
     (case res of
        Ok resps \<Rightarrow>
          if length resps \<noteq> 1 then Panic
          else Ok (Ok (get_or_default default_message_queue_response (rs_message_queue (last resps))))
      | Err e \<Rightarrow> Ok (Err e)
      | Panic \<Rightarrow> Panic)"

definition raw_message_queue ::
    "message_queue_request \<Rightarrow> (message_queue_response mq_result \<Rightarrow> 'r list) \<Rightarrow> 'r raft_command" where
  "raw_message_queue message_queue_req callback =
     (let ctx = get_or_default default_mq_context (mqr_context message_queue_req)
      in exec_write_requests ctx [Modify_MessageQueue message_queue_req]
           (\<lambda>(_, res). bind_res (message_queue_result res) (\<lambda>r. Ok (callback r))) None None)"

section \<open>send\_payload\<close>

text \<open>The command that \<open>send_payload\<close> sends for a caller, and the result the caller is given: the
  position, or the printed error.\<close>

type_synonym payload_reply = "nat \<times> (string, u64 \<times> u64) res"

definition payload_request :: "u64 \<Rightarrow> u64 \<Rightarrow> bytes \<Rightarrow> message_queue_request" where
  "payload_request region_id store_id payload =
     (let context = default_mq_context\<lparr>mqc_region_id := region_id,
            mqc_peer := Some (default_peer\<lparr>pr_id := store_id, pr_store_id := store_id\<rparr>)\<rparr>
      in default_message_queue_request\<lparr>mqr_context := Some context, mqr_payload := payload\<rparr>)"

definition payload_result ::
    "(mq_error \<Rightarrow> string) \<Rightarrow> nat \<Rightarrow> message_queue_response mq_result \<Rightarrow> payload_reply" where
  "payload_result fmt caller v =
     (caller, case v of
        Ok resp \<Rightarrow> Ok (mqs_index resp, mqs_offset resp)
      | Err e \<Rightarrow> Err (fmt e)
      | Panic \<Rightarrow> Panic)"

definition send_payload ::
    "(mq_error \<Rightarrow> string) \<Rightarrow> u64 \<Rightarrow> u64 \<Rightarrow> nat \<Rightarrow> bytes \<Rightarrow> payload_reply raft_command" where
  "send_payload fmt region_id store_id caller payload =
     raw_message_queue (payload_request region_id store_id payload) (\<lambda>v. [payload_result fmt caller v])"

lemmas send_payload_defs = send_payload_def raw_message_queue_def exec_write_requests_def
  modifies_to_requests_def write_ext_def payload_request_def new_request_header_def

lemma send_payload_request:
  "rcq_requests (rc_request (send_payload fmt region_id store_id caller payload)) =
     [default_request\<lparr>rq_cmd_type := MessageQueue,
        rq_message_queue := Some (payload_request region_id store_id payload)\<rparr>]"
  "rcq_admin_request (rc_request (send_payload fmt region_id store_id caller payload)) = None"
  "rcq_header (rc_request (send_payload fmt region_id store_id caller payload)) =
     Some (new_request_header (get_or_default default_mq_context (mqr_context (payload_request region_id store_id payload))))"
  by (simp_all add: send_payload_def raw_message_queue_def exec_write_requests_def modifies_to_requests_def
      default_raft_cmd_request_def)

text \<open>What the caller is told for each kind of response.\<close>

lemma send_payload_reply:
  "invoke_with_response (rc_callback (send_payload fmt region_id store_id caller payload)) resp =
     (case rsh_error (get_response_header resp) of
        Some e \<Rightarrow> Ok [(caller, Err (fmt (RequestFailed e)))]
      | None \<Rightarrow>
          (case rcs_responses resp of
             [r] \<Rightarrow> (let m = get_or_default default_message_queue_response (rs_message_queue r)
                    in Ok [(caller, Ok (mqs_index m, mqs_offset m))])
           | _ \<Rightarrow> Ok [(caller, Err (fmt (OtherError (''responses count '' @ show_nat (length (rcs_responses resp)) @
                 '' is not equal to requests count '' @ show_nat 1))))]))"
  by (auto simp: send_payload_def raw_message_queue_def exec_write_requests_def write_ext_def
      modifies_to_requests_def on_write_result_def check_raft_cmd_response_def message_queue_result_def
      payload_result_def Let_def split: option.splits list.splits)

end
