(* ===== verification/Batch_Properties.thy ===== *)
theory Batch_Properties
  imports Apply Raft_Kv
begin

text \<open>
  Batches of commands: the merged command carries the requests of all of them, its callback hands
  out the responses by the number of requests, and the size of a batch stays bounded.
\<close>

section \<open>Responses\<close>

fun chunks :: "nat list \<Rightarrow> 'a list \<Rightarrow> 'a list list" where
  "chunks [] xs = []"
| "chunks (n # ns) xs = take n xs # chunks ns (drop n xs)"

definition share :: "raft_cmd_response \<Rightarrow> response list \<Rightarrow> raft_cmd_response" where
  "share resp rs = default_raft_cmd_response\<lparr>rcs_header := Some (get_response_header resp), rcs_responses := rs\<rparr>"

lemma batch_reply_shares:
  assumes "\<not> has_error resp" "length (rcs_responses resp) = i + sum_list (map snd cbs)"
  shows "batch_reply cbs resp i =
    invoke_callbacks (zip (map fst cbs) (map (share resp) (chunks (map snd cbs) (drop i (rcs_responses resp)))))"
  using assms
proof (induction cbs arbitrary: i)
  case (Cons c cbs)
  obtain cb n where c: "c = (cb, n)" by (cases c)
  have "drop n (drop i (rcs_responses resp)) = drop (i + n) (rcs_responses resp)"
    by (simp add: add.commute)
  with Cons c show ?case by (simp add: share_def)
qed simp

lemma batch_reply_error:
  assumes "has_error resp"
  shows "batch_reply cbs resp i = invoke_callbacks (map (\<lambda>(cb, _). (cb, share resp [])) cbs)"
proof -
  have share: "share resp [] = default_raft_cmd_response\<lparr>rcs_header := Some (get_response_header resp)\<rparr>"
    by (simp add: share_def default_raft_cmd_response_def)
  show ?thesis using assms by (induction cbs arbitrary: i) (auto simp: share)
qed

text \<open>A response without other parts is its own share.\<close>

lemma share_self:
  assumes "rcs_header resp = Some h" "rcs_admin_response resp = None" "rcs_status_response resp = None"
  shows "share resp (rcs_responses resp) = resp"
  using assms by (simp add: share_def get_response_header_def default_raft_cmd_response_def)

section \<open>The merged command\<close>

definition cmd_size :: "'r raft_command \<Rightarrow> nat" where
  "cmd_size cmd = length (rcq_requests (rc_request cmd))"

definition merged_request :: "'r raft_command list \<Rightarrow> raft_cmd_request" where
  "merged_request cmds =
     (rc_request (hd cmds))\<lparr>rcq_requests := concat (map (\<lambda>cmd. rcq_requests (rc_request cmd)) cmds)\<rparr>"

lemma add_all_merged:
  assumes "cmds \<noteq> []"
  shows "bb_request (add_all cmds (builder_new mx)) = Some (merged_request (map fst cmds))"
proof -
  obtain cmd sz rest where cmds: "cmds = (cmd, sz) # rest" using assms by (cases cmds) auto
  show ?thesis
    using add_all_request [of "builder_add (builder_new mx) cmd sz" "rc_request cmd" rest]
    by (simp add: cmds merged_request_def builder_add_def builder_new_def case_prod_unfold comp_def)
qed

lemma build_callbacks:
  "bb_callbacks (add_all cmds (builder_new mx)) = map (\<lambda>cmd. (rc_callback cmd, cmd_size cmd)) (map fst cmds)"
  by (simp add: add_all_simps builder_new_def cmd_size_def case_prod_beta comp_def)

lemma builder_build_merged:
  assumes "cmds \<noteq> []"
  shows "\<exists>cb p c. builder_build (add_all cmds (builder_new mx)) =
      (Some \<lparr>rc_request = merged_request (map fst cmds), rc_callback = cb\<rparr>, builder_new mx) \<and>
    (length cmds = 1 \<longrightarrow> cb = rc_callback (fst (hd cmds))) \<and>
    (length cmds \<noteq> 1 \<longrightarrow>
       cb = Cb_Write (\<lambda>resp. batch_reply (map (\<lambda>cmd. (rc_callback cmd, cmd_size cmd)) (map fst cmds)) resp 0) p c)"
proof -
  let ?b = "add_all cmds (builder_new mx)"
  have reset: "?b\<lparr>bb_request := None, bb_batch_req_size := 0, bb_callbacks := []\<rparr> = builder_new mx"
    using add_all_simps(2) [of cmds "builder_new mx"] by (simp add: builder_new_def)
  have cbs: "bb_callbacks ?b = map (\<lambda>cmd. (rc_callback cmd, cmd_size cmd)) (map fst cmds)"
    by (rule build_callbacks)
  show ?thesis
  proof (cases "length cmds = 1")
    case True
    then obtain c where "cmds = [c]" by (cases cmds) auto
    with reset cbs add_all_merged [OF assms, of mx] show ?thesis
      by (simp add: builder_build_def)
  next
    case False
    then have "length (bb_callbacks ?b) \<noteq> 1" by (simp add: cbs)
    with False reset add_all_merged [OF assms, of mx] show ?thesis
      unfolding builder_build_def cbs [symmetric]
      by (simp add: Let_def write_ext_def batch_reply_taken del: map_map)
  qed
qed

text \<open>Every callback of a batch gets its own responses.\<close>

lemma batch_callback:
  assumes "cmds \<noteq> []" "builder_build (add_all cmds (builder_new mx)) = (Some cmd, b)"
    and "\<not> has_error resp" "rcs_header resp = Some h" "rcs_admin_response resp = None" "rcs_status_response resp = None"
    and "length (rcs_responses resp) = sum_list (map cmd_size (map fst cmds))"
  shows "invoke_with_response (rc_callback cmd) resp =
    invoke_callbacks (zip (map rc_callback (map fst cmds))
      (map (share resp) (chunks (map cmd_size (map fst cmds)) (rcs_responses resp))))"
proof -
  obtain cb p c where b: "builder_build (add_all cmds (builder_new mx)) =
      (Some \<lparr>rc_request = merged_request (map fst cmds), rc_callback = cb\<rparr>, builder_new mx)"
    "length cmds = 1 \<longrightarrow> cb = rc_callback (fst (hd cmds))"
    "length cmds \<noteq> 1 \<longrightarrow>
       cb = Cb_Write (\<lambda>resp. batch_reply (map (\<lambda>cmd. (rc_callback cmd, cmd_size cmd)) (map fst cmds)) resp 0) p c"
    using builder_build_merged [OF assms(1)] by blast
  then have cmd: "rc_callback cmd = cb" using assms(2) by auto
  show ?thesis
  proof (cases "length cmds = 1")
    case True
    then obtain x where x: "cmds = [x]" by (cases cmds) auto
    have "bind_res (invoke_with_response cb resp) Ok = invoke_with_response cb resp" for cb :: "'a callback"
      by (cases "invoke_with_response cb resp") simp_all
    with x True b(2) cmd assms(7) share_self [OF assms(4-6)] show ?thesis by simp
  next
    case False
    let ?cbs = "map (\<lambda>cmd. (rc_callback cmd, cmd_size cmd)) (map fst cmds)"
    have "map fst ?cbs = map rc_callback (map fst cmds)" "map snd ?cbs = map cmd_size (map fst cmds)"
      by simp_all
    moreover have "length (rcs_responses resp) = 0 + sum_list (map snd ?cbs)" using assms(7) by (simp add: comp_def)
    moreover note batch_reply_shares [OF assms(3) this]
    ultimately show ?thesis
      using b(3) False cmd by (simp only: drop_0 invoke_with_response.simps simp_thms)
  qed
qed

section \<open>Sizes\<close>

lemma bit_length_le: "n < 2 ^ k \<Longrightarrow> bit_length n \<le> k"
proof (induction n arbitrary: k rule: bit_length.induct)
  case (1 n)
  show ?case
  proof (cases "n = 0")
    case False
    with "1.prems" obtain j where "k = Suc j" by (cases k) auto
    with 1 False show ?thesis by (subst bit_length.simps) auto
  qed (simp add: bit_length.simps)
qed

lemma round_half_even_int [simp]: "round_half_even (of_int m) = m"
  by (simp add: round_half_even_def)

text \<open>Integers below \<open>2 ^ 53\<close> are represented exactly.\<close>

lemma f64_round_nat:
  assumes "n < 2 ^ 53"
  shows "f64_round (of_nat n) = Fin (of_nat n)"
proof (cases "n = 0")
  case True
  then show ?thesis by (simp add: f64_round_def)
next
  case False
  define e where "e = floor_log2 (of_nat n) - 52"
  have "e = int (bit_length n) - 53" using False by (simp add: e_def floor_log2_def)
  moreover have "bit_length n \<le> 53" using bit_length_le [OF assms] .
  ultimately have e: "- 53 \<le> e" "e \<le> 0" by simp_all
  define k where "k = nat (- e)"
  have u: "pow2 (max e (- 1074)) = 1 / 2 ^ k" using e by (auto simp: pow2_def k_def max_def)
  have "of_nat n / (1 / 2 ^ k) = (of_int (int n * 2 ^ k) :: rat)" by simp
  then have r: "of_int (round_half_even (of_nat n / (1 / 2 ^ k))) * (1 / 2 ^ k) = (of_nat n :: rat)"
    by (simp only: round_half_even_int) simp
  have "(of_nat n :: rat) < 2 ^ 53" using assms by (metis of_nat_less_iff of_nat_numeral of_nat_power)
  also have "(2 :: rat) ^ 53 \<le> 2 ^ 1024" by (rule power_increasing) simp_all
  finally have "\<not> 2 ^ 1024 \<le> (of_nat n :: rat)" by simp
  with False r u show ?thesis by (simp add: f64_round_def Let_def e_def [symmetric])
qed

lemma f64_of_u32: "f64_of_u32 n = Fin (of_nat (unat n))"
proof -
  have "unat n < 2 ^ LENGTH(32)" by (rule unsigned_less)
  also have "(2 :: nat) ^ LENGTH(32) < 2 ^ 53" by simp
  finally show ?thesis using f64_round_nat [of "unat n"] by (simp only: f64_of_u32_def)
qed

text \<open>20 and 40 percent of it, as the code computes them.\<close>

lemma batch_limits:
  "f64_mul raft_entry_max_size f64_0_2 = Fin (7205759403792794 / 4294967296)"
  "f64_mul raft_entry_max_size f64_0_4 = Fin (7205759403792794 / 2147483648)"
proof -
  show "f64_mul raft_entry_max_size f64_0_2 = Fin (7205759403792794 / 4294967296)"
    by (simp add: raft_entry_max_size_def f64_0_2_def f64_mul_def f64_eval)
  have "\<lceil>5 / 2 :: rat\<rceil> = 3" by (rule ceiling_unique) simp_all
  then have lit: "f64_0_4 = Fin (3602879701896397 / 9007199254740992)"
    by (simp add: f64_0_4_def f64_eval)
  show "f64_mul raft_entry_max_size f64_0_4 = Fin (7205759403792794 / 2147483648)"
    unfolding lit by (simp add: raft_entry_max_size_def f64_mul_def f64_eval)
qed

lemma can_batch_size:
  assumes "can_batch b req sz" "bb_raft_entry_max_size b = raft_entry_max_size"
  shows "unat sz \<le> 1677721"
proof -
  have "\<not> (7205759403792794 / 4294967296 :: rat) < of_nat (unat sz)"
    using assms
    by (simp add: can_batch_def f64_of_u32 f64_less_def batch_limits split: if_splits)
  then have "(of_nat (unat sz) :: rat) < of_nat 1677722" by simp
  then show ?thesis by (simp only: of_nat_less_iff)
qed

lemma should_finish_size:
  assumes "\<not> should_finish b" "bb_request b \<noteq> None" "bb_raft_entry_max_size b = raft_entry_max_size"
  shows "unat (bb_batch_req_size b) \<le> 3355443"
proof -
  have "\<not> (7205759403792794 / 2147483648 :: rat) < of_nat (unat (bb_batch_req_size b))"
    using assms
    by (auto simp: should_finish_def f64_of_u32 f64_less_def batch_limits split: option.splits)
  then have "(of_nat (unat (bb_batch_req_size b)) :: rat) < of_nat 3355444" by simp
  then show ?thesis by (simp only: of_nat_less_iff)
qed

lemma add_all_size:
  assumes "batchable cmds b" "bb_raft_entry_max_size b = raft_entry_max_size"
    and "bb_request b = None \<Longrightarrow> bb_batch_req_size b = 0" "unat (bb_batch_req_size b) \<le> 5033164"
  shows "unat (bb_batch_req_size (add_all cmds b)) = unat (bb_batch_req_size b) + sum_list (map (unat \<circ> snd) cmds) \<and>
    unat (bb_batch_req_size (add_all cmds b)) \<le> 5033164"
  using assms
proof (induction cmds b rule: batchable.induct)
  case (2 cmd sz cmds b)
  have sz: "unat sz \<le> 1677721" using can_batch_size 2 by auto
  have size: "unat (bb_batch_req_size b) \<le> 3355443"
    using should_finish_size [of b] "2.prems" by (cases "bb_request b") auto
  have add: "unat (bb_batch_req_size (builder_add b cmd sz)) = unat (bb_batch_req_size b) + unat sz"
    using sz size by (simp add: builder_add_def unat_word_ariths)
  have some: "bb_request (builder_add b cmd sz) \<noteq> None"
    "bb_raft_entry_max_size (builder_add b cmd sz) = raft_entry_max_size"
    using "2.prems"(2) by (simp_all add: builder_add_def)
  have "batchable cmds (builder_add b cmd sz)" using "2.prems"(1) by simp
  from "2.IH" [OF this some(2)] some(1) add sz size show ?case by simp
qed simp

lemma batchable_headers:
  assumes "batchable cmds b" "bb_request b = Some r" "c \<in> set cmds"
  shows "get_request_header (rc_request (fst c)) = get_request_header r"
  using assms
proof (induction cmds b arbitrary: r rule: batchable.induct)
  case (2 cmd sz cmds b)
  have "get_request_header (rc_request cmd) = get_request_header r"
    using "2.prems"(1,2) by (simp add: can_batch_def split: if_splits)
  moreover have "bb_request (builder_add b cmd sz) = Some (r\<lparr>rcq_requests := rcq_requests r @ rcq_requests (rc_request cmd)\<rparr>)"
    using "2.prems"(2) by (simp add: builder_add_def)
  moreover have "get_request_header (r\<lparr>rcq_requests := xs\<rparr>) = get_request_header r" for xs
    by (simp add: get_request_header_def)
  ultimately show ?case using 2 by fastforce
qed simp

lemma batch_headers:
  assumes "batchable cmds (builder_new mx)" "c \<in> set cmds"
  shows "get_request_header (rc_request (fst c)) = get_request_header (merged_request (map fst cmds))"
proof -
  obtain cmd sz rest where cmds: "cmds = (cmd, sz) # rest" using assms(2) by (cases cmds) auto
  have merged: "get_request_header (merged_request (map fst cmds)) = get_request_header (rc_request cmd)"
    by (simp add: cmds merged_request_def get_request_header_def)
  have "bb_request (builder_add (builder_new mx) cmd sz) = Some (rc_request cmd)"
    by (simp add: builder_add_def builder_new_def)
  from batchable_headers [OF _ this, of rest c] assms merged show ?thesis by (auto simp: cmds)
qed

lemma length_chunks [simp]: "length (chunks ns xs) = length ns"
  by (induction ns arbitrary: xs) simp_all

section \<open>Properties\<close>


text \<open>The size of a batch is the sum of the sizes of its commands, without overflow of its 32 bits,
  and stays within 60 percent of the largest raft entry, as the comment on \<open>can_batch\<close> says.\<close>

theorem batch_size_bounded:
  assumes "batchable cmds (builder_new raft_entry_max_size)"
  shows "unat (bb_batch_req_size (add_all cmds (builder_new raft_entry_max_size))) = sum_list (map (unat \<circ> snd) cmds) \<and>
    sum_list (map (unat \<circ> snd) cmds) \<le> 6 * (8 * 1024 * 1024) div 10"
proof -
  have b: "bb_raft_entry_max_size (builder_new raft_entry_max_size) = raft_entry_max_size"
    "bb_batch_req_size (builder_new raft_entry_max_size) = 0"
    by (simp_all add: builder_new_def)
  show ?thesis using add_all_size [OF assms b(1)] unfolding b(2) by simp
qed

section \<open>An example\<close>

definition ex_batch :: "(payload_reply raft_command \<times> 32 word) list" where
  "ex_batch = [(send_payload (\<lambda>_. []) 1 1 10 [7], 20), (send_payload (\<lambda>_. []) 1 1 11 [8, 9], 30)]"

lemma ex_batch_batchable: "batchable ex_batch (builder_new raft_entry_max_size)"
  by (simp add: ex_batch_def can_batch_def should_finish_def builder_add_def builder_new_def f64_of_u32
      f64_less_def batch_limits send_payload_request get_request_header_def payload_request_def default_request_def)

theorem batch_size_bounded_witness:
  "unat (bb_batch_req_size (add_all ex_batch (builder_new raft_entry_max_size))) = 50"
  using batch_size_bounded [OF ex_batch_batchable] by (simp add: ex_batch_def)


end
