(* ===== verification/Message_Queue.thy ===== *)
theory Message_Queue
  imports Peer_Storage
begin

text \<open>
  \<^verbatim>\<open>dependencies/tiny-mq/src/message_queue_adapter.rs\<close>: reading a range of the applied log, and the
  consumer thread that passes the applied entries on. \<open>parse\<close> is the parser of the payload's message
  type. The consumer only grows, so what it has sent is part of its state.
\<close>

section \<open>Parsing an entry\<close>

fun parse_requests :: "(bytes \<Rightarrow> 'm option) \<Rightarrow> request list \<Rightarrow> ('e, 'm list) res" where
  "parse_requests parse [] = Ok []"
| "parse_requests parse (req # reqs) =
     (if rq_cmd_type req \<noteq> MessageQueue then Panic
      else bind_res (unwrap (parse (mqr_payload (get_message_queue req)))) (\<lambda>m.
           bind_res (parse_requests parse reqs) (\<lambda>ms. Ok (m # ms))))"

definition parse_log_entry_to_proto ::
    "'db mq_crates \<Rightarrow> (bytes \<Rightarrow> 'm option) \<Rightarrow> entry \<Rightarrow> ('e, u64 \<times> 'm list) res" where
  "parse_log_entry_to_proto M parse entry =
     (let index = ent_index entry; data = ent_data entry
      in if data = [] then Ok (index, [])
         else bind_res (unwrap (rp_cmd_request_parse (m_proto M) data)) (\<lambda>cmd.
              bind_res (parse_requests parse (rcq_requests cmd)) (\<lambda>messages. Ok (index, messages))))"

fun parse_entries ::
    "'db mq_crates \<Rightarrow> (bytes \<Rightarrow> 'm option) \<Rightarrow> entry list \<Rightarrow> ('e, (u64 \<times> 'm list) list) res" where
  "parse_entries M parse [] = Ok []"
| "parse_entries M parse (e # es) =
     bind_res (parse_log_entry_to_proto M parse e) (\<lambda>x.
     bind_res (parse_entries M parse es) (\<lambda>xs. Ok (x # xs)))"

section \<open>Reading the log\<close>

definition get_start_index_and_applied_index ::
    "'db mq_crates \<Rightarrow> 'db engines \<Rightarrow> region \<Rightarrow> ('e, u64 \<times> u64) res" where
  "get_start_index_and_applied_index M engines region =
     bind_res (init_apply_state M engines region) (\<lambda>apply_state.
     Ok (rts_index (get_truncated_state apply_state) + 1, ras_applied_index apply_state))"

text \<open>An error is the range that can be read. The count that \<open>fetch_entries_to\<close> returns is ignored.\<close>

definition get_range ::
    "'db mq_crates \<Rightarrow> (bytes \<Rightarrow> 'm option) \<Rightarrow> 'db engines \<Rightarrow> region \<Rightarrow> u64 \<Rightarrow> u64 \<Rightarrow>
     (u64 \<times> u64, (u64 \<times> 'm list) list) res" where
  "get_range M parse engines region start_idx end_idx =
     bind_res (get_start_index_and_applied_index M engines region) (\<lambda>(log_start_index, log_end_index).
     if start_idx < log_start_index \<or> log_end_index < end_idx then Err (log_start_index, log_end_index)
     else case fetch_entries_to (m_rocksdb M) (m_byteorder M) (m_memory M) (raft_entry_of (m_proto M))
                 (eng_raft engines) (rg_id region) start_idx (end_idx + 1) None [] of
            Ok (_, buf) \<Rightarrow> parse_entries M parse buf
          | _ \<Rightarrow> Panic)"

section \<open>The consumer\<close>

record 'm log_consumer =
  lc_log_index :: u64
  lc_sent :: "(u64 \<times> 'm list) list"

definition log_consumer_run :: "string option \<Rightarrow> u64 \<Rightarrow> ('e, nat \<times> 'm log_consumer) res" where
  "log_consumer_run env log_index =
     bind_res (unwrap (parse_u64 (get_or_default ''102400'' env))) (\<lambda>buffer_size.
     Ok (unat buffer_size, \<lparr>lc_log_index = log_index, lc_sent = []\<rparr>))"

text \<open>One turn of the loop of \<open>start_consuming\<close>; it sleeps when there is nothing new. The channel
  blocks when it is full, so that every entry is sent.\<close>

definition consume_round ::
    "'db mq_crates \<Rightarrow> (bytes \<Rightarrow> 'm option) \<Rightarrow> 'db engines \<Rightarrow> region \<Rightarrow> 'm log_consumer \<Rightarrow>
     (unit, 'm log_consumer) res" where
  "consume_round M parse engines region self =
     bind_res (get_start_index_and_applied_index M engines region) (\<lambda>(start_index, applied_index).
     if lc_log_index self < start_index then Panic
     else if applied_index < lc_log_index self then Ok self
     else let end_idx = min (lc_log_index self + 1000) applied_index
     in case get_range M parse engines region (lc_log_index self) end_idx of
          Ok entries \<Rightarrow> Ok \<lparr>lc_log_index = end_idx + 1, lc_sent = lc_sent self @ entries\<rparr>
        | _ \<Rightarrow> Panic)"

fun entry_batch_recv :: "nat \<Rightarrow> 'a list \<Rightarrow> 'a list \<times> 'a list" where
  "entry_batch_recv 0 rx = ([], rx)"
| "entry_batch_recv (Suc max_count) [] = ([], [])"
| "entry_batch_recv (Suc max_count) (e # rx) =
     (let (buffer, rx) = entry_batch_recv max_count rx in (e # buffer, rx))"

lemma entry_batch_recv_split: "entry_batch_recv n rx = (take n rx, drop n rx)"
  by (induction n rx rule: entry_batch_recv.induct) simp_all

end
