(* ===== verification/Reference_Raft_Codec.thy ===== *)
theory Reference_Raft_Codec
  imports Raft_Proto Reference_Crates
begin

text \<open>
  An executable wire format for the messages of the message queue that meets \<open>raft_proto_spec\<close>, with
  the codecs of \<open>Reference_Codec\<close>.
\<close>

definition c_bytes :: "bytes codec" where
  "c_bytes = c_list c_byte"

definition c_bool :: "bool codec" where
  "c_bool = c_iso (\<lambda>b. if b then 1 else 0) (\<lambda>n. n \<noteq> 0) c_byte"

definition c_region_epoch :: "region_epoch codec" where
  "c_region_epoch =
     c_iso (\<lambda>r. (re_conf_ver r, re_version r))
       (\<lambda>(x0, x1). \<lparr>re_conf_ver = x0, re_version = x1\<rparr>)
       (c_pair c_u64 c_u64)"

definition c_peer_role :: "peer_role codec" where
  "c_peer_role = c_iso (\<lambda>x. case x of Voter \<Rightarrow> 0 | Learner \<Rightarrow> 1
        | IncomingVoter \<Rightarrow> 2 | DemotingVoter \<Rightarrow> 3)
     (\<lambda>b. if b = 0 then Voter else if b = 1 then Learner
        else if b = 2 then IncomingVoter else DemotingVoter) c_byte"

definition c_peer :: "peer codec" where
  "c_peer =
     c_iso (\<lambda>r. (pr_id r, pr_store_id r, pr_role r))
       (\<lambda>(x0, x1, x2). \<lparr>pr_id = x0, pr_store_id = x1, pr_role = x2\<rparr>)
       (c_pair c_u64 (c_pair c_u64 c_peer_role))"

definition c_region :: "region codec" where
  "c_region =
     c_iso (\<lambda>r. (rg_id r, rg_start_key r, rg_end_key r, rg_region_epoch r, rg_peers r))
       (\<lambda>(x0, x1, x2, x3, x4). \<lparr>rg_id = x0, rg_start_key = x1, rg_end_key = x2,
        rg_region_epoch = x3, rg_peers = x4\<rparr>)
       (c_pair c_u64 (c_pair c_bytes (c_pair c_bytes (c_pair (c_option c_region_epoch)
        (c_list c_peer)))))"

definition c_entry_type :: "entry_type codec" where
  "c_entry_type = c_iso (\<lambda>x. case x of EntryNormal \<Rightarrow> 0
        | EntryConfChange \<Rightarrow> 1 | EntryConfChangeV2 \<Rightarrow> 2)
     (\<lambda>b. if b = 0 then EntryNormal else if b = 1 then EntryConfChange
        else EntryConfChangeV2) c_byte"

definition c_entry :: "entry codec" where
  "c_entry =
     c_iso (\<lambda>r. (ent_entry_type r, ent_term r, ent_index r, ent_data r, ent_context r,
        ent_sync_log r))
       (\<lambda>(x0, x1, x2, x3, x4, x5). \<lparr>ent_entry_type = x0, ent_term = x1,
        ent_index = x2, ent_data = x3, ent_context = x4, ent_sync_log = x5\<rparr>)
       (c_pair c_entry_type (c_pair c_u64 (c_pair c_u64 (c_pair c_bytes (c_pair c_bytes c_bool)))))"

definition c_hard_state :: "hard_state codec" where
  "c_hard_state =
     c_iso (\<lambda>r. (hst_term r, hst_vote r, hst_commit r))
       (\<lambda>(x0, x1, x2). \<lparr>hst_term = x0, hst_vote = x1, hst_commit = x2\<rparr>)
       (c_pair c_u64 (c_pair c_u64 c_u64))"

definition c_raft_truncated_state :: "raft_truncated_state codec" where
  "c_raft_truncated_state =
     c_iso (\<lambda>r. (rts_index r, rts_term r))
       (\<lambda>(x0, x1). \<lparr>rts_index = x0, rts_term = x1\<rparr>)
       (c_pair c_u64 c_u64)"

definition c_store_ident :: "store_ident codec" where
  "c_store_ident =
     c_iso (\<lambda>r. (si_cluster_id r, si_store_id r))
       (\<lambda>(x0, x1). \<lparr>si_cluster_id = x0, si_store_id = x1\<rparr>)
       (c_pair c_u64 c_u64)"

definition c_raft_local_state :: "raft_local_state codec" where
  "c_raft_local_state =
     c_iso (\<lambda>r. (rlo_hard_state r, rlo_last_index r))
       (\<lambda>(x0, x1). \<lparr>rlo_hard_state = x0, rlo_last_index = x1\<rparr>)
       (c_pair (c_option c_hard_state) c_u64)"

definition c_raft_apply_state :: "raft_apply_state codec" where
  "c_raft_apply_state =
     c_iso (\<lambda>r. (ras_applied_index r, ras_last_commit_index r, ras_commit_index r,
        ras_commit_term r, ras_truncated_state r))
       (\<lambda>(x0, x1, x2, x3, x4). \<lparr>ras_applied_index = x0,
        ras_last_commit_index = x1, ras_commit_index = x2, ras_commit_term = x3,
        ras_truncated_state = x4\<rparr>)
       (c_pair c_u64 (c_pair c_u64 (c_pair c_u64 (c_pair c_u64
        (c_option c_raft_truncated_state)))))"

definition c_region_local_state :: "region_local_state codec" where
  "c_region_local_state =
     c_iso (\<lambda>r. rgl_region r)
       (\<lambda>x0. \<lparr>rgl_region = x0\<rparr>)
       (c_option c_region)"

definition c_mq_context :: "mq_context codec" where
  "c_mq_context =
     c_iso (\<lambda>r. (mqc_region_id r, mqc_peer r, mqc_term r))
       (\<lambda>(x0, x1, x2). \<lparr>mqc_region_id = x0, mqc_peer = x1, mqc_term = x2\<rparr>)
       (c_pair c_u64 (c_pair (c_option c_peer) c_u64))"

definition c_message_queue_request :: "message_queue_request codec" where
  "c_message_queue_request =
     c_iso (\<lambda>r. (mqr_context r, mqr_payload r))
       (\<lambda>(x0, x1). \<lparr>mqr_context = x0, mqr_payload = x1\<rparr>)
       (c_pair (c_option c_mq_context) c_bytes)"

definition c_cmd_type :: "cmd_type codec" where
  "c_cmd_type = c_iso (\<lambda>x. case x of InvalidCmd \<Rightarrow> 0
        | MessageQueue \<Rightarrow> 1)
     (\<lambda>b. if b = 0 then InvalidCmd else MessageQueue) c_byte"

definition c_request :: "request codec" where
  "c_request =
     c_iso (\<lambda>r. (rq_cmd_type r, rq_message_queue r))
       (\<lambda>(x0, x1). \<lparr>rq_cmd_type = x0, rq_message_queue = x1\<rparr>)
       (c_pair c_cmd_type (c_option c_message_queue_request))"

definition c_compact_log_request :: "compact_log_request codec" where
  "c_compact_log_request =
     c_iso (\<lambda>r. (clr_compact_index r, clr_compact_term r))
       (\<lambda>(x0, x1). \<lparr>clr_compact_index = x0, clr_compact_term = x1\<rparr>)
       (c_pair c_u64 c_u64)"

definition c_admin_cmd_type :: "admin_cmd_type codec" where
  "c_admin_cmd_type = c_iso (\<lambda>x. case x of InvalidAdmin \<Rightarrow> 0
        | CompactLog \<Rightarrow> 1)
     (\<lambda>b. if b = 0 then InvalidAdmin else CompactLog) c_byte"

definition c_admin_request :: "admin_request codec" where
  "c_admin_request =
     c_iso (\<lambda>r. (adq_cmd_type r, adq_compact_log r))
       (\<lambda>(x0, x1). \<lparr>adq_cmd_type = x0, adq_compact_log = x1\<rparr>)
       (c_pair c_admin_cmd_type (c_option c_compact_log_request))"

definition c_status_cmd_type :: "status_cmd_type codec" where
  "c_status_cmd_type = c_iso (\<lambda>x. case x of InvalidStatus \<Rightarrow> 0
        | RegionLeader \<Rightarrow> 1 | RegionDetail \<Rightarrow> 2)
     (\<lambda>b. if b = 0 then InvalidStatus else if b = 1 then RegionLeader
        else RegionDetail) c_byte"

definition c_status_request :: "status_request codec" where
  "c_status_request =
     c_iso (\<lambda>r. (stq_cmd_type r, stq_region_leader r, stq_region_detail r))
       (\<lambda>(x0, x1, x2). \<lparr>stq_cmd_type = x0, stq_region_leader = x1,
        stq_region_detail = x2\<rparr>)
       (c_pair c_status_cmd_type (c_pair (c_option c_unit) (c_option c_unit)))"

definition c_raft_request_header :: "raft_request_header codec" where
  "c_raft_request_header =
     c_iso (\<lambda>r. (rqh_region_id r, rqh_peer r, rqh_uuid r, rqh_term r))
       (\<lambda>(x0, x1, x2, x3). \<lparr>rqh_region_id = x0, rqh_peer = x1, rqh_uuid = x2,
        rqh_term = x3\<rparr>)
       (c_pair c_u64 (c_pair (c_option c_peer) (c_pair c_bytes c_u64)))"

definition c_raft_cmd_request :: "raft_cmd_request codec" where
  "c_raft_cmd_request =
     c_iso (\<lambda>r. (rcq_header r, rcq_requests r, rcq_admin_request r, rcq_status_request r))
       (\<lambda>(x0, x1, x2, x3). \<lparr>rcq_header = x0, rcq_requests = x1,
        rcq_admin_request = x2, rcq_status_request = x3\<rparr>)
       (c_pair (c_option c_raft_request_header) (c_pair (c_list c_request) (c_pair
        (c_option c_admin_request) (c_option c_status_request))))"

lemma codec_bytes [codec]: "codec_ok c_bytes"
  unfolding c_bytes_def by (intro codec)

lemma codec_bool [codec]: "codec_ok c_bool"
  unfolding c_bool_def by (rule codec_iso) (auto intro!: codec)

lemma codec_region_epoch [codec]: "codec_ok c_region_epoch"
  unfolding c_region_epoch_def by (rule codec_iso) (auto intro!: codec)

lemma codec_peer_role [codec]: "codec_ok c_peer_role"
  unfolding c_peer_role_def by (rule codec_iso) (auto intro!: codec split: peer_role.splits)

lemma codec_peer [codec]: "codec_ok c_peer"
  unfolding c_peer_def by (rule codec_iso) (auto intro!: codec)

lemma codec_region [codec]: "codec_ok c_region"
  unfolding c_region_def by (rule codec_iso) (auto intro!: codec)

lemma codec_entry_type [codec]: "codec_ok c_entry_type"
  unfolding c_entry_type_def by (rule codec_iso) (auto intro!: codec split: entry_type.splits)

lemma codec_entry [codec]: "codec_ok c_entry"
  unfolding c_entry_def by (rule codec_iso) (auto intro!: codec)

lemma codec_hard_state [codec]: "codec_ok c_hard_state"
  unfolding c_hard_state_def by (rule codec_iso) (auto intro!: codec)

lemma codec_raft_truncated_state [codec]: "codec_ok c_raft_truncated_state"
  unfolding c_raft_truncated_state_def by (rule codec_iso) (auto intro!: codec)

lemma codec_store_ident [codec]: "codec_ok c_store_ident"
  unfolding c_store_ident_def by (rule codec_iso) (auto intro!: codec)

lemma codec_raft_local_state [codec]: "codec_ok c_raft_local_state"
  unfolding c_raft_local_state_def by (rule codec_iso) (auto intro!: codec)

lemma codec_raft_apply_state [codec]: "codec_ok c_raft_apply_state"
  unfolding c_raft_apply_state_def by (rule codec_iso) (auto intro!: codec)

lemma codec_region_local_state [codec]: "codec_ok c_region_local_state"
  unfolding c_region_local_state_def by (rule codec_iso) (auto intro!: codec)

lemma codec_mq_context [codec]: "codec_ok c_mq_context"
  unfolding c_mq_context_def by (rule codec_iso) (auto intro!: codec)

lemma codec_message_queue_request [codec]: "codec_ok c_message_queue_request"
  unfolding c_message_queue_request_def by (rule codec_iso) (auto intro!: codec)

lemma codec_cmd_type [codec]: "codec_ok c_cmd_type"
  unfolding c_cmd_type_def by (rule codec_iso) (auto intro!: codec split: cmd_type.splits)

lemma codec_request [codec]: "codec_ok c_request"
  unfolding c_request_def by (rule codec_iso) (auto intro!: codec)

lemma codec_compact_log_request [codec]: "codec_ok c_compact_log_request"
  unfolding c_compact_log_request_def by (rule codec_iso) (auto intro!: codec)

lemma codec_admin_cmd_type [codec]: "codec_ok c_admin_cmd_type"
  unfolding c_admin_cmd_type_def by (rule codec_iso) (auto intro!: codec split: admin_cmd_type.splits)

lemma codec_admin_request [codec]: "codec_ok c_admin_request"
  unfolding c_admin_request_def by (rule codec_iso) (auto intro!: codec)

lemma codec_status_cmd_type [codec]: "codec_ok c_status_cmd_type"
  unfolding c_status_cmd_type_def by (rule codec_iso) (auto intro!: codec split: status_cmd_type.splits)

lemma codec_status_request [codec]: "codec_ok c_status_request"
  unfolding c_status_request_def by (rule codec_iso) (auto intro!: codec)

lemma codec_raft_request_header [codec]: "codec_ok c_raft_request_header"
  unfolding c_raft_request_header_def by (rule codec_iso) (auto intro!: codec)

lemma codec_raft_cmd_request [codec]: "codec_ok c_raft_cmd_request"
  unfolding c_raft_cmd_request_def by (rule codec_iso) (auto intro!: codec)

section \<open>The package\<close>

definition ref_raft_proto :: raft_proto where
  "ref_raft_proto =
     \<lparr>rp_entry_write = enc c_entry, rp_entry_parse = (\<lambda>bs. map_option fst (dec c_entry bs)),
      rp_local_state_write = enc c_raft_local_state,
      rp_local_state_parse = (\<lambda>bs. map_option fst (dec c_raft_local_state bs)),
      rp_apply_state_write = enc c_raft_apply_state,
      rp_apply_state_parse = (\<lambda>bs. map_option fst (dec c_raft_apply_state bs)),
      rp_region_state_write = enc c_region_local_state,
      rp_region_state_parse = (\<lambda>bs. map_option fst (dec c_region_local_state bs)),
      rp_store_ident_write = enc c_store_ident,
      rp_store_ident_parse = (\<lambda>bs. map_option fst (dec c_store_ident bs)),
      rp_cmd_request_write = enc c_raft_cmd_request,
      rp_cmd_request_parse = (\<lambda>bs. map_option fst (dec c_raft_cmd_request bs))\<rparr>"

lemma enc_c_entry_not_empty: "enc c_entry e \<noteq> []"
  by (simp add: c_entry_def c_iso_def c_pair_def c_entry_type_def c_byte_def)

lemma enc_c_raft_cmd_request_not_empty: "enc c_raft_cmd_request c \<noteq> []"
  by (simp add: c_raft_cmd_request_def c_iso_def c_pair_def c_list_def)

interpretation ref_raft_proto: raft_proto_spec ref_raft_proto
  by unfold_locales
    (simp_all add: ref_raft_proto_def dec_enc_exact codec enc_c_entry_not_empty enc_c_raft_cmd_request_not_empty)

lemmas ref_raft_proto = ref_raft_proto.raft_proto_spec_axioms

end
