(* ===== verification/Reference_Mq.thy ===== *)
theory Reference_Mq
  imports Reference_Raft_Codec Engines
begin

text \<open>The executable stand-ins for the packages of the message queue, and that they meet \<open>mq_spec\<close>.\<close>

definition ref_mq :: "ref_db mq_crates" where
  "ref_mq = \<lparr>m_rocksdb = ref_rocksdb, m_byteorder = ref_byteorder, m_proto = ref_raft_proto, m_memory = (\<lambda>_. 0)\<rparr>"

lemma ref_mq_simps [simp]:
  "m_rocksdb ref_mq = ref_rocksdb" "m_byteorder ref_mq = ref_byteorder" "m_proto ref_mq = ref_raft_proto"
  by (simp_all add: ref_mq_def)

interpretation ref_mq: mq_spec ref_mq map_of
  by (simp add: mq_spec_def ref_rocksdb.rocksdb_spec_axioms ref_byteorder.byteorder_spec_axioms
      ref_raft_proto.raft_proto_spec_axioms)

lemmas ref_mq = ref_mq.mq_spec_axioms

end
