(* ===== verification/Queue_Properties.thy ===== *)
theory Queue_Properties
  imports Batch_Properties Message_Queue System_Properties Reference_Mq
begin

text \<open>
  From a payload to its position and back: the position a caller is given for its payload is the
  position at which the consumer of the log, and with it the state machine, sees the payload.
\<close>

section \<open>Responses of the apply thread\<close>

definition mq_response :: "u64 \<Rightarrow> nat \<Rightarrow> response" where
  "mq_response index off =
     \<lparr>rs_cmd_type = MessageQueue,
      rs_message_queue = Some \<lparr>mqs_index = index, mqs_offset = of_nat off, mqs_error = ''OK''\<rparr>\<rparr>"

lemma write_cmd_loop_ok:
  assumes "list_all (\<lambda>r. rq_cmd_type r = MessageQueue) reqs"
  shows "write_cmd_loop index off reqs = Ok (map (\<lambda>k. mq_response index (off + k)) [0..<length reqs])"
  using assms
proof (induction reqs arbitrary: off)
  case (Cons r reqs)
  have "map (\<lambda>k. mq_response index (off + k)) [0..<length (r # reqs)] =
      mq_response index off # map (\<lambda>k. mq_response index (off + 1 + k)) [0..<length reqs]"
    by (intro nth_equalityI) (auto simp: nth_Cons' simp del: upt_Suc)
  with Cons show ?case
    by (simp add: handle_message_queue_def mq_response_def default_response_def default_message_queue_response_def)
qed simp

definition write_response :: "raft_cmd_request \<Rightarrow> u64 \<Rightarrow> u64 \<Rightarrow> raft_cmd_response" where
  "write_response req index term =
     bind_term ((response_with_uuid req)\<lparr>rcs_responses := map (mq_response index) [0..<length (rcq_requests req)]\<rparr>) term"

lemma write_response_simps:
  assumes "term \<noteq> 0"
  shows "rcs_responses (write_response req index term) = map (mq_response index) [0..<length (rcq_requests req)]"
    "\<exists>h. rcs_header (write_response req index term) = Some h \<and> rsh_error h = None"
    "rcs_admin_response (write_response req index term) = None"
    "rcs_status_response (write_response req index term) = None"
  using assms
  by (simp_all add: write_response_def bind_term_def response_with_uuid_def map_response_header_def raft_getters
      default_raft_cmd_response_def default_raft_response_header_def Let_def)

text \<open>A write command is applied, and its callback, when it is the next one pending, is put into the
  batch with the positions of its requests.\<close>

context mq_spec
begin

lemma write_entry_applied:
  assumes data: "ent_data e = rp_cmd_request_write (m_proto M) req" and idx: "ent_index e \<noteq> 0"
    and req: "rcq_requests req \<noteq> []" "rcq_admin_request req = None"
      "list_all (\<lambda>r. rq_cmd_type r = MessageQueue) (rcq_requests req)"
    and pending: "ad_pending_cmds (af_delegate f) = pending_cmd_new (ent_index e) (ent_term e) cb # q"
  shows "\<exists>f'. handle_raft_entry_normal M fmt e f = Ok (Apply_None, f') \<and>
    ax_applied_batch (af_ctx f') =
      ax_applied_batch (af_ctx f) @ [(cb, write_response req (ent_index e) (ad_term (af_delegate f)))] \<and>
    ad_pending_cmds (af_delegate f') = q \<and> af_replies f' = af_replies f \<and>
    ras_applied_index (ad_apply_state (af_delegate f')) = ent_index e"
proof -
  have "ent_data e \<noteq> []" using cmd_request_write_not_empty [of req] req(1) by (simp add: data)
  moreover have "write_cmd_loop (ent_index e) 0 (rcq_requests req) =
      Ok (map (mq_response (ent_index e)) [0..<length (rcq_requests req)])"
    using write_cmd_loop_ok [OF req(3), of "ent_index e" 0] by simp
  ultimately show ?thesis
    using req(2) idx pending
    by (simp add: handle_raft_entry_normal_def data parse_data_at_def process_raft_cmd_def apply_raft_cmd_def
        exec_raft_cmd_def exec_write_cmd_def new_ctx_def pop_save_point_def set_save_point_def Let_def
        find_pending.simps pending_cmd_new_def pos_less_def push_cmd_def push_cb_def send_replies_def
        write_response_def)
qed

end

section \<open>Replies to payloads\<close>

lemma chunks_ones: "length xs = n \<Longrightarrow> chunks (replicate n (Suc 0)) xs = map (\<lambda>x. [x]) xs"
  by (induction n arbitrary: xs) (auto simp: length_Suc_conv)

definition response_position :: "response \<Rightarrow> u64 \<times> u64" where
  "response_position r =
     (let m = get_or_default default_message_queue_response (rs_message_queue r) in (mqs_index m, mqs_offset m))"

lemma response_position_mq [simp]: "response_position (mq_response li k) = (li, of_nat k)"
  by (simp add: response_position_def mq_response_def)

abbreviation payload_cmd :: "(mq_error \<Rightarrow> string) \<Rightarrow> u64 \<Rightarrow> u64 \<Rightarrow> nat \<times> bytes \<Rightarrow> payload_reply raft_command" where
  "payload_cmd fmt region_id store_id cp \<equiv> send_payload fmt region_id store_id (fst cp) (snd cp)"

lemma invoke_payload_callbacks:
  assumes "\<not> has_error resp" "length cps = length rs"
  shows "invoke_callbacks (zip (map (\<lambda>cp. rc_callback (payload_cmd fmt region_id store_id cp)) cps)
      (map (\<lambda>r. share resp [r]) rs)) =
    Ok (map (\<lambda>(cp, r). (fst cp, Ok (response_position r))) (zip cps rs))"
  using assms(2)
proof (induction cps rs rule: list_induct2)
  case (Cons cp cps r rs)
  have "rsh_error (get_response_header (share resp [r])) = None"
    using assms(1) by (simp add: share_def has_error_def get_response_header_def)
  then have "invoke_with_response (rc_callback (payload_cmd fmt region_id store_id cp)) (share resp [r]) =
      Ok [(fst cp, Ok (response_position r))]"
    by (simp add: send_payload_reply share_def response_position_def Let_def)
  with Cons show ?case by simp
qed simp

lemma merged_payloads:
  "rcq_requests (merged_request (map (payload_cmd fmt region_id store_id) cps)) =
     map (\<lambda>cp. default_request\<lparr>rq_cmd_type := MessageQueue,
        rq_message_queue := Some (payload_request region_id store_id (snd cp))\<rparr>) cps"
  "cps \<noteq> [] \<Longrightarrow> rcq_admin_request (merged_request (map (payload_cmd fmt region_id store_id) cps)) = None"
  by (induction cps) (simp_all add: merged_request_def send_payload_request hd_map)

lemma payload_replies:
  assumes cmds: "map fst cmds = map (payload_cmd fmt region_id store_id) cps" "cps \<noteq> []"
    and build: "builder_build (add_all cmds (builder_new mx)) = (Some cmd, b)" and t: "term \<noteq> 0"
  shows "invoke_with_response (rc_callback cmd) (write_response (rc_request cmd) li term) =
    Ok (map (\<lambda>k. (fst (cps ! k), Ok (li, of_nat k))) [0..<length cps])"
proof -
  let ?resp = "write_response (rc_request cmd) li term"
  have ne: "cmds \<noteq> []" using cmds by auto
  have req: "rc_request cmd = merged_request (map (payload_cmd fmt region_id store_id) cps)"
    using builder_build_merged [OF ne, of mx] build cmds(1) by auto
  have n: "length (rcq_requests (rc_request cmd)) = length cps" by (simp add: req merged_payloads)
  have ones: "map cmd_size (map fst cmds) = replicate (length cps) (Suc 0)"
    unfolding cmds(1) by (simp add: cmd_size_def send_payload_request comp_def map_replicate_const)
  obtain h where h: "rcs_header ?resp = Some h" "rsh_error h = None" using write_response_simps(2) [OF t] by blast
  have ok: "\<not> has_error ?resp" using h by (simp add: has_error_def get_response_header_def)
  have rs: "rcs_responses ?resp = map (mq_response li) [0..<length cps]"
    using write_response_simps(1) [OF t] by (simp add: n)
  have "invoke_with_response (rc_callback cmd) ?resp =
      invoke_callbacks (zip (map rc_callback (map fst cmds))
        (map (share ?resp) (chunks (map cmd_size (map fst cmds)) (rcs_responses ?resp))))"
    using batch_callback [OF ne build ok h(1) write_response_simps(3,4) [OF t]] ones rs
    by (simp add: sum_list_replicate)
  also have "chunks (map cmd_size (map fst cmds)) (rcs_responses ?resp) = map (\<lambda>r. [r]) (rcs_responses ?resp)"
    unfolding ones by (rule chunks_ones) (simp add: rs)
  also have "map rc_callback (map fst cmds) = map (\<lambda>cp. rc_callback (payload_cmd fmt region_id store_id cp)) cps"
    unfolding cmds(1) by simp
  also have "map (share ?resp) (map (\<lambda>r. [r]) (rcs_responses ?resp)) = map (\<lambda>r. share ?resp [r]) (rcs_responses ?resp)"
    by simp
  also have "invoke_callbacks (zip (map (\<lambda>cp. rc_callback (payload_cmd fmt region_id store_id cp)) cps)
        (map (\<lambda>r. share ?resp [r]) (rcs_responses ?resp))) =
      Ok (map (\<lambda>(cp, r). (fst cp, Ok (response_position r))) (zip cps (rcs_responses ?resp)))"
    by (rule invoke_payload_callbacks [OF ok]) (simp add: rs)
  also have "map (\<lambda>(cp, r). (fst cp, Ok (response_position r) :: (string, u64 \<times> u64) res)) (zip cps (rcs_responses ?resp)) =
      map (\<lambda>k. (fst (cps ! k), Ok (li, of_nat k))) [0..<length cps]"
    by (rule nth_equalityI) (simp_all add: rs)
  finally show ?thesis .
qed

section \<open>The consumer's view\<close>

lemma parse_requests_payloads:
  assumes "\<forall>cp \<in> set cps. parse (snd cp) \<noteq> None"
  shows "parse_requests parse (map (\<lambda>cp. default_request\<lparr>rq_cmd_type := MessageQueue,
      rq_message_queue := Some (payload_request region_id store_id (snd cp))\<rparr>) cps) =
    Ok (map (\<lambda>cp. the (parse (snd cp))) cps)"
  using assms
  by (induction cps) (auto simp: default_request_def get_message_queue_def payload_request_def
      default_message_queue_request_def unwrap_def)

context mq_spec
begin

lemma payload_entry_parsed:
  assumes "ent_data e = rp_cmd_request_write (m_proto M) (merged_request (map (payload_cmd fmt region_id store_id) cps))"
    and "cps \<noteq> []" "\<forall>cp \<in> set cps. parse (snd cp) \<noteq> None"
  shows "parse_log_entry_to_proto M parse e = Ok (ent_index e, map (\<lambda>cp. the (parse (snd cp))) cps)"
proof -
  let ?req = "merged_request (map (payload_cmd fmt region_id store_id) cps)"
  have "rcq_requests ?req \<noteq> []" using assms(2) by (simp add: merged_payloads)
  then have "ent_data e \<noteq> []" using cmd_request_write_not_empty [of ?req] by (simp add: assms(1))
  then show ?thesis
    by (simp add: parse_log_entry_to_proto_def assms(1) merged_payloads parse_requests_payloads [OF assms(3)])
qed

end

lemma apply_entry_positions:
  assumes "apply_entry C app (li, commands) = (Ok (), app')"
  shows "map ie_position (cx_inflight_event_tx (snd app')) =
    map ie_position (cx_inflight_event_tx (snd app)) @ map (\<lambda>k. Position li (of_nat k)) [0..<length commands]"
proof -
  obtain r app1 where h: "handle_commands C li 0 commands app = (r, app1)"
    by (cases "handle_commands C li 0 commands app")
  with assms have "r = Ok ()" "cx_inflight_event_tx (snd app') = cx_inflight_event_tx (snd app1)"
    by (auto simp: apply_entry_def bind_st_eq_Ok Let_def split: if_splits prod.splits)
  with handle_commands_tx [of C li 0 commands app app1] h show ?thesis by simp
qed

section \<open>Properties\<close>

text \<open>C8: Callers send payloads, and the peer batches them into one command, which becomes a raft log
  entry. When the apply thread applies the entry, it answers the callers in order: the one whose
  payload is the \<open>k\<close>-th of the batch is told the position with the index of the entry and the
  offset \<open>k\<close>. The log consumer parses the same entry to the commands of the payloads in the same order,
  and the state machine, when it applies them, sends the event of the \<open>k\<close>-th command for exactly that
  position.\<close>

theorem payload_position:
  assumes "mq_spec M view"
    and "map fst cmds = map (\<lambda>cp. send_payload fmt region_id store_id (fst cp) (snd cp)) cps" "cps \<noteq> []"
    and "builder_build (add_all cmds (builder_new mx)) = (Some cmd, b)"
    and "ent_data e = rp_cmd_request_write (m_proto M) (rc_request cmd)" "ent_index e \<noteq> 0"
    and "ad_pending_cmds (af_delegate f) = pending_cmd_new (ent_index e) (ent_term e) (rc_callback cmd) # q"
    and "ad_term (af_delegate f) \<noteq> 0"
    and "\<forall>cp \<in> set cps. pb_command_parse (c_proto C) (snd cp) \<noteq> None"
  shows "\<exists>f' resp commands. handle_raft_entry_normal M fmt e f = Ok (Apply_None, f') \<and>
    ax_applied_batch (af_ctx f') = ax_applied_batch (af_ctx f) @ [(rc_callback cmd, resp)] \<and>
    invoke_with_response (rc_callback cmd) resp =
      Ok (map (\<lambda>k. (fst (cps ! k), Ok (ent_index e, of_nat k))) [0..<length cps]) \<and>
    commands = map (\<lambda>cp. the (pb_command_parse (c_proto C) (snd cp))) cps \<and>
    parse_log_entry_to_proto M (pb_command_parse (c_proto C)) e = (Ok (ent_index e, commands) :: (unit, _) res) \<and>
    (\<forall>app app'. apply_entry C app (ent_index e, commands) = (Ok (), app') \<longrightarrow>
       map ie_position (cx_inflight_event_tx (snd app')) =
         map ie_position (cx_inflight_event_tx (snd app)) @
         map (\<lambda>k. Position (ent_index e) (of_nat k)) [0..<length cps])"
proof -
  have ne: "cmds \<noteq> []" using assms(2,3) by auto
  have req: "rc_request cmd = merged_request (map (payload_cmd fmt region_id store_id) cps)"
    using builder_build_merged [OF ne, of mx] assms(2,4) by auto
  have r: "rcq_requests (rc_request cmd) \<noteq> []" "rcq_admin_request (rc_request cmd) = None"
    "list_all (\<lambda>r. rq_cmd_type r = MessageQueue) (rcq_requests (rc_request cmd))"
    using assms(3) by (simp_all add: req merged_payloads list_all_iff default_request_def)
  obtain f' where f': "handle_raft_entry_normal M fmt e f = Ok (Apply_None, f')"
    "ax_applied_batch (af_ctx f') = ax_applied_batch (af_ctx f) @
       [(rc_callback cmd, write_response (rc_request cmd) (ent_index e) (ad_term (af_delegate f)))]"
    using mq_spec.write_entry_applied [OF assms(1,5,6) r assms(7)] by blast
  show ?thesis
  proof (intro exI conjI allI impI)
    show "handle_raft_entry_normal M fmt e f = Ok (Apply_None, f')" by (rule f'(1))
    show "ax_applied_batch (af_ctx f') = ax_applied_batch (af_ctx f) @
        [(rc_callback cmd, write_response (rc_request cmd) (ent_index e) (ad_term (af_delegate f)))]" by (rule f'(2))
    show "invoke_with_response (rc_callback cmd) (write_response (rc_request cmd) (ent_index e) (ad_term (af_delegate f))) =
        Ok (map (\<lambda>k. (fst (cps ! k), Ok (ent_index e, of_nat k))) [0..<length cps])"
      by (rule payload_replies [OF assms(2,3,4,8)])
    show "(parse_log_entry_to_proto M (pb_command_parse (c_proto C)) e :: (unit, _) res) =
        Ok (ent_index e, map (\<lambda>cp. the (pb_command_parse (c_proto C) (snd cp))) cps)"
      by (rule mq_spec.payload_entry_parsed [OF assms(1) assms(5) [unfolded req] assms(3,9)])
    fix app app'
    assume "apply_entry C app (ent_index e, map (\<lambda>cp. the (pb_command_parse (c_proto C) (snd cp))) cps) = (Ok (), app')"
    from apply_entry_positions [OF this] show "map ie_position (cx_inflight_event_tx (snd app')) =
        map ie_position (cx_inflight_event_tx (snd app)) @ map (\<lambda>k. Position (ent_index e) (of_nat k)) [0..<length cps]"
      by simp
  qed (rule refl)
qed

section \<open>An example\<close>

definition ex_payloads :: "(nat \<times> bytes) list" where
  "ex_payloads = map (\<lambda>k. (k, pb_command_write (c_proto ref_crates) ex_create)) [10, 11]"

definition ex_cmds :: "(payload_reply raft_command \<times> 32 word) list" where
  "ex_cmds = map (\<lambda>cp. (send_payload (\<lambda>_. []) 1 1 (fst cp) (snd cp), 20)) ex_payloads"

definition ex_queue_entry :: "payload_reply raft_command \<Rightarrow> entry" where
  "ex_queue_entry cmd =
     \<lparr>ent_entry_type = EntryNormal, ent_term = 7, ent_index = 6,
      ent_data = rp_cmd_request_write ref_raft_proto (rc_request cmd), ent_context = [], ent_sync_log = False\<rparr>"

definition ex_fsm :: "payload_reply raft_command \<Rightarrow> (ref_db, payload_reply) apply_fsm" where
  "ex_fsm cmd =
     \<lparr>af_delegate = (delegate_from_registration 1 7 default_raft_apply_state 5 default_region)
        \<lparr>ad_pending_cmds := [pending_cmd_new 6 7 (rc_callback cmd)]\<rparr>,
      af_ctx = apply_ctx_new, af_kv = (\<lambda>_. []), af_replies = [], af_notified = []\<rparr>"

theorem payload_position_witness:
  "\<exists>cmd f' resp. fst (builder_build (add_all ex_cmds (builder_new raft_entry_max_size))) = Some cmd \<and>
    handle_raft_entry_normal ref_mq (\<lambda>_. []) (ex_queue_entry cmd) (ex_fsm cmd) = Ok (Apply_None, f') \<and>
    ax_applied_batch (af_ctx f') = [(rc_callback cmd, resp)] \<and>
    invoke_with_response (rc_callback cmd) resp = Ok [(10, Ok (6, 0)), (11, Ok (6, 1))]"
proof -
  have cmds: "map fst ex_cmds = map (\<lambda>cp. send_payload (\<lambda>_. []) 1 1 (fst cp) (snd cp)) ex_payloads" "ex_payloads \<noteq> []"
    by (simp_all add: ex_cmds_def ex_payloads_def)
  have "ex_cmds \<noteq> []" by (simp add: ex_cmds_def ex_payloads_def)
  then obtain cmd b where cmd: "builder_build (add_all ex_cmds (builder_new raft_entry_max_size)) = (Some cmd, b)"
    using builder_build_merged by blast
  have e: "ent_data (ex_queue_entry cmd) = rp_cmd_request_write (m_proto ref_mq) (rc_request cmd)"
    "ent_index (ex_queue_entry cmd) \<noteq> 0" "ent_index (ex_queue_entry cmd) = 6"
    by (simp_all add: ex_queue_entry_def)
  have f: "ad_pending_cmds (af_delegate (ex_fsm cmd)) =
      pending_cmd_new (ent_index (ex_queue_entry cmd)) (ent_term (ex_queue_entry cmd)) (rc_callback cmd) # []"
    "ad_term (af_delegate (ex_fsm cmd)) \<noteq> 0" "ax_applied_batch (af_ctx (ex_fsm cmd)) = []"
    by (simp_all add: ex_fsm_def ex_queue_entry_def delegate_from_registration_def apply_ctx_new_def)
  have parse: "\<forall>cp \<in> set ex_payloads. pb_command_parse (c_proto ref_crates) (snd cp) \<noteq> None"
    by (simp add: ex_payloads_def)
  have n: "map (\<lambda>k. (fst (ex_payloads ! k), Ok (6, of_nat k))) [0..<length ex_payloads] =
      [(10, Ok (6, 0)), (11, Ok (6, 1) :: (string, u64 \<times> u64) res)]"
    by (simp add: ex_payloads_def)
  obtain f' resp where "handle_raft_entry_normal ref_mq (\<lambda>_. []) (ex_queue_entry cmd) (ex_fsm cmd) = Ok (Apply_None, f')"
    "ax_applied_batch (af_ctx f') = [] @ [(rc_callback cmd, resp)]"
    "invoke_with_response (rc_callback cmd) resp =
      Ok (map (\<lambda>k. (fst (ex_payloads ! k), Ok (6, of_nat k))) [0..<length ex_payloads])"
    using payload_position [OF ref_mq cmds cmd e(1,2) f(1,2) parse] unfolding f(3) e(3)
    by (elim exE conjE) (rule that)
  then show ?thesis unfolding n by (intro exI [of _ cmd] exI [of _ f'] exI [of _ resp]) (simp add: cmd)
qed

end
