(* ===== verification/Lru.thy ===== *)
theory Lru
  imports Wallet_Prelude
begin

text \<open>
  \<^verbatim>\<open>dependencies/tiny-mq/tikv-util/src/lru.rs\<close>: a cache with a bounded number of entries, which drops the
  one that was used least recently. The order of use is a doubly linked list of records behind raw
  pointers. The records live in an explicit heap; \<open>Box::new\<close> gives a new address, and a dropped box
  leaves the heap. An access to an address that is not in the heap is \<open>Panic\<close>, and so is reading an
  uninitialised key.
\<close>

section \<open>The linked list\<close>

record 'k lru_record =
  rec_prev :: nat
  rec_next :: nat
  rec_key :: "'k option"

type_synonym 'k lru_heap = "(nat, 'k lru_record) fmap"

text \<open>The sentinels are boxed too. \<open>tc_fresh\<close> is the next address of the allocator.\<close>

record 'k trace =
  tc_heap :: "'k lru_heap"
  tc_head :: nat
  tc_tail :: nat
  tc_fresh :: nat
  tc_tick :: u64
  tc_sample_mask :: u64

definition deref :: "'k lru_heap \<Rightarrow> nat \<Rightarrow> (unit, 'k lru_record) res" where
  "deref h p = unwrap (fmlookup h p)"

definition suture :: "nat \<Rightarrow> nat \<Rightarrow> 'k lru_heap \<Rightarrow> (unit, 'k lru_heap) res" where
  "suture leading following h =
     bind_res (deref h leading) (\<lambda>l.
     let h = fmupd leading (l\<lparr>rec_next := following\<rparr>) h
     in bind_res (deref h following) (\<lambda>f. Ok (fmupd following (f\<lparr>rec_prev := leading\<rparr>) h)))"

definition cut_out :: "nat \<Rightarrow> 'k lru_heap \<Rightarrow> (unit, 'k lru_heap) res" where
  "cut_out record h = bind_res (deref h record) (\<lambda>r. suture (rec_prev r) (rec_next r) h)"

text \<open>The sentinels start with dangling pointers.\<close>

definition trace_new :: "u64 \<Rightarrow> (unit, 'k trace) res" where
  "trace_new sample_mask =
     (let dangling = \<lparr>rec_prev = 1, rec_next = 1, rec_key = None\<rparr>
      in bind_res (suture 2 3 (fmupd 3 dangling (fmupd 2 dangling fmempty))) (\<lambda>h.
         Ok \<lparr>tc_heap = h, tc_head = 2, tc_tail = 3, tc_fresh = 4, tc_tick = 0, tc_sample_mask = sample_mask\<rparr>))"

definition promote :: "nat \<Rightarrow> 'k trace \<Rightarrow> (unit, 'k trace) res" where
  "promote record t =
     bind_res (cut_out record (tc_heap t)) (\<lambda>h.
     bind_res (deref h (tc_head t)) (\<lambda>head.
     bind_res (suture record (rec_next head) h) (\<lambda>h.
     bind_res (suture (tc_head t) record h) (\<lambda>h. Ok (t\<lparr>tc_heap := h\<rparr>)))))"

definition maybe_promote :: "nat \<Rightarrow> 'k trace \<Rightarrow> (unit, 'k trace) res" where
  "maybe_promote record t =
     (let t = t\<lparr>tc_tick := tc_tick t + 1\<rparr>
      in if and (tc_tick t) (tc_sample_mask t) = 0 then promote record t else Ok t)"

definition trace_delete :: "nat \<Rightarrow> 'k trace \<Rightarrow> (unit, 'k trace) res" where
  "trace_delete record t =
     bind_res (cut_out record (tc_heap t)) (\<lambda>h.
     bind_res (deref h record) (\<lambda>r.
     bind_res (unwrap (rec_key r)) (\<lambda>_. Ok (t\<lparr>tc_heap := fmdrop record h\<rparr>))))"

definition trace_create :: "'k \<Rightarrow> 'k trace \<Rightarrow> (unit, nat \<times> 'k trace) res" where
  "trace_create key t =
     bind_res (deref (tc_heap t) (tc_head t)) (\<lambda>head.
     let record = tc_fresh t;
         h = fmupd record \<lparr>rec_prev = tc_head t, rec_next = rec_next head, rec_key = Some key\<rparr> (tc_heap t)
     in bind_res (deref h (rec_next head)) (\<lambda>following.
        let h = fmupd (rec_next head) (following\<lparr>rec_prev := record\<rparr>) h
        in bind_res (deref h (tc_head t)) (\<lambda>head.
           let h = fmupd (tc_head t) (head\<lparr>rec_next := record\<rparr>) h
           in Ok (record, t\<lparr>tc_heap := h, tc_fresh := tc_fresh t + 1\<rparr>))))"

definition reuse_tail :: "'k \<Rightarrow> 'k trace \<Rightarrow> (unit, ('k \<times> nat) \<times> 'k trace) res" where
  "reuse_tail key t =
     bind_res (deref (tc_heap t) (tc_tail t)) (\<lambda>tail.
     let record = rec_prev tail
     in bind_res (cut_out record (tc_heap t)) (\<lambda>h.
        bind_res (deref h (tc_head t)) (\<lambda>head.
        bind_res (suture record (rec_next head) h) (\<lambda>h.
        bind_res (suture (tc_head t) record h) (\<lambda>h.
        bind_res (deref h record) (\<lambda>r.
        bind_res (unwrap (rec_key r)) (\<lambda>old_key.
        Ok ((old_key, record), t\<lparr>tc_heap := fmupd record (r\<lparr>rec_key := Some key\<rparr>) h\<rparr>))))))))"

definition remove_tail :: "'k trace \<Rightarrow> (unit, 'k \<times> 'k trace) res" where
  "remove_tail t =
     bind_res (deref (tc_heap t) (tc_tail t)) (\<lambda>tail.
     let record = rec_prev tail
     in bind_res (cut_out record (tc_heap t)) (\<lambda>h.
        bind_res (deref h record) (\<lambda>r.
        bind_res (unwrap (rec_key r)) (\<lambda>key. Ok (key, t\<lparr>tc_heap := fmdrop record h\<rparr>)))))"

text \<open>The loop of \<open>clear\<close> drops a record in each turn.\<close>

function clear_loop :: "nat \<Rightarrow> nat \<Rightarrow> 'k lru_heap \<Rightarrow> (unit, 'k lru_heap) res" where
  "clear_loop tail cur h =
     (if cur = tail then Ok h
      else case fmlookup h cur of
             None \<Rightarrow> Panic
           | Some r \<Rightarrow>
               (case rec_key r of
                  None \<Rightarrow> Panic
                | Some _ \<Rightarrow> clear_loop tail (rec_next r) (fmdrop cur h)))"
  by pat_completeness auto
termination
proof (relation "measure (\<lambda>(_, _, h). fcard (fmdom h))", goal_cases)
  case (2 tail cur h r k)
  then have "cur |\<in>| fmdom h" by (simp add: fmdomI)
  then have "fcard (fmdom (fmdrop cur h)) < fcard (fmdom h)"
    unfolding fmdom_drop by (rule fcard_fminus1_less)
  then show ?case by simp
qed simp

declare clear_loop.simps [simp del]

definition trace_clear :: "'k trace \<Rightarrow> (unit, 'k trace) res" where
  "trace_clear t =
     bind_res (deref (tc_heap t) (tc_head t)) (\<lambda>head.
     bind_res (clear_loop (tc_tail t) (rec_next head) (tc_heap t)) (\<lambda>h.
     bind_res (suture (tc_head t) (tc_tail t) h) (\<lambda>h. Ok (t\<lparr>tc_heap := h\<rparr>))))"

section \<open>The size of the cache\<close>

text \<open>The trait \<open>SizePolicy\<close>, and \<open>CountTracker\<close>, which counts the entries.\<close>

record ('s, 'k, 'v) size_policy =
  sp_current :: "'s \<Rightarrow> u64"
  sp_on_insert :: "'k \<Rightarrow> 'v \<Rightarrow> 's \<Rightarrow> 's"
  sp_on_remove :: "'k \<Rightarrow> 'v \<Rightarrow> 's \<Rightarrow> 's"
  sp_on_reset :: "u64 \<Rightarrow> 's \<Rightarrow> 's"

definition count_tracker :: "(u64, 'k, 'v) size_policy" where
  "count_tracker =
     \<lparr>sp_current = (\<lambda>n. n), sp_on_insert = (\<lambda>_ _ n. n + 1), sp_on_remove = (\<lambda>_ _ n. n - 1),
      sp_on_reset = (\<lambda>val _. val)\<rparr>"

section \<open>The cache\<close>

record 'v value_entry =
  ve_value :: 'v
  ve_record :: nat

record ('k, 'v, 's) lru_cache =
  lru_map :: "('k, 'v value_entry) fmap"
  lru_trace :: "'k trace"
  lru_capacity :: u64
  lru_size_policy :: 's

definition with_capacity_sample_and_trace :: "u64 \<Rightarrow> u64 \<Rightarrow> 's \<Rightarrow> (unit, ('k, 'v, 's) lru_cache) res" where
  "with_capacity_sample_and_trace capacity sample_mask size_policy =
     bind_res (trace_new sample_mask) (\<lambda>trace.
     Ok \<lparr>lru_map = fmempty, lru_trace = trace, lru_capacity = (if capacity = 0 then 1 else capacity),
         lru_size_policy = size_policy\<rparr>)"

definition with_capacity_and_sample :: "u64 \<Rightarrow> u64 \<Rightarrow> (unit, ('k, 'v, u64) lru_cache) res" where
  "with_capacity_and_sample capacity sample_mask = with_capacity_sample_and_trace capacity sample_mask 0"

definition lru_size :: "('s, 'k, 'v) size_policy \<Rightarrow> ('k, 'v, 's) lru_cache \<Rightarrow> u64" where
  "lru_size P c = sp_current P (lru_size_policy c)"

definition lru_clear :: "('s, 'k, 'v) size_policy \<Rightarrow> ('k, 'v, 's) lru_cache \<Rightarrow> (unit, ('k, 'v, 's) lru_cache) res" where
  "lru_clear P c =
     bind_res (trace_clear (lru_trace c)) (\<lambda>t.
     Ok (c\<lparr>lru_map := fmempty, lru_trace := t, lru_size_policy := sp_on_reset P 0 (lru_size_policy c)\<rparr>))"

fun resize_loop ::
    "('s, 'k, 'v) size_policy \<Rightarrow> nat \<Rightarrow> ('k, 'v, 's) lru_cache \<Rightarrow> (unit, ('k, 'v, 's) lru_cache) res" where
  "resize_loop P 0 c = Ok c"
| "resize_loop P (Suc n) c =
     bind_res (remove_tail (lru_trace c)) (\<lambda>(key, t).
     bind_res (unwrap (fmlookup (lru_map c) key)) (\<lambda>entry.
     resize_loop P n (c\<lparr>lru_trace := t, lru_map := fmdrop key (lru_map c),
       lru_size_policy := sp_on_remove P key (ve_value entry) (lru_size_policy c)\<rparr>)))"

definition lru_len :: "('k, 'v, 's) lru_cache \<Rightarrow> nat" where
  "lru_len c = fcard (fmdom (lru_map c))"

definition lru_resize ::
    "('s, 'k, 'v) size_policy \<Rightarrow> u64 \<Rightarrow> ('k, 'v, 's) lru_cache \<Rightarrow> (unit, ('k, 'v, 's) lru_cache) res" where
  "lru_resize P new_cap c =
     (let new_cap = (if new_cap = 0 then 1 else new_cap)
      in bind_res (if new_cap < lru_capacity c \<and> unat new_cap < lru_len c
                   then resize_loop P (lru_len c - unat new_cap) c else Ok c) (\<lambda>c.
         Ok (c\<lparr>lru_capacity := new_cap\<rparr>)))"

definition lru_insert ::
    "('s, 'k, 'v) size_policy \<Rightarrow> 'k \<Rightarrow> 'v \<Rightarrow> ('k, 'v, 's) lru_cache \<Rightarrow> (unit, ('k, 'v, 's) lru_cache) res" where
  "lru_insert P key val c =
     (let current_size = sp_current P (lru_size_policy c)
      in case fmlookup (lru_map c) key of
           Some e \<Rightarrow>
             let s = sp_on_insert P key val (sp_on_remove P key (ve_value e) (lru_size_policy c))
             in bind_res (promote (ve_record e) (lru_trace c)) (\<lambda>t.
                Ok (c\<lparr>lru_trace := t, lru_map := fmupd key (e\<lparr>ve_value := val\<rparr>) (lru_map c), lru_size_policy := s\<rparr>))
         | None \<Rightarrow>
             bind_res (if lru_capacity c \<le> current_size
                       then bind_res (reuse_tail key (lru_trace c)) (\<lambda>((old_key, record), t). Ok (Some old_key, record, t))
                       else bind_res (trace_create key (lru_trace c)) (\<lambda>(record, t). Ok (None, record, t)))
               (\<lambda>(old_key, record, t).
             let s = sp_on_insert P key val (lru_size_policy c);
                 m = fmupd key \<lparr>ve_value = val, ve_record = record\<rparr> (lru_map c)
             in case old_key of
                  None \<Rightarrow> Ok (c\<lparr>lru_trace := t, lru_map := m, lru_size_policy := s\<rparr>)
                | Some old_key \<Rightarrow>
                    bind_res (unwrap (fmlookup m old_key)) (\<lambda>entry.
                    Ok (c\<lparr>lru_trace := t, lru_map := fmdrop old_key m,
                          lru_size_policy := sp_on_remove P old_key (ve_value entry) s\<rparr>))))"

definition lru_remove ::
    "('s, 'k, 'v) size_policy \<Rightarrow> 'k \<Rightarrow> ('k, 'v, 's) lru_cache \<Rightarrow> (unit, 'v option \<times> ('k, 'v, 's) lru_cache) res" where
  "lru_remove P key c =
     (case fmlookup (lru_map c) key of
        Some v \<Rightarrow>
          bind_res (trace_delete (ve_record v) (lru_trace c)) (\<lambda>t.
          Ok (Some (ve_value v),
              c\<lparr>lru_map := fmdrop key (lru_map c), lru_trace := t,
                lru_size_policy := sp_on_remove P key (ve_value v) (lru_size_policy c)\<rparr>))
      | None \<Rightarrow> Ok (None, c))"

text \<open>\<open>get\<close>, and \<open>get_mut\<close> up to what the caller does with the value.\<close>

definition lru_get :: "'k \<Rightarrow> ('k, 'v, 's) lru_cache \<Rightarrow> (unit, 'v option \<times> ('k, 'v, 's) lru_cache) res" where
  "lru_get key c =
     (case fmlookup (lru_map c) key of
        Some v \<Rightarrow> bind_res (maybe_promote (ve_record v) (lru_trace c)) (\<lambda>t. Ok (Some (ve_value v), c\<lparr>lru_trace := t\<rparr>))
      | None \<Rightarrow> Ok (None, c))"

definition lru_get_mut ::
    "('v \<Rightarrow> 'v) \<Rightarrow> 'k \<Rightarrow> ('k, 'v, 's) lru_cache \<Rightarrow> (unit, 'v option \<times> ('k, 'v, 's) lru_cache) res" where
  "lru_get_mut f key c =
     (case fmlookup (lru_map c) key of
        Some v \<Rightarrow>
          bind_res (maybe_promote (ve_record v) (lru_trace c)) (\<lambda>t.
          Ok (Some (ve_value v), c\<lparr>lru_trace := t, lru_map := fmupd key (v\<lparr>ve_value := f (ve_value v)\<rparr>) (lru_map c)\<rparr>))
      | None \<Rightarrow> Ok (None, c))"

definition lru_is_empty :: "('k, 'v, 's) lru_cache \<Rightarrow> bool" where
  "lru_is_empty c \<longleftrightarrow> lru_len c = 0"

end
