(* ===== verification/Lru_Properties.thy ===== *)
theory Lru_Properties
  imports Lru
begin

text \<open>
  The cache of \<open>Lru\<close> refines a list of its entries, the most recently used first: the pointer
  operations stay within live memory, free every record that is dropped and give the results of the
  list operations.
\<close>

section \<open>Linked records\<close>

definition nxt :: "'k lru_heap \<Rightarrow> nat \<Rightarrow> nat option" where
  "nxt h a = map_option rec_next (fmlookup h a)"

definition prv :: "'k lru_heap \<Rightarrow> nat \<Rightarrow> nat option" where
  "prv h a = map_option rec_prev (fmlookup h a)"

definition key_at :: "'k lru_heap \<Rightarrow> nat \<Rightarrow> 'k option" where
  "key_at h a = Option.bind (fmlookup h a) rec_key"

definition rec_link :: "'k lru_heap \<Rightarrow> nat \<Rightarrow> nat \<Rightarrow> bool" where
  "rec_link h a b \<longleftrightarrow> nxt h a = Some b \<and> prv h b = Some a"

text \<open>The records of a path are linked one after another, both ways.\<close>

definition path :: "'k lru_heap \<Rightarrow> nat list \<Rightarrow> bool" where
  "path h as \<longleftrightarrow> distinct as \<and> set as \<subseteq> fmdom' h \<and> successively (rec_link h) as"

lemma fmdom'_SomeD: "a \<in> fmdom' h \<Longrightarrow> \<exists>r. fmlookup h a = Some r"
  by (simp add: fmlookup_dom'_iff)

lemma path_append:
  "path h (as @ bs) \<longleftrightarrow>
     path h as \<and> path h bs \<and> set as \<inter> set bs = {} \<and> (as = [] \<or> bs = [] \<or> rec_link h (last as) (hd bs))"
  by (auto simp: path_def successively_append_iff)

text \<open>A path is kept when only the pointers out of its ends change.\<close>

lemma path_cong:
  assumes "path h as" "set as \<subseteq> fmdom' h'"
    and "\<And>a. a \<in> set (butlast as) \<Longrightarrow> nxt h' a = nxt h a" "\<And>a. a \<in> set (tl as) \<Longrightarrow> prv h' a = prv h a"
  shows "path h' as"
proof -
  have "rec_link h' (as ! i) (as ! Suc i)" if "Suc i < length as" for i
  proof -
    have "as ! i \<in> set (butlast as)" using that by (metis Suc_lessD length_butlast less_diff_conv nth_butlast nth_mem Suc_eq_plus1)
    moreover have "as ! Suc i \<in> set (tl as)" using that by (metis Suc_less_eq2 length_tl less_diff_conv nth_mem nth_tl Suc_eq_plus1)
    moreover have "rec_link h (as ! i) (as ! Suc i)"
      using assms(1) that by (simp add: path_def successively_conv_nth)
    ultimately show ?thesis using assms(3,4) by (simp add: rec_link_def)
  qed
  with assms(1,2) show ?thesis by (simp add: path_def successively_conv_nth)
qed

text \<open>\<open>suture\<close> joins two paths.\<close>

lemma suture_ok:
  assumes a: "path h (as @ [a])" and b: "path h (b # bs)" and disj: "set (as @ [a]) \<inter> set (b # bs) = {}"
  shows "\<exists>h'. suture a b h = Ok h' \<and> path h' (as @ a # b # bs) \<and> key_at h' = key_at h \<and> fmdom' h' = fmdom' h \<and>
    nxt h' = (nxt h)(a \<mapsto> b) \<and> prv h' = (prv h)(b \<mapsto> a)"
proof -
  have "a \<in> fmdom' h" "b \<in> fmdom' h" using a b by (auto simp: path_def)
  then obtain r s where r: "fmlookup h a = Some r" and s: "fmlookup h b = Some s"
    using fmdom'_SomeD by metis
  have ne: "a \<noteq> b" using disj by auto
  let ?h = "fmupd b (s\<lparr>rec_prev := a\<rparr>) (fmupd a (r\<lparr>rec_next := b\<rparr>) h)"
  have run: "suture a b h = Ok ?h" using r s ne by (simp add: suture_def deref_def Let_def)
  have dom: "fmdom' ?h = fmdom' h" using r s by (auto simp: fmdom'_fmupd fmdom'I)
  have n: "nxt ?h = (nxt h)(a \<mapsto> b)" and p: "prv ?h = (prv h)(b \<mapsto> a)" and k: "key_at ?h = key_at h"
    using r s ne by (auto simp: nxt_def prv_def key_at_def fun_eq_iff)
  have "path ?h (as @ [a])"
  proof (rule path_cong [OF a])
    fix x assume "x \<in> set (butlast (as @ [a]))"
    then have "x \<noteq> a" using a by (auto simp: path_def)
    then show "nxt ?h x = nxt h x" by (simp add: n)
  next
    fix x assume "x \<in> set (tl (as @ [a]))"
    then have "x \<in> set (as @ [a])" by (metis list.set_sel(2) append_is_Nil_conv list.distinct(1))
    then have "x \<noteq> b" using disj by auto
    then show "prv ?h x = prv h x" by (simp add: p)
  qed (use a dom in \<open>simp add: path_def\<close>)
  moreover have "path ?h (b # bs)"
  proof (rule path_cong [OF b])
    fix x assume "x \<in> set (butlast (b # bs))"
    then have "x \<in> set (b # bs)" by (rule in_set_butlastD)
    then have "x \<noteq> a" using disj by auto
    then show "nxt ?h x = nxt h x" by (simp add: n)
  next
    fix x assume "x \<in> set (tl (b # bs))"
    then have "x \<noteq> b" using b by (auto simp: path_def)
    then show "prv ?h x = prv h x" by (simp add: p)
  qed (use b dom in \<open>simp add: path_def\<close>)
  moreover have "rec_link ?h a b" using ne by (simp add: rec_link_def n p)
  ultimately have "path ?h ((as @ [a]) @ b # bs)" using disj unfolding path_append by simp
  then show ?thesis using run dom n p k by auto
qed

lemma deref_ok: "a \<in> fmdom' h \<Longrightarrow> \<exists>r. deref h a = Ok r \<and> fmlookup h a = Some r"
  using fmdom'_SomeD by (fastforce simp: deref_def)

lemma cut_out_ok:
  assumes p: "path h (us @ a # vs)" and ne: "us \<noteq> []" "vs \<noteq> []"
  shows "\<exists>h'. cut_out a h = Ok h' \<and> path h' (us @ vs) \<and> key_at h' = key_at h \<and> fmdom' h' = fmdom' h"
proof -
  obtain us' u where us: "us = us' @ [u]" using ne(1) by (cases us rule: rev_cases) auto
  obtain v vs' where vs: "vs = v # vs'" using ne(2) by (cases vs) auto
  have "rec_link h u a" "rec_link h a v" and paths: "path h (us' @ [u])" "path h (v # vs')"
    "set (us' @ [u]) \<inter> set (v # vs') = {}" and dom: "a \<in> fmdom' h"
    using p unfolding us vs
    by (auto simp: path_append path_def successively_append_iff successively_Cons)
  moreover obtain r where r: "deref h a = Ok r" "fmlookup h a = Some r" using deref_ok [OF dom] by auto
  ultimately have "cut_out a h = suture u v h" by (simp add: cut_out_def rec_link_def nxt_def prv_def)
  with suture_ok [OF paths] show ?thesis by (auto simp: us vs)
qed

text \<open>The two \<open>suture\<close> calls that put a record first.\<close>

definition put_first :: "nat \<Rightarrow> nat \<Rightarrow> 'k lru_heap \<Rightarrow> (unit, 'k lru_heap) res" where
  "put_first head a h =
     bind_res (deref h head) (\<lambda>r. bind_res (suture a (rec_next r) h) (\<lambda>h. suture head a h))"

lemma put_first_ok:
  assumes p: "path h (head # vs)" and ne: "vs \<noteq> []" and a: "a \<in> fmdom' h" "a \<notin> set (head # vs)"
  shows "\<exists>h'. put_first head a h = Ok h' \<and> path h' (head # a # vs) \<and> key_at h' = key_at h \<and> fmdom' h' = fmdom' h"
proof -
  obtain v vs' where vs: "vs = v # vs'" using ne by (cases vs) auto
  have link: "rec_link h head v" and vp: "path h (v # vs')" and dom: "head \<in> fmdom' h" "head \<notin> set vs"
    using p unfolding vs by (auto simp: path_def)
  obtain r where r: "deref h head = Ok r" "rec_next r = v"
    using deref_ok [OF dom(1)] link by (auto simp: rec_link_def nxt_def)
  have "path h ([] @ [a])" using a(1) by (simp add: path_def)
  from suture_ok [OF this vp] a(2) vs obtain h1 where
    h1: "suture a v h = Ok h1" "path h1 (a # vs)" "key_at h1 = key_at h" "fmdom' h1 = fmdom' h" by auto
  have "path h1 ([] @ [head])" using dom(1) h1(4) by (simp add: path_def)
  from suture_ok [OF this h1(2)] dom(2) a(2) h1 obtain h2 where
    "suture head a h1 = Ok h2" "path h2 (head # a # vs)" "key_at h2 = key_at h" "fmdom' h2 = fmdom' h" by auto
  with r h1(1) show ?thesis by (simp add: put_first_def)
qed

lemma promote_eq:
  "promote a t = bind_res (cut_out a (tc_heap t)) (\<lambda>h. bind_res (put_first (tc_head t) a h) (\<lambda>h. Ok (t\<lparr>tc_heap := h\<rparr>)))"
  by (auto simp: promote_def put_first_def bind_res_def split: res.splits)

section \<open>The order of use\<close>

text \<open>The records between the sentinels with their keys. There are no others: what was dropped was freed.\<close>

definition trace_rep :: "'k trace \<Rightarrow> (nat \<times> 'k) list \<Rightarrow> bool" where
  "trace_rep t ps \<longleftrightarrow>
     (let as = tc_head t # map fst ps @ [tc_tail t]
      in path (tc_heap t) as \<and> fmdom' (tc_heap t) = set as \<and> (\<forall>a \<in> set as. a < tc_fresh t) \<and>
         (\<forall>(a, k) \<in> set ps. key_at (tc_heap t) a = Some k))"

lemma trace_new_ok: "\<exists>t. trace_new sm = Ok t \<and> trace_rep t [] \<and> tc_tick t = 0 \<and> tc_sample_mask t = sm"
  by (simp add: trace_new_def suture_def deref_def Let_def trace_rep_def path_def rec_link_def nxt_def prv_def
      fmdom'_fmupd insert_commute)

lemma promote_ok:
  assumes "trace_rep t (xs @ (a, k) # ys)"
  shows "\<exists>h. promote a t = Ok (t\<lparr>tc_heap := h\<rparr>) \<and> trace_rep (t\<lparr>tc_heap := h\<rparr>) ((a, k) # xs @ ys)"
proof -
  let ?h = "tc_heap t" and ?us = "map fst xs" and ?vs = "map fst ys @ [tc_tail t]"
  have p: "path ?h ((tc_head t # ?us) @ a # ?vs)" using assms by (simp add: trace_rep_def Let_def)
  from cut_out_ok [OF p] obtain h1 where h1: "cut_out a ?h = Ok h1" "path h1 (tc_head t # ?us @ ?vs)"
    "key_at h1 = key_at ?h" "fmdom' h1 = fmdom' ?h" by auto
  have "a \<in> fmdom' h1" "a \<notin> set (tc_head t # ?us @ ?vs)" using p h1(4) by (auto simp: path_def)
  from put_first_ok [OF h1(2) _ this] h1(3,4) obtain h2 where
    "put_first (tc_head t) a h1 = Ok h2" "path h2 (tc_head t # a # ?us @ ?vs)" "key_at h2 = key_at ?h" "fmdom' h2 = fmdom' ?h"
    by auto
  with assms h1(1) show ?thesis
    by (intro exI [of _ h2]) (auto simp: promote_eq trace_rep_def Let_def)
qed

text \<open>A record is taken out and freed.\<close>

lemma tc_heap_inject [simp]: "t\<lparr>tc_heap := h\<rparr> = t\<lparr>tc_heap := g\<rparr> \<longleftrightarrow> h = g"
  by (cases t) simp

lemma path_fmdrop:
  assumes "path h as" "a \<notin> set as"
  shows "path (fmdrop a h) as"
proof (rule path_cong [OF assms(1)])
  have "x \<noteq> a" if "x \<in> set (butlast as) \<or> x \<in> set (tl as)" for x
    using that assms(2) by (cases as) (auto dest: in_set_butlastD split: if_splits)
  then show "nxt (fmdrop a h) x = nxt h x" if "x \<in> set (butlast as)" for x using that by (auto simp: nxt_def)
  show "prv (fmdrop a h) x = prv h x" if "x \<in> set (tl as)" for x
    using that assms(2) by (cases as) (auto simp: prv_def)
qed (use assms in \<open>auto simp: path_def\<close>)

lemma take_out_ok:
  assumes "trace_rep t (xs @ (a, k) # ys)"
  shows "\<exists>h r. cut_out a (tc_heap t) = Ok h \<and> deref h a = Ok r \<and> rec_key r = Some k \<and>
    trace_rep (t\<lparr>tc_heap := fmdrop a h\<rparr>) (xs @ ys)"
proof -
  let ?h = "tc_heap t" and ?us = "map fst xs" and ?vs = "map fst ys @ [tc_tail t]"
  have p: "path ?h ((tc_head t # ?us) @ a # ?vs)" and k: "key_at ?h a = Some k"
    using assms by (simp_all add: trace_rep_def Let_def)
  from cut_out_ok [OF p] obtain h1 where h1: "cut_out a ?h = Ok h1" "path h1 (tc_head t # ?us @ ?vs)"
    "key_at h1 = key_at ?h" "fmdom' h1 = fmdom' ?h" by auto
  have a: "a \<in> fmdom' h1" "a \<notin> set (tc_head t # ?us @ ?vs)" using p h1(4) by (auto simp: path_def)
  obtain r where r: "deref h1 a = Ok r" "rec_key r = Some k"
    using deref_ok [OF a(1)] k h1(3) by (metis key_at_def option.simps(2) bind.bind_lunit)
  have keys: "key_at (fmdrop a h1) x = Some k'" if "(x, k') \<in> set (xs @ ys)" for x k'
  proof -
    have "x \<noteq> a" using that a(2) by force
    moreover have "key_at ?h x = Some k'" using that assms by (auto simp: trace_rep_def Let_def)
    ultimately have "x \<noteq> a" "key_at h1 x = Some k'" using h1(3) by simp_all
    then show ?thesis by (simp add: key_at_def)
  qed
  have "fmdom' (fmdrop a h1) = set (tc_head t # ?us @ ?vs)"
    using h1(4) a(2) assms by (auto simp: trace_rep_def Let_def)
  moreover have "\<forall>x \<in> set (tc_head t # ?us @ ?vs). x < tc_fresh t"
    using assms by (auto simp: trace_rep_def Let_def)
  ultimately have "trace_rep (t\<lparr>tc_heap := fmdrop a h1\<rparr>) (xs @ ys)"
    using path_fmdrop [OF h1(2) a(2)] keys by (simp add: trace_rep_def Let_def case_prod_beta)
  with h1(1) r show ?thesis by blast
qed

lemma trace_delete_ok:
  assumes "trace_rep t (xs @ (a, k) # ys)"
  shows "\<exists>h. trace_delete a t = Ok (t\<lparr>tc_heap := h\<rparr>) \<and> trace_rep (t\<lparr>tc_heap := h\<rparr>) (xs @ ys)"
  using take_out_ok [OF assms] by (auto simp: trace_delete_def)

text \<open>The last record.\<close>

lemma last_record:
  assumes "trace_rep t (ps @ [(a, k)])"
  shows "\<exists>r. deref (tc_heap t) (tc_tail t) = Ok r \<and> rec_prev r = a"
proof -
  have "path (tc_heap t) ((tc_head t # map fst ps) @ a # [tc_tail t])" using assms by (simp add: trace_rep_def Let_def)
  then have "rec_link (tc_heap t) a (tc_tail t)" unfolding path_append by (simp add: path_def)
  then show ?thesis by (auto simp: rec_link_def prv_def deref_def)
qed

lemma remove_tail_ok:
  assumes "trace_rep t (ps @ [(a, k)])"
  shows "\<exists>h. remove_tail t = Ok (k, t\<lparr>tc_heap := h\<rparr>) \<and> trace_rep (t\<lparr>tc_heap := h\<rparr>) ps"
  using take_out_ok [OF assms] last_record [OF assms] by (auto simp: remove_tail_def)

text \<open>Changing the key of a record.\<close>

lemma rekey_ok:
  assumes "trace_rep t ((a, k) # ps)"
  shows "\<exists>r. deref (tc_heap t) a = Ok r \<and> rec_key r = Some k \<and>
    trace_rep (t\<lparr>tc_heap := fmupd a (r\<lparr>rec_key := Some k'\<rparr>) (tc_heap t)\<rparr>) ((a, k') # ps)"
proof -
  let ?h = "tc_heap t"
  have p: "path ?h (tc_head t # a # map fst ps @ [tc_tail t])" and k: "key_at ?h a = Some k"
    using assms by (simp_all add: trace_rep_def Let_def)
  have dom: "a \<in> fmdom' ?h" and nin: "a \<notin> fst ` set ps" using p by (auto simp: path_def)
  obtain r where r: "deref ?h a = Ok r" "fmlookup ?h a = Some r" using deref_ok [OF dom] by auto
  let ?g = "fmupd a (r\<lparr>rec_key := Some k'\<rparr>) ?h"
  have g: "fmdom' ?g = fmdom' ?h" "nxt ?g = nxt ?h" "prv ?g = prv ?h" "key_at ?g = (key_at ?h)(a \<mapsto> k')"
    using r(2) dom by (auto simp: nxt_def prv_def key_at_def fun_eq_iff)
  have "path ?g (tc_head t # a # map fst ps @ [tc_tail t])"
    using p by (rule path_cong) (use p g in \<open>auto simp: path_def\<close>)
  moreover have "key_at ?g x = Some y" if "(x, y) \<in> set ps" for x y
  proof -
    have "x \<noteq> a" using that nin by force
    with that assms g(4) show ?thesis by (auto simp: trace_rep_def Let_def)
  qed
  moreover have "\<forall>x \<in> set (tc_head t # a # map fst ps @ [tc_tail t]). x < tc_fresh t"
    "fmdom' ?g = set (tc_head t # a # map fst ps @ [tc_tail t])"
    using assms g(1) by (simp_all add: trace_rep_def Let_def)
  ultimately have "trace_rep (t\<lparr>tc_heap := ?g\<rparr>) ((a, k') # ps)"
    using g(4) by (simp add: trace_rep_def Let_def case_prod_beta)
  moreover have "rec_key r = Some k" using k r(2) by (simp add: key_at_def)
  ultimately show ?thesis using r(1) by blast
qed

lemma reuse_tail_ok:
  assumes "trace_rep t (ps @ [(a, k)])"
  shows "\<exists>h. reuse_tail k' t = Ok ((k, a), t\<lparr>tc_heap := h\<rparr>) \<and> trace_rep (t\<lparr>tc_heap := h\<rparr>) ((a, k') # ps)"
proof -
  obtain h where h: "promote a t = Ok (t\<lparr>tc_heap := h\<rparr>)" "trace_rep (t\<lparr>tc_heap := h\<rparr>) ((a, k) # ps)"
    using promote_ok [of t ps a k "[]"] assms by auto
  obtain r where "deref h a = Ok r" "rec_key r = Some k"
    "trace_rep (t\<lparr>tc_heap := fmupd a (r\<lparr>rec_key := Some k'\<rparr>) h\<rparr>) ((a, k') # ps)"
    using rekey_ok [OF h(2), of k'] by auto
  moreover obtain r' where "deref (tc_heap t) (tc_tail t) = Ok r'" "rec_prev r' = a"
    using last_record [OF assms] by auto
  ultimately show ?thesis
    using h(1) by (auto simp: reuse_tail_def promote_def bind_res_eq_Ok Let_def)
qed

lemma trace_create_ok:
  assumes "trace_rep t ps"
  shows "\<exists>h. trace_create k t = Ok (tc_fresh t, t\<lparr>tc_heap := h, tc_fresh := tc_fresh t + 1\<rparr>) \<and>
    trace_rep (t\<lparr>tc_heap := h, tc_fresh := tc_fresh t + 1\<rparr>) ((tc_fresh t, k) # ps)"
proof -
  let ?h = "tc_heap t" and ?a = "tc_fresh t" and ?vs = "map fst ps @ [tc_tail t]"
  have p: "path ?h (tc_head t # ?vs)" and dom: "fmdom' ?h = set (tc_head t # ?vs)"
    and fresh: "\<forall>x \<in> set (tc_head t # ?vs). x < ?a"
    using assms by (simp_all add: trace_rep_def Let_def)
  obtain v vs' where vs: "?vs = v # vs'" by (cases ?vs) auto
  have link: "rec_link ?h (tc_head t) v" using p unfolding vs by (simp add: path_def)
  then obtain r s where r: "fmlookup ?h (tc_head t) = Some r" "rec_next r = v" and s: "fmlookup ?h v = Some s"
    by (auto simp: rec_link_def nxt_def prv_def)
  have ne: "?a \<noteq> tc_head t" "?a \<noteq> v" "tc_head t \<noteq> v" and nin: "?a \<notin> set (tc_head t # ?vs)"
    using fresh p vs by (auto simp: path_def)
  let ?n = "\<lparr>rec_prev = tc_head t, rec_next = v, rec_key = Some k\<rparr>"
  let ?g = "fmupd (tc_head t) (r\<lparr>rec_next := ?a\<rparr>) (fmupd v (s\<lparr>rec_prev := ?a\<rparr>) (fmupd ?a ?n ?h))"
  have run: "trace_create k t = Ok (?a, t\<lparr>tc_heap := ?g, tc_fresh := ?a + 1\<rparr>)"
    using r s ne by (simp add: trace_create_def deref_def Let_def)
  have g: "nxt ?g = (nxt ?h)(tc_head t \<mapsto> ?a, ?a \<mapsto> v)" "prv ?g = (prv ?h)(v \<mapsto> ?a, ?a \<mapsto> tc_head t)"
    "key_at ?g = (key_at ?h)(?a \<mapsto> k)"
    using r s ne by (auto simp: nxt_def prv_def key_at_def fun_eq_iff)
  have gdom: "fmdom' ?g = set (tc_head t # ?a # ?vs)" using dom vs by auto
  have "path ?g (v # vs')"
  proof (rule path_cong)
    show "path ?h (v # vs')" using p unfolding vs by (auto simp: path_def)
    show "nxt ?g x = nxt ?h x" if "x \<in> set (butlast (v # vs'))" for x
      using in_set_butlastD [OF that] nin p unfolding vs by (auto simp: g path_def)
    show "prv ?g x = prv ?h x" if "x \<in> set (tl (v # vs'))" for x
      using that nin p unfolding vs by (auto simp: g path_def)
  qed (use gdom vs in auto)
  moreover have "rec_link ?g (tc_head t) ?a" "rec_link ?g ?a v" using ne by (simp_all add: rec_link_def g)
  ultimately have "path ?g (tc_head t # ?a # ?vs)"
    using gdom nin p unfolding vs by (auto simp: path_def)
  moreover have "key_at ?g x = Some y" if "(x, y) \<in> set ps" for x y
  proof -
    have "x \<noteq> ?a" using that nin by force
    with that assms show ?thesis by (auto simp: g trace_rep_def Let_def)
  qed
  ultimately have "trace_rep (t\<lparr>tc_heap := ?g, tc_fresh := ?a + 1\<rparr>) ((?a, k) # ps)"
    using gdom fresh g(3) by (auto simp: trace_rep_def Let_def case_prod_beta)
  with run show ?thesis by blast
qed

lemma clear_loop_ok:
  assumes "path h (as @ [tail])" "\<forall>a \<in> set as. key_at h a \<noteq> None"
  shows "\<exists>g. clear_loop tail (hd (as @ [tail])) h = Ok g \<and> fmdom' g = fmdom' h - set as"
  using assms
proof (induction as arbitrary: h)
  case (Cons a as)
  obtain r where r: "fmlookup h a = Some r" using Cons.prems(1) fmdom'_SomeD by (fastforce simp: path_def)
  have "rec_link h a (hd (as @ [tail]))" using Cons.prems(1) by (cases as) (simp_all add: path_def)
  then have n: "rec_next r = hd (as @ [tail])" using r by (simp add: rec_link_def nxt_def)
  obtain k where k: "rec_key r = Some k" using Cons.prems(2) r by (auto simp: key_at_def)
  have nin: "a \<notin> set (as @ [tail])" using Cons.prems(1) by (simp add: path_def)
  have "path h (as @ [tail])" using Cons.prems(1) by (cases as) (simp_all add: path_def)
  then have "path (fmdrop a h) (as @ [tail])" using nin by (rule path_fmdrop)
  moreover have "\<forall>x \<in> set as. key_at (fmdrop a h) x \<noteq> None"
    using Cons.prems(2) nin by (auto simp: key_at_def)
  ultimately obtain g where "clear_loop tail (rec_next r) (fmdrop a h) = Ok g" "fmdom' g = fmdom' h - {a} - set as"
    using Cons.IH n by fastforce
  with r k nin show ?case by (auto simp: clear_loop.simps [of tail a])
qed (simp add: clear_loop.simps)

lemma trace_clear_ok:
  assumes "trace_rep t ps"
  shows "\<exists>h. trace_clear t = Ok (t\<lparr>tc_heap := h\<rparr>) \<and> trace_rep (t\<lparr>tc_heap := h\<rparr>) []"
proof -
  let ?h = "tc_heap t" and ?as = "map fst ps"
  have p: "path ?h (tc_head t # ?as @ [tc_tail t])" and dom: "fmdom' ?h = set (tc_head t # ?as @ [tc_tail t])"
    using assms by (simp_all add: trace_rep_def Let_def)
  have "rec_link ?h (tc_head t) (hd (?as @ [tc_tail t]))" using p by (cases ?as) (simp_all add: path_def)
  then obtain r where r: "deref ?h (tc_head t) = Ok r" "rec_next r = hd (?as @ [tc_tail t])"
    by (auto simp: rec_link_def nxt_def deref_def)
  have "path ?h (?as @ [tc_tail t])" using p by (cases ?as) (simp_all add: path_def)
  moreover have "\<forall>a \<in> set ?as. key_at ?h a \<noteq> None" using assms by (force simp: trace_rep_def Let_def)
  ultimately obtain g where g: "clear_loop (tc_tail t) (rec_next r) ?h = Ok g" "fmdom' g = fmdom' ?h - set ?as"
    using clear_loop_ok r(2) by metis
  have d: "tc_head t \<notin> set ?as" "tc_tail t \<notin> set ?as" "tc_head t \<noteq> tc_tail t" using p by (auto simp: path_def)
  then have gd: "fmdom' g = {tc_head t, tc_tail t}" using g(2) dom by auto
  have "path g ([] @ [tc_head t])" "path g (tc_tail t # [])" using gd by (simp_all add: path_def)
  from suture_ok [OF this] d(3) obtain h where "suture (tc_head t) (tc_tail t) g = Ok h"
    "path h [tc_head t, tc_tail t]" "fmdom' h = fmdom' g" by auto
  with assms r(1) g(1) gd show ?thesis
    by (intro exI [of _ h]) (auto simp: trace_clear_def trace_rep_def Let_def)
qed

section \<open>The specification\<close>

text \<open>The entries, the most recently used first, with the capacity and the sampling of uses.\<close>

record ('k, 'v) lru_list =
  ll_entries :: "('k \<times> 'v) list"
  ll_capacity :: u64
  ll_tick :: u64
  ll_mask :: u64

datatype ('k, 'v) lru_op =
    Lru_Insert 'k 'v
  | Lru_Get 'k
  | Lru_GetMut "'v \<Rightarrow> 'v" 'k
  | Lru_Remove 'k
  | Lru_Resize u64
  | Lru_Clear

definition without :: "'k \<Rightarrow> ('k \<times> 'v) list \<Rightarrow> ('k \<times> 'v) list" where
  "without k es = filter (\<lambda>e. fst e \<noteq> k) es"

definition used :: "'k \<Rightarrow> 'v \<Rightarrow> ('k, 'v) lru_list \<Rightarrow> ('k, 'v) lru_list" where
  "used k v l =
     (let tick = ll_tick l + 1
      in l\<lparr>ll_tick := tick,
           ll_entries := (if and tick (ll_mask l) = 0 then (k, v) # without k (ll_entries l)
                          else map (\<lambda>e. if fst e = k then (k, v) else e) (ll_entries l))\<rparr>)"

lemma used_simps [simp]:
  "ll_tick (used k v l) = ll_tick l + 1" "ll_mask (used k v l) = ll_mask l" "ll_capacity (used k v l) = ll_capacity l"
  by (simp_all add: used_def Let_def)

fun list_exec :: "('k, 'v) lru_op \<Rightarrow> ('k, 'v) lru_list \<Rightarrow> 'v option \<times> ('k, 'v) lru_list" where
  "list_exec (Lru_Insert k v) l =
     (None, l\<lparr>ll_entries :=
        (k, v) # (if map_of (ll_entries l) k = None \<and> unat (ll_capacity l) \<le> length (ll_entries l)
                  then butlast (ll_entries l) else without k (ll_entries l))\<rparr>)"
| "list_exec (Lru_Get k) l =
     (case map_of (ll_entries l) k of Some v \<Rightarrow> (Some v, used k v l) | None \<Rightarrow> (None, l))"
| "list_exec (Lru_GetMut f k) l =
     (case map_of (ll_entries l) k of Some v \<Rightarrow> (Some v, used k (f v) l) | None \<Rightarrow> (None, l))"
| "list_exec (Lru_Remove k) l = (map_of (ll_entries l) k, l\<lparr>ll_entries := without k (ll_entries l)\<rparr>)"
| "list_exec (Lru_Resize n) l =
     (let cap = (if n = 0 then 1 else n)
      in (None, l\<lparr>ll_capacity := cap, ll_entries := take (unat cap) (ll_entries l)\<rparr>))"
| "list_exec Lru_Clear l = (None, l\<lparr>ll_entries := []\<rparr>)"

fun lru_exec ::
    "('s, 'k, 'v) size_policy \<Rightarrow> ('k, 'v) lru_op \<Rightarrow> ('k, 'v, 's) lru_cache \<Rightarrow>
     (unit, 'v option \<times> ('k, 'v, 's) lru_cache) res" where
  "lru_exec P (Lru_Insert k v) c = bind_res (lru_insert P k v c) (\<lambda>c. Ok (None, c))"
| "lru_exec P (Lru_Get k) c = lru_get k c"
| "lru_exec P (Lru_GetMut f k) c = lru_get_mut f k c"
| "lru_exec P (Lru_Remove k) c = lru_remove P k c"
| "lru_exec P (Lru_Resize n) c = bind_res (lru_resize P n c) (\<lambda>c. Ok (None, c))"
| "lru_exec P Lru_Clear c = bind_res (lru_clear P c) (\<lambda>c. Ok (None, c))"

section \<open>The simulation\<close>

text \<open>The records of the cache with their keys and values.\<close>

definition cache_rep :: "('k, 'v, 's) lru_cache \<Rightarrow> (nat \<times> 'k \<times> 'v) list \<Rightarrow> bool" where
  "cache_rep c xs \<longleftrightarrow>
     trace_rep (lru_trace c) (map (\<lambda>(a, k, v). (a, k)) xs) \<and> distinct (map (fst \<circ> snd) xs) \<and>
     (\<forall>k e. fmlookup (lru_map c) k = Some e \<longleftrightarrow> (ve_record e, k, ve_value e) \<in> set xs)"

definition lru_sim ::
    "('s, 'k, 'v) size_policy \<Rightarrow> ('k, 'v, 's) lru_cache \<Rightarrow> ('k, 'v) lru_list \<Rightarrow> bool" where
  "lru_sim P c l \<longleftrightarrow>
     (\<exists>xs. cache_rep c xs \<and> map snd xs = ll_entries l) \<and> lru_capacity c = ll_capacity l \<and>
     tc_tick (lru_trace c) = ll_tick l \<and> tc_sample_mask (lru_trace c) = ll_mask l \<and>
     ll_capacity l \<noteq> 0 \<and> length (ll_entries l) \<le> unat (ll_capacity l) \<and>
     unat (lru_size P c) = length (ll_entries l)"

lemma lru_simI:
  assumes "cache_rep c xs" "map snd xs = ll_entries l" "lru_capacity c = ll_capacity l"
    "tc_tick (lru_trace c) = ll_tick l" "tc_sample_mask (lru_trace c) = ll_mask l" "ll_capacity l \<noteq> 0"
    "length (ll_entries l) \<le> unat (ll_capacity l)" "unat (lru_size P c) = length (ll_entries l)"
  shows "lru_sim P c l"
  using assms by (auto simp: lru_sim_def)

lemma cache_rep_lookup:
  assumes "cache_rep c xs"
  shows "map_option ve_value (fmlookup (lru_map c) k) = map_of (map snd xs) k"
proof (cases "fmlookup (lru_map c) k")
  case None
  then have "k \<notin> fst ` set (map snd xs)"
    using assms by (auto simp: cache_rep_def) (metis option.distinct(1) value_entry.select_convs)
  then have "map_of (map snd xs) k = None" unfolding map_of_eq_None_iff by simp
  with None show ?thesis by simp
next
  case (Some e)
  then have "(k, ve_value e) \<in> set (map snd xs)" using assms by (force simp: cache_rep_def)
  moreover have "distinct (map fst (map snd xs))" using assms by (simp add: cache_rep_def)
  ultimately show ?thesis using Some by simp
qed

lemma cache_rep_split:
  assumes "cache_rep c xs" "fmlookup (lru_map c) k = Some e"
  obtains ys zs where "xs = ys @ (ve_record e, k, ve_value e) # zs" "without k (map snd xs) = map snd (ys @ zs)"
    "k \<notin> fst ` snd ` set (ys @ zs)"
proof -
  have "(ve_record e, k, ve_value e) \<in> set xs" using assms by (simp add: cache_rep_def)
  then obtain ys zs where xs: "xs = ys @ (ve_record e, k, ve_value e) # zs" by (meson split_list)
  then have k: "k \<notin> fst ` snd ` set (ys @ zs)" using assms(1) by (auto simp: cache_rep_def image_image)
  then have "filter (\<lambda>e. fst e \<noteq> k) (map snd (ys @ zs)) = map snd (ys @ zs)"
    by (intro filter_True) auto
  then have "without k (map snd xs) = map snd (ys @ zs)" by (simp add: xs without_def)
  with that xs k show thesis by blast
qed

lemma cache_rep_len: "cache_rep c xs \<Longrightarrow> lru_len c = length xs"
proof -
  assume rep: "cache_rep c xs"
  have "k |\<in>| fmdom (lru_map c) \<longleftrightarrow> k \<in> fst ` set (map snd xs)" for k
    using cache_rep_lookup [OF rep, of k] by (metis fmdom_notI fmdom_notD map_of_eq_None_iff map_option_is_None)
  then have "fset (fmdom (lru_map c)) = set (map (fst \<circ> snd) xs)" by auto
  then have "lru_len c = card (set (map (fst \<circ> snd) xs))" by (simp add: lru_len_def fcard.rep_eq)
  also have "\<dots> = length xs" using rep by (subst distinct_card) (simp_all add: cache_rep_def)
  finally show ?thesis .
qed

lemma map_value_in_place:
  assumes "cache_rep c xs" "xs = ys @ (a, k, v) # zs"
  shows "map (\<lambda>e. if fst e = k then (k, w) else e) (map snd xs) = map snd (ys @ (a, k, w) # zs)"
proof -
  have k: "\<forall>x \<in> set (ys @ zs). fst (snd x) \<noteq> k" using assms by (auto simp: cache_rep_def image_iff)
  have "map (\<lambda>e. if fst e = k then (k, w) else e) (map snd us) = map snd us" if "\<forall>x \<in> set us. fst (snd x) \<noteq> k" for us :: "(nat \<times> 'a \<times> 'b) list"
    using that by (induction us) auto
  with k show ?thesis by (simp add: assms(2))
qed

text \<open>A use of an entry, with a new value.\<close>

lemma use_sim:
  assumes rep: "cache_rep c xs" and e: "fmlookup (lru_map c) k = Some e" and t: "tc_tick (lru_trace c) = ll_tick l"
    "tc_sample_mask (lru_trace c) = ll_mask l" "map snd xs = ll_entries l"
  shows "\<exists>t' ys. maybe_promote (ve_record e) (lru_trace c) = Ok t' \<and>
    cache_rep (c\<lparr>lru_trace := t', lru_map := fmupd k (e\<lparr>ve_value := w\<rparr>) (lru_map c)\<rparr>) ys \<and>
    map snd ys = ll_entries (used k w l) \<and> tc_tick t' = ll_tick (used k w l) \<and> tc_sample_mask t' = ll_mask l"
proof -
  obtain ys zs where xs: "xs = ys @ (ve_record e, k, ve_value e) # zs" "without k (map snd xs) = map snd (ys @ zs)"
    "k \<notin> fst ` snd ` set (ys @ zs)" using cache_rep_split [OF rep e] .
  let ?t = "(lru_trace c)\<lparr>tc_tick := tc_tick (lru_trace c) + 1\<rparr>" and ?m = "fmupd k (e\<lparr>ve_value := w\<rparr>) (lru_map c)"
  have tr: "trace_rep ?t (map (\<lambda>(a, k, v). (a, k)) ys @ (ve_record e, k) # map (\<lambda>(a, k, v). (a, k)) zs)"
    using rep xs(1) by (simp add: cache_rep_def trace_rep_def Let_def)
  have look: "fmlookup ?m k' = Some e' \<longleftrightarrow> (ve_record e', k', ve_value e') \<in> insert (ve_record e, k, w) (set (ys @ zs))" for k' e'
  proof (cases "k' = k")
    case True
    have "(x, k, y) \<notin> set (ys @ zs)" for x y using xs(3) by force
    with True show ?thesis by (cases e; cases e') auto
  next
    case False
    then have "fmlookup ?m k' = Some e' \<longleftrightarrow> (ve_record e', k', ve_value e') \<in> set xs" using rep by (simp add: cache_rep_def)
    then show ?thesis using False xs(1) by auto
  qed
  have d: "distinct (map (fst \<circ> snd) (ys @ zs))" using rep xs(1) by (auto simp: cache_rep_def)
  show ?thesis
  proof (cases "and (ll_tick l + 1) (ll_mask l) = 0")
    case True
    obtain h where h: "promote (ve_record e) ?t = Ok (?t\<lparr>tc_heap := h\<rparr>)"
      "trace_rep (?t\<lparr>tc_heap := h\<rparr>) ((ve_record e, k) # map (\<lambda>(a, k, v). (a, k)) ys @ map (\<lambda>(a, k, v). (a, k)) zs)"
      using promote_ok [OF tr] by blast
    have "cache_rep (c\<lparr>lru_trace := ?t\<lparr>tc_heap := h\<rparr>, lru_map := ?m\<rparr>) ((ve_record e, k, w) # ys @ zs)"
      using h(2) look d xs(3) by (simp add: cache_rep_def image_image image_Un)
    moreover have "maybe_promote (ve_record e) (lru_trace c) = Ok (?t\<lparr>tc_heap := h\<rparr>)"
      using h(1) True t by (simp add: maybe_promote_def)
    ultimately show ?thesis using True t xs(2) by (fastforce simp: used_def)
  next
    case False
    have "cache_rep (c\<lparr>lru_trace := ?t, lru_map := ?m\<rparr>) (ys @ (ve_record e, k, w) # zs)"
      using tr look d xs(3) by (auto simp: cache_rep_def image_image image_Un)
    moreover have "maybe_promote (ve_record e) (lru_trace c) = Ok ?t"
      using False t by (simp add: maybe_promote_def)
    moreover have "map snd (ys @ (ve_record e, k, w) # zs) = ll_entries (used k w l)"
      using map_value_in_place [OF rep xs(1), of w] False by (simp add: used_def t(3) [symmetric])
    ultimately show ?thesis using t by (intro exI [of _ ?t] exI conjI) auto
  qed
qed

text \<open>A policy that counts the entries.\<close>

locale counting_policy =
  fixes P :: "('s, 'k, 'v) size_policy"
  assumes current_insert: "sp_current P (sp_on_insert P k v s) = sp_current P s + 1"
    and current_remove: "sp_current P (sp_on_remove P k v s) = sp_current P s - 1"
    and current_reset: "sp_current P (sp_on_reset P n s) = n"
begin

lemma insert_occupied:
  assumes sim: "lru_sim P c l" and e: "fmlookup (lru_map c) k = Some e"
  shows "\<exists>c'. lru_insert P k v c = Ok c' \<and> lru_sim P c' (snd (list_exec (Lru_Insert k v) l))"
proof -
  obtain xs where rep: "cache_rep c xs" "map snd xs = ll_entries l" using sim by (auto simp: lru_sim_def)
  obtain ys zs where xs: "xs = ys @ (ve_record e, k, ve_value e) # zs" "without k (map snd xs) = map snd (ys @ zs)"
    "k \<notin> fst ` snd ` set (ys @ zs)" using cache_rep_split [OF rep(1) e] .
  obtain h where h: "promote (ve_record e) (lru_trace c) = Ok ((lru_trace c)\<lparr>tc_heap := h\<rparr>)"
    "trace_rep ((lru_trace c)\<lparr>tc_heap := h\<rparr>) ((ve_record e, k) # map (\<lambda>(a, k, v). (a, k)) (ys @ zs))"
    using promote_ok [of "lru_trace c" "map (\<lambda>(a, k, v). (a, k)) ys" "ve_record e" k "map (\<lambda>(a, k, v). (a, k)) zs"]
      rep(1) xs(1) by (auto simp: cache_rep_def)
  let ?c = "c\<lparr>lru_trace := (lru_trace c)\<lparr>tc_heap := h\<rparr>, lru_map := fmupd k (e\<lparr>ve_value := v\<rparr>) (lru_map c),
    lru_size_policy := sp_on_insert P k v (sp_on_remove P k (ve_value e) (lru_size_policy c))\<rparr>"
  have new: "(x, k, y) \<notin> set (ys @ zs)" for x y using xs(3) by force
  have "fmlookup (lru_map ?c) k' = Some e' \<longleftrightarrow> (ve_record e', k', ve_value e') \<in> insert (ve_record e, k, v) (set (ys @ zs))" for k' e'
    using new rep(1) xs(1) by (cases "k' = k"; cases e; cases e') (auto simp: cache_rep_def)
  moreover have "distinct (map (fst \<circ> snd) (ys @ zs))" using rep(1) xs(1) by (auto simp: cache_rep_def)
  ultimately have "cache_rep ?c ((ve_record e, k, v) # ys @ zs)"
    using h(2) xs(3) by (simp add: cache_rep_def image_image image_Un)
  moreover have "map_of (ll_entries l) k \<noteq> None" using cache_rep_lookup [OF rep(1), of k, symmetric] e rep(2) by simp
  moreover have "length (ll_entries l) = Suc (length (ys @ zs))" unfolding rep(2) [symmetric] xs(1) by simp
  ultimately have "lru_sim P ?c (snd (list_exec (Lru_Insert k v) l))"
    using sim xs(2) rep(2) current_insert current_remove
    by (intro lru_simI [of _ "(ve_record e, k, v) # ys @ zs"]) (auto simp: lru_sim_def lru_size_def)
  moreover have "lru_insert P k v c = Ok ?c" using e h(1) by (simp add: lru_insert_def)
  ultimately show ?thesis by blast
qed

text \<open>What is known when a new key is inserted.\<close>

lemma vacant:
  assumes sim: "lru_sim P c l" and rep: "cache_rep c xs" "map snd xs = ll_entries l" and none: "fmlookup (lru_map c) k = None"
  shows "map_of (ll_entries l) k = None" "k \<notin> fst ` snd ` set xs" "without k (ll_entries l) = ll_entries l"
    "length xs = length (ll_entries l)" "unat (sp_current P (lru_size_policy c)) = length (ll_entries l)"
    "lru_capacity c \<le> sp_current P (lru_size_policy c) \<longleftrightarrow> unat (ll_capacity l) \<le> length (ll_entries l)"
proof -
  show k: "map_of (ll_entries l) k = None" using cache_rep_lookup [OF rep(1), of k] none rep(2) by simp
  show "k \<notin> fst ` snd ` set xs" using k unfolding rep(2) [symmetric] map_of_eq_None_iff by simp
  show "without k (ll_entries l) = ll_entries l"
    using k by (auto simp: without_def filter_id_conv map_of_eq_None_iff)
  show "length xs = length (ll_entries l)" unfolding rep(2) [symmetric] by simp
  show size: "unat (sp_current P (lru_size_policy c)) = length (ll_entries l)" using sim by (simp add: lru_sim_def lru_size_def)
  show "lru_capacity c \<le> sp_current P (lru_size_policy c) \<longleftrightarrow> unat (ll_capacity l) \<le> length (ll_entries l)"
    using sim size by (simp add: lru_sim_def word_le_nat_alt)
qed

lemma insert_full:
  assumes sim: "lru_sim P c l" and none: "fmlookup (lru_map c) k = None"
    and True: "unat (ll_capacity l) \<le> length (ll_entries l)"
  shows "\<exists>c'. lru_insert P k v c = Ok c' \<and> lru_sim P c' (snd (list_exec (Lru_Insert k v) l))"
proof -
  obtain xs where rep: "cache_rep c xs" "map snd xs = ll_entries l" using sim by (auto simp: lru_sim_def)
  note k = vacant(1) [OF sim rep none] and knew = vacant(2) [OF sim rep none] and len = vacant(4) [OF sim rep none]
    and size = vacant(5) [OF sim rep none] and full = vacant(6) [OF sim rep none]
  have "xs \<noteq> []" using True sim len by (auto simp: lru_sim_def unat_eq_0)
  then obtain ys a ko vo where xs: "xs = ys @ [(a, ko, vo)]" by (metis prod_cases3 rev_exhaust)
  obtain h where h: "reuse_tail k (lru_trace c) = Ok ((ko, a), (lru_trace c)\<lparr>tc_heap := h\<rparr>)"
    "trace_rep ((lru_trace c)\<lparr>tc_heap := h\<rparr>) ((a, k) # map (\<lambda>(a, k, v). (a, k)) ys)"
    using reuse_tail_ok [of "lru_trace c" "map (\<lambda>(a, k, v). (a, k)) ys" a ko k] rep(1) xs by (auto simp: cache_rep_def)
  have old: "fmlookup (lru_map c) ko = Some \<lparr>ve_value = vo, ve_record = a\<rparr>" using rep(1) xs by (auto simp: cache_rep_def)
  have ne: "ko \<noteq> k" using none old by auto
  let ?c = "c\<lparr>lru_trace := (lru_trace c)\<lparr>tc_heap := h\<rparr>,
    lru_map := fmdrop ko (fmupd k \<lparr>ve_value = v, ve_record = a\<rparr> (lru_map c)),
    lru_size_policy := sp_on_remove P ko vo (sp_on_insert P k v (lru_size_policy c))\<rparr>"
  have run: "lru_insert P k v c = Ok ?c"
    using none True full h(1) old ne by (simp add: lru_insert_def Let_def)
  have "distinct (map (fst \<circ> snd) ((a, k, v) # ys))" using rep(1) xs knew by (auto simp: cache_rep_def image_image)
  moreover have "fmlookup (lru_map ?c) k' = Some e' \<longleftrightarrow> (ve_record e', k', ve_value e') \<in> set ((a, k, v) # ys)" for k' e'
  proof -
    have "ko \<notin> fst ` snd ` set ys" using rep(1) xs by (auto simp: cache_rep_def image_image)
    then have "(x, ko, y) \<notin> set ys" "(x, k, y) \<notin> set ys" for x y using knew xs by force+
    then show ?thesis using rep(1) xs ne by (cases "k' = k"; cases "k' = ko"; cases e') (auto simp: cache_rep_def)
  qed
  ultimately have "cache_rep ?c ((a, k, v) # ys)" using h(2) by (simp add: cache_rep_def)
  then have "lru_sim P ?c (snd (list_exec (Lru_Insert k v) l))"
  proof (rule lru_simI)
    have "butlast (ll_entries l) = map snd ys" unfolding rep(2) [symmetric] xs by simp
    then show "map snd ((a, k, v) # ys) = ll_entries (snd (list_exec (Lru_Insert k v) l))" using True k by simp
    have "length (ll_entries l) = Suc (length ys)" using len xs by simp
    then show "length (ll_entries (snd (list_exec (Lru_Insert k v) l))) \<le> unat (ll_capacity (snd (list_exec (Lru_Insert k v) l)))"
      "unat (lru_size P ?c) = length (ll_entries (snd (list_exec (Lru_Insert k v) l)))"
      using True k sim size by (simp_all add: lru_size_def current_insert current_remove lru_sim_def)
  qed (use sim in \<open>simp_all add: lru_sim_def\<close>)
  with run show ?thesis by blast
qed

lemma insert_room:
  assumes sim: "lru_sim P c l" and none: "fmlookup (lru_map c) k = None"
    and False: "\<not> unat (ll_capacity l) \<le> length (ll_entries l)"
  shows "\<exists>c'. lru_insert P k v c = Ok c' \<and> lru_sim P c' (snd (list_exec (Lru_Insert k v) l))"
proof -
  obtain xs where rep: "cache_rep c xs" "map snd xs = ll_entries l" using sim by (auto simp: lru_sim_def)
  note k = vacant(1) [OF sim rep none] and knew = vacant(2) [OF sim rep none] and wo = vacant(3) [OF sim rep none]
    and size = vacant(5) [OF sim rep none] and full = vacant(6) [OF sim rep none]
  obtain h where h: "trace_create k (lru_trace c) = Ok (tc_fresh (lru_trace c), (lru_trace c)\<lparr>tc_heap := h, tc_fresh := tc_fresh (lru_trace c) + 1\<rparr>)"
    "trace_rep ((lru_trace c)\<lparr>tc_heap := h, tc_fresh := tc_fresh (lru_trace c) + 1\<rparr>)
      ((tc_fresh (lru_trace c), k) # map (\<lambda>(a, k, v). (a, k)) xs)"
    using trace_create_ok [of "lru_trace c" "map (\<lambda>(a, k, v). (a, k)) xs" k] rep(1) by (auto simp: cache_rep_def)
  let ?a = "tc_fresh (lru_trace c)"
  let ?c = "c\<lparr>lru_trace := (lru_trace c)\<lparr>tc_heap := h, tc_fresh := ?a + 1\<rparr>,
    lru_map := fmupd k \<lparr>ve_value = v, ve_record = ?a\<rparr> (lru_map c), lru_size_policy := sp_on_insert P k v (lru_size_policy c)\<rparr>"
  have run: "lru_insert P k v c = Ok ?c"
    using none False full h(1) by (simp add: lru_insert_def Let_def)
  have "(x, k, y) \<notin> set xs" for x y using knew by force
  then have "fmlookup (lru_map ?c) k' = Some e' \<longleftrightarrow> (ve_record e', k', ve_value e') \<in> set ((?a, k, v) # xs)" for k' e'
    using rep(1) by (cases "k' = k"; cases e') (auto simp: cache_rep_def)
  moreover have "distinct (map (fst \<circ> snd) ((?a, k, v) # xs))" using rep(1) knew by (auto simp: cache_rep_def image_image)
  ultimately have "cache_rep ?c ((?a, k, v) # xs)" using h(2) by (simp add: cache_rep_def)
  then have "lru_sim P ?c (snd (list_exec (Lru_Insert k v) l))"
  proof (rule lru_simI)
    have "unat (sp_current P (lru_size_policy c) + 1) = Suc (length (ll_entries l))"
    proof -
      have "sp_current P (lru_size_policy c) < ll_capacity l" using False size by (simp add: word_less_nat_alt)
      then show ?thesis using size by unat_arith
    qed
    then show "unat (lru_size P ?c) = length (ll_entries (snd (list_exec (Lru_Insert k v) l)))"
      using False k wo by (simp add: lru_size_def current_insert)
  qed (use sim False k wo rep(2) in \<open>simp_all add: lru_sim_def\<close>)
  with run show ?thesis by blast
qed

lemma remove_sim:
  assumes sim: "lru_sim P c l"
  shows "\<exists>c'. lru_remove P k c = Ok (fst (list_exec (Lru_Remove k) l), c') \<and> lru_sim P c' (snd (list_exec (Lru_Remove k) l))"
proof -
  obtain xs where rep: "cache_rep c xs" "map snd xs = ll_entries l" using sim by (auto simp: lru_sim_def)
  show ?thesis
  proof (cases "fmlookup (lru_map c) k")
    case None
    then have "map_of (ll_entries l) k = None" using cache_rep_lookup [OF rep(1), of k, symmetric] rep(2) by simp
    moreover from this have "without k (ll_entries l) = ll_entries l"
      by (auto simp: without_def filter_id_conv map_of_eq_None_iff)
    ultimately show ?thesis using None sim by (simp add: lru_remove_def)
  next
    case (Some e)
    then have val: "map_of (ll_entries l) k = Some (ve_value e)"
      using cache_rep_lookup [OF rep(1), of k, symmetric] rep(2) by simp
    obtain ys zs where xs: "xs = ys @ (ve_record e, k, ve_value e) # zs" "without k (map snd xs) = map snd (ys @ zs)"
      "k \<notin> fst ` snd ` set (ys @ zs)" using cache_rep_split [OF rep(1) Some] .
    obtain h where h: "trace_delete (ve_record e) (lru_trace c) = Ok ((lru_trace c)\<lparr>tc_heap := h\<rparr>)"
      "trace_rep ((lru_trace c)\<lparr>tc_heap := h\<rparr>) (map (\<lambda>(a, k, v). (a, k)) (ys @ zs))"
      using trace_delete_ok [of "lru_trace c" "map (\<lambda>(a, k, v). (a, k)) ys" "ve_record e" k "map (\<lambda>(a, k, v). (a, k)) zs"]
        rep(1) xs(1) by (auto simp: cache_rep_def)
    let ?c = "c\<lparr>lru_map := fmdrop k (lru_map c), lru_trace := (lru_trace c)\<lparr>tc_heap := h\<rparr>,
      lru_size_policy := sp_on_remove P k (ve_value e) (lru_size_policy c)\<rparr>"
    have "(x, k, y) \<notin> set (ys @ zs)" for x y using xs(3) by force
    then have "fmlookup (lru_map ?c) k' = Some e' \<longleftrightarrow> (ve_record e', k', ve_value e') \<in> set (ys @ zs)" for k' e'
      using rep(1) xs(1) by (cases "k' = k") (auto simp: cache_rep_def)
    moreover have "distinct (map (fst \<circ> snd) (ys @ zs))" using rep(1) xs(1) by (auto simp: cache_rep_def)
    ultimately have "cache_rep ?c (ys @ zs)" using h(2) by (simp add: cache_rep_def)
    then have "lru_sim P ?c (snd (list_exec (Lru_Remove k) l))"
    proof (rule lru_simI)
      show "map snd (ys @ zs) = ll_entries (snd (list_exec (Lru_Remove k) l))" using xs(2) rep(2) by simp
      have n: "length (ll_entries l) = Suc (length (ys @ zs))" unfolding rep(2) [symmetric] xs(1) by simp
      have wo: "length (without k (ll_entries l)) = length (ys @ zs)" using xs(2) rep(2) by simp
      then show "length (ll_entries (snd (list_exec (Lru_Remove k) l))) \<le> unat (ll_capacity (snd (list_exec (Lru_Remove k) l)))"
        using n sim by (simp add: lru_sim_def)
      have "unat (sp_current P (lru_size_policy c)) = Suc (length (ys @ zs))" using n sim by (simp add: lru_sim_def lru_size_def)
      then have "unat (sp_current P (lru_size_policy c) - 1) = length (ys @ zs)" by unat_arith
      then show "unat (lru_size P ?c) = length (ll_entries (snd (list_exec (Lru_Remove k) l)))"
        using wo by (simp add: lru_size_def current_remove)
    qed (use sim in \<open>simp_all add: lru_sim_def\<close>)
    moreover have "lru_remove P k c = Ok (fst (list_exec (Lru_Remove k) l), ?c)"
      using Some h(1) val by (simp add: lru_remove_def)
    ultimately show ?thesis by blast
  qed
qed

lemma clear_sim:
  assumes sim: "lru_sim P c l"
  shows "\<exists>c'. lru_clear P c = Ok c' \<and> lru_sim P c' (snd (list_exec Lru_Clear l))"
proof -
  obtain xs where "cache_rep c xs" using sim by (auto simp: lru_sim_def)
  then obtain h where h: "trace_clear (lru_trace c) = Ok ((lru_trace c)\<lparr>tc_heap := h\<rparr>)"
    "trace_rep ((lru_trace c)\<lparr>tc_heap := h\<rparr>) []"
    using trace_clear_ok unfolding cache_rep_def by blast
  let ?c = "c\<lparr>lru_map := fmempty, lru_trace := (lru_trace c)\<lparr>tc_heap := h\<rparr>,
    lru_size_policy := sp_on_reset P 0 (lru_size_policy c)\<rparr>"
  have "cache_rep ?c []" using h(2) by (simp add: cache_rep_def)
  then have "lru_sim P ?c (snd (list_exec Lru_Clear l))"
    by (rule lru_simI) (use sim in \<open>simp_all add: lru_sim_def lru_size_def current_reset\<close>)
  with h(1) show ?thesis by (auto simp: lru_clear_def)
qed

lemma resize_loop_ok:
  assumes "cache_rep c xs" "n \<le> length xs" "unat (lru_size P c) = length xs"
  shows "\<exists>c'. resize_loop P n c = Ok c' \<and> cache_rep c' (take (length xs - n) xs) \<and>
    unat (lru_size P c') = length xs - n \<and> lru_capacity c' = lru_capacity c \<and>
    tc_tick (lru_trace c') = tc_tick (lru_trace c) \<and> tc_sample_mask (lru_trace c') = tc_sample_mask (lru_trace c)"
  using assms
proof (induction n arbitrary: c xs)
  case (Suc n)
  then have "xs \<noteq> []" by auto
  then obtain ys a k v where xs: "xs = ys @ [(a, k, v)]" by (metis prod_cases3 rev_exhaust)
  obtain h where h: "remove_tail (lru_trace c) = Ok (k, (lru_trace c)\<lparr>tc_heap := h\<rparr>)"
    "trace_rep ((lru_trace c)\<lparr>tc_heap := h\<rparr>) (map (\<lambda>(a, k, v). (a, k)) ys)"
    using remove_tail_ok [of "lru_trace c" "map (\<lambda>(a, k, v). (a, k)) ys" a k] Suc.prems(1) xs by (auto simp: cache_rep_def)
  have old: "fmlookup (lru_map c) k = Some \<lparr>ve_value = v, ve_record = a\<rparr>" using Suc.prems(1) xs by (auto simp: cache_rep_def)
  let ?c = "c\<lparr>lru_trace := (lru_trace c)\<lparr>tc_heap := h\<rparr>, lru_map := fmdrop k (lru_map c),
    lru_size_policy := sp_on_remove P k v (lru_size_policy c)\<rparr>"
  have "k \<notin> fst ` snd ` set ys" using Suc.prems(1) xs by (auto simp: cache_rep_def image_image)
  then have "(x, k, y) \<notin> set ys" for x y by force
  then have "fmlookup (lru_map ?c) k' = Some e' \<longleftrightarrow> (ve_record e', k', ve_value e') \<in> set ys" for k' e'
    using Suc.prems(1) xs by (cases "k' = k") (auto simp: cache_rep_def)
  then have rep: "cache_rep ?c ys" using h(2) Suc.prems(1) xs by (simp add: cache_rep_def)
  have "unat (sp_current P (lru_size_policy c)) = Suc (length ys)" using Suc.prems(3) xs by (simp add: lru_size_def)
  then have "unat (sp_current P (lru_size_policy c) - 1) = length ys" by unat_arith
  then have "unat (lru_size P ?c) = length ys" by (simp add: lru_size_def current_remove)
  with Suc.IH [OF rep] Suc.prems(2) xs h(1) old show ?case by (simp add: Let_def)
qed simp

lemma resize_sim:
  assumes sim: "lru_sim P c l"
  shows "\<exists>c'. lru_resize P n c = Ok c' \<and> lru_sim P c' (snd (list_exec (Lru_Resize n) l))"
proof -
  obtain xs where rep: "cache_rep c xs" "map snd xs = ll_entries l" using sim by (auto simp: lru_sim_def)
  let ?n = "if n = 0 then 1 else n"
  have len: "length xs = length (ll_entries l)" unfolding rep(2) [symmetric] by simp
  have pos: "?n \<noteq> 0" by simp
  have size: "unat (lru_size P c) = length xs" "length xs \<le> unat (lru_capacity c)" using sim len by (simp_all add: lru_sim_def)
  have "\<exists>c'. (if ?n < lru_capacity c \<and> unat ?n < lru_len c then resize_loop P (lru_len c - unat ?n) c else Ok c) = Ok c' \<and>
      cache_rep c' (take (unat ?n) xs) \<and> unat (lru_size P c') = min (unat ?n) (length xs) \<and>
      tc_tick (lru_trace c') = tc_tick (lru_trace c) \<and> tc_sample_mask (lru_trace c') = tc_sample_mask (lru_trace c)"
  proof (cases "unat ?n < length xs")
    case True
    then have "?n < lru_capacity c" using size(2) by (simp add: word_less_nat_alt)
    with True resize_loop_ok [OF rep(1) _ size(1), of "length xs - unat ?n"] show ?thesis
      unfolding cache_rep_len [OF rep(1)] by auto
  next
    case False
    then show ?thesis using rep(1) size(1) unfolding cache_rep_len [OF rep(1)] by simp
  qed
  then obtain c' where c': "(if ?n < lru_capacity c \<and> unat ?n < lru_len c then resize_loop P (lru_len c - unat ?n) c else Ok c) = Ok c'"
    "cache_rep c' (take (unat ?n) xs)" "unat (lru_size P c') = min (unat ?n) (length xs)"
    "tc_tick (lru_trace c') = tc_tick (lru_trace c)" "tc_sample_mask (lru_trace c') = tc_sample_mask (lru_trace c)" by blast
  have "lru_resize P n c = Ok (c'\<lparr>lru_capacity := ?n\<rparr>)"
    using c'(1) unfolding lru_resize_def Let_def by simp
  moreover have "lru_sim P (c'\<lparr>lru_capacity := ?n\<rparr>) (snd (list_exec (Lru_Resize n) l))"
  proof (rule lru_simI)
    show "cache_rep (c'\<lparr>lru_capacity := ?n\<rparr>) (take (unat ?n) xs)" using c'(2) by (simp add: cache_rep_def)
    show "map snd (take (unat ?n) xs) = ll_entries (snd (list_exec (Lru_Resize n) l))"
      by (simp add: rep(2) [symmetric] take_map Let_def)
  qed (use sim c'(3-5) len in \<open>simp_all add: lru_sim_def lru_size_def Let_def\<close>)
  ultimately show ?thesis by blast
qed

lemma get_mut_sim:
  assumes sim: "lru_sim P c l"
  shows "\<exists>c'. lru_get_mut f k c = Ok (fst (list_exec (Lru_GetMut f k) l), c') \<and> lru_sim P c' (snd (list_exec (Lru_GetMut f k) l))"
proof -
  obtain xs where rep: "cache_rep c xs" "map snd xs = ll_entries l" using sim by (auto simp: lru_sim_def)
  have val: "map_of (ll_entries l) k = map_option ve_value (fmlookup (lru_map c) k)"
    using cache_rep_lookup [OF rep(1), of k] rep(2) by simp
  show ?thesis
  proof (cases "fmlookup (lru_map c) k")
    case None
    then show ?thesis using val sim by (simp add: lru_get_mut_def)
  next
    case (Some e)
    let ?l = "used k (f (ve_value e)) l"
    obtain t ys where t: "maybe_promote (ve_record e) (lru_trace c) = Ok t"
      "cache_rep (c\<lparr>lru_trace := t, lru_map := fmupd k (e\<lparr>ve_value := f (ve_value e)\<rparr>) (lru_map c)\<rparr>) ys"
      "map snd ys = ll_entries ?l" "tc_tick t = ll_tick ?l" "tc_sample_mask t = ll_mask l"
      using use_sim [OF rep(1) Some _ _ rep(2), of "f (ve_value e)"] sim unfolding lru_sim_def by metis
    let ?c = "c\<lparr>lru_trace := t, lru_map := fmupd k (e\<lparr>ve_value := f (ve_value e)\<rparr>) (lru_map c)\<rparr>"
    have "length ys = lru_len ?c" using cache_rep_len [OF t(2)] by simp
    also have "\<dots> = lru_len c" using Some by (simp add: lru_len_def fmdomI finsert_absorb)
    also have "\<dots> = length (ll_entries l)" using cache_rep_len [OF rep(1)] rep(2) by (metis length_map)
    finally have len: "length (ll_entries ?l) = length (ll_entries l)" using t(3) by (metis length_map)
    have "lru_sim P ?c ?l"
      using t(2,3) by (rule lru_simI) (use sim t(4,5) len in \<open>simp_all add: lru_sim_def lru_size_def\<close>)
    then show ?thesis using Some val t(1) by (simp add: lru_get_mut_def)
  qed
qed

lemma get_eq: "lru_get k c = lru_get_mut id k c"
proof (cases "fmlookup (lru_map c) k")
  case (Some e)
  then have "fmupd k e (lru_map c) = lru_map c" by (intro fmap_ext) auto
  with Some show ?thesis by (simp add: lru_get_def lru_get_mut_def)
qed (simp add: lru_get_def lru_get_mut_def)

theorem exec_sim:
  assumes sim: "lru_sim P c l"
  shows "\<exists>c'. lru_exec P op c = Ok (fst (list_exec op l), c') \<and> lru_sim P c' (snd (list_exec op l))"
proof (cases op)
  case (Lru_Insert k v)
  have "\<exists>c'. lru_insert P k v c = Ok c' \<and> lru_sim P c' (snd (list_exec (Lru_Insert k v) l))"
    using insert_occupied [OF sim] insert_full [OF sim] insert_room [OF sim] by (metis option.exhaust)
  with Lru_Insert show ?thesis by auto
next
  case (Lru_Get k)
  then show ?thesis using get_mut_sim [OF sim, of id k] by (simp add: get_eq id_def)
next
  case (Lru_GetMut f k)
  then show ?thesis using get_mut_sim [OF sim] by simp
next
  case (Lru_Remove k)
  then show ?thesis using remove_sim [OF sim] by simp
next
  case (Lru_Resize n)
  then show ?thesis using resize_sim [OF sim, of n] by (auto simp: Let_def)
next
  case Lru_Clear
  then show ?thesis using clear_sim [OF sim] by auto
qed

end

interpretation count: counting_policy count_tracker
  by unfold_locales (simp_all add: count_tracker_def)

section \<open>Runs\<close>

fun lru_run ::
    "('s, 'k, 'v) size_policy \<Rightarrow> ('k, 'v) lru_op list \<Rightarrow> ('k, 'v, 's) lru_cache \<Rightarrow>
     (unit, 'v option list \<times> ('k, 'v, 's) lru_cache) res" where
  "lru_run P [] c = Ok ([], c)"
| "lru_run P (op # ops) c =
     bind_res (lru_exec P op c) (\<lambda>(r, c). bind_res (lru_run P ops c) (\<lambda>(rs, c). Ok (r # rs, c)))"

fun list_run :: "('k, 'v) lru_op list \<Rightarrow> ('k, 'v) lru_list \<Rightarrow> 'v option list \<times> ('k, 'v) lru_list" where
  "list_run [] l = ([], l)"
| "list_run (op # ops) l =
     (let (r, l) = list_exec op l; (rs, l) = list_run ops l in (r # rs, l))"

definition new_list :: "u64 \<Rightarrow> u64 \<Rightarrow> ('k, 'v) lru_list" where
  "new_list capacity sample_mask =
     \<lparr>ll_entries = [], ll_capacity = (if capacity = 0 then 1 else capacity), ll_tick = 0, ll_mask = sample_mask\<rparr>"

lemma lru_run_sim:
  "lru_sim count_tracker c l \<Longrightarrow>
     \<exists>c'. lru_run count_tracker ops c = Ok (fst (list_run ops l), c') \<and> lru_sim count_tracker c' (snd (list_run ops l))"
proof (induction ops arbitrary: c l)
  case (Cons op ops)
  obtain c1 where c1: "lru_exec count_tracker op c = Ok (fst (list_exec op l), c1)"
    "lru_sim count_tracker c1 (snd (list_exec op l))" using count.exec_sim [OF Cons.prems] by blast
  from Cons.IH [OF c1(2)] c1(1) show ?case by (auto simp: case_prod_beta Let_def)
qed simp

lemma with_capacity_sim:
  "\<exists>c :: ('k, 'v, u64) lru_cache. with_capacity_and_sample cap sm = Ok c \<and> lru_sim count_tracker c (new_list cap sm)"
proof -
  obtain t :: "'k trace" where t: "trace_new sm = Ok t" "trace_rep t []" "tc_tick t = 0" "tc_sample_mask t = sm"
    using trace_new_ok by blast
  let ?c = "\<lparr>lru_map = fmempty, lru_trace = t, lru_capacity = (if cap = 0 then 1 else cap), lru_size_policy = 0\<rparr> ::
    ('k, 'v, u64) lru_cache"
  have "lru_sim count_tracker ?c (new_list cap sm)"
    by (rule lru_simI [of _ "[]"]) (use t in \<open>simp_all add: cache_rep_def new_list_def lru_size_def count_tracker_def\<close>)
  then show ?thesis using t(1) by (simp add: with_capacity_and_sample_def with_capacity_sample_and_trace_def)
qed

text \<open>C14: The cache behaves as the list of its entries in the order of their last recorded use. Any
  sequence of insertions, reads, updates, removals, changes of the capacity and clearings, on a new cache
  with any capacity and sampling, runs without touching freed or uninitialised memory and returns
  what the list operations return. Afterwards the hash map holds the entries of the list, the heap
  holds one record per entry and the two sentinels, and there are no more entries than the
  capacity.\<close>

theorem lru_refines_list:
  "\<exists>c c'. with_capacity_and_sample cap sm = Ok c \<and>
     (case list_run ops (new_list cap sm) of (results, l) \<Rightarrow>
        lru_run count_tracker ops c = Ok (results, c') \<and>
        (\<forall>k. map_option ve_value (fmlookup (lru_map c') k) = map_of (ll_entries l) k) \<and>
        fcard (fmdom (tc_heap (lru_trace c'))) = length (ll_entries l) + 2 \<and>
        lru_len c' = length (ll_entries l) \<and> unat (lru_size count_tracker c') = length (ll_entries l) \<and>
        length (ll_entries l) \<le> unat (lru_capacity c'))"
proof -
  obtain c :: "('a, 'b, u64) lru_cache" where c: "with_capacity_and_sample cap sm = Ok c" "lru_sim count_tracker c (new_list cap sm)"
    using with_capacity_sim by blast
  obtain rs l where l: "list_run ops (new_list cap sm) = (rs, l)" by fastforce
  obtain c' where c': "lru_run count_tracker ops c = Ok (rs, c')" "lru_sim count_tracker c' l"
    using lru_run_sim [OF c(2), of ops] l by auto
  obtain xs where xs: "cache_rep c' xs" "map snd xs = ll_entries l" using c'(2) by (auto simp: lru_sim_def)
  let ?t = "lru_trace c'"
  let ?as = "tc_head ?t # map fst (map (\<lambda>(a, k, v). (a, k)) xs) @ [tc_tail ?t]"
  have as: "fmdom' (tc_heap ?t) = set ?as" "distinct ?as"
    using xs(1) unfolding cache_rep_def trace_rep_def Let_def path_def by blast+
  have "fcard (fmdom (tc_heap ?t)) = card (fmdom' (tc_heap ?t))" by (simp add: fcard.rep_eq fmdom'_alt_def)
  also have "\<dots> = length ?as" unfolding as(1) by (rule distinct_card [OF as(2)])
  finally have "fcard (fmdom (tc_heap ?t)) = length xs + 2" by simp
  moreover have "length xs = length (ll_entries l)" unfolding xs(2) [symmetric] by simp
  ultimately show ?thesis
    using c(1) c' l cache_rep_lookup [OF xs(1)] cache_rep_len [OF xs(1)] xs(2)
    by (intro exI [of _ c] exI [of _ c']) (simp add: lru_sim_def)
qed

end
