(* ===== verification/Peer_Log.thy ===== *)
theory Peer_Log
  imports Peer_Storage
begin

text \<open>
  What the peer storage keeps on disk: the raft log as a map from indices to entries, the two states,
  and the conditions between them under which a peer can be opened. Opening, reading and appending are
  shown to agree with that map.
\<close>

sublocale mq_spec < raft: raft_log_spec "m_byteorder M" "m_rocksdb M" view "raft_entry_of (m_proto M)"
  by unfold_locales (simp_all add: entry_write_not_empty)

section \<open>The log on disk\<close>

definition raft_log_map :: "'db mq_crates \<Rightarrow> (bytes \<rightharpoonup> bytes) \<Rightarrow> u64 \<Rightarrow> (u64 \<rightharpoonup> entry) \<Rightarrow> bool" where
  "raft_log_map M m r L \<longleftrightarrow>
     (\<forall>i. m (raft_log_key (m_byteorder M) r i) = map_option (rp_entry_write (m_proto M)) (L i)) \<and>
     (\<forall>i e. L i = Some e \<longrightarrow> ent_index e = i) \<and>
     (\<forall>k. m k \<noteq> None \<and> raft_log_key (m_byteorder M) r 0 \<le> k \<and> k \<le> raft_log_key (m_byteorder M) r (- 1) \<longrightarrow>
        (\<exists>i. k = raft_log_key (m_byteorder M) r i))"

text \<open>The log after entries are appended from an index on: they replace what was there, and nothing
  remains after them.\<close>

definition log_append :: "(u64 \<rightharpoonup> entry) \<Rightarrow> entry list \<Rightarrow> u64 \<Rightarrow> (u64 \<rightharpoonup> entry)" where
  "log_append L es prev_last i =
     (case List.find (\<lambda>e. ent_index e = i) es of
        Some e \<Rightarrow> Some e
      | None \<Rightarrow> if ent_index (last es) < i \<and> i \<le> prev_last then None else L i)"

definition peer_disk ::
    "'db mq_crates \<Rightarrow> ('db \<Rightarrow> bytes \<rightharpoonup> bytes) \<Rightarrow> 'db engines \<Rightarrow> u64 \<Rightarrow>
     raft_local_state \<Rightarrow> raft_apply_state \<Rightarrow> (u64 \<rightharpoonup> entry) \<Rightarrow> bool" where
  "peer_disk M view engines r st ast L \<longleftrightarrow>
     view (eng_raft engines) (raft_state_key (m_byteorder M) r) = Some (rp_local_state_write (m_proto M) st) \<and>
     view (eng_kv engines CF_RAFT) (apply_state_key (m_byteorder M) r) = Some (rp_apply_state_write (m_proto M) ast) \<and>
     raft_log_map M (view (eng_raft engines)) r L"

abbreviation trunc_idx :: "raft_apply_state \<Rightarrow> u64" where
  "trunc_idx ast \<equiv> rts_index (get_truncated_state ast)"

abbreviation hs_commit :: "raft_local_state \<Rightarrow> u64" where
  "hs_commit st \<equiv> hst_commit (get_hard_state st)"

text \<open>The commit index a peer goes on with when it is opened.\<close>

definition known_commit :: "raft_local_state \<Rightarrow> raft_apply_state \<Rightarrow> u64" where
  "known_commit st ast = max (hs_commit st) (ras_commit_index ast)"

definition log_term :: "raft_apply_state \<Rightarrow> (u64 \<rightharpoonup> entry) \<Rightarrow> u64 \<Rightarrow> u64" where
  "log_term ast L i =
     (if i = trunc_idx ast then rts_term (get_truncated_state ast) else ent_term (the (L i)))"

definition disk_ok :: "raft_local_state \<Rightarrow> raft_apply_state \<Rightarrow> (u64 \<rightharpoonup> entry) \<Rightarrow> bool" where
  "disk_ok st ast L \<longleftrightarrow>
     RAFT_INIT_LOG_INDEX \<le> trunc_idx ast \<and>
     (trunc_idx ast = RAFT_INIT_LOG_INDEX \<longrightarrow> rts_term (get_truncated_state ast) = RAFT_INIT_LOG_TERM) \<and>
     trunc_idx ast \<le> ras_applied_index ast \<and> ras_applied_index ast \<le> known_commit st ast \<and>
     known_commit st ast \<le> rlo_last_index st \<and> rlo_last_index st < - 1 \<and>
     (\<forall>i. trunc_idx ast < i \<and> i \<le> rlo_last_index st \<longrightarrow> L i \<noteq> None) \<and>
     (hs_commit st < ras_commit_index ast \<longrightarrow>
        (\<exists>e. L (ras_commit_index ast) = Some e \<and> ent_term e = ras_commit_term ast)) \<and>
     ras_commit_term ast \<le> hst_term (get_hard_state st)"

definition with_commit :: "raft_local_state \<Rightarrow> u64 \<Rightarrow> raft_local_state" where
  "with_commit st c = st\<lparr>rlo_hard_state := Some ((get_hard_state st)\<lparr>hst_commit := c\<rparr>)\<rparr>"

definition opened_storage ::
    "u64 \<Rightarrow> region \<Rightarrow> raft_local_state \<Rightarrow> raft_apply_state \<Rightarrow> (u64 \<rightharpoonup> entry) \<Rightarrow> peer_storage" where
  "opened_storage peer_id region st ast L =
     \<lparr>ps_peer_id = peer_id, ps_region = region, ps_raft_state = with_commit st (known_commit st ast),
      ps_apply_state = ast, ps_applied_index_term = log_term ast L (ras_applied_index ast),
      ps_last_term = log_term ast L (rlo_last_index st)\<rparr>"

section \<open>Opening\<close>

context mq_spec
begin

lemma raft_entry_at:
  assumes "peer_disk M view engines r st ast L"
  shows "raft_entry_at M engines r i = Ok (L i)"
  using assms
  by (cases "L i") (simp_all add: raft_entry_at_def get_entry_def get_msg_def get_value_def get_view peer_disk_def
      raft_log_map_def unwrap_def)

lemma init_states:
  assumes "peer_disk M view engines (rg_id region) st ast L"
  shows "init_raft_state M engines region = Ok st" "init_apply_state M engines region = Ok ast"
  using assms
  by (simp_all add: init_raft_state_def init_apply_state_def get_raft_state_def get_msg_def get_msg_cf_def
      get_value_def get_value_cf_def get_view peer_disk_def unwrap_def)

lemma validate_states_ok:
  assumes "peer_disk M view engines r st ast L" "disk_ok st ast L"
  shows "validate_states M r engines st ast = Ok (with_commit st (known_commit st ast))"
proof (cases "hs_commit st < ras_commit_index ast")
  case True
  then have "known_commit st ast = ras_commit_index ast" by (simp add: known_commit_def max.absorb2 less_imp_le)
  with True assms show ?thesis
    by (auto simp: validate_states_def raft_entry_at disk_ok_def with_commit_def Let_def not_less)
next
  case False
  then have "known_commit st ast = hs_commit st" by (simp add: known_commit_def max.absorb1 not_less)
  with False assms show ?thesis
    by (auto simp: validate_states_def disk_ok_def with_commit_def Let_def not_less)
qed

lemma with_commit_simps [simp]:
  "rlo_last_index (with_commit st c) = rlo_last_index st" "hs_commit (with_commit st c) = c"
  "hst_term (get_hard_state (with_commit st c)) = hst_term (get_hard_state st)"
  by (simp_all add: with_commit_def get_hard_state_def)

lemma init_terms_ok:
  assumes "peer_disk M view engines (rg_id region) st ast L" "disk_ok st ast L"
  shows "(init_last_term M engines region (with_commit st c) ast :: ('e, u64) res) = Ok (log_term ast L (rlo_last_index st))"
    "(init_applied_index_term M engines region ast :: ('e, u64) res) = Ok (log_term ast L (ras_applied_index ast))"
proof -
  let ?t = "trunc_idx ast"
  have ok: "RAFT_INIT_LOG_INDEX \<le> ?t" "?t = RAFT_INIT_LOG_INDEX \<Longrightarrow> rts_term (get_truncated_state ast) = RAFT_INIT_LOG_TERM"
    "?t \<le> ras_applied_index ast" "ras_applied_index ast \<le> rlo_last_index st"
    "\<And>i. ?t < i \<Longrightarrow> i \<le> rlo_last_index st \<Longrightarrow> L i \<noteq> None"
    using assms(2) by (auto simp: disk_ok_def)
  have tm: "(if i = RAFT_INIT_LOG_INDEX then Ok RAFT_INIT_LOG_TERM
      else if i = ?t then Ok (rts_term (get_truncated_state ast))
      else bind_res (raft_entry_at M engines (rg_id region) i) (\<lambda>e. bind_res (unwrap e) (\<lambda>entry. Ok (ent_term entry)))) =
    (Ok (log_term ast L i) :: ('e, u64) res)" if "?t \<le> i" "i \<le> rlo_last_index st" for i
  proof (cases "i = ?t")
    case True
    with ok show ?thesis by (auto simp: log_term_def)
  next
    case False
    then have "?t < i" using that by simp
    then have "RAFT_INIT_LOG_INDEX \<noteq> i" "L i \<noteq> None" using ok that by auto
    with False show ?thesis by (auto simp: raft_entry_at [OF assms(1)] log_term_def unwrap_def)
  qed
  have nz: "rlo_last_index st \<noteq> 0" "rlo_last_index st \<noteq> RAFT_INIT_LOG_INDEX \<Longrightarrow> RAFT_INIT_LOG_INDEX < rlo_last_index st"
    using ok by (auto simp: RAFT_INIT_LOG_INDEX_def)
  show "(init_last_term M engines region (with_commit st c) ast :: ('e, u64) res) = Ok (log_term ast L (rlo_last_index st))"
    using tm [OF order_trans [OF ok(3,4)] order_refl] nz by (simp add: init_last_term_def Let_def split: if_splits)
  show "(init_applied_index_term M engines region ast :: ('e, u64) res) = Ok (log_term ast L (ras_applied_index ast))"
    using tm [OF ok(3,4)] by (simp add: init_applied_index_term_def Let_def split: if_splits)
qed

lemma ps_new_ok:
  assumes "peer_disk M view engines (rg_id region) st ast L" "disk_ok st ast L"
  shows "ps_new M engines region peer_id = Ok (opened_storage peer_id region st ast L)"
  by (simp add: ps_new_def init_states [OF assms(1)] validate_states_ok [OF assms] init_terms_ok [OF assms]
      opened_storage_def)

section \<open>Reading\<close>

lemma log_range_map:
  assumes "raft_log_map M (view db) r L" "\<And>i. low \<le> i \<Longrightarrow> i < high \<Longrightarrow> L i \<noteq> None"
  shows "log_range (m_byteorder M) (raft_entry_of (m_proto M)) (view db) r low high (\<lambda>i. the (L i))"
  unfolding log_range_def
proof (intro conjI allI impI)
  fix i assume i: "low \<le> i \<and> i < high"
  with assms(2) obtain e where "L i = Some e" by blast
  with assms(1) show "view db (raft_log_key (m_byteorder M) r i) = Some (en_write (raft_entry_of (m_proto M)) (the (L i)))"
    "en_index (raft_entry_of (m_proto M)) (the (L i)) = i"
    by (simp_all add: raft_log_map_def)
next
  fix k assume k: "view db k \<noteq> None \<and> raft_log_key (m_byteorder M) r low \<le> k \<and> k < raft_log_key (m_byteorder M) r high"
  have "raft_log_key (m_byteorder M) r 0 \<le> k"
    by (rule order_trans [of _ "raft_log_key (m_byteorder M) r low"]) (use k in \<open>simp_all add: raft.raft_log_key_le\<close>)
  moreover have "k \<le> raft_log_key (m_byteorder M) r (- 1)"
  proof (rule order_trans [of _ "raft_log_key (m_byteorder M) r high"])
    show "k \<le> raft_log_key (m_byteorder M) r high" using k by (intro less_imp_le) blast
  qed (simp add: raft.raft_log_key_le word_order.extremum)
  ultimately show "\<exists>i. k = raft_log_key (m_byteorder M) r i" using assms(1) k by (simp add: raft_log_map_def)
qed

lemma ps_entries_ok:
  assumes "raft_log_map M (view (eng_raft engines)) (rg_id (ps_region s)) L"
    and "\<And>i. low \<le> i \<Longrightarrow> i < high \<Longrightarrow> L i \<noteq> None"
    and "truncated_index s < low" "low \<le> high" "high \<le> ps_last_index s + 1"
  shows "ps_entries M engines s low high max_size =
    Ok (within_budget (\<lambda>e. length (rp_entry_write (m_proto M) e)) (unat max_size) 0
          (map (\<lambda>i. the (L i)) (index_range low high)))"
proof (cases "low = high")
  case True
  with assms show ?thesis by (simp add: ps_entries_def check_range_def index_range_empty not_le)
next
  case False
  then have lt: "low < high" using assms(4) by simp
  have pos: "0 < low" using assms(3) by (cases "low = 0") (auto simp: word_neq_0_conv)
  show ?thesis
    using raft.fetch_entries [OF log_range_map [OF assms(1,2)] pos lt, of "m_memory M" "Some (unat max_size)" "[]"] assms False
    by (simp add: ps_entries_def check_range_def not_less not_le Let_def)
qed

text \<open>\<open>term\<close> skips the log when the terms at both of its ends are equal. That is right because terms grow along the log.\<close>

lemma ps_term_ok:
  assumes "raft_log_map M (view (eng_raft engines)) (rg_id (ps_region s)) L"
    and present: "\<And>i. truncated_index s < i \<Longrightarrow> i \<le> ps_last_index s \<Longrightarrow> L i \<noteq> None"
    and last: "ps_last_term s = log_term (ps_apply_state s) L (ps_last_index s)"
    and mono: "\<And>i j. truncated_index s \<le> i \<Longrightarrow> i \<le> j \<Longrightarrow> j \<le> ps_last_index s \<Longrightarrow>
      log_term (ps_apply_state s) L i \<le> log_term (ps_apply_state s) L j"
    and idx: "truncated_index s \<le> idx" "idx \<le> ps_last_index s" "ps_last_index s < - 1"
  shows "ps_term M engines s idx = Ok (log_term (ps_apply_state s) L idx)"
proof (cases "idx = truncated_index s")
  case True
  then show ?thesis by (simp add: ps_term_def log_term_def truncated_index_def truncated_term_def)
next
  case False
  then have lt: "truncated_index s < idx" using idx(1) by simp
  have succ: "idx < idx + 1" "idx + 1 \<le> ps_last_index s + 1"
    using idx(2,3) by unat_arith+
  have range: "(check_range s idx (idx + 1) :: (unit, unit) res) = Ok ()"
    using lt succ by (simp add: check_range_def not_less not_le less_imp_le)
  have trunc: "truncated_term s = log_term (ps_apply_state s) L (truncated_index s)"
    by (simp add: truncated_term_def truncated_index_def log_term_def)
  show ?thesis
  proof (cases "truncated_term s = ps_last_term s \<or> idx = ps_last_index s")
    case True
    have "ps_last_term s = log_term (ps_apply_state s) L idx"
    proof (cases "idx = ps_last_index s")
      case False
      with True have "truncated_term s = ps_last_term s" by simp
      then show ?thesis using mono [OF order_refl idx(1,2)] mono [OF idx(1,2) order_refl] trunc last by simp
    qed (simp add: last)
    with True range \<open>idx \<noteq> truncated_index s\<close> show ?thesis by (simp add: ps_term_def)
  next
    case False
    have here: "L i \<noteq> None" if "idx \<le> i" "i < idx + 1" for i
    proof -
      have "i = idx" using that succ(1) by unat_arith
      then show ?thesis using present lt idx(2) by blast
    qed
    have one: "index_range idx (idx + 1) = [idx]"
      using index_range_Cons [OF succ(1)] by (simp add: index_range_empty)
    have "ps_entries M engines s idx (idx + 1) NO_LIMIT = Ok [the (L idx)]"
      using ps_entries_ok [OF assms(1) here lt less_imp_le [OF succ(1)] succ(2)] by (simp add: one)
    with False range \<open>idx \<noteq> truncated_index s\<close> show ?thesis
      by (simp add: ps_term_def log_term_def truncated_index_def)
  qed
qed

end

end
