(* ===== verification/Peer_Ready.thy ===== *)
theory Peer_Ready
  imports Peer_Log
begin

text \<open>
  Writing a \<open>Ready\<close> of the raft package: the new entries replace the end of the log, and what is on
  disk afterwards can be opened again. \<open>ready_wf\<close> is what the package promises of a \<open>Ready\<close>.
\<close>

definition ready_last :: "raft_local_state \<Rightarrow> ready \<Rightarrow> u64" where
  "ready_last st rd = (if rd_entries rd = [] then rlo_last_index st else ent_index (last (rd_entries rd)))"

definition ready_wf :: "raft_local_state \<Rightarrow> ready \<Rightarrow> bool" where
  "ready_wf st rd \<longleftrightarrow>
     ready_last st rd < - 1 \<and>
     (case rd_entries rd of
        [] \<Rightarrow> True
      | e # es \<Rightarrow>
          map ent_index (e # es) = index_range (ent_index e) (ready_last st rd + 1) \<and>
          hs_commit st < ent_index e \<and> ent_index e \<le> rlo_last_index st + 1) \<and>
     (case rd_hs rd of
        None \<Rightarrow> True
      | Some hs \<Rightarrow>
          hst_term (get_hard_state st) \<le> hst_term hs \<and> hs_commit st \<le> hst_commit hs \<and> hst_commit hs \<le> ready_last st rd)"

text \<open>The write batch of the peer thread is written and the storage follows it.\<close>

definition write_ready ::
    "'db mq_crates \<Rightarrow> peer_storage \<Rightarrow> ready \<Rightarrow> 'db \<Rightarrow> peer_storage \<times> 'db" where
  "write_ready M s rd raft =
     (let (ctx, raft_wb) = handle_raft_ready M s rd []
      in (post_ready s ctx, fst (consume (m_rocksdb M) raft raft_wb)))"

text \<open>The raft state and the operations on the raft engine that come of it.\<close>

definition ready_state :: "peer_storage \<Rightarrow> ready \<Rightarrow> raft_local_state" where
  "ready_state s rd =
     (let st = (if rd_entries rd = [] then ps_raft_state s
                else (ps_raft_state s)\<lparr>rlo_last_index := ent_index (last (rd_entries rd))\<rparr>)
      in if 0 < rlo_last_index st
         then (case rd_hs rd of Some hs \<Rightarrow> st\<lparr>rlo_hard_state := Some hs\<rparr> | None \<Rightarrow> st) else st)"

definition log_puts :: "'db mq_crates \<Rightarrow> u64 \<Rightarrow> entry list \<Rightarrow> wb_op list" where
  "log_puts M r es =
     map (\<lambda>e. WbPut (raft_log_key (m_byteorder M) r (ent_index e)) (rp_entry_write (m_proto M) e)) es"

definition log_deletes :: "'db mq_crates \<Rightarrow> u64 \<Rightarrow> u64 list \<Rightarrow> wb_op list" where
  "log_deletes M r is = map (\<lambda>i. WbDelete (raft_log_key (m_byteorder M) r i)) is"

definition ready_log :: "(u64 \<rightharpoonup> entry) \<Rightarrow> raft_local_state \<Rightarrow> ready \<Rightarrow> (u64 \<rightharpoonup> entry)" where
  "ready_log L st rd = (if rd_entries rd = [] then L else log_append L (rd_entries rd) (rlo_last_index st))"

definition saved_state :: "peer_storage \<Rightarrow> raft_local_state \<Rightarrow> ready \<Rightarrow> raft_local_state" where
  "saved_state s st rd = (if ready_state s rd = ps_raft_state s then st else ready_state s rd)"

text \<open>The storage in memory may know a later commit index than the raft state on disk: the one that the
  apply thread recorded.\<close>

definition peer_mem :: "peer_storage \<Rightarrow> raft_local_state \<Rightarrow> raft_apply_state \<Rightarrow> (u64 \<rightharpoonup> entry) \<Rightarrow> bool" where
  "peer_mem s st ast L \<longleftrightarrow>
     ps_raft_state s = with_commit st (hs_commit (ps_raft_state s)) \<and>
     known_commit st ast \<le> hs_commit (ps_raft_state s) \<and> hs_commit (ps_raft_state s) \<le> rlo_last_index st \<and>
     ps_last_term s = log_term ast L (rlo_last_index st)"

definition ready_ops :: "'db mq_crates \<Rightarrow> peer_storage \<Rightarrow> ready \<Rightarrow> wb_op list" where
  "ready_ops M s rd =
     (let r = rg_id (ps_region s); es = rd_entries rd
      in (if es = [] then []
          else log_puts M r es @ log_deletes M r (index_range (ent_index (last es) + 1) (ps_last_index s + 1))) @
         (if ready_state s rd \<noteq> ps_raft_state s
          then [WbPut (raft_state_key (m_byteorder M) r) (rp_local_state_write (m_proto M) (ready_state s rd))] else []))"

lemma log_append_new:
  assumes "distinct (map ent_index es)" "e \<in> set es"
  shows "log_append L es prev (ent_index e) = Some e"
proof -
  have "List.find (\<lambda>x. ent_index x = ent_index e) es = Some e"
    using assms by (induction es) (auto simp: image_iff)
  then show ?thesis by (simp add: log_append_def)
qed

lemma log_append_old:
  assumes "i \<notin> ent_index ` set es" "i \<le> ent_index (last es) \<or> prev < i"
  shows "log_append L es prev i = L i"
proof -
  have "List.find (\<lambda>x. ent_index x = i) es = None" using assms(1) by (auto simp: find_None_iff)
  with assms(2) show ?thesis by (auto simp: log_append_def not_less)
qed

section \<open>The keys\<close>

context mq_spec
begin

lemma raft_state_key_above: "raft_log_key (m_byteorder M) r i < raft_state_key (m_byteorder M) r"
proof -
  have app: "zs @ x < zs @ y \<longleftrightarrow> x < y" for zs x y :: bytes by (induction zs) auto
  show ?thesis
    by (simp add: raft_log_key_def make_region_key_def raft_state_key_def make_region_prefix_def app
        RAFT_LOG_SUFFIX_def RAFT_STATE_SUFFIX_def)
qed

lemma raft_state_key_neq: "raft_log_key (m_byteorder M) r i \<noteq> raft_state_key (m_byteorder M) r"
  using raft_state_key_above [of r i] by auto

section \<open>Appending\<close>

lemma cut_logs_ops: "cut_logs (m_byteorder M) wb r a b = wb @ log_deletes M r (index_range a b)"
proof -
  have "fold (\<lambda>i wb. wb_delete wb (raft_log_key (m_byteorder M) r i)) is wb = wb @ log_deletes M r is" for "is" wb
    by (induction "is" arbitrary: wb) (simp_all add: wb_delete_def log_deletes_def)
  then show ?thesis by (simp add: cut_logs_def index_range_def)
qed

lemma wb_append_ops: "wb_append (m_byteorder M) (m_proto M) wb r es = wb @ log_puts M r es"
  by (cases es) (simp_all add: wb_append_def raft.append_impl_ops log_puts_def)

lemma log_append_view:
  assumes map: "raft_log_map M m r L"
    and es: "map ent_index es = index_range k (n + 1)" "es \<noteq> []" "n < - 1" "prev < - 1"
  shows "raft_log_map M (apply_ops (log_puts M r es @ log_deletes M r (index_range (n + 1) (prev + 1))) m) r (log_append L es prev)"
    (is "raft_log_map M ?m r ?L")
proof -
  have d: "distinct (map ent_index es)"
    using index_range_sorted [of k "n + 1"] strict_sorted_iff unfolding es(1) by blast
  have succ: "i \<le> x \<longleftrightarrow> i < x + 1" "x + 1 \<le> i \<longleftrightarrow> x < i" if "x < - 1" for i x :: u64
    using that by unat_arith+
  have last_n: "ent_index (last es) = n"
  proof -
    have "index_range k (n + 1) \<noteq> []" using es(1,2) by auto
    then have "k < n + 1" using index_range_empty [of "n + 1" k] by (cases "k < n + 1") auto
    moreover have "unat (n + 1) = Suc (unat n)" using es(3) by unat_arith
    ultimately have "last (index_range k (n + 1)) = n"
      by (simp add: index_range_def last_map word_less_nat_alt)
    then show ?thesis using es(1,2) by (metis last_map)
  qed
  have find: "List.find (\<lambda>e. ent_index e = ent_index e') es = Some e'" if "e' \<in> set es" for e'
    using that d by (induction es) (auto simp: image_iff)
  have other: "List.find (\<lambda>e. ent_index e = i) es = None" if "i \<notin> ent_index ` set es" for i
    using that by (auto simp: find_None_iff)
  have idx: "i \<in> ent_index ` set es \<longleftrightarrow> k \<le> i \<and> i \<le> n" for i
  proof -
    have "ent_index ` set es = set (index_range k (n + 1))" using es(1) by (metis set_map)
    then show ?thesis using succ(1) [OF es(3)] by simp
  qed
  have view: "?m (raft_log_key (m_byteorder M) r i) = map_option (rp_entry_write (m_proto M)) (?L i)" for i
  proof (cases "i \<in> ent_index ` set es")
    case True
    then obtain e where e: "e \<in> set es" "i = ent_index e" by blast
    have "\<not> n + 1 \<le> i" using True unfolding idx succ(2) [OF es(3)] by (simp add: not_less)
    then have "i \<notin> set (index_range (n + 1) (prev + 1))" by simp
    then have "?m (raft_log_key (m_byteorder M) r i) = apply_ops (log_puts M r es) m (raft_log_key (m_byteorder M) r i)"
      by (auto simp: log_deletes_def raft.apply_deletes_view)
    also have "\<dots> = Some (rp_entry_write (m_proto M) e)"
      using raft.apply_puts [where key = "\<lambda>e. raft_log_key (m_byteorder M) r (ent_index e)" and es = es and e = e] d e
      by (simp add: log_puts_def distinct_map inj_on_def)
    finally show ?thesis using find [OF e(1)] e(2) by (simp add: log_append_def)
  next
    case False
    have "apply_ops (log_puts M r es) m (raft_log_key (m_byteorder M) r i) = m (raft_log_key (m_byteorder M) r i)"
      using False by (intro apply_ops_other) (auto simp: log_puts_def)
    moreover have "i \<in> set (index_range (n + 1) (prev + 1)) \<longleftrightarrow> n < i \<and> i \<le> prev"
      using succ(1) [OF es(4)] succ(2) [OF es(3)] by simp
    ultimately show ?thesis
      using map other [OF False] last_n
      by (auto simp: log_deletes_def raft.apply_deletes_view log_append_def raft_log_map_def)
  qed
  have "\<exists>i. x = raft_log_key (m_byteorder M) r i"
    if "?m x \<noteq> None" "raft_log_key (m_byteorder M) r 0 \<le> x" "x \<le> raft_log_key (m_byteorder M) r (- 1)" for x
  proof (cases "x \<in> op_key ` set (log_puts M r es @ log_deletes M r (index_range (n + 1) (prev + 1)))")
    case True
    then show ?thesis by (auto simp: log_puts_def log_deletes_def)
  next
    case False
    then have "?m x = m x" by (rule apply_ops_other)
    with that map show ?thesis by (simp add: raft_log_map_def)
  qed
  moreover have "ent_index e = i" if "?L i = Some e" for i e
    using that map by (auto simp: log_append_def raft_log_map_def find_Some_iff split: option.splits if_splits)
  ultimately show ?thesis using view by (simp add: raft_log_map_def)
qed

text \<open>Writing the raft state leaves the log alone.\<close>

lemma raft_log_map_state:
  assumes "raft_log_map M m r L"
  shows "raft_log_map M (m(raft_state_key (m_byteorder M) r \<mapsto> v)) r L"
proof -
  have "\<not> raft_state_key (m_byteorder M) r \<le> raft_log_key (m_byteorder M) r (- 1)"
    using raft_state_key_above [of r "- 1"] by simp
  with assms raft_state_key_neq show ?thesis by (auto simp: raft_log_map_def)
qed

section \<open>A ready\<close>

lemma handle_raft_ready_eq:
  "handle_raft_ready M s rd [] =
     (\<lparr>ic_region_id = rg_id (ps_region s), ic_raft_state = ready_state s rd, ic_apply_state = ps_apply_state s,
       ic_last_term = (if rd_entries rd = [] then ps_last_term s else ent_term (last (rd_entries rd))),
       ic_has_new_entries = (rd_entries rd \<noteq> [])\<rparr>, ready_ops M s rd)"
  by (cases "rd_entries rd = []"; cases "rd_hs rd")
    (simp_all add: handle_raft_ready_def ps_append_def invoke_context_new_def save_raft_state_to_def
      wb_put_raft_state_def wb_put_msg_def wb_put_def wb_append_ops cut_logs_ops ps_last_index_def last_index_def
      ready_state_def ready_ops_def Let_def)

lemma ready_ops_view:
  "apply_ops (ready_ops M s rd) m =
     (let r = rg_id (ps_region s); es = rd_entries rd;
          m' = (if es = [] then m
                else apply_ops (log_puts M r es @ log_deletes M r (index_range (ent_index (last es) + 1) (ps_last_index s + 1))) m)
      in if ready_state s rd = ps_raft_state s then m'
         else m'(raft_state_key (m_byteorder M) r \<mapsto> rp_local_state_write (m_proto M) (ready_state s rd)))"
  by (simp add: ready_ops_def Let_def)

lemma log_ops_state_key:
  "apply_ops (log_puts M r es @ log_deletes M r is) m (raft_state_key (m_byteorder M) r) =
     m (raft_state_key (m_byteorder M) r)"
  by (intro apply_ops_other) (auto simp: log_puts_def log_deletes_def raft_state_key_neq dest: sym)

lemma peer_mem_last:
  assumes "peer_mem s st ast L"
  shows "rlo_last_index (ps_raft_state s) = rlo_last_index st" "ps_last_index s = rlo_last_index st"
    "hst_term (get_hard_state (ps_raft_state s)) = hst_term (get_hard_state st)"
proof -
  obtain c where "ps_raft_state s = with_commit st c" using assms by (auto simp: peer_mem_def)
  then show "rlo_last_index (ps_raft_state s) = rlo_last_index st" "ps_last_index s = rlo_last_index st"
    "hst_term (get_hard_state (ps_raft_state s)) = hst_term (get_hard_state st)"
    by (simp_all add: ps_last_index_def last_index_def)
qed

lemma ready_disk:
  assumes disk: "peer_disk M view engines (rg_id (ps_region s)) st ast L" and ok: "disk_ok st ast L"
    and mem: "peer_mem s st ast L" and rd: "ready_wf (ps_raft_state s) rd"
  shows "peer_disk M view (engines\<lparr>eng_raft := snd (write_ready M s rd (eng_raft engines))\<rparr>) (rg_id (ps_region s))
    (saved_state s st rd) ast (ready_log L st rd)"
proof -
  let ?r = "rg_id (ps_region s)" and ?es = "rd_entries rd" and ?m = "view (eng_raft engines)"
  let ?log = "if ?es = [] then ?m
    else apply_ops (log_puts M ?r ?es @ log_deletes M ?r (index_range (ent_index (last ?es) + 1) (ps_last_index s + 1))) ?m"
  have lst: "ps_last_index s = rlo_last_index st" "rlo_last_index st < - 1"
    using peer_mem_last [OF mem] ok by (simp_all add: disk_ok_def)
  have log: "raft_log_map M ?log ?r (ready_log L st rd)"
  proof (cases ?es)
    case Nil
    then show ?thesis using disk by (simp add: ready_log_def peer_disk_def)
  next
    case (Cons e es)
    then have idx: "map ent_index ?es = index_range (ent_index e) (ent_index (last ?es) + 1)" "ent_index (last ?es) < - 1"
      using rd by (simp_all add: ready_wf_def ready_last_def)
    show ?thesis
      using log_append_view [OF _ idx(1) _ idx(2) lst(2), of ?m ?r L] Cons disk lst(1)
      by (simp add: ready_log_def peer_disk_def)
  qed
  have view: "view (snd (write_ready M s rd (eng_raft engines))) =
      (if ready_state s rd = ps_raft_state s then ?log
       else ?log(raft_state_key (m_byteorder M) ?r \<mapsto> rp_local_state_write (m_proto M) (ready_state s rd)))"
    by (simp add: write_ready_def handle_raft_ready_eq consume_def write_opt_def view_write ready_ops_view Let_def)
  have "?log (raft_state_key (m_byteorder M) ?r) = Some (rp_local_state_write (m_proto M) st)"
    using disk by (simp add: log_ops_state_key peer_disk_def del: apply_ops_simps)
  moreover have "view (eng_kv engines CF_RAFT) (apply_state_key (m_byteorder M) ?r) = Some (rp_apply_state_write (m_proto M) ast)"
    using disk by (simp add: peer_disk_def)
  ultimately show ?thesis
    using log raft_log_map_state [OF log] by (simp add: peer_disk_def view saved_state_def)
qed

lemma ready_entries:
  assumes "ready_wf st rd" "rd_entries rd \<noteq> []"
  obtains k where "ent_index ` set (rd_entries rd) = {k..ready_last st rd}" "distinct (map ent_index (rd_entries rd))"
    "hs_commit st < k" "k \<le> rlo_last_index st + 1" "k \<le> ready_last st rd" "ready_last st rd < - 1"
proof -
  let ?n = "ready_last st rd"
  obtain e es where cons: "rd_entries rd = e # es" using assms(2) by (cases "rd_entries rd") auto
  have idx: "map ent_index (rd_entries rd) = index_range (ent_index e) (?n + 1)" and n: "?n < - 1"
    and k: "hs_commit st < ent_index e" "ent_index e \<le> rlo_last_index st + 1"
    using assms(1) cons unfolding ready_wf_def by simp_all
  have "i < ?n + 1 \<longleftrightarrow> i \<le> ?n" for i using n by unat_arith
  then have "set (map ent_index (rd_entries rd)) = {ent_index e..?n}"
    unfolding idx index_range_set by (intro set_eqI) (simp only: mem_Collect_eq atLeastAtMost_iff)
  then have set: "ent_index ` set (rd_entries rd) = {ent_index e..?n}" by simp
  have "ent_index e \<in> ent_index ` set (rd_entries rd)" using cons by simp
  then have "ent_index e \<le> ?n" unfolding set by simp
  moreover have "distinct (map ent_index (rd_entries rd))"
    unfolding idx using index_range_sorted strict_sorted_iff by blast
  ultimately show thesis using that set k n by blast
qed

lemma ready_state_simps:
  assumes mem: "peer_mem s st ast L" and ok: "disk_ok st ast L" and rd: "ready_wf (ps_raft_state s) rd"
  shows "rlo_last_index (ready_state s rd) = ready_last (ps_raft_state s) rd"
    and "hs_commit (ps_raft_state s) \<le> hs_commit (ready_state s rd)"
    and "hs_commit (ready_state s rd) \<le> ready_last (ps_raft_state s) rd"
    and "hst_term (get_hard_state st) \<le> hst_term (get_hard_state (ready_state s rd))"
    and "ready_state s rd = with_commit (ready_state s rd) (hs_commit (ready_state s rd))"
proof -
  note last = peer_mem_last [OF mem]
  obtain c where "ps_raft_state s = with_commit st c" using mem unfolding peer_mem_def by blast
  then have hs: "rlo_hard_state (ps_raft_state s) = Some (get_hard_state (ps_raft_state s))"
    by (simp add: with_commit_def get_hard_state_def)
  have commit: "hs_commit (ps_raft_state s) \<le> ready_last (ps_raft_state s) rd"
  proof (cases "rd_entries rd = []")
    case True
    then show ?thesis using mem last by (simp add: ready_last_def peer_mem_def)
  next
    case False
    then show ?thesis by (rule ready_entries [OF rd]) auto
  qed
  have pos: "0 < ready_last (ps_raft_state s) rd"
  proof -
    have "RAFT_INIT_LOG_INDEX \<le> known_commit st ast"
      using ok unfolding disk_ok_def by (meson order_trans)
    also have "\<dots> \<le> ready_last (ps_raft_state s) rd"
      using mem commit unfolding peer_mem_def by (meson order_trans)
    finally show ?thesis by (auto simp: RAFT_INIT_LOG_INDEX_def intro: less_le_trans [of 0 "5::u64"])
  qed
  have eq: "ready_state s rd = (ps_raft_state s)\<lparr>rlo_last_index := ready_last (ps_raft_state s) rd,
    rlo_hard_state := (case rd_hs rd of Some hs \<Rightarrow> Some hs | None \<Rightarrow> rlo_hard_state (ps_raft_state s))\<rparr>"
    using pos by (cases "rd_entries rd = []"; cases "rd_hs rd") (simp_all add: ready_state_def ready_last_def)
  show "rlo_last_index (ready_state s rd) = ready_last (ps_raft_state s) rd" by (simp add: eq)
  show "hs_commit (ps_raft_state s) \<le> hs_commit (ready_state s rd)"
    "hs_commit (ready_state s rd) \<le> ready_last (ps_raft_state s) rd"
    "hst_term (get_hard_state st) \<le> hst_term (get_hard_state (ready_state s rd))"
    using rd commit last by (cases "rd_hs rd"; simp add: eq ready_wf_def get_hard_state_def)+
  show "ready_state s rd = with_commit (ready_state s rd) (hs_commit (ready_state s rd))"
    using hs by (cases "rd_hs rd") (simp_all add: eq with_commit_def get_hard_state_def)
qed

lemma ready_log_simps:
  assumes mem: "peer_mem s st ast L" and ok: "disk_ok st ast L" and rd: "ready_wf (ps_raft_state s) rd"
  shows "i \<le> hs_commit (ps_raft_state s) \<Longrightarrow> ready_log L st rd i = L i"
    and "trunc_idx ast < i \<Longrightarrow> i \<le> ready_last (ps_raft_state s) rd \<Longrightarrow> ready_log L st rd i \<noteq> None"
    and "log_term ast (ready_log L st rd) (ready_last (ps_raft_state s) rd) =
      (if rd_entries rd = [] then ps_last_term s else ent_term (last (rd_entries rd)))"
proof -
  let ?n = "ready_last (ps_raft_state s) rd"
  note last = peer_mem_last [OF mem]
  have here: "L i \<noteq> None" if "trunc_idx ast < i" "i \<le> rlo_last_index st" for i
    using that ok unfolding disk_ok_def by blast
  have "(i \<le> hs_commit (ps_raft_state s) \<longrightarrow> ready_log L st rd i = L i) \<and>
    (trunc_idx ast < i \<and> i \<le> ?n \<longrightarrow> ready_log L st rd i \<noteq> None) \<and>
    log_term ast (ready_log L st rd) ?n = (if rd_entries rd = [] then ps_last_term s else ent_term (last (rd_entries rd)))" for i
  proof (cases "rd_entries rd = []")
    case True
    with mem here last show ?thesis by (simp add: ready_log_def ready_last_def peer_mem_def)
  next
    case False
    let ?es = "rd_entries rd"
    obtain k where k: "ent_index ` set ?es = {k..?n}" "distinct (map ent_index ?es)" "hs_commit (ps_raft_state s) < k"
      "k \<le> rlo_last_index st + 1" "k \<le> ?n" "?n < - 1"
      using ready_entries [OF rd False] last(1) by metis
    have n: "?n = ent_index (last ?es)" using False by (simp add: ready_last_def)
    have new: "\<exists>e \<in> set ?es. ent_index e = i \<and> ready_log L st rd i = Some e" if "k \<le> i" "i \<le> ?n" for i
    proof -
      have "i \<in> ent_index ` set ?es" unfolding k(1) using that by simp
      then obtain e where "e \<in> set ?es" "i = ent_index e" by blast
      then show ?thesis using log_append_new [OF k(2)] False by (auto simp: ready_log_def)
    qed
    have old: "ready_log L st rd i = L i" if "i < k" for i
    proof -
      have "i \<notin> ent_index ` set ?es" unfolding k(1) using that by (meson atLeastAtMost_iff leD)
      moreover have "i \<le> ent_index (last ?es)" using that k(5) n by simp
      ultimately show ?thesis using log_append_old False by (simp add: ready_log_def)
    qed
    have "ready_log L st rd ?n = Some (last ?es)"
      using log_append_new [OF k(2), of "last ?es"] False n by (simp add: ready_log_def)
    moreover have "trunc_idx ast < ?n"
    proof -
      have "trunc_idx ast \<le> hs_commit (ps_raft_state s)"
        using ok mem unfolding disk_ok_def peer_mem_def by (meson order_trans)
      then show ?thesis using k(3,5) by simp
    qed
    ultimately have "log_term ast (ready_log L st rd) ?n = ent_term (last ?es)"
      unfolding log_term_def by (metis less_irrefl option.sel)
    moreover have "ready_log L st rd i = L i" if "i \<le> hs_commit (ps_raft_state s)"
      using that k(3) by (intro old) (rule le_less_trans)
    moreover have "ready_log L st rd i \<noteq> None" if "trunc_idx ast < i" "i \<le> ?n"
    proof (cases "i < k")
      case True
      then have "i \<le> rlo_last_index st" using k(4) by unat_arith
      with here that(1) old [OF True] show ?thesis by simp
    next
      case False
      with new that(2) show ?thesis by (metis not_less option.distinct(1))
    qed
    ultimately show ?thesis using False by simp
  qed
  then show "i \<le> hs_commit (ps_raft_state s) \<Longrightarrow> ready_log L st rd i = L i"
    "trunc_idx ast < i \<Longrightarrow> i \<le> ready_last (ps_raft_state s) rd \<Longrightarrow> ready_log L st rd i \<noteq> None"
    "log_term ast (ready_log L st rd) (ready_last (ps_raft_state s) rd) =
      (if rd_entries rd = [] then ps_last_term s else ent_term (last (rd_entries rd)))"
    by blast+
qed

lemma ready_ok:
  assumes mem: "peer_mem s st ast L" and ok: "disk_ok st ast L" and rd: "ready_wf (ps_raft_state s) rd"
  shows "disk_ok (saved_state s st rd) ast (ready_log L st rd)"
    and "peer_mem (fst (write_ready M s rd raft)) (saved_state s st rd) ast (ready_log L st rd)"
proof -
  let ?st = "saved_state s st rd" and ?L = "ready_log L st rd" and ?n = "ready_last (ps_raft_state s) rd"
  note state = ready_state_simps [OF mem ok rd] and log = ready_log_simps [OF mem ok rd]
  have chain: "RAFT_INIT_LOG_INDEX \<le> trunc_idx ast" "trunc_idx ast \<le> ras_applied_index ast"
    "ras_applied_index ast \<le> known_commit st ast" "known_commit st ast \<le> hs_commit (ps_raft_state s)"
    "trunc_idx ast = RAFT_INIT_LOG_INDEX \<longrightarrow> rts_term (get_truncated_state ast) = RAFT_INIT_LOG_TERM"
    "ras_commit_term ast \<le> hst_term (get_hard_state st)"
    "hs_commit st < ras_commit_index ast \<longrightarrow> (\<exists>e. L (ras_commit_index ast) = Some e \<and> ent_term e = ras_commit_term ast)"
    using mem ok unfolding disk_ok_def peer_mem_def by blast+
  have n: "?n < - 1" using rd by (simp add: ready_wf_def)
  have commit: "ras_commit_index ast \<le> hs_commit (ps_raft_state s)" "hs_commit st \<le> hs_commit (ps_raft_state s)"
    using chain(4) by (simp_all add: known_commit_def)
  have last: "rlo_last_index ?st = ?n"
  proof (cases "ready_state s rd = ps_raft_state s")
    case True
    then have "?n = rlo_last_index st" using state(1) peer_mem_last(1) [OF mem] by simp
    with True show ?thesis by (simp add: saved_state_def)
  qed (simp add: saved_state_def state(1))
  have known: "known_commit st ast \<le> known_commit ?st ast" "known_commit ?st ast \<le> hs_commit (ready_state s rd)"
    using commit state(2) by (auto simp: known_commit_def saved_state_def max_def)
  have "ras_commit_term ast \<le> hst_term (get_hard_state ?st)"
    using chain(6) order_trans [OF chain(6) state(4)] by (simp add: saved_state_def)
  moreover have "\<exists>e. ?L (ras_commit_index ast) = Some e \<and> ent_term e = ras_commit_term ast"
    if "hs_commit ?st < ras_commit_index ast"
  proof -
    have "?st = st" using that commit(1) state(2) by (auto simp: saved_state_def)
    with that chain(7) log(1) [OF commit(1)] show ?thesis by simp
  qed
  ultimately show "disk_ok ?st ast ?L"
    using chain(1,2,5) order_trans [OF chain(3) known(1)] order_trans [OF known(2) state(3)] last n log(2)
    unfolding disk_ok_def by simp
  have mem': "ps_raft_state (fst (write_ready M s rd raft)) = ready_state s rd"
    "ps_last_term (fst (write_ready M s rd raft)) = log_term ast ?L ?n"
    by (simp_all add: write_ready_def handle_raft_ready_eq post_ready_def log(3))
  have "ready_state s rd = with_commit ?st (hs_commit (ready_state s rd))"
  proof (cases "ready_state s rd = ps_raft_state s")
    case True
    with mem show ?thesis by (simp add: saved_state_def peer_mem_def)
  next
    case False
    then show ?thesis using state(5) by (simp add: saved_state_def)
  qed
  with known(2) state(3) last show "peer_mem (fst (write_ready M s rd raft)) ?st ast ?L"
    unfolding peer_mem_def mem' by simp
qed

end

end
