(* ===== verification/Peer.thy ===== *)
theory Peer
  imports Apply Raft_Kv
begin

text \<open>
  \<^verbatim>\<open>dependencies/tiny-mq/src/peer.rs\<close>: proposals, commands, committed entries and log compaction of
  the peer thread. The state \<open>'g\<close> of the raft group belongs to the \<open>raft\<close> package, whose
  functions are the record \<open>raft_api\<close>. Timers, the transport and the messages between peers are not
  modelled.
\<close>

record 'g raft_api =
  rn_propose :: "'g \<Rightarrow> bytes \<Rightarrow> string + 'g"
  rn_last_index :: "'g \<Rightarrow> u64"
  rn_log_term :: "'g \<Rightarrow> u64 \<Rightarrow> u64 option"
  rn_term :: "'g \<Rightarrow> u64"
  rn_is_leader :: "'g \<Rightarrow> bool"
  rn_leader_id :: "'g \<Rightarrow> u64"
  rn_matched :: "'g \<Rightarrow> u64 list"
  rn_skip_bcast_commit :: "'g \<Rightarrow> bool \<Rightarrow> 'g"
  rn_advance_apply_to :: "'g \<Rightarrow> u64 \<Rightarrow> 'g"

section \<open>The proposal queue\<close>

fun pq_pop :: "'r proposal list \<Rightarrow> u64 \<Rightarrow> u64 \<Rightarrow> 'r proposal option \<times> 'r proposal list" where
  "pq_pop [] term index = (None, [])"
| "pq_pop (p # queue) term index =
     (if pos_less (term, index) (prop_term p, prop_index p) then (None, p # queue) else (Some p, queue))"

lemma pq_pop_length: "pq_pop q t i = (Some p, q') \<Longrightarrow> length q' < length q"
  by (cases q) (auto split: if_splits)

function find_proposal ::
    "(mq_error \<Rightarrow> string) \<Rightarrow> u64 \<Rightarrow> u64 \<Rightarrow> u64 \<Rightarrow> 'r proposal list \<Rightarrow>
     (unit, 'r proposal option \<times> 'r list \<times> 'r proposal list) res" where
  "find_proposal fmt term index current_term q =
     (case pq_pop q term index of
        (None, q') \<Rightarrow> Ok (None, [], q')
      | (Some p, q') \<Rightarrow>
          if prop_term p = term
          then if prop_index p = index
               then Ok (if cb_is_none (prop_cb p) then None else Some p, [], q')
               else Panic
          else bind_res (notify_stale_req fmt current_term (prop_cb p)) (\<lambda>rs.
               bind_res (find_proposal fmt term index current_term q') (\<lambda>(r, rs', q''). Ok (r, rs @ rs', q''))))"
  by pat_completeness auto
termination
  by (relation "measure (\<lambda>(_, _, _, _, q). length q)") (auto dest: pq_pop_length [OF sym])

declare find_proposal.simps [simp del]

definition pq_push :: "'r proposal list \<Rightarrow> 'r proposal \<Rightarrow> ('e, 'r proposal list) res" where
  "pq_push q p =
     (if q \<noteq> [] \<and> \<not> pos_less (prop_term (last q), prop_index (last q)) (prop_term p, prop_index p) then Panic
      else Ok (q @ [p]))"

section \<open>The peer\<close>

datatype gc_task = Task_Gc (gt_region_id: u64) (gt_start_idx: u64) (gt_end_idx: u64)

record ('g, 'r) peer_fsm =
  pf_store_id :: u64
  pf_peer :: peer
  pf_store :: peer_storage
  pf_group :: 'g
  pf_proposals :: "'r proposal list"
  pf_last_applying_idx :: u64
  pf_last_compacted_idx :: u64
  pf_last_urgent_proposal_idx :: u64
  pf_peer_cache :: "u64 \<rightharpoonup> peer"
  pf_batch_req_builder :: "'r batch_builder"
  pf_has_ready :: bool
  pf_current_time :: "nat option"
  pf_replies :: "'r list"
  pf_ext_calls :: ext_callback
  pf_apply_router :: "'r apply_msg list"
  pf_gc_scheduler :: "gc_task list"

definition pf_region_id :: "('g, 'r) peer_fsm \<Rightarrow> u64" where
  "pf_region_id f = rg_id (ps_region (pf_store f))"

definition reply_with ::
    "'r callback \<Rightarrow> raft_cmd_response \<Rightarrow> ('g, 'r) peer_fsm \<Rightarrow> (unit, ('g, 'r) peer_fsm) res" where
  "reply_with cb resp f =
     bind_res (invoke_with_response cb resp) (\<lambda>rs. Ok (f\<lparr>pf_replies := pf_replies f @ rs\<rparr>))"

section \<open>Status commands\<close>

definition get_peer_from_cache :: "('g, 'r) peer_fsm \<Rightarrow> u64 \<Rightarrow> peer option \<times> ('g, 'r) peer_fsm" where
  "get_peer_from_cache f peer_id =
     (if peer_id = 0 then (None, f)
      else case pf_peer_cache f peer_id of
             Some peer \<Rightarrow> (Some peer, f)
           | None \<Rightarrow>
               (case List.find (\<lambda>p. pr_id p = peer_id) (rg_peers (ps_region (pf_store f))) of
                  Some peer \<Rightarrow> (Some peer, f\<lparr>pf_peer_cache := (pf_peer_cache f)(peer_id \<mapsto> peer)\<rparr>)
                | None \<Rightarrow> (None, f)))"

definition execute_region_leader ::
    "'g raft_api \<Rightarrow> ('g, 'r) peer_fsm \<Rightarrow> status_response mq_result \<times> ('g, 'r) peer_fsm" where
  "execute_region_leader R f =
     (case get_peer_from_cache f (rn_leader_id R (pf_group f)) of
        (Some leader, f) \<Rightarrow>
          (Ok (default_status_response\<lparr>sts_region_leader := Some \<lparr>rlr_leader = Some leader\<rparr>\<rparr>), f)
      | (None, f) \<Rightarrow> (Ok default_status_response, f))"

definition execute_region_detail ::
    "'g raft_api \<Rightarrow> raft_cmd_request \<Rightarrow> ('g, 'r) peer_fsm \<Rightarrow> status_response mq_result \<times> ('g, 'r) peer_fsm" where
  "execute_region_detail R request f =
     (if \<not> is_region_initialized (ps_region (pf_store f))
      then (Err (RegionNotInitialized (rqh_region_id (get_request_header request))), f)
      else case get_peer_from_cache f (rn_leader_id R (pf_group f)) of (leader, f) \<Rightarrow>
        (Ok (default_status_response\<lparr>sts_region_detail :=
               Some \<lparr>rdr_region = Some (ps_region (pf_store f)), rdr_leader = leader\<rparr>\<rparr>), f))"

definition execute_status_command ::
    "'g raft_api \<Rightarrow> string \<Rightarrow> raft_cmd_request \<Rightarrow> ('g, 'r) peer_fsm \<Rightarrow>
     raft_cmd_response mq_result \<times> ('g, 'r) peer_fsm" where
  "execute_status_command R tag request f =
     (let cmd_type = stq_cmd_type (get_or_default default_status_request (rcq_status_request request))
      in case (case cmd_type of
                 RegionLeader \<Rightarrow> execute_region_leader R f
               | RegionDetail \<Rightarrow> execute_region_detail R request f
               | InvalidStatus \<Rightarrow> (Err (OtherError (tag @ '' invalid status command!'')), f)) of (r, f) \<Rightarrow>
         (bind_res r (\<lambda>response.
            Ok (bind_term (default_raft_cmd_response\<lparr>rcs_status_response := Some (response\<lparr>sts_cmd_type := cmd_type\<rparr>)\<rparr>)
                  (rn_term R (pf_group f)))), f))"

section \<open>Proposing\<close>

datatype request_policy = ReadLocal | StaleRead | ReadIndex | ProposeNormal | ProposeTransferLeader | ProposeConfChange

text \<open>Reads do not occur: no request type of the message queue is a read.\<close>

fun inspect_loop :: "request list \<Rightarrow> bool \<Rightarrow> bool mq_result" where
  "inspect_loop [] has_write = Ok has_write"
| "inspect_loop (r # rs) has_write =
     (case rq_cmd_type r of
        MessageQueue \<Rightarrow> inspect_loop rs True
      | InvalidCmd \<Rightarrow> Panic)"

definition inspect :: "raft_cmd_request \<Rightarrow> request_policy mq_result" where
  "inspect req =
     (if rcq_admin_request req \<noteq> None then Ok ProposeNormal
      else bind_res (inspect_loop (rcq_requests req) False) (\<lambda>has_write.
           if has_write then Ok ProposeNormal else Panic))"

definition is_request_urgent :: "raft_cmd_request \<Rightarrow> bool" where
  "is_request_urgent req = False"

definition has_applied_to_current_term :: "'g raft_api \<Rightarrow> ('g, 'r) peer_fsm \<Rightarrow> bool" where
  "has_applied_to_current_term R f \<longleftrightarrow> ps_applied_index_term (pf_store f) = rn_term R (pf_group f)"

definition next_proposal_index :: "'g raft_api \<Rightarrow> 'g \<Rightarrow> u64" where
  "next_proposal_index R g = rn_last_index R g + 1"

definition get_index_term :: "'g raft_api \<Rightarrow> 'g \<Rightarrow> u64 \<Rightarrow> ('e, u64) res" where
  "get_index_term R g idx = unwrap (rn_log_term R g idx)"

definition propose_normal ::
    "'g raft_api \<Rightarrow> 'db mq_crates \<Rightarrow> raft_cmd_request \<Rightarrow> ('g, 'r) peer_fsm \<Rightarrow> u64 mq_result \<times> ('g, 'r) peer_fsm" where
  "propose_normal R M req f =
     (let data = rp_cmd_request_write (m_proto M) req
      in if 8 * 1024 * 1024 * 1024 < length data
         then (Err (RaftEntryTooLarge (pf_region_id f) (of_nat (length data))), f)
         else let propose_index = next_proposal_index R (pf_group f)
         in case rn_propose R (pf_group f) data of
              Inl e \<Rightarrow> (Err (RaftError e), f)
            | Inr g \<Rightarrow>
                if next_proposal_index R g = propose_index
                then (Err (NotLeader (pf_region_id f) None), f\<lparr>pf_group := g\<rparr>)
                else (Ok propose_index, f\<lparr>pf_group := g\<rparr>))"

definition post_propose :: "nat \<Rightarrow> 'r proposal \<Rightarrow> ('g, 'r) peer_fsm \<Rightarrow> (unit, ('g, 'r) peer_fsm) res" where
  "post_propose now p f =
     (let f = (if pf_current_time f = None then f\<lparr>pf_current_time := Some now\<rparr> else f)
      in bind_res (pq_push (pf_proposals f) (p\<lparr>prop_propose_time := pf_current_time f\<rparr>)) (\<lambda>q.
         Ok (f\<lparr>pf_proposals := q\<rparr>)))"

definition propose ::
    "'g raft_api \<Rightarrow> 'db mq_crates \<Rightarrow> (mq_error \<Rightarrow> string) \<Rightarrow> nat \<Rightarrow> 'r callback \<Rightarrow> raft_cmd_request \<Rightarrow>
     raft_cmd_response \<Rightarrow> ('g, 'r) peer_fsm \<Rightarrow> (unit, bool \<times> ('g, 'r) peer_fsm) res" where
  "propose R M fmt now cb req resp_err f =
     (let is_urgent = is_request_urgent req
      in case (case inspect req of
                 Ok ProposeNormal \<Rightarrow> propose_normal R M req f
               | Ok _ \<Rightarrow> (Panic, f)
               | Err e \<Rightarrow> (Err e, f)
               | Panic \<Rightarrow> (Panic, f)) of
           (Err e, f) \<Rightarrow> bind_res (reply_with cb (bind_error fmt resp_err e) f) (\<lambda>f. Ok (False, f))
         | (Ok idx, f) \<Rightarrow>
             let applied = has_applied_to_current_term R f;
                 (ext, cb) = (if applied then invoke_proposed cb else ([], cb));
                 f = f\<lparr>pf_ext_calls := pf_ext_calls f @ ext\<rparr>;
                 f = (if is_urgent
                      then f\<lparr>pf_last_urgent_proposal_idx := idx,
                             pf_group := rn_skip_bcast_commit R (pf_group f) False\<rparr>
                      else f);
                 p = \<lparr>prop_is_conf_change = False, prop_index = idx, prop_term = rn_term R (pf_group f),
                      prop_cb = cb, prop_propose_time = None, prop_must_pass_epoch_check = applied\<rparr>
             in bind_res (post_propose now p f) (\<lambda>f. Ok (True, f))
         | (Panic, f) \<Rightarrow> Panic)"

text \<open>\<open>tag\<close> is the printed name of the peer. An uninitialised region is unreachable here.\<close>

definition pre_propose_raft_command ::
    "'g raft_api \<Rightarrow> string \<Rightarrow> raft_cmd_request \<Rightarrow> ('g, 'r) peer_fsm \<Rightarrow>
     raft_cmd_response option mq_result \<times> ('g, 'r) peer_fsm" where
  "pre_propose_raft_command R tag msg f =
     (case check_store_id msg (pf_store_id f) of
        Ok _ \<Rightarrow>
          if rcq_status_request msg \<noteq> None
          then (case execute_status_command R tag msg f of (r, f) \<Rightarrow> (bind_res r (\<lambda>resp. Ok (Some resp)), f))
          else (bind_res (check_peer_id msg (pr_id (pf_peer f))) (\<lambda>_.
                if \<not> is_region_initialized (ps_region (pf_store f)) then Panic
                else bind_res (check_term msg (rn_term R (pf_group f))) (\<lambda>_. Ok None)), f)
      | Err e \<Rightarrow> (Err e, f)
      | Panic \<Rightarrow> (Panic, f))"

definition propose_raft_command ::
    "'g raft_api \<Rightarrow> 'db mq_crates \<Rightarrow> (mq_error \<Rightarrow> string) \<Rightarrow> string \<Rightarrow> nat \<Rightarrow> raft_cmd_request \<Rightarrow> 'r callback \<Rightarrow>
     ('g, 'r) peer_fsm \<Rightarrow> (unit, ('g, 'r) peer_fsm) res" where
  "propose_raft_command R M fmt tag now msg cb f =
     (case pre_propose_raft_command R tag msg f of
        (Ok (Some resp), f) \<Rightarrow> reply_with cb resp f
      | (Err e, f) \<Rightarrow> reply_with cb (new_error fmt e) f
      | (Panic, f) \<Rightarrow> Panic
      | (Ok None, f) \<Rightarrow>
          let resp = bind_term default_raft_cmd_response (rn_term R (pf_group f))
          in bind_res (propose R M fmt now cb msg resp f) (\<lambda>(proposed, f).
             Ok (if proposed then f\<lparr>pf_has_ready := True\<rparr> else f)))"

definition propose_batch_raft_command ::
    "'g raft_api \<Rightarrow> 'db mq_crates \<Rightarrow> (mq_error \<Rightarrow> string) \<Rightarrow> string \<Rightarrow> nat \<Rightarrow> ('g, 'r) peer_fsm \<Rightarrow>
     (unit, ('g, 'r) peer_fsm) res" where
  "propose_batch_raft_command R M fmt tag now f =
     (case builder_build (pf_batch_req_builder f) of (cmd, b) \<Rightarrow>
        let f = f\<lparr>pf_batch_req_builder := b\<rparr>
        in case cmd of
             Some cmd \<Rightarrow> propose_raft_command R M fmt tag now (rc_request cmd) (rc_callback cmd) f
           | None \<Rightarrow> Ok f)"

text \<open>A command of \<open>handle_msgs\<close>. \<open>compute_size\<close> of a message is the length of its encoding.\<close>

definition handle_raft_command ::
    "'g raft_api \<Rightarrow> 'db mq_crates \<Rightarrow> (mq_error \<Rightarrow> string) \<Rightarrow> string \<Rightarrow> nat \<Rightarrow> 'r raft_command \<Rightarrow>
     ('g, 'r) peer_fsm \<Rightarrow> (unit, ('g, 'r) peer_fsm) res" where
  "handle_raft_command R M fmt tag now cmd f =
     (let req_size = of_nat (length (rp_cmd_request_write (m_proto M) (rc_request cmd)))
      in if can_batch (pf_batch_req_builder f) (rc_request cmd) req_size
         then let f = f\<lparr>pf_batch_req_builder := builder_add (pf_batch_req_builder f) cmd req_size\<rparr>
              in if should_finish (pf_batch_req_builder f) then propose_batch_raft_command R M fmt tag now f
                 else Ok f
         else bind_res (propose_batch_raft_command R M fmt tag now f) (\<lambda>f.
              propose_raft_command R M fmt tag now (rc_request cmd) (rc_callback cmd) f))"

section \<open>Committed entries\<close>

fun find_proposals ::
    "(mq_error \<Rightarrow> string) \<Rightarrow> u64 \<Rightarrow> entry list \<Rightarrow> 'r proposal list \<Rightarrow>
     (unit, 'r proposal list \<times> ext_callback \<times> 'r list \<times> 'r proposal list) res" where
  "find_proposals fmt current_term [] q = Ok ([], [], [], q)"
| "find_proposals fmt current_term (e # es) q =
     bind_res (find_proposal fmt (ent_term e) (ent_index e) current_term q) (\<lambda>(p, rs, q).
     let (ps, ext) = (case p of
            None \<Rightarrow> ([], [])
          | Some p \<Rightarrow>
              if prop_must_pass_epoch_check p
              then (let (ext, cb) = invoke_committed (prop_cb p) in ([p\<lparr>prop_cb := cb\<rparr>], ext))
              else ([p], []))
     in bind_res (find_proposals fmt current_term es q) (\<lambda>(ps', ext', rs', q).
        Ok (ps @ ps', ext @ ext', rs @ rs', q)))"

definition peer_handle_committed_entries ::
    "'g raft_api \<Rightarrow> (mq_error \<Rightarrow> string) \<Rightarrow> nat \<Rightarrow> entry list \<Rightarrow> ('g, 'r) peer_fsm \<Rightarrow>
     (unit, ('g, 'r) peer_fsm) res" where
  "peer_handle_committed_entries R fmt now committed_entries f =
     (if committed_entries = [] then Ok f
      else let last_idx = ent_index (last committed_entries);
               f = f\<lparr>pf_current_time := Some now, pf_last_applying_idx := last_idx\<rparr>;
               f = (if pf_last_urgent_proposal_idx f \<le> last_idx
                    then f\<lparr>pf_group := rn_skip_bcast_commit R (pf_group f) True, pf_last_urgent_proposal_idx := - 1\<rparr>
                    else f);
               term = rn_term R (pf_group f)
      in bind_res (if pf_proposals f \<noteq> [] then find_proposals fmt term committed_entries (pf_proposals f)
                   else Ok ([], [], [], [])) (\<lambda>(cbs, ext, rs, q).
         let f = f\<lparr>pf_proposals := q, pf_ext_calls := pf_ext_calls f @ ext, pf_replies := pf_replies f @ rs\<rparr>
         in bind_res (apply_task_new (pr_id (pf_peer f)) (pf_region_id f) term committed_entries cbs) (\<lambda>task.
            Ok (f\<lparr>pf_apply_router := pf_apply_router f @ [Msg_Apply task]\<rparr>))))"

section \<open>Results of the apply thread\<close>

definition on_ready_compact_log :: "raft_truncated_state \<Rightarrow> ('g, 'r) peer_fsm \<Rightarrow> ('g, 'r) peer_fsm" where
  "on_ready_compact_log state f =
     (let compact_to = rts_index state + 1;
          task = Task_Gc (pf_region_id f) (pf_last_compacted_idx f) compact_to
      in f\<lparr>pf_last_compacted_idx := compact_to, pf_gc_scheduler := pf_gc_scheduler f @ [task]\<rparr>)"

fun on_ready_result :: "exec_result list \<Rightarrow> ('g, 'r) peer_fsm \<Rightarrow> ('g, 'r) peer_fsm" where
  "on_ready_result [] f = f"
| "on_ready_result (Exec_CompactLog state first_idx # results) f =
     on_ready_result results (on_ready_compact_log state f)"

definition post_apply ::
    "'g raft_api \<Rightarrow> raft_apply_state \<Rightarrow> u64 \<Rightarrow> ('g, 'r) peer_fsm \<Rightarrow> bool \<times> ('g, 'r) peer_fsm" where
  "post_apply R apply_state applied_index_term f =
     (False,
      f\<lparr>pf_group := rn_advance_apply_to R (pf_group f) (ras_applied_index apply_state),
        pf_store := (pf_store f)\<lparr>ps_apply_state := apply_state, ps_applied_index_term := applied_index_term\<rparr>\<rparr>)"

definition on_apply_res :: "'g raft_api \<Rightarrow> apply_res \<Rightarrow> ('g, 'r) peer_fsm \<Rightarrow> ('g, 'r) peer_fsm" where
  "on_apply_res R res f =
     (case post_apply R (ar_apply_state res) (ar_applied_index_term res) (on_ready_result (ar_exec_res res) f) of
        (ready, f) \<Rightarrow> f\<lparr>pf_has_ready := pf_has_ready f \<or> ready\<rparr>)"

section \<open>Log compaction\<close>

definition new_admin_request :: "u64 \<Rightarrow> peer \<Rightarrow> raft_cmd_request" where
  "new_admin_request region_id peer =
     default_raft_cmd_request\<lparr>rcq_header :=
       Some (default_raft_request_header\<lparr>rqh_region_id := region_id, rqh_peer := Some peer\<rparr>)\<rparr>"

definition new_compact_log_request :: "u64 \<Rightarrow> peer \<Rightarrow> u64 \<Rightarrow> u64 \<Rightarrow> raft_cmd_request" where
  "new_compact_log_request region_id peer compact_index compact_term =
     (new_admin_request region_id peer)\<lparr>rcq_admin_request :=
       Some \<lparr>adq_cmd_type = CompactLog,
             adq_compact_log = Some \<lparr>clr_compact_index = compact_index, clr_compact_term = compact_term\<rparr>\<rparr>\<rparr>"

text \<open>The index up to which a tick of the leader compacts the log, if it does. The setting
  \<open>raft_log_gc_count_limit\<close> is read from the environment.\<close>

definition replicated_index :: "u64 \<Rightarrow> u64 list \<Rightarrow> u64" where
  "replicated_index last_idx matched = foldl (\<lambda>r m. if m < r then m else r) last_idx matched"

definition gc_tick_compact_index ::
    "'g raft_api \<Rightarrow> string option \<Rightarrow> ('g, 'r) peer_fsm \<Rightarrow> ('e, u64 option) res" where
  "gc_tick_compact_index R env f =
     (if \<not> rn_is_leader R (pf_group f) then Ok None
      else let last_idx = ps_last_index (pf_store f);
               replicated_idx = replicated_index last_idx (rn_matched R (pf_group f));
               first_idx = ps_first_index (pf_store f)
      in if 0 < replicated_idx \<and> \<not> replicated_idx \<le> last_idx then Panic
         else if replicated_idx < first_idx then Ok None
         else bind_res (unwrap (parse_u64 (get_or_default ''50000000'' env))) (\<lambda>raft_log_gc_count_limit.
              if replicated_idx - first_idx < raft_log_gc_count_limit then Ok None
              else Ok (Some (first_idx + raft_log_gc_count_limit div 10))))"

definition on_raft_gc_log_tick ::
    "'g raft_api \<Rightarrow> 'db mq_crates \<Rightarrow> (mq_error \<Rightarrow> string) \<Rightarrow> string \<Rightarrow> string option \<Rightarrow> nat \<Rightarrow>
     ('g, 'r) peer_fsm \<Rightarrow> (unit, ('g, 'r) peer_fsm) res" where
  "on_raft_gc_log_tick R M fmt tag env now f =
     bind_res (gc_tick_compact_index R env f) (\<lambda>c.
     case c of
       None \<Rightarrow> Ok f
     | Some compact_idx \<Rightarrow>
         bind_res (get_index_term R (pf_group f) compact_idx) (\<lambda>term.
         propose_raft_command R M fmt tag now
           (new_compact_log_request (pf_region_id f) (pf_peer f) compact_idx term) Cb_None f))"

end
