(* ===== verification/Raft_Loop.thy ===== *)
theory Raft_Loop
  imports Peer
begin

text \<open>
  The loop of the peer thread: \<^verbatim>\<open>dependencies/tiny-mq/src/peer.rs\<close> from the messages of a peer to its
  readies, and the poller of \<^verbatim>\<open>dependencies/tiny-mq/src/store.rs\<close>. The raft group is a value of type
  \<open>'g\<close>; what it does is the record \<open>raft_node\<close>. Fields that are written and never read
  (\<open>peer_heartbeats\<close>, \<open>leader_missing_time\<close>, \<open>missing_ticks\<close> and the counters of the poll context)
  are left out, and so is \<open>leader_unreachable\<close>, which is never set.
\<close>

section \<open>Raft messages\<close>

datatype message_type =
    MsgHup | MsgBeat | MsgPropose | MsgAppend | MsgAppendResponse | MsgRequestVote | MsgRequestVoteResponse
  | MsgSnapshot | MsgHeartbeat | MsgHeartbeatResponse | MsgUnreachable | MsgSnapStatus | MsgCheckQuorum
  | MsgTransferLeader | MsgTimeoutNow | MsgReadIndex | MsgReadIndexResp | MsgRequestPreVote | MsgRequestPreVoteResponse

record snapshot_metadata =
  smd_conf_state :: "conf_state option"
  smd_index :: u64
  smd_term :: u64

record snapshot =
  snp_data :: bytes
  snp_metadata :: "snapshot_metadata option"

record message =
  msg_msg_type :: message_type
  msg_to :: u64
  msg_from :: u64
  msg_term :: u64
  msg_log_term :: u64
  msg_index :: u64
  msg_entries :: "entry list"
  msg_commit :: u64
  msg_snapshot :: "snapshot option"
  msg_request_snapshot :: u64
  msg_reject :: bool
  msg_reject_hint :: u64
  msg_context :: bytes
  msg_priority :: u64

record raft_message =
  rm_region_id :: u64
  rm_from_peer :: "peer option"
  rm_to_peer :: "peer option"
  rm_message :: "message option"

definition default_message :: message where
  "default_message =
     \<lparr>msg_msg_type = MsgHup, msg_to = 0, msg_from = 0, msg_term = 0, msg_log_term = 0, msg_index = 0, msg_entries = [],
      msg_commit = 0, msg_snapshot = None, msg_request_snapshot = 0, msg_reject = False, msg_reject_hint = 0,
      msg_context = [], msg_priority = 0\<rparr>"

section \<open>The raft package\<close>

datatype state_role = Follower | Candidate | Leader | PreCandidate

record soft_state =
  ss_leader_id :: u64
  ss_raft_state :: state_role

text \<open>A \<open>Ready\<close> and the \<open>LightReady\<close> that follows it. The part that the peer storage handles is \<open>rr_ready\<close>.\<close>

record raft_ready =
  rr_number :: u64
  rr_must_sync :: bool
  rr_ss :: "soft_state option"
  rr_ready :: ready
  rr_snapshot_is_empty :: bool
  rr_messages :: "message list"
  rr_committed_entries :: "entry list"
  rr_persisted_messages :: "message list"

record light_ready =
  lr_commit_index :: "u64 option"
  lr_messages :: "message list"
  lr_committed_entries :: "entry list"

record 'g raft_node =
  rw_api :: "'g raft_api"
  rw_new :: "u64 \<Rightarrow> u64 \<Rightarrow> peer_storage \<Rightarrow> string + 'g"
  rw_campaign :: "'g \<Rightarrow> string + 'g"
  rw_tick :: "'g \<Rightarrow> bool \<times> 'g"
  rw_step :: "'g \<Rightarrow> message \<Rightarrow> string option \<times> 'g"
  rw_ready :: "'g \<Rightarrow> raft_ready \<times> 'g"
  rw_advance_append :: "'g \<Rightarrow> raft_ready \<Rightarrow> light_ready \<times> 'g"

section \<open>The state of the loop\<close>

datatype peer_tick = RAFT | RAFT_LOG_GC

text \<open>The peer with its poll context. \<open>po_timers\<close> are the ticks given to the timer, \<open>po_trans\<close> the
  messages given to the transport.\<close>

record ('db, 'g, 'r) raft_poller =
  po_fsm :: "('g, 'r) peer_fsm"
  po_tick_registry :: "peer_tick set"
  po_tick_batch :: "peer_tick list"
  po_timers :: "peer_tick list"
  po_last_unpersisted_number :: u64
  po_raft_wb :: write_batch
  po_has_ready :: bool
  po_ready_res :: "(invoke_context \<times> raft_ready) list"
  po_trans :: "raft_message list"
  po_engines :: "'db engines"

definition map_fsm :: "(('g, 'r) peer_fsm \<Rightarrow> ('g, 'r) peer_fsm) \<Rightarrow> ('db, 'g, 'r) raft_poller \<Rightarrow> ('db, 'g, 'r) raft_poller" where
  "map_fsm upd p = p\<lparr>po_fsm := upd (po_fsm p)\<rparr>"

section \<open>Ticks\<close>

definition schedule_tick :: "peer_tick \<Rightarrow> ('db, 'g, 'r) raft_poller \<Rightarrow> ('db, 'g, 'r) raft_poller" where
  "schedule_tick tick p =
     (if tick \<in> po_tick_registry p then p
      else p\<lparr>po_tick_registry := insert tick (po_tick_registry p), po_tick_batch := po_tick_batch p @ [tick]\<rparr>)"

definition get_all_ticks :: "peer_tick list" where
  "get_all_ticks = [RAFT, RAFT_LOG_GC]"

definition flush_ticks :: "('db, 'g, 'r) raft_poller \<Rightarrow> ('db, 'g, 'r) raft_poller" where
  "flush_ticks p =
     fold (\<lambda>t p. p\<lparr>po_timers := po_timers p @ filter (\<lambda>x. x = t) (po_tick_batch p),
                     po_tick_batch := filter (\<lambda>x. x \<noteq> t) (po_tick_batch p)\<rparr>) get_all_ticks p"

definition on_raft_base_tick :: "'g raft_node \<Rightarrow> ('db, 'g, 'r) raft_poller \<Rightarrow> ('db, 'g, 'r) raft_poller" where
  "on_raft_base_tick R p =
     (case rw_tick R (pf_group (po_fsm p)) of (b, g) \<Rightarrow>
        let p = map_fsm (\<lambda>f. f\<lparr>pf_group := g, pf_has_ready := pf_has_ready f \<or> b\<rparr>) p
        in schedule_tick RAFT p)"

section \<open>Sending and receiving\<close>

definition send_raft_message :: "message \<Rightarrow> ('db, 'g, 'r) raft_poller \<Rightarrow> bool \<times> ('db, 'g, 'r) raft_poller" where
  "send_raft_message msg p =
     (case get_peer_from_cache (po_fsm p) (msg_to msg) of
        (None, f) \<Rightarrow> (False, p\<lparr>po_fsm := f\<rparr>)
      | (Some to_peer, f) \<Rightarrow>
          (True, p\<lparr>po_fsm := f,
                   po_trans := po_trans p @ [\<lparr>rm_region_id = pf_region_id f, rm_from_peer = Some (pf_peer f),
                     rm_to_peer = Some to_peer, rm_message = Some msg\<rparr>]\<rparr>))"

definition send_messages :: "message list \<Rightarrow> ('db, 'g, 'r) raft_poller \<Rightarrow> ('db, 'g, 'r) raft_poller" where
  "send_messages msgs p = fold (\<lambda>m p. snd (send_raft_message m p)) msgs p"

definition validate_raft_msg :: "raft_message \<Rightarrow> ('db, 'g, 'r) raft_poller \<Rightarrow> bool" where
  "validate_raft_msg msg p \<longleftrightarrow>
     pr_store_id (get_or_default default_peer (rm_to_peer msg)) = pf_store_id (po_fsm p)"

definition peer_step :: "'g raft_node \<Rightarrow> message \<Rightarrow> ('g, 'r) peer_fsm \<Rightarrow> (unit, string option \<times> ('g, 'r) peer_fsm) res" where
  "peer_step R m f =
     (if msg_msg_type m = MsgReadIndex \<or> msg_msg_type m = MsgTransferLeader then Panic
      else case rw_step R (pf_group f) m of (r, g) \<Rightarrow> Ok (r, f\<lparr>pf_group := g\<rparr>))"

definition on_raft_message ::
    "'g raft_node \<Rightarrow> raft_message \<Rightarrow> ('db, 'g, 'r) raft_poller \<Rightarrow> (unit, ('db, 'g, 'r) raft_poller) res" where
  "on_raft_message R msg p =
     (if \<not> validate_raft_msg msg p then Ok p
      else let from_peer = get_or_default default_peer (rm_from_peer msg);
               f = (po_fsm p)\<lparr>pf_peer_cache := (pf_peer_cache (po_fsm p))(pr_id from_peer \<mapsto> from_peer)\<rparr>
      in bind_res (peer_step R (get_or_default default_message (rm_message msg)) f) (\<lambda>(r, f).
         Ok (p\<lparr>po_fsm := (case r of Some _ \<Rightarrow> f | None \<Rightarrow> f\<lparr>pf_has_ready := True\<rparr>)\<rparr>)))"

section \<open>Readies\<close>

definition on_role_changed :: "'g raft_node \<Rightarrow> raft_ready \<Rightarrow> ('g, 'r) peer_fsm \<Rightarrow> ('g, 'r) peer_fsm" where
  "on_role_changed R rd f =
     (case rr_ss rd of
        Some ss \<Rightarrow>
          if ss_raft_state ss = Leader
          then f\<lparr>pf_last_urgent_proposal_idx := rn_last_index (rw_api R) (pf_group f),
                 pf_group := rn_skip_bcast_commit (rw_api R) (pf_group f) False\<rparr>
          else f
      | None \<Rightarrow> f)"

definition hard_state_of :: "('g, 'r) peer_fsm \<Rightarrow> hard_state" where
  "hard_state_of f = get_hard_state (ps_raft_state (pf_store f))"

text \<open>The assertions on a ready that need not be synced, and on the commit index.\<close>

definition ready_asserts :: "raft_ready \<Rightarrow> ('g, 'r) peer_fsm \<Rightarrow> bool" where
  "ready_asserts rd f \<longleftrightarrow>
     (rr_must_sync rd \<or>
        (case rd_hs (rr_ready rd) of
           Some hs \<Rightarrow> hst_term hs = hst_term (hard_state_of f) \<and> hst_vote hs = hst_vote (hard_state_of f)
         | None \<Rightarrow> True) \<and> rd_entries (rr_ready rd) = [] \<and> rr_snapshot_is_empty rd) \<and>
     (case rd_hs (rr_ready rd) of Some hs \<Rightarrow> ps_commit_index (pf_store f) \<le> hst_commit hs | None \<Rightarrow> True)"

definition handle_raft_ready_append ::
    "'g raft_node \<Rightarrow> 'db mq_crates \<Rightarrow> (mq_error \<Rightarrow> string) \<Rightarrow> nat \<Rightarrow> ('db, 'g, 'r) raft_poller \<Rightarrow>
     (unit, (invoke_context \<times> raft_ready) \<times> ('db, 'g, 'r) raft_poller) res" where
  "handle_raft_ready_append R M fmt now p =
     (case rw_ready R (pf_group (po_fsm p)) of (rd, g) \<Rightarrow>
        let p = map_fsm (\<lambda>f. f\<lparr>pf_group := g\<rparr>) p\<lparr>po_last_unpersisted_number := rr_number rd\<rparr>
        in if \<not> ready_asserts rd (po_fsm p) then Panic
           else let p = send_messages (rr_messages rd) (map_fsm (on_role_changed R rd) p)
           in bind_res (peer_handle_committed_entries (rw_api R) fmt now (rr_committed_entries rd) (po_fsm p)) (\<lambda>f.
              case handle_raft_ready M (pf_store f) (rr_ready rd) (po_raft_wb p) of (invoke_ctx, raft_wb) \<Rightarrow>
                Ok ((invoke_ctx, rd\<lparr>rr_messages := [], rr_committed_entries := []\<rparr>),
                    p\<lparr>po_fsm := f, po_raft_wb := raft_wb\<rparr>)))"

definition collect_ready ::
    "'g raft_node \<Rightarrow> 'db mq_crates \<Rightarrow> (mq_error \<Rightarrow> string) \<Rightarrow> nat \<Rightarrow> ('db, 'g, 'r) raft_poller \<Rightarrow>
     (unit, ('db, 'g, 'r) raft_poller) res" where
  "collect_ready R M fmt now p =
     (if \<not> pf_has_ready (po_fsm p) then Ok p
      else let p = map_fsm (\<lambda>f. f\<lparr>pf_has_ready := False\<rparr>) p\<lparr>po_has_ready := True\<rparr>
      in bind_res (handle_raft_ready_append R M fmt now p) (\<lambda>((ctx, rd), p).
         let p = (if ic_has_new_entries ctx then schedule_tick RAFT_LOG_GC p else p)
         in Ok (p\<lparr>po_ready_res := po_ready_res p @ [(ctx, rd)]\<rparr>)))"

definition handle_raft_ready_advance ::
    "'g raft_node \<Rightarrow> (mq_error \<Rightarrow> string) \<Rightarrow> nat \<Rightarrow> raft_ready \<Rightarrow> ('db, 'g, 'r) raft_poller \<Rightarrow>
     (unit, ('db, 'g, 'r) raft_poller) res" where
  "handle_raft_ready_advance R fmt now rd p =
     (if rr_number rd \<noteq> po_last_unpersisted_number p \<or> \<not> rr_snapshot_is_empty rd then Panic
      else case rw_advance_append R (pf_group (po_fsm p)) rd of (light_rd, g) \<Rightarrow>
        let f = (po_fsm p)\<lparr>pf_group := g\<rparr>
        in bind_res (case lr_commit_index light_rd of
                       Some commit_index \<Rightarrow>
                         if commit_index < ps_commit_index (pf_store f) then Panic
                         else bind_res (set_commit_index (pf_store f) commit_index) (\<lambda>store. Ok (f\<lparr>pf_store := store\<rparr>))
                     | None \<Rightarrow> Ok f) (\<lambda>f.
           let p = send_messages (lr_messages light_rd) (p\<lparr>po_fsm := f\<rparr>)
           in bind_res (peer_handle_committed_entries (rw_api R) fmt now (lr_committed_entries light_rd) (po_fsm p))
                (\<lambda>f. Ok (p\<lparr>po_fsm := f\<rparr>))))"

definition post_raft_ready_append ::
    "'g raft_node \<Rightarrow> (mq_error \<Rightarrow> string) \<Rightarrow> nat \<Rightarrow> invoke_context \<times> raft_ready \<Rightarrow> ('db, 'g, 'r) raft_poller \<Rightarrow>
     (unit, ('db, 'g, 'r) raft_poller) res" where
  "post_raft_ready_append R fmt now r p =
     (case r of (ctx, rd) \<Rightarrow>
        if ic_region_id ctx \<noteq> pf_region_id (po_fsm p) then Panic
        else let p = map_fsm (\<lambda>f. f\<lparr>pf_store := post_ready (pf_store f) ctx\<rparr>) p;
                 p = send_messages (rr_persisted_messages rd) p
             in handle_raft_ready_advance R fmt now (rd\<lparr>rr_persisted_messages := []\<rparr>) p)"

fun post_readies ::
    "'g raft_node \<Rightarrow> (mq_error \<Rightarrow> string) \<Rightarrow> nat \<Rightarrow> (invoke_context \<times> raft_ready) list \<Rightarrow> ('db, 'g, 'r) raft_poller \<Rightarrow>
     (unit, ('db, 'g, 'r) raft_poller) res" where
  "post_readies R fmt now [] p = Ok p"
| "post_readies R fmt now (r # rs) p =
     bind_res (post_raft_ready_append R fmt now r p) (\<lambda>p. post_readies R fmt now rs p)"

text \<open>The batch for the kv engine is never filled, and flushing the transport is up to it.\<close>

definition poller_handle_raft_ready ::
    "'g raft_node \<Rightarrow> 'db mq_crates \<Rightarrow> (mq_error \<Rightarrow> string) \<Rightarrow> nat \<Rightarrow> ('db, 'g, 'r) raft_poller \<Rightarrow>
     (unit, ('db, 'g, 'r) raft_poller) res" where
  "poller_handle_raft_ready R M fmt now p =
     (let p = (if \<not> wb_is_empty (po_raft_wb p)
               then (case consume (m_rocksdb M) (eng_raft (po_engines p)) (po_raft_wb p) of (raft, wb) \<Rightarrow>
                       p\<lparr>po_engines := (po_engines p)\<lparr>eng_raft := raft\<rparr>, po_raft_wb := wb\<rparr>)
               else p)
      in post_readies R fmt now (po_ready_res p) (p\<lparr>po_ready_res := []\<rparr>))"

section \<open>Messages\<close>

definition on_start :: "'g raft_node \<Rightarrow> ('db, 'g, 'r) raft_poller \<Rightarrow> ('db, 'g, 'r) raft_poller" where
  "on_start R p =
     (let p = schedule_tick RAFT_LOG_GC (schedule_tick RAFT p);
          store = pf_store (po_fsm p)
      in if ras_applied_index (ps_apply_state store) < ps_commit_index store \<or> rn_is_leader (rw_api R) (pf_group (po_fsm p))
         then map_fsm (\<lambda>f. f\<lparr>pf_has_ready := True\<rparr>) p else p)"

definition on_tick ::
    "'g raft_node \<Rightarrow> 'db mq_crates \<Rightarrow> (mq_error \<Rightarrow> string) \<Rightarrow> string \<Rightarrow> string option \<Rightarrow> nat \<Rightarrow> peer_tick \<Rightarrow>
     ('db, 'g, 'r) raft_poller \<Rightarrow> (unit, ('db, 'g, 'r) raft_poller) res" where
  "on_tick R M fmt tag env now tick p =
     (let p = p\<lparr>po_tick_registry := po_tick_registry p - {tick}\<rparr>
      in case tick of
           RAFT \<Rightarrow> Ok (on_raft_base_tick R p)
         | RAFT_LOG_GC \<Rightarrow>
             let p = schedule_tick RAFT_LOG_GC p
             in bind_res (on_raft_gc_log_tick (rw_api R) M fmt tag env now (po_fsm p)) (\<lambda>f. Ok (p\<lparr>po_fsm := f\<rparr>)))"

datatype 'r peer_msg =
    PeerMsg_RaftMessage raft_message
  | PeerMsg_RaftCommand "'r raft_command"
  | PeerMsg_Tick peer_tick
  | PeerMsg_ApplyRes apply_res
  | PeerMsg_Start

fun handle_msg ::
    "'g raft_node \<Rightarrow> 'db mq_crates \<Rightarrow> (mq_error \<Rightarrow> string) \<Rightarrow> string \<Rightarrow> string option \<Rightarrow> nat \<Rightarrow> 'r peer_msg \<Rightarrow>
     ('db, 'g, 'r) raft_poller \<Rightarrow> (unit, ('db, 'g, 'r) raft_poller) res" where
  "handle_msg R M fmt tag env now (PeerMsg_RaftMessage msg) p = on_raft_message R msg p"
| "handle_msg R M fmt tag env now (PeerMsg_RaftCommand cmd) p =
     bind_res (handle_raft_command (rw_api R) M fmt tag now cmd (po_fsm p)) (\<lambda>f. Ok (p\<lparr>po_fsm := f\<rparr>))"
| "handle_msg R M fmt tag env now (PeerMsg_Tick tick) p = on_tick R M fmt tag env now tick p"
| "handle_msg R M fmt tag env now (PeerMsg_ApplyRes res) p = Ok (map_fsm (on_apply_res (rw_api R) res) p)"
| "handle_msg R M fmt tag env now PeerMsg_Start p = Ok (on_start R p)"

fun handle_msgs ::
    "'g raft_node \<Rightarrow> 'db mq_crates \<Rightarrow> (mq_error \<Rightarrow> string) \<Rightarrow> string \<Rightarrow> string option \<Rightarrow> nat \<Rightarrow> 'r peer_msg list \<Rightarrow>
     ('db, 'g, 'r) raft_poller \<Rightarrow> (unit, ('db, 'g, 'r) raft_poller) res" where
  "handle_msgs R M fmt tag env now [] p =
     bind_res (propose_batch_raft_command (rw_api R) M fmt tag now (po_fsm p)) (\<lambda>f. Ok (p\<lparr>po_fsm := f\<rparr>))"
| "handle_msgs R M fmt tag env now (m # msgs) p =
     bind_res (handle_msg R M fmt tag env now m p) (\<lambda>p. handle_msgs R M fmt tag env now msgs p)"

section \<open>A round of the poller\<close>

definition poller_begin :: "('db, 'g, 'r) raft_poller \<Rightarrow> ('db, 'g, 'r) raft_poller" where
  "poller_begin p = p\<lparr>po_has_ready := False\<rparr>"

definition poller_handle_normal ::
    "'g raft_node \<Rightarrow> 'db mq_crates \<Rightarrow> (mq_error \<Rightarrow> string) \<Rightarrow> string \<Rightarrow> string option \<Rightarrow> nat \<Rightarrow> 'r peer_msg list \<Rightarrow>
     ('db, 'g, 'r) raft_poller \<Rightarrow> (unit, ('db, 'g, 'r) raft_poller) res" where
  "poller_handle_normal R M fmt tag env now msgs p =
     bind_res (handle_msgs R M fmt tag env now (take messages_per_tick msgs) p) (\<lambda>p. collect_ready R M fmt now p)"

definition poller_end ::
    "'g raft_node \<Rightarrow> 'db mq_crates \<Rightarrow> (mq_error \<Rightarrow> string) \<Rightarrow> nat \<Rightarrow> ('db, 'g, 'r) raft_poller \<Rightarrow>
     (unit, ('db, 'g, 'r) raft_poller) res" where
  "poller_end R M fmt now p =
     (let p = flush_ticks p
      in bind_res (if po_has_ready p then poller_handle_raft_ready R M fmt now p else Ok p) (\<lambda>p.
         Ok (map_fsm (\<lambda>f. f\<lparr>pf_current_time := None\<rparr>) p)))"

definition raft_poll ::
    "'g raft_node \<Rightarrow> 'db mq_crates \<Rightarrow> (mq_error \<Rightarrow> string) \<Rightarrow> string \<Rightarrow> string option \<Rightarrow> nat \<Rightarrow> 'r peer_msg list \<Rightarrow>
     ('db, 'g, 'r) raft_poller \<Rightarrow> (unit, 'r peer_msg list \<times> ('db, 'g, 'r) raft_poller) res" where
  "raft_poll R M fmt tag env now msgs p =
     bind_res (poller_handle_normal R M fmt tag env now msgs (poller_begin p)) (\<lambda>p.
     bind_res (poller_end R M fmt now p) (\<lambda>p. Ok (drop messages_per_tick msgs, p)))"

section \<open>Starting a peer\<close>

definition max_u64 :: u64 where "max_u64 = - 1"

text \<open>\<open>Peer::new\<close> and \<open>PeerFsm::create\<close>: a peer that is alone in its region campaigns at once.\<close>

definition peer_new ::
    "'g raft_node \<Rightarrow> 'db mq_crates \<Rightarrow> u64 \<Rightarrow> 'db engines \<Rightarrow> region \<Rightarrow> peer \<Rightarrow> ('g, 'r) peer_fsm mq_result" where
  "peer_new R M store_id engines region peer =
     (if pr_id peer = 0 then Err (OtherError ''invalid peer id'')
      else bind_res (ps_new M engines region (pr_id peer)) (\<lambda>ps.
        case rw_new R (pr_id peer) (ras_applied_index (ps_apply_state ps)) ps of
          Inl e \<Rightarrow> Err (RaftError e)
        | Inr g \<Rightarrow>
            let alone = (case rg_peers region of [p] \<Rightarrow> pr_store_id p = store_id | _ \<Rightarrow> False)
            in case (if alone then rw_campaign R g else Inr g) of
                 Inl e \<Rightarrow> Err (RaftError e)
               | Inr g \<Rightarrow>
                   Ok \<lparr>pf_store_id = store_id, pf_peer = peer, pf_store = ps, pf_group = g, pf_proposals = [],
                       pf_last_applying_idx = ras_applied_index (ps_apply_state ps), pf_last_compacted_idx = 0,
                       pf_last_urgent_proposal_idx = max_u64, pf_peer_cache = Map.empty,
                       pf_batch_req_builder = builder_new raft_entry_max_size, pf_has_ready = False, pf_current_time = None,
                       pf_replies = [], pf_ext_calls = [], pf_apply_router = [], pf_gc_scheduler = []\<rparr>))"

definition peer_fsm_create ::
    "'g raft_node \<Rightarrow> 'db mq_crates \<Rightarrow> u64 \<Rightarrow> 'db engines \<Rightarrow> region \<Rightarrow> (unit, ('g, 'r) peer_fsm) res" where
  "peer_fsm_create R M store_id engines region =
     bind_res (unwrap (find_peer region store_id)) (\<lambda>peer.
     case peer_new R M store_id engines region peer of Ok f \<Rightarrow> Ok f | _ \<Rightarrow> Panic)"

definition poller_of :: "'db engines \<Rightarrow> ('g, 'r) peer_fsm \<Rightarrow> ('db, 'g, 'r) raft_poller" where
  "poller_of engines f =
     \<lparr>po_fsm = f, po_tick_registry = {}, po_tick_batch = [], po_timers = [], po_last_unpersisted_number = 0,
      po_raft_wb = [], po_has_ready = False, po_ready_res = [], po_trans = [], po_engines = engines\<rparr>"

text \<open>\<open>RaftPollerBuilder::init\<close> reads the region that the bootstrap recorded.\<close>

definition store_init ::
    "'g raft_node \<Rightarrow> 'db mq_crates \<Rightarrow> u64 \<Rightarrow> 'db engines \<Rightarrow> (unit, ('g, 'r) peer_fsm) res" where
  "store_init R M store_id engines =
     bind_res (get_msg_cf (m_rocksdb M) (rp_region_state_parse (m_proto M)) (eng_kv engines) CF_RAFT
       (region_state_key (m_byteorder M) 1)) (\<lambda>local_state.
     bind_res (unwrap local_state) (\<lambda>local_state.
     peer_fsm_create R M store_id engines (get_or_default default_region (rgl_region local_state))))"

end
