(* ===== verification/Node.thy ===== *)
theory Node
  imports Raft_Loop
begin

text \<open>
  \<^verbatim>\<open>dependencies/tiny-mq/src/node.rs\<close>: bootstrapping a store when a node starts for the first time, and
  starting it. The fields of a node that are threads and channels are left out.
\<close>

definition INVALID_ID :: u64 where "INVALID_ID = 0"

record mq_node =
  nd_cluster_id :: u64
  nd_cluster_size :: u64
  nd_store_id :: u64
  nd_has_started :: bool

definition mq_node_new :: "u64 \<Rightarrow> u64 \<Rightarrow> u64 \<Rightarrow> mq_node" where
  "mq_node_new cluster_id cluster_size store_id =
     \<lparr>nd_cluster_id = cluster_id, nd_cluster_size = cluster_size, nd_store_id = store_id, nd_has_started = False\<rparr>"

definition check_store :: "'db mq_crates \<Rightarrow> mq_node \<Rightarrow> 'db engines \<Rightarrow> u64 mq_result" where
  "check_store M self engines =
     bind_res (get_msg (m_rocksdb M) (rp_store_ident_parse (m_proto M)) (eng_kv engines CF_DEFAULT) STORE_IDENT_KEY) (\<lambda>res.
     case res of
       None \<Rightarrow> Ok INVALID_ID
     | Some ident \<Rightarrow>
         if si_cluster_id ident \<noteq> nd_cluster_id self then Panic
         else if si_store_id ident \<noteq> nd_store_id self then Panic
         else Ok (nd_store_id self))"

text \<open>The region of the only raft group, with one peer per store.\<close>

definition first_region :: "u64 \<Rightarrow> region" where
  "first_region cluster_size = initial_region 1 (map (\<lambda>i. (of_nat i, of_nat i)) [1..<Suc (unat cluster_size)])"

definition node_prepare_bootstrap_cluster :: "'db mq_crates \<Rightarrow> 'db engines \<Rightarrow> u64 \<Rightarrow> region \<times> 'db engines" where
  "node_prepare_bootstrap_cluster M engines cluster_size =
     (let region = first_region cluster_size in (region, prepare_bootstrap_cluster M engines region))"

definition try_bootstrap_store :: "'db mq_crates \<Rightarrow> mq_node \<Rightarrow> 'db engines \<Rightarrow> 'db engines mq_result" where
  "try_bootstrap_store M self engines =
     bind_res (check_store M self engines) (\<lambda>store_id.
     if store_id = INVALID_ID
     then let engines = bootstrap_store M engines (nd_cluster_id self) (nd_store_id self)
          in Ok (snd (node_prepare_bootstrap_cluster M engines (nd_cluster_size self)))
     else Ok engines)"

definition start_store ::
    "'g raft_node \<Rightarrow> 'db mq_crates \<Rightarrow> mq_node \<Rightarrow> 'db engines \<Rightarrow> (('g, 'r) peer_fsm \<times> mq_node) mq_result" where
  "start_store R M self engines =
     (if nd_has_started self then Err (OtherError (show_u64 (nd_store_id self) @ '' is already started''))
      else case store_init R M (nd_store_id self) engines of
             Ok f \<Rightarrow> Ok (f, self\<lparr>nd_has_started := True\<rparr>)
           | _ \<Rightarrow> Panic)"

end
