(* ===== verification/Peer_Properties.thy ===== *)
theory Peer_Properties
  imports Peer_Ready Node Reference_Mq
begin

text \<open>
  Starting a node: what the bootstrap writes is what a peer opens, and what a crash in the middle of it
  leads to.
\<close>

section \<open>The bootstrap\<close>

definition initial_raft_state :: raft_local_state where
  "initial_raft_state =
     \<lparr>rlo_hard_state = Some (default_hard_state\<lparr>hst_term := RAFT_INIT_LOG_TERM, hst_commit := RAFT_INIT_LOG_INDEX\<rparr>),
      rlo_last_index = RAFT_INIT_LOG_INDEX\<rparr>"

definition initial_apply_state :: raft_apply_state where
  "initial_apply_state =
     default_raft_apply_state\<lparr>ras_applied_index := RAFT_INIT_LOG_INDEX,
       ras_truncated_state := Some \<lparr>rts_index = RAFT_INIT_LOG_INDEX, rts_term = RAFT_INIT_LOG_TERM\<rparr>\<rparr>"

text \<open>An engine that holds no entry of the raft group.\<close>

definition no_raft_log :: "'db mq_crates \<Rightarrow> (bytes \<rightharpoonup> bytes) \<Rightarrow> u64 \<Rightarrow> bool" where
  "no_raft_log M m r \<longleftrightarrow>
     (\<forall>k. raft_log_key (m_byteorder M) r 0 \<le> k \<and> k \<le> raft_log_key (m_byteorder M) r (- 1) \<longrightarrow> m k = None)"

lemma initial_disk_ok: "disk_ok initial_raft_state initial_apply_state Map.empty"
proof -
  have "\<not> (5 < i \<and> i \<le> (5 :: u64))" for i by (simp add: not_le)
  then show ?thesis
    by (simp add: disk_ok_def initial_raft_state_def initial_apply_state_def known_commit_def get_hard_state_def
        get_truncated_state_def default_raft_apply_state_def default_hard_state_def RAFT_INIT_LOG_INDEX_def
        RAFT_INIT_LOG_TERM_def)
qed

lemma opened_initial:
  "opened_storage peer_id region initial_raft_state initial_apply_state Map.empty =
     \<lparr>ps_peer_id = peer_id, ps_region = region, ps_raft_state = initial_raft_state, ps_apply_state = initial_apply_state,
      ps_applied_index_term = RAFT_INIT_LOG_TERM, ps_last_term = RAFT_INIT_LOG_TERM\<rparr>"
  by (simp add: opened_storage_def initial_raft_state_def initial_apply_state_def known_commit_def get_hard_state_def
      get_truncated_state_def default_raft_apply_state_def default_hard_state_def RAFT_INIT_LOG_INDEX_def
      with_commit_def log_term_def)

lemma first_region_simps [simp]: "rg_id (first_region n) = 1"
  by (simp add: first_region_def initial_region_def)

lemma find_unique:
  assumes "x \<in> set xs" "P x" "\<And>y. y \<in> set xs \<Longrightarrow> P y \<Longrightarrow> y = x"
  shows "List.find P xs = Some x"
proof (cases "List.find P xs")
  case None
  with assms(1,2) show ?thesis by (simp add: find_None_iff)
next
  case (Some y)
  then have "P y" "y \<in> set xs" by (auto simp: find_Some_iff)
  with assms(3) Some show ?thesis by metis
qed

lemma first_region_find_peer:
  assumes "1 \<le> s" "s \<le> n"
  shows "find_peer (first_region n) s = Some (new_peer s s)"
proof -
  have peers: "set (rg_peers (first_region n)) = (\<lambda>i. new_peer (of_nat i) (of_nat i)) ` {1..<Suc (unat n)}"
    by (auto simp: first_region_def initial_region_def)
  have "unat s \<in> {1..<Suc (unat n)}" using assms by (auto simp: word_le_nat_alt)
  then have "new_peer s s \<in> set (rg_peers (first_region n))"
    unfolding peers by (intro image_eqI [of _ _ "unat s"]) simp_all
  then show ?thesis
    unfolding find_peer_def by (rule find_unique) (auto simp: peers new_peer_def default_peer_def)
qed

context mq_spec
begin

lemma view_cw_write: "view (cw_write_opt (m_rocksdb M) e wb cf) = apply_ops (cf_ops cf (cw_ops wb)) (view (e cf))"
  by (simp add: cw_write_opt_def view_write)

lemma no_raft_log_map:
  assumes "no_raft_log M m r"
  shows "raft_log_map M m r Map.empty"
proof -
  have none: "m k = None" if "raft_log_key (m_byteorder M) r 0 \<le> k" "k \<le> raft_log_key (m_byteorder M) r (- 1)" for k
    using assms that unfolding no_raft_log_def by blast
  have "m (raft_log_key (m_byteorder M) r i) = None" for i by (intro none) (simp_all add: raft.raft_log_key_le)
  with none show ?thesis unfolding raft_log_map_def by fastforce
qed

lemma apply_region_key_neq [simp]:
  "apply_state_key (m_byteorder M) r \<noteq> region_state_key (m_byteorder M) r"
  "region_state_key (m_byteorder M) r \<noteq> apply_state_key (m_byteorder M) r"
  by (simp_all add: apply_state_key_def region_state_key_def make_region_prefix_def make_region_meta_key_def prefix_defs)

lemma prepare_bootstrap_views:
  "view (eng_raft (prepare_bootstrap_cluster M engines region)) =
     (view (eng_raft engines))(raft_state_key (m_byteorder M) (rg_id region) \<mapsto> rp_local_state_write (m_proto M) initial_raft_state)"
  "view (eng_kv (prepare_bootstrap_cluster M engines region) CF_RAFT) =
     (view (eng_kv engines CF_RAFT))
       (region_state_key (m_byteorder M) (rg_id region) \<mapsto> rp_region_state_write (m_proto M) \<lparr>rgl_region = Some region\<rparr>,
        apply_state_key (m_byteorder M) (rg_id region) \<mapsto> rp_apply_state_write (m_proto M) initial_apply_state)"
  "view (eng_kv (prepare_bootstrap_cluster M engines region) CF_DEFAULT) = view (eng_kv engines CF_DEFAULT)"
  by (simp_all add: prepare_bootstrap_cluster_def write_initial_apply_state_def write_initial_raft_state_def
      wb_put_raft_state_def wb_put_msg_def wb_put_def consume_def write_opt_def view_write view_cw_write cw_defs Let_def
      initial_raft_state_def initial_apply_state_def)

lemma prepare_bootstrap_disk:
  assumes "no_raft_log M (view (eng_raft engines)) (rg_id region)"
  shows "peer_disk M view (prepare_bootstrap_cluster M engines region) (rg_id region)
      initial_raft_state initial_apply_state Map.empty"
  using raft_log_map_state [OF no_raft_log_map [OF assms]] by (simp add: peer_disk_def prepare_bootstrap_views)

lemma bootstrap_store_views:
  "view (eng_kv (bootstrap_store M engines c s) CF_DEFAULT) STORE_IDENT_KEY =
     Some (rp_store_ident_write (m_proto M) \<lparr>si_cluster_id = c, si_store_id = s\<rparr>)"
  "view (eng_kv (bootstrap_store M engines c s) CF_RAFT) = view (eng_kv engines CF_RAFT)"
  "eng_raft (bootstrap_store M engines c s) = eng_raft engines"
  by (simp_all add: bootstrap_store_def put_msg_cf_def put_cf_def view_write)

lemma get_view_mq: "rdb_get (m_rocksdb M) db k = view db k"
  by (rule get_view)

lemma check_store_view:
  "check_store M self engines =
     (case view (eng_kv engines CF_DEFAULT) STORE_IDENT_KEY of
        None \<Rightarrow> Ok INVALID_ID
      | Some v \<Rightarrow> (case rp_store_ident_parse (m_proto M) v of
          None \<Rightarrow> Panic
        | Some ident \<Rightarrow>
            if si_cluster_id ident \<noteq> nd_cluster_id self \<or> si_store_id ident \<noteq> nd_store_id self then Panic
            else Ok (nd_store_id self)))"
  by (simp add: check_store_def get_msg_def get_value_def get_view split: option.split)

lemma try_bootstrap_again:
  assumes "view (eng_kv engines CF_DEFAULT) STORE_IDENT_KEY =
      Some (rp_store_ident_write (m_proto M) \<lparr>si_cluster_id = nd_cluster_id self, si_store_id = nd_store_id self\<rparr>)"
    and "nd_store_id self \<noteq> INVALID_ID"
  shows "try_bootstrap_store M self engines = Ok engines"
  using assms by (simp add: try_bootstrap_store_def check_store_view)

text \<open>A peer opens from its disk the storage that the disk describes, and a node of several stores
  does not campaign when it starts.\<close>

lemma store_init_ok:
  assumes "view (eng_kv engines CF_RAFT) (region_state_key (m_byteorder M) 1) =
      Some (rp_region_state_write (m_proto M) \<lparr>rgl_region = Some region\<rparr>)"
    and "rg_id region = 1" "find_peer region s = Some p" "pr_id p \<noteq> 0"
    and "peer_disk M view engines 1 st ast L" "disk_ok st ast L"
    and "rw_new R (pr_id p) (ras_applied_index ast) (opened_storage (pr_id p) region st ast L) = Inr g"
    and "1 < length (rg_peers region)"
  shows "\<exists>f. store_init R M s engines = Ok f \<and> pf_peer f = p \<and> pf_group f = g \<and>
    pf_store f = opened_storage (pr_id p) region st ast L"
proof -
  have alone: "\<not> (case rg_peers region of [p] \<Rightarrow> pr_store_id p = s | _ \<Rightarrow> False)"
    using assms(8) by (auto split: list.split)
  have "ps_new M engines region (pr_id p) = (Ok (opened_storage (pr_id p) region st ast L) :: peer_storage mq_result)"
    using assms(5,6) by (intro ps_new_ok) (simp_all add: assms(2))
  moreover have "ps_apply_state (opened_storage (pr_id p) region st ast L) = ast" by (simp add: opened_storage_def)
  ultimately show ?thesis using assms(1,3,4,7) alone
    by (simp add: store_init_def get_msg_cf_def get_value_cf_def get_view peer_fsm_create_def peer_new_def
        get_or_default_def unwrap_def)
qed

end

text \<open>The storage of a peer that was bootstrapped and has not run yet.\<close>

definition bootstrapped_storage :: "u64 \<Rightarrow> u64 \<Rightarrow> peer_storage" where
  "bootstrapped_storage cluster_size store_id =
     \<lparr>ps_peer_id = store_id, ps_region = first_region cluster_size, ps_raft_state = initial_raft_state,
      ps_apply_state = initial_apply_state, ps_applied_index_term = RAFT_INIT_LOG_TERM,
      ps_last_term = RAFT_INIT_LOG_TERM\<rparr>"

definition fresh_engines :: "'db mq_crates \<Rightarrow> ('db \<Rightarrow> bytes \<rightharpoonup> bytes) \<Rightarrow> 'db engines \<Rightarrow> bool" where
  "fresh_engines M view engines \<longleftrightarrow>
     view (eng_kv engines CF_DEFAULT) STORE_IDENT_KEY = None \<and>
     view (eng_kv engines CF_RAFT) (region_state_key (m_byteorder M) 1) = None \<and>
     no_raft_log M (view (eng_raft engines)) 1"

text \<open>A raft node that stays idle.\<close>

definition idle_raft :: "unit raft_node" where
  "idle_raft =
     \<lparr>rw_api = \<lparr>rn_propose = \<lambda>_ _. Inr (), rn_last_index = \<lambda>_. RAFT_INIT_LOG_INDEX, rn_log_term = \<lambda>_ _. None, rn_term = \<lambda>_. RAFT_INIT_LOG_TERM,
        rn_is_leader = \<lambda>_. False, rn_leader_id = \<lambda>_. 0, rn_matched = \<lambda>_. [], rn_skip_bcast_commit = \<lambda>g _. g,
        rn_advance_apply_to = \<lambda>g _. g\<rparr>,
      rw_new = \<lambda>_ _ _. Inr (), rw_campaign = \<lambda>_. Inr (), rw_tick = \<lambda>g. (False, g), rw_step = \<lambda>g _. (None, g),
      rw_ready = \<lambda>g. (\<lparr>rr_number = 0, rr_must_sync = False, rr_ss = None, rr_ready = \<lparr>rd_entries = [], rd_hs = None\<rparr>,
        rr_snapshot_is_empty = True, rr_messages = [], rr_committed_entries = [], rr_persisted_messages = []\<rparr>, g),
      rw_advance_append = \<lambda>g _. (\<lparr>lr_commit_index = None, lr_messages = [], lr_committed_entries = []\<rparr>, g)\<rparr>"

definition empty_engines :: "ref_db engines" where
  "empty_engines = \<lparr>eng_kv = \<lambda>_. [], eng_raft = []\<rparr>"

lemma fresh_empty_engines: "fresh_engines M map_of empty_engines"
  by (simp add: fresh_engines_def empty_engines_def no_raft_log_def)

context mq_spec
begin

lemma bootstrap_opens:
  assumes fresh: "fresh_engines M view engines"
    and ids: "1 \<le> nd_store_id self" "nd_store_id self \<le> nd_cluster_size self" "1 < nd_cluster_size self"
    and raft: "rw_new R (nd_store_id self) RAFT_INIT_LOG_INDEX
      (bootstrapped_storage (nd_cluster_size self) (nd_store_id self)) = Inr g"
  shows "\<exists>engines' (f :: ('g, 'r) peer_fsm).
    try_bootstrap_store M self engines = Ok engines' \<and> try_bootstrap_store M self engines' = Ok engines' \<and>
    store_init R M (nd_store_id self) engines' = Ok f \<and>
    pf_peer f = new_peer (nd_store_id self) (nd_store_id self) \<and> pf_group f = g \<and>
    pf_store f = bootstrapped_storage (nd_cluster_size self) (nd_store_id self)"
proof -
  let ?n = "nd_cluster_size self" and ?s = "nd_store_id self"
  let ?E = "prepare_bootstrap_cluster M (bootstrap_store M engines (nd_cluster_id self) ?s) (first_region ?n)"
  note boot = bootstrap_store_views and prep = prepare_bootstrap_views
  have s0: "?s \<noteq> 0" using ids(1) by auto
  have first: "try_bootstrap_store M self engines = Ok ?E"
    using fresh by (simp add: try_bootstrap_store_def check_store_view fresh_engines_def
        node_prepare_bootstrap_cluster_def Let_def)
  have again: "try_bootstrap_store M self ?E = Ok ?E"
    using s0 by (intro try_bootstrap_again) (simp_all add: prep boot INVALID_ID_def)
  have disk: "peer_disk M view ?E 1 initial_raft_state initial_apply_state Map.empty"
    using prepare_bootstrap_disk [of "bootstrap_store M engines (nd_cluster_id self) ?s" "first_region ?n"] fresh
    by (simp add: boot fresh_engines_def)
  have opened: "opened_storage ?s (first_region ?n) initial_raft_state initial_apply_state Map.empty = bootstrapped_storage ?n ?s"
    by (simp add: opened_initial bootstrapped_storage_def)
  have len: "1 < length (rg_peers (first_region ?n))"
    using ids(3) by (simp add: first_region_def initial_region_def word_less_nat_alt del: upt_Suc)
  have region: "view (eng_kv ?E CF_RAFT) (region_state_key (m_byteorder M) 1) =
      Some (rp_region_state_write (m_proto M) \<lparr>rgl_region = Some (first_region ?n)\<rparr>)"
    by (simp add: prep apply_region_key_neq)
  have ps: "pr_id (new_peer ?s ?s) = ?s" "ras_applied_index initial_apply_state = RAFT_INIT_LOG_INDEX"
    by (simp_all add: new_peer_def initial_apply_state_def)
  have "\<exists>f :: ('g, 'r) peer_fsm. store_init R M ?s ?E = Ok f \<and> pf_peer f = new_peer ?s ?s \<and> pf_group f = g \<and> pf_store f = bootstrapped_storage ?n ?s"
    using store_init_ok [OF region _ first_region_find_peer [OF ids(1,2)] _ disk initial_disk_ok _ len, of R g]
      s0 raft by (simp add: ps opened)
  with first again show ?thesis by blast
qed

end



text \<open>C27: A crash after \<open>bootstrap_store\<close> wrote the identity of the store and before the region was written
  leaves a node that can not be started any more: \<open>try_bootstrap_store\<close> takes the store for bootstrapped and
  changes nothing, and \<open>start_store\<close> panics on the missing region.\<close>

theorem bootstrap_crash_is_final:
  assumes spec: "mq_spec M view"
    and fresh: "fresh_engines M view engines"
    and ids: "nd_store_id self \<noteq> INVALID_ID" and idle: "\<not> nd_has_started self"
  shows "try_bootstrap_store M self (bootstrap_store M engines (nd_cluster_id self) (nd_store_id self)) =
      Ok (bootstrap_store M engines (nd_cluster_id self) (nd_store_id self)) \<and>
    (start_store R M self (bootstrap_store M engines (nd_cluster_id self) (nd_store_id self)) ::
      (('g, 'r) peer_fsm \<times> mq_node) mq_result) = Panic"
proof -
  let ?E = "bootstrap_store M engines (nd_cluster_id self) (nd_store_id self)"
  note boot = mq_spec.bootstrap_store_views [OF spec]
  have "try_bootstrap_store M self ?E = Ok ?E"
    using ids by (intro mq_spec.try_bootstrap_again [OF spec]) (simp_all add: boot)
  moreover have "(store_init R M (nd_store_id self) ?E :: (unit, ('g, 'r) peer_fsm) res) = Panic"
    using fresh by (simp add: store_init_def get_msg_cf_def get_value_cf_def mq_spec.get_view_mq [OF spec] boot fresh_engines_def)
  ultimately show ?thesis using idle by (simp add: start_store_def)
qed

theorem bootstrap_crash_is_final_witness:
  "(start_store idle_raft ref_mq (mq_node_new 7 3 2) (bootstrap_store ref_mq empty_engines 7 2) ::
     ((unit, string) peer_fsm \<times> mq_node) mq_result) = Panic"
  using bootstrap_crash_is_final [where 'r = string, OF ref_mq fresh_empty_engines, of "mq_node_new 7 3 2" idle_raft]
  by (simp add: mq_node_new_def INVALID_ID_def)

end
