(* ===== verification/Raftlog_GC.thy ===== *)
theory Raftlog_GC
  imports Peer
begin

text \<open>
  \<^verbatim>\<open>dependencies/tiny-mq/src/raftlog_gc.rs\<close>: the worker that removes compacted entries from the raft
  engine. It collects tasks and runs them when there are enough of them, on a timeout and at the end.
\<close>

definition MAX_GC_REGION_BATCH :: nat where "MAX_GC_REGION_BATCH = 128"

text \<open>The number of collected entries is reported over a channel when there is one.\<close>

record 'db gc_runner =
  gr_tasks :: "gc_task list"
  gr_raft :: 'db
  gr_reported :: "nat list option"

definition report_collected :: "nat \<Rightarrow> 'db gc_runner \<Rightarrow> 'db gc_runner" where
  "report_collected collected self = self\<lparr>gr_reported := map_option (\<lambda>xs. xs @ [collected]) (gr_reported self)\<rparr>"

definition gc_raft_log ::
    "'db mq_crates \<Rightarrow> u64 \<Rightarrow> u64 \<Rightarrow> u64 \<Rightarrow> 'db gc_runner \<Rightarrow> (unit, nat) res \<times> 'db gc_runner" where
  "gc_raft_log M region_id start_idx end_idx self =
     (case log_gc (m_rocksdb M) (m_byteorder M) (gr_raft self) region_id start_idx end_idx of
        (r, db) \<Rightarrow> (r, self\<lparr>gr_raft := db\<rparr>))"

fun gc_run_tasks :: "'db mq_crates \<Rightarrow> gc_task list \<Rightarrow> 'db gc_runner \<Rightarrow> (unit, 'db gc_runner) res" where
  "gc_run_tasks M [] self = Ok self"
| "gc_run_tasks M (Task_Gc region_id start_idx end_idx # tasks) self =
     (case gc_raft_log M region_id start_idx end_idx self of
        (Err e, self) \<Rightarrow> gc_run_tasks M tasks (report_collected 0 self)
      | (Ok n, self) \<Rightarrow> gc_run_tasks M tasks (report_collected n self)
      | (Panic, self) \<Rightarrow> Panic)"

definition gc_flush :: "'db mq_crates \<Rightarrow> 'db gc_runner \<Rightarrow> (unit, 'db gc_runner) res" where
  "gc_flush M self = gc_run_tasks M (gr_tasks self) (self\<lparr>gr_tasks := []\<rparr>)"

definition gc_run :: "'db mq_crates \<Rightarrow> gc_task \<Rightarrow> 'db gc_runner \<Rightarrow> (unit, 'db gc_runner) res" where
  "gc_run M task self =
     (let self = self\<lparr>gr_tasks := gr_tasks self @ [task]\<rparr>
      in if length (gr_tasks self) < MAX_GC_REGION_BATCH then Ok self else gc_flush M self)"

end
