(* ===== verification/Store_Effects.thy ===== *)
theory Store_Effects
  imports Peer_Properties Raftlog_GC
begin

text \<open>
  What the apply thread and the worker that deletes compacted entries change of the apply state, the write batch and the
  raft log, and that a storage which can be opened from disk stays one.
\<close>

section \<open>What applying an entry changes\<close>

definition apply_frame :: "('db, 'r) apply_fsm \<Rightarrow> ('db, 'r) apply_fsm \<Rightarrow> bool" where
  "apply_frame f f' \<longleftrightarrow>
     af_kv f' = af_kv f \<and> af_notified f' = af_notified f \<and> ad_region (af_delegate f') = ad_region (af_delegate f) \<and>
     ax_apply_res (af_ctx f') = ax_apply_res (af_ctx f) \<and> cw_ops (ax_kv_wb (af_ctx f')) = cw_ops (ax_kv_wb (af_ctx f))"

text \<open>The log may be truncated up to an entry that was applied before.\<close>

definition truncates :: "raft_apply_state \<Rightarrow> raft_apply_state \<Rightarrow> bool" where
  "truncates a a' \<longleftrightarrow>
     ras_commit_index a' = ras_commit_index a \<and> ras_commit_term a' = ras_commit_term a \<and>
     (get_truncated_state a' = get_truncated_state a \<or>
      trunc_idx a < trunc_idx a' \<and> trunc_idx a' < ras_applied_index a')"

lemma apply_frame_refl: "apply_frame f f"
  by (simp add: apply_frame_def)

lemma apply_frame_trans: "apply_frame f g \<Longrightarrow> apply_frame g h \<Longrightarrow> apply_frame f h"
  by (simp add: apply_frame_def)

lemma exec_raft_cmd_effect:
  assumes "exec_raft_cmd ctx req = Ok ((resp, res), ctx')"
  shows "ec_apply_state ctx' = ec_apply_state ctx \<and> res = Apply_None \<or>
    (\<exists>ts i. res = Apply_Res (Exec_CompactLog ts i) \<and> ts = get_truncated_state (ec_apply_state ctx') \<and>
       trunc_idx (ec_apply_state ctx) < rts_index ts \<and> rts_index ts \<le> ras_applied_index (ec_apply_state ctx) \<and>
       ras_commit_index (ec_apply_state ctx') = ras_commit_index (ec_apply_state ctx) \<and>
       ras_commit_term (ec_apply_state ctx') = ras_commit_term (ec_apply_state ctx))"
proof (cases "rcq_admin_request req = None")
  case True
  with assms show ?thesis
    by (auto simp: exec_raft_cmd_def exec_write_cmd_def res_simps)
next
  case False
  with assms show ?thesis
    by (auto simp: exec_raft_cmd_def exec_admin_cmd_def exec_compact_log_def compact_raft_log_def res_simps Let_def
        get_truncated_state_def get_or_default_def not_le not_less
        split: admin_cmd_type.splits if_splits)
qed

text \<open>The results that the peer is told to truncate the log by.\<close>

fun result_index :: "exec_result \<Rightarrow> u64" where
  "result_index (Exec_CompactLog ts i) = rts_index ts"

lemma apply_raft_cmd_effect:
  assumes "apply_raft_cmd fmt index term req f = Ok ((resp, res), f')"
    and "ras_applied_index (ad_apply_state (af_delegate f)) < index"
  shows "apply_frame f f'"
    and "ras_applied_index (ad_apply_state (af_delegate f')) = index"
    and "truncates (ad_apply_state (af_delegate f)) (ad_apply_state (af_delegate f'))"
    and "res = Apply_None \<or> (\<exists>r. res = Apply_Res r \<and> result_index r = trunc_idx (ad_apply_state (af_delegate f')))"
    and "ad_term (af_delegate f') = ad_term (af_delegate f)"
proof -
  let ?ctx = "new_ctx (af_delegate f) index term" and ?a = "ad_apply_state (af_delegate f)"
  have a: "ec_apply_state ?ctx = ?a" by (simp add: new_ctx_def)
  obtain ctx' :: exec_context and wb :: cf_write_batch where f': "f' = f\<lparr>af_ctx := (af_ctx f)\<lparr>ax_kv_wb := wb, ax_exec_ctx := None\<rparr>,
        af_delegate := (af_delegate f)\<lparr>ad_apply_state := (ec_apply_state ctx')\<lparr>ras_applied_index := index\<rparr>,
          ad_applied_index_term := term\<rparr>\<rparr>"
    and wb: "cw_ops wb = cw_ops (ax_kv_wb (af_ctx f))"
    and eff: "ec_apply_state ctx' = ?a \<and> res = Apply_None \<or>
      (\<exists>ts i. res = Apply_Res (Exec_CompactLog ts i) \<and> ts = get_truncated_state (ec_apply_state ctx') \<and>
         trunc_idx ?a < rts_index ts \<and> rts_index ts \<le> ras_applied_index ?a \<and>
         ras_commit_index (ec_apply_state ctx') = ras_commit_index ?a \<and>
         ras_commit_term (ec_apply_state ctx') = ras_commit_term ?a)"
  proof (cases "exec_raft_cmd ?ctx req")
    case (Ok o')
    obtain resp' res' ctx' where o': "o' = ((resp', res'), ctx')" by (metis prod.collapse)
    note eff = exec_raft_cmd_effect [OF Ok [unfolded o']]
    show thesis
      using assms(1) eff that [of ctx' "(ax_kv_wb (af_ctx f))"] Ok o'
      by (auto simp: apply_raft_cmd_def Let_def pop_save_point_def set_save_point_def a)
  next
    case (Err e)
    then show thesis
      using assms(1) that [of "?ctx" "(ax_kv_wb (af_ctx f))"]
      by (auto simp: apply_raft_cmd_def Let_def rollback_to_save_point_def set_save_point_def a)
  next
    case Panic
    then show thesis using assms(1) by (simp add: apply_raft_cmd_def Let_def)
  qed
  show "apply_frame f f'" "ras_applied_index (ad_apply_state (af_delegate f')) = index"
    "ad_term (af_delegate f') = ad_term (af_delegate f)"
    by (simp_all add: f' wb apply_frame_def)
  have trunc: "get_truncated_state (x\<lparr>ras_applied_index := index\<rparr>) = get_truncated_state x" for x
    by (simp add: get_truncated_state_def)
  from eff show "truncates ?a (ad_apply_state (af_delegate f'))"
    using assms(2) by (auto simp: truncates_def f' trunc)
  from eff show "res = Apply_None \<or> (\<exists>r. res = Apply_Res r \<and> result_index r = trunc_idx (ad_apply_state (af_delegate f')))"
    by (auto simp: f' trunc)
qed

lemma push_cb_frame: "apply_frame f (push_cb cb resp f)" "af_delegate (push_cb cb resp f) = af_delegate f"
  by (simp_all add: push_cb_def apply_frame_def)

lemma fold_push_cb_frame:
  "apply_frame f (fold (\<lambda>cb f. push_cb cb resp f) cbs f)" "af_delegate (fold (\<lambda>cb f. push_cb cb resp f) cbs f) = af_delegate f"
proof -
  have "apply_frame f (fold (\<lambda>cb f. push_cb cb resp f) cbs f) \<and> af_delegate (fold (\<lambda>cb f. push_cb cb resp f) cbs f) = af_delegate f"
  proof (induction cbs arbitrary: f)
    case (Cons cb cbs)
    show ?case
      using apply_frame_trans [OF push_cb_frame(1) [of f cb resp] conjunct1 [OF Cons.IH]] Cons.IH [of "push_cb cb resp f"]
      by (simp add: push_cb_frame(2))
  qed (simp add: apply_frame_refl)
  then show "apply_frame f (fold (\<lambda>cb f. push_cb cb resp f) cbs f)" "af_delegate (fold (\<lambda>cb f. push_cb cb resp f) cbs f) = af_delegate f"
    by simp_all
qed

definition entry_effect :: "u64 \<Rightarrow> apply_result \<Rightarrow> ('db, 'r) apply_fsm \<Rightarrow> ('db, 'r) apply_fsm \<Rightarrow> bool" where
  "entry_effect index res f f' \<longleftrightarrow>
     apply_frame f f' \<and> ras_applied_index (ad_apply_state (af_delegate f')) = index \<and>
     truncates (ad_apply_state (af_delegate f)) (ad_apply_state (af_delegate f')) \<and>
     (res = Apply_None \<or> (\<exists>r. res = Apply_Res r \<and> result_index r = trunc_idx (ad_apply_state (af_delegate f'))))"

lemma entry_effect_cong:
  assumes "entry_effect i res f g" "apply_frame g h" "ad_apply_state (af_delegate h) = ad_apply_state (af_delegate g)"
  shows "entry_effect i res f h"
  using assms apply_frame_trans unfolding entry_effect_def by metis

lemma process_raft_cmd_effect:
  assumes run: "process_raft_cmd fmt index term cmd f = Ok (res, f')"
    and "ras_applied_index (ad_apply_state (af_delegate f)) < index"
  shows "entry_effect index res f f'"
proof -
  let ?f = "f\<lparr>af_ctx := (af_ctx f)\<lparr>ax_sync_log_hint := ax_sync_log_hint (af_ctx f) \<or> should_sync_log cmd\<rparr>\<rparr>"
  obtain resp g cb rs pending where app: "apply_raft_cmd fmt index term cmd ?f = Ok ((resp, res), g)"
    and f': "f' = push_cmd cb (bind_term resp (ad_term (af_delegate g)))
      (send_replies rs (g\<lparr>af_delegate := (af_delegate g)\<lparr>ad_pending_cmds := pending\<rparr>\<rparr>))"
    using run by (auto simp: process_raft_cmd_def Let_def res_simps split: if_splits)
  have "entry_effect index res f g"
    using apply_raft_cmd_effect [OF app] assms(2) by (simp add: entry_effect_def apply_frame_def)
  then show ?thesis
    by (rule entry_effect_cong)
      (auto simp: f' push_cmd_def push_cb_def send_replies_def apply_frame_def split: option.split)
qed

lemma handle_raft_entry_normal_effect:
  assumes run: "handle_raft_entry_normal M fmt e f = Ok (res, f')"
    and "ras_applied_index (ad_apply_state (af_delegate f)) < ent_index e"
  shows "entry_effect (ent_index e) res f f'"
proof (cases "ent_data e = []")
  case False
  with run assms(2) show ?thesis
    by (auto simp: handle_raft_entry_normal_def Let_def res_simps intro: process_raft_cmd_effect)
next
  case True
  obtain cbs pending where pop: "pop_earlier_terms (ent_term e) (ad_pending_cmds (af_delegate f)) = (cbs, pending)"
    by (metis prod.collapse)
  let ?g = "f\<lparr>af_delegate := (af_delegate f)\<lparr>ad_apply_state := (ad_apply_state (af_delegate f))\<lparr>ras_applied_index := ent_index e\<rparr>,
    ad_applied_index_term := ent_term e, ad_pending_cmds := pending\<rparr>\<rparr>"
  have f': "f' = fold (\<lambda>cb f. push_cb cb (err_resp fmt StaleCommand (ent_term e)) f) cbs ?g" "res = Apply_None"
    using run True by (auto simp: handle_raft_entry_normal_def Let_def pop split: if_splits)
  have "entry_effect (ent_index e) res f ?g"
    by (simp add: entry_effect_def f'(2) truncates_def get_truncated_state_def apply_frame_def)
  then show ?thesis unfolding f'(1) by (rule entry_effect_cong) (simp_all add: fold_push_cb_frame)
qed

lemma truncates_trans:
  assumes "truncates a b" "truncates b c" "ras_applied_index b \<le> ras_applied_index c"
  shows "truncates a c"
  using assms unfolding truncates_def by (elim conjE disjE; simp) (meson less_le_trans less_trans)+

lemma truncates_mono: "truncates a b \<Longrightarrow> trunc_idx a \<le> trunc_idx b"
  by (auto simp: truncates_def)

text \<open>A list of entries, one after the other, none beyond \<open>n\<close>.\<close>

lemma committed_entries_loop_effect:
  assumes "committed_entries_loop M fmt es results f = Ok (results', f')"
    and "ras_applied_index (ad_apply_state (af_delegate f)) \<le> n" "n < - 1" "\<forall>e \<in> set es. ent_index e \<le> n"
    and "\<forall>r \<in> set results. result_index r \<le> trunc_idx (ad_apply_state (af_delegate f))"
  shows "apply_frame f f' \<and> truncates (ad_apply_state (af_delegate f)) (ad_apply_state (af_delegate f')) \<and>
    ras_applied_index (ad_apply_state (af_delegate f')) =
      (if es = [] then ras_applied_index (ad_apply_state (af_delegate f)) else ent_index (last es)) \<and>
    ras_applied_index (ad_apply_state (af_delegate f)) \<le> ras_applied_index (ad_apply_state (af_delegate f')) \<and>
    (es \<noteq> [] \<longrightarrow> ras_applied_index (ad_apply_state (af_delegate f)) < ras_applied_index (ad_apply_state (af_delegate f'))) \<and>
    (\<forall>r \<in> set results'. result_index r \<le> trunc_idx (ad_apply_state (af_delegate f')))"
  using assms
proof (induction es arbitrary: results f)
  case Nil
  then show ?case by (simp add: apply_frame_refl truncates_def)
next
  case (Cons e es)
  let ?a = "\<lambda>f. ad_apply_state (af_delegate f)"
  obtain res g where e: "ras_applied_index (?a f) + 1 = ent_index e"
    and run: "handle_raft_entry_normal M fmt e f = Ok (res, g)"
    and rest: "committed_entries_loop M fmt es (case res of Apply_None \<Rightarrow> results | Apply_Res r \<Rightarrow> results @ [r]) g = Ok (results', f')"
    using Cons.prems(1) by (auto simp: res_simps split: if_splits entry_type.splits)
  have lt: "ras_applied_index (?a f) < ent_index e"
    using Cons.prems(2,3) e [symmetric] by unat_arith
  have eff: "entry_effect (ent_index e) res f g" using handle_raft_entry_normal_effect [OF run lt] .
  then have g: "apply_frame f g" "ras_applied_index (?a g) = ent_index e" "truncates (?a f) (?a g)"
    unfolding entry_effect_def by simp_all
  have results: "\<forall>r \<in> set (case res of Apply_None \<Rightarrow> results | Apply_Res r \<Rightarrow> results @ [r]). result_index r \<le> trunc_idx (?a g)"
    using Cons.prems(5) eff order_trans [OF _ truncates_mono [OF g(3)]] unfolding entry_effect_def
    by (auto split: apply_result.split)
  have n: "ras_applied_index (?a g) \<le> n" "\<forall>e \<in> set es. ent_index e \<le> n" using Cons.prems(4) g(2) by simp_all
  note ih = Cons.IH [OF rest n(1) Cons.prems(3) n(2) results]
  have "truncates (?a f) (?a f')" using truncates_trans [OF g(3)] ih by blast
  moreover have "apply_frame f f'" using apply_frame_trans [OF g(1)] ih by blast
  moreover have "ras_applied_index (?a f) < ras_applied_index (?a f')" using lt g(2) ih by (metis less_le_trans)
  ultimately show ?case using ih g(2) by auto
qed

section \<open>A task of the apply thread\<close>

definition task_effect :: "'db mq_crates \<Rightarrow> entry list \<Rightarrow> ('db, 'r) apply_fsm \<Rightarrow> ('db, 'r) apply_fsm \<Rightarrow> bool" where
  "task_effect M es f f' \<longleftrightarrow>
     (let d = af_delegate f; a = ad_apply_state d; a' = ad_apply_state (af_delegate f')
      in es \<noteq> [] \<and> af_kv f' = af_kv f \<and> af_notified f' = af_notified f \<and> ad_region (af_delegate f') = ad_region d \<and>
         cw_ops (ax_kv_wb (af_ctx f')) = cw_ops (ax_kv_wb (af_ctx f)) @
           [(CF_RAFT, WbPut (apply_state_key (m_byteorder M) (rg_id (ad_region d))) (rp_apply_state_write (m_proto M) a'))] \<and>
         (\<exists>r. ax_apply_res (af_ctx f') = ax_apply_res (af_ctx f) @ [r] \<and> (\<forall>x \<in> set (ar_exec_res r). result_index x \<le> trunc_idx a')) \<and>
         ras_applied_index a' = ent_index (last es) \<and> ras_applied_index a < ras_applied_index a' \<and>
         ras_commit_index a' = ent_index (last es) \<and> ras_commit_term a' = ent_term (last es) \<and>
         (get_truncated_state a' = get_truncated_state a \<or> trunc_idx a < trunc_idx a' \<and> trunc_idx a' < ras_applied_index a'))"

lemma append_proposal_same:
  "ad_apply_state (append_proposal props d) = ad_apply_state d" "ad_region (append_proposal props d) = ad_region d"
proof -
  have "ad_apply_state (append_proposal props d) = ad_apply_state d \<and> ad_region (append_proposal props d) = ad_region d"
    unfolding append_proposal_def by (induction props arbitrary: d) simp_all
  then show "ad_apply_state (append_proposal props d) = ad_apply_state d" "ad_region (append_proposal props d) = ad_region d"
    by simp_all
qed

lemma handle_apply_effect:
  assumes run: "handle_apply M fmt task f = Ok f'"
    and bound: "ras_applied_index (ad_apply_state (af_delegate f)) \<le> n" "n < - 1"
      "\<forall>e \<in> set (ce_entries (at_entries task)). ent_index e \<le> n"
  shows "task_effect M (ce_entries (at_entries task)) f f'"
proof -
  let ?es = "ce_entries (at_entries task)" and ?d = "af_delegate f" and ?a = "ad_apply_state (af_delegate f)"
  let ?a1 = "?a\<lparr>ras_commit_index := ent_index (last ?es), ras_commit_term := ent_term (last ?es)\<rparr>"
  define d1 where "d1 = append_proposal (at_cbs task) (?d\<lparr>ad_term := at_term task, ad_apply_state := ?a1\<rparr>)"
  define f1 where "f1 = f\<lparr>af_delegate := d1,
    af_ctx := (af_ctx f)\<lparr>ax_timer := True, ax_committed_count := ax_committed_count (af_ctx f) + length ?es\<rparr>\<rparr>"
  have es: "?es \<noteq> []" using run by (auto simp: handle_apply_def take_entries_def Let_def)
  obtain results g where loop: "committed_entries_loop M fmt ?es [] f1 = Ok (results, g)"
    and fin: "finish_for M results g = Ok f'"
    using run es
    by (auto simp: handle_apply_def handle_raft_committed_entries_def take_entries_def Let_def res_simps f1_def d1_def
        split: if_splits)
  have f1: "ad_apply_state (af_delegate f1) = ?a1" "ad_region (af_delegate f1) = ad_region ?d" "af_kv f1 = af_kv f"
    "af_notified f1 = af_notified f" "ax_apply_res (af_ctx f1) = ax_apply_res (af_ctx f)"
    "ax_kv_wb (af_ctx f1) = ax_kv_wb (af_ctx f)"
    by (simp_all add: f1_def d1_def append_proposal_same)
  have "apply_frame f1 g \<and> truncates ?a1 (ad_apply_state (af_delegate g)) \<and>
    ras_applied_index (ad_apply_state (af_delegate g)) = ent_index (last ?es) \<and>
    ras_applied_index ?a < ras_applied_index (ad_apply_state (af_delegate g)) \<and>
    (\<forall>r \<in> set results. result_index r \<le> trunc_idx (ad_apply_state (af_delegate g)))"
    using committed_entries_loop_effect [OF loop, of n] bound es by (auto simp: f1)
  moreover have "get_truncated_state ?a1 = get_truncated_state ?a" by (simp add: get_truncated_state_def)
  ultimately show ?thesis
    using fin f1 es unfolding finish_for_def commit_opt_def task_effect_def truncates_def apply_frame_def
    by (auto simp: Let_def write_apply_state_def cw_defs)
qed

lemma ctx_flush_effect:
  assumes "ctx_flush M f = Ok (b, f')"
  shows "f' = f \<or>
    af_delegate f' = af_delegate f \<and> cw_ops (ax_kv_wb (af_ctx f')) = [] \<and>
    af_notified f' = af_notified f @ ax_apply_res (af_ctx f) \<and> ax_apply_res (af_ctx f') = [] \<and>
    (af_kv f' = cw_write_opt (m_rocksdb M) (af_kv f) (ax_kv_wb (af_ctx f)) \<or>
     cw_ops (ax_kv_wb (af_ctx f)) = [] \<and> af_kv f' = af_kv f)"
  using assms
  by (auto simp: ctx_flush_def write_to_db_def res_simps Let_def send_replies_def cw_defs split: if_splits)

section \<open>Deleting compacted entries\<close>

text \<open>Entries of the log that are gone from the engine.\<close>

definition without_entries :: "'db mq_crates \<Rightarrow> u64 \<Rightarrow> u64 set \<Rightarrow> (bytes \<rightharpoonup> bytes) \<Rightarrow> (bytes \<rightharpoonup> bytes)" where
  "without_entries M r A m = (\<lambda>k. if k \<in> raft_log_key (m_byteorder M) r ` A then None else m k)"

context mq_spec
begin

lemma without_no_entries: "without_entries M r {} m = m"
  by (simp add: without_entries_def)

lemma without_entries_Un: "without_entries M r A (without_entries M r B m) = without_entries M r (A \<union> B) m"
  by (simp add: without_entries_def image_Un fun_eq_iff)

lemma log_gc_view:
  assumes "log_gc (m_rocksdb M) (m_byteorder M) db r from_idx to_idx = (res, db')"
  shows "\<exists>A. (\<forall>i \<in> A. i < to_idx) \<and> view db' = without_entries M r A (view db)"
proof -
  define P where "P db' \<longleftrightarrow> (\<exists>A. (\<forall>i \<in> A. i < to_idx) \<and> view db' = without_entries M r A (view db))" for db'
  have none: "P db" unfolding P_def by (intro exI [of _ "{}"]) (simp add: without_no_entries)
  have run: "\<not> wb_is_empty wb \<Longrightarrow> P (write_opt (m_rocksdb M) db1 wb)" "wb_is_empty wb \<Longrightarrow> P db1"
    if "gc_loop (m_rocksdb M) (m_byteorder M) r (map of_nat [unat f..<unat to_idx]) (db, []) = (db1, wb)" for f :: u64 and db1 wb
    unfolding P_def using raft.gc_run_view [OF that]
    by (intro exI [of _ "set (index_range f to_idx)"]; simp add: without_entries_def index_range_def [symmetric])+
  have "P db'"
    using assms none run
    by (auto simp: log_gc_def Let_def bind_st_def split: if_splits option.splits res.splits prod.splits)
  then show ?thesis by (simp add: P_def)
qed

lemma gc_run_tasks_view:
  assumes "gc_run_tasks M tasks self = Ok self'" "\<forall>t \<in> set tasks. gt_region_id t = r \<and> gt_end_idx t \<le> to_idx"
  shows "\<exists>A. (\<forall>i \<in> A. i < to_idx) \<and> view (gr_raft self') = without_entries M r A (view (gr_raft self)) \<and>
    gr_tasks self' = gr_tasks self"
  using assms
proof (induction tasks arbitrary: self)
  case Nil
  then show ?case by (intro exI [of _ "{}"]) (simp add: without_no_entries)
next
  case (Cons t tasks)
  obtain a b where t: "t = Task_Gc r a b" "b \<le> to_idx" using Cons.prems(2) by (cases t) simp
  obtain res :: "(unit, nat) res" and db where gc: "log_gc (m_rocksdb M) (m_byteorder M) (gr_raft self) r a b = (res, db)" by fastforce
  obtain A where A: "\<forall>i \<in> A. i < b" "view db = without_entries M r A (view (gr_raft self))"
    using log_gc_view [OF gc] by blast
  obtain n where rest: "gc_run_tasks M tasks (report_collected n (self\<lparr>gr_raft := db\<rparr>)) = Ok self'"
    using Cons.prems(1) gc t(1) by (auto simp: gc_raft_log_def split: res.splits)
  obtain B where B: "\<forall>i \<in> B. i < to_idx" "view (gr_raft self') = without_entries M r B (view db)" "gr_tasks self' = gr_tasks self"
    using Cons.IH [OF rest] Cons.prems(2) by (auto simp: report_collected_def)
  have "\<forall>i \<in> B \<union> A. i < to_idx" using A(1) B(1) t(2) by (meson Un_iff less_le_trans)
  then show ?case using A(2) B(2,3) without_entries_Un by (intro exI [of _ "B \<union> A"]) simp
qed

end

section \<open>A storage that can be opened again\<close>

text \<open>\<open>kept\<close>: the entry the apply state refers to as committed is not truncated while the raft state does
  not know that it is committed.\<close>

definition kept :: "raft_local_state \<Rightarrow> raft_apply_state \<Rightarrow> bool" where
  "kept st ast \<longleftrightarrow> (hs_commit st < ras_commit_index ast \<longrightarrow> trunc_idx ast < ras_commit_index ast)"

definition store_ok :: "peer_storage \<Rightarrow> raft_local_state \<Rightarrow> raft_apply_state \<Rightarrow> (u64 \<rightharpoonup> entry) \<Rightarrow> bool" where
  "store_ok s st ast L \<longleftrightarrow> disk_ok st ast L \<and> peer_mem s st ast L \<and> kept st ast"

context mq_spec
begin

lemma store_ok_cong:
  "ps_raft_state s' = ps_raft_state s \<Longrightarrow> ps_last_term s' = ps_last_term s \<Longrightarrow> store_ok s st ast L \<Longrightarrow> store_ok s' st ast L"
  by (simp add: store_ok_def peer_mem_def)

lemma opened_store_ok:
  assumes "disk_ok st ast L" "kept st ast"
  shows "store_ok (opened_storage peer_id region st ast L) st ast L"
  using assms by (simp add: store_ok_def peer_mem_def opened_storage_def disk_ok_def)

lemma store_ok_commit:
  assumes "store_ok s st ast L" "set_commit_index s c = Ok s'" "c \<le> ps_last_index s"
  shows "store_ok s' st ast L"
proof -
  have mem: "peer_mem s st ast L" using assms(1) by (simp add: store_ok_def)
  have s': "s' = s\<lparr>ps_raft_state := with_commit (ps_raft_state s) c\<rparr>" "hs_commit (ps_raft_state s) \<le> c"
    using assms(2) by (auto simp: set_commit_index_def with_commit_def ps_commit_index_def split: if_splits)
  have "with_commit (with_commit st d) c = with_commit st c" for d
    by (simp add: with_commit_def get_hard_state_def)
  then have "peer_mem s' st ast L"
    using mem s' assms(3) peer_mem_last(2) [OF mem] unfolding peer_mem_def
    by simp (metis order_trans)
  with assms(1) show ?thesis by (simp add: store_ok_def)
qed

lemma store_ok_gc:
  assumes "store_ok s st ast L" "\<forall>i \<in> A. i \<le> trunc_idx ast"
  shows "store_ok s st ast (L |` (- A))"
proof -
  have same: "(L |` (- A)) i = L i" if "trunc_idx ast < i" for i
    using that assms(2) by (auto simp: restrict_map_def)
  have "log_term ast (L |` (- A)) i = log_term ast L i" if "trunc_idx ast \<le> i" for i
    using same [of i] that by (simp add: log_term_def)
  then have "peer_mem s st ast (L |` (- A))" "disk_ok st ast (L |` (- A))"
    using assms(1) same unfolding store_ok_def peer_mem_def disk_ok_def kept_def by auto
  with assms(1) show ?thesis by (simp add: store_ok_def)
qed

lemma store_ok_ready:
  assumes ok: "store_ok s st ast L" and rd: "ready_wf (ps_raft_state s) rd"
  shows "store_ok (fst (write_ready M s rd raft)) (saved_state s st rd) ast (ready_log L st rd)"
proof -
  have mem: "peer_mem s st ast L" and disk: "disk_ok st ast L" and "kept st ast" using ok by (simp_all add: store_ok_def)
  have "hs_commit st \<le> hs_commit (ps_raft_state s)"
    using mem unfolding peer_mem_def known_commit_def by simp
  then have "hs_commit st \<le> hs_commit (saved_state s st rd)"
    using ready_state_simps(2) [OF mem disk rd] by (simp add: saved_state_def) (meson order_trans)
  then have "kept (saved_state s st rd) ast" using \<open>kept st ast\<close> unfolding kept_def by (meson le_less_trans)
  with ready_ok [OF mem disk rd] show ?thesis by (simp add: store_ok_def)
qed

text \<open>Entries of a task are in the log and committed.\<close>

lemma store_ok_task:
  assumes ok: "store_ok s st (ad_apply_state (af_delegate f)) L" and eff: "task_effect M es f f'"
    and log: "L (ent_index (last es)) = Some (last es)" "ent_index (last es) \<le> hs_commit (ps_raft_state s)"
    and tm: "ent_term (last es) \<le> hst_term (get_hard_state st)"
  shows "store_ok s st (ad_apply_state (af_delegate f')) L"
proof -
  let ?a = "ad_apply_state (af_delegate f)" and ?a' = "ad_apply_state (af_delegate f')"
  have mem: "peer_mem s st ?a L" and disk: "disk_ok st ?a L" using ok by (simp_all add: store_ok_def)
  have a': "ras_applied_index ?a' = ent_index (last es)" "ras_applied_index ?a < ent_index (last es)"
    "ras_commit_index ?a' = ent_index (last es)" "ras_commit_term ?a' = ent_term (last es)"
    and tr: "get_truncated_state ?a' = get_truncated_state ?a \<or> trunc_idx ?a < trunc_idx ?a' \<and> trunc_idx ?a' < ent_index (last es)"
    using eff unfolding task_effect_def Let_def by auto
  have chain: "RAFT_INIT_LOG_INDEX \<le> trunc_idx ?a" "trunc_idx ?a \<le> ras_applied_index ?a"
    "trunc_idx ?a = RAFT_INIT_LOG_INDEX \<longrightarrow> rts_term (get_truncated_state ?a) = RAFT_INIT_LOG_TERM"
    "rlo_last_index st < - 1" "\<And>i. trunc_idx ?a < i \<Longrightarrow> i \<le> rlo_last_index st \<Longrightarrow> L i \<noteq> None"
    "known_commit st ?a \<le> hs_commit (ps_raft_state s)" "hs_commit (ps_raft_state s) \<le> rlo_last_index st"
    using disk mem unfolding disk_ok_def peer_mem_def by blast+
  have trunc: "trunc_idx ?a \<le> trunc_idx ?a'" "trunc_idx ?a' < ent_index (last es)"
    using tr chain(2) a'(2) by (auto intro: le_less_trans)
  have known: "known_commit st ?a' \<le> hs_commit (ps_raft_state s)" "ent_index (last es) \<le> known_commit st ?a'"
    using chain(6) log(2) by (simp_all add: known_commit_def a'(3))
  have "disk_ok st ?a' L"
    unfolding disk_ok_def a'
    using chain(1,3,4,5) trunc tr log(1) tm known chain(7) order_trans [OF known(1) chain(7)] order_trans [OF chain(1) trunc(1)]
    by (auto intro: le_less_trans)
  moreover have "log_term ?a' L (rlo_last_index st) = log_term ?a L (rlo_last_index st)"
  proof -
    have "ent_index (last es) \<le> rlo_last_index st" using log(2) chain(7) by (rule order_trans)
    then have "rlo_last_index st \<noteq> trunc_idx ?a'" "rlo_last_index st \<noteq> trunc_idx ?a" using trunc by auto
    then show ?thesis by (simp add: log_term_def)
  qed
  ultimately show ?thesis
    using mem known(1) trunc(2) unfolding store_ok_def peer_mem_def kept_def by (simp add: a'(3))
qed

end

end
