(* ===== verification/Store_System.thy ===== *)
theory Store_System
  imports Store_Effects
begin

text \<open>
  One raft store as a transition system: the peer with its storage, the apply thread, the worker that deletes compacted
  entries, and the two engines they write to. A step is an operation of one of them, or a crash with a restart. What the
  raft package promises of a \<open>Ready\<close> and of the entries it hands over as committed are conditions of the steps.
\<close>

record ('db, 'g, 'r) store_sys =
  sy_peer :: "('g, 'r) peer_fsm"
  sy_apply :: "('db, 'r) apply_fsm"
  sy_gc :: "'db gc_runner"

abbreviation sy_store :: "('db, 'g, 'r) store_sys \<Rightarrow> peer_storage" where
  "sy_store S \<equiv> pf_store (sy_peer S)"

abbreviation sy_applied :: "('db, 'g, 'r) store_sys \<Rightarrow> raft_apply_state" where
  "sy_applied S \<equiv> ad_apply_state (af_delegate (sy_apply S))"

definition sy_engines :: "('db, 'g, 'r) store_sys \<Rightarrow> 'db engines" where
  "sy_engines S = \<lparr>eng_kv = af_kv (sy_apply S), eng_raft = gr_raft (sy_gc S)\<rparr>"

text \<open>\<open>spawn_ex\<close> and \<open>start_system\<close> of \<^verbatim>\<open>store.rs\<close> set up the three threads for an opened peer.\<close>

definition start_system :: "'g raft_node \<Rightarrow> 'db engines \<Rightarrow> ('g, 'r) peer_fsm \<Rightarrow> ('db, 'g, 'r) store_sys" where
  "start_system R engines f =
     \<lparr>sy_peer = f,
      sy_apply = \<lparr>af_delegate = registration_of (rn_term (rw_api R) (pf_group f)) (pf_store f), af_ctx = apply_ctx_new,
        af_kv = eng_kv engines, af_replies = [], af_notified = []\<rparr>,
      sy_gc = \<lparr>gr_tasks = [], gr_raft = eng_raft engines, gr_reported = None\<rparr>\<rparr>"

text \<open>The entries of a task are in the log and committed, and their terms do not exceed the current one.\<close>

definition committed_task :: "'db mq_crates \<Rightarrow> ('db, 'g, 'r) store_sys \<Rightarrow> 'r apply_task \<Rightarrow> bool" where
  "committed_task M S task \<longleftrightarrow>
     (\<forall>e \<in> set (ce_entries (at_entries task)).
        raft_entry_at M (sy_engines S) 1 (ent_index e) = (Ok (Some e) :: (unit, _) res) \<and>
        ent_index e \<le> hs_commit (ps_raft_state (sy_store S)) \<and>
        ent_term e \<le> hst_term (get_hard_state (ps_raft_state (sy_store S))))"

inductive store_step ::
    "'g raft_node \<Rightarrow> 'db mq_crates \<Rightarrow> (mq_error \<Rightarrow> string) \<Rightarrow> u64 \<Rightarrow> ('db, 'g, 'r) store_sys \<Rightarrow> ('db, 'g, 'r) store_sys \<Rightarrow> bool"
  for R M fmt store_id where
  ready: "ready_wf (ps_raft_state (sy_store S)) rd \<Longrightarrow>
    write_ready M (sy_store S) rd (gr_raft (sy_gc S)) = (s', raft') \<Longrightarrow>
    store_step R M fmt store_id S
      (S\<lparr>sy_peer := (sy_peer S)\<lparr>pf_store := s'\<rparr>, sy_gc := (sy_gc S)\<lparr>gr_raft := raft'\<rparr>\<rparr>)"
| commit: "c \<le> ps_last_index (sy_store S) \<Longrightarrow> set_commit_index (sy_store S) c = (Ok s' :: (unit, _) res) \<Longrightarrow>
    store_step R M fmt store_id S (S\<lparr>sy_peer := (sy_peer S)\<lparr>pf_store := s'\<rparr>\<rparr>)"
| task: "committed_task M S t \<Longrightarrow> handle_apply M fmt t (sy_apply S) = Ok f' \<Longrightarrow>
    store_step R M fmt store_id S (S\<lparr>sy_apply := f'\<rparr>)"
| flush: "ctx_flush M (sy_apply S) = Ok (b, f') \<Longrightarrow>
    store_step R M fmt store_id S (S\<lparr>sy_apply := f'\<rparr>)"
| result: "af_notified (sy_apply S) = r # rs \<Longrightarrow>
    store_step R M fmt store_id S
      (S\<lparr>sy_peer := on_apply_res (rw_api R) r (sy_peer S), sy_apply := (sy_apply S)\<lparr>af_notified := rs\<rparr>\<rparr>)"
| gc: "pf_gc_scheduler (sy_peer S) = t # ts \<Longrightarrow> gc_run M t (sy_gc S) = Ok g' \<Longrightarrow>
    store_step R M fmt store_id S (S\<lparr>sy_peer := (sy_peer S)\<lparr>pf_gc_scheduler := ts\<rparr>, sy_gc := g'\<rparr>)"
| gc_flush: "gc_flush M (sy_gc S) = Ok g' \<Longrightarrow>
    store_step R M fmt store_id S (S\<lparr>sy_gc := g'\<rparr>)"
| other: "pf_store p = sy_store S \<Longrightarrow> pf_gc_scheduler p = pf_gc_scheduler (sy_peer S) \<Longrightarrow>
    store_step R M fmt store_id S (S\<lparr>sy_peer := p\<rparr>)"
| restart: "store_init R M store_id (sy_engines S) = Ok f \<Longrightarrow>
    store_step R M fmt store_id S (start_system R (sy_engines S) f)"

text \<open>The states after the node was bootstrapped on the engines \<open>engines\<close> and started.\<close>

inductive store_reachable ::
    "'g raft_node \<Rightarrow> 'db mq_crates \<Rightarrow> (mq_error \<Rightarrow> string) \<Rightarrow> mq_node \<Rightarrow> 'db engines \<Rightarrow> ('db, 'g, 'r) store_sys \<Rightarrow> bool"
  for R M fmt self engines where
  start: "try_bootstrap_store M self engines = Ok engines' \<Longrightarrow> store_init R M (nd_store_id self) engines' = Ok f \<Longrightarrow>
    store_reachable R M fmt self engines (start_system R engines' f)"
| step: "store_reachable R M fmt self engines S \<Longrightarrow> store_step R M fmt (nd_store_id self) S S' \<Longrightarrow>
    store_reachable R M fmt self engines S'"

section \<open>The invariant\<close>

definition results_within :: "u64 \<Rightarrow> apply_res list \<Rightarrow> bool" where
  "results_within t rs \<longleftrightarrow> (\<forall>r \<in> set rs. \<forall>x \<in> set (ar_exec_res r). result_index x \<le> t)"

definition tasks_within :: "u64 \<Rightarrow> gc_task list \<Rightarrow> bool" where
  "tasks_within t ts \<longleftrightarrow> (\<forall>x \<in> set ts. gt_region_id x = 1 \<and> gt_end_idx x \<le> t + 1)"

definition apply_le :: "raft_apply_state \<Rightarrow> raft_apply_state \<Rightarrow> bool" where
  "apply_le a b \<longleftrightarrow> trunc_idx a \<le> trunc_idx b \<and> ras_applied_index a \<le> ras_applied_index b"

text \<open>What is applied stays in the log until it is truncated.\<close>

definition log_grows ::
    "raft_apply_state \<Rightarrow> (u64 \<rightharpoonup> entry) \<Rightarrow> raft_apply_state \<Rightarrow> (u64 \<rightharpoonup> entry) \<Rightarrow> bool" where
  "log_grows ast L ast' L' \<longleftrightarrow>
     apply_le ast ast' \<and> (\<forall>i. trunc_idx ast' < i \<and> i \<le> ras_applied_index ast \<longrightarrow> L' i = L i)"

text \<open>What the apply thread has not written yet is its apply state.\<close>

definition pending_state :: "'db mq_crates \<Rightarrow> raft_apply_state \<Rightarrow> ('db, 'r) apply_fsm \<Rightarrow> bool" where
  "pending_state M ast f \<longleftrightarrow>
     (let a = ad_apply_state (af_delegate f); ops = cf_ops CF_RAFT (cw_ops (ax_kv_wb (af_ctx f)));
          put = (\<lambda>a. WbPut (apply_state_key (m_byteorder M) 1) (rp_apply_state_write (m_proto M) a))
      in (if ops = [] then a = ast else last ops = put a) \<and> set ops \<subseteq> range put)"

definition store_inv ::
    "'db mq_crates \<Rightarrow> ('db \<Rightarrow> bytes \<rightharpoonup> bytes) \<Rightarrow> region \<Rightarrow> ('db, 'g, 'r) store_sys \<Rightarrow>
     raft_local_state \<Rightarrow> raft_apply_state \<Rightarrow> (u64 \<rightharpoonup> entry) \<Rightarrow> bool" where
  "store_inv M view region S st ast L \<longleftrightarrow>
     ps_region (sy_store S) = region \<and> ad_region (af_delegate (sy_apply S)) = region \<and>
     view (eng_kv (sy_engines S) CF_RAFT) (region_state_key (m_byteorder M) 1) =
       Some (rp_region_state_write (m_proto M) \<lparr>rgl_region = Some region\<rparr>) \<and>
     peer_disk M view (sy_engines S) 1 st ast L \<and>
     store_ok (sy_store S) st ast L \<and> store_ok (sy_store S) st (sy_applied S) L \<and>
     apply_le ast (sy_applied S) \<and> pending_state M ast (sy_apply S) \<and>
     results_within (trunc_idx ast) (af_notified (sy_apply S)) \<and>
     results_within (trunc_idx (sy_applied S)) (ax_apply_res (af_ctx (sy_apply S))) \<and>
     tasks_within (trunc_idx ast) (pf_gc_scheduler (sy_peer S)) \<and> tasks_within (trunc_idx ast) (gr_tasks (sy_gc S))"

lemma results_within_simps [simp]:
  "results_within t []" "results_within t (xs @ ys) \<longleftrightarrow> results_within t xs \<and> results_within t ys"
  "results_within t (r # rs) \<longleftrightarrow> (\<forall>x \<in> set (ar_exec_res r). result_index x \<le> t) \<and> results_within t rs"
  by (auto simp: results_within_def)

lemma tasks_within_simps [simp]:
  "tasks_within t []" "tasks_within t (xs @ ys) \<longleftrightarrow> tasks_within t xs \<and> tasks_within t ys"
  "tasks_within t (x # xs) \<longleftrightarrow> gt_region_id x = 1 \<and> gt_end_idx x \<le> t + 1 \<and> tasks_within t xs"
  by (auto simp: tasks_within_def)

lemma results_within_mono: "results_within t rs \<Longrightarrow> t \<le> t' \<Longrightarrow> results_within t' rs"
  unfolding results_within_def by (meson order_trans)

lemma tasks_within_mono: "tasks_within t ts \<Longrightarrow> t \<le> t' \<Longrightarrow> t' < - 1 \<Longrightarrow> tasks_within t' ts"
proof -
  assume a: "tasks_within t ts" "t \<le> t'" "t' < - 1"
  then have "t + 1 \<le> t' + 1" by unat_arith
  with a(1) show ?thesis unfolding tasks_within_def by (meson order_trans)
qed

lemma apply_le_refl [simp]: "apply_le a a"
  by (simp add: apply_le_def)

lemma apply_le_trans: "apply_le a b \<Longrightarrow> apply_le b c \<Longrightarrow> apply_le a c"
  by (auto simp: apply_le_def)

lemma log_grows_refl [simp]: "log_grows ast L ast L"
  by (simp add: log_grows_def)

lemma log_grows_trans: "log_grows a K b L \<Longrightarrow> log_grows b L c M \<Longrightarrow> log_grows a K c M"
  unfolding log_grows_def apply_le_def by (metis le_less_trans order_trans)

lemmas store_inv_defs = store_inv_def sy_engines_def

context mq_spec
begin

lemma inv_ready:
  assumes inv: "store_inv M view region S st ast L" "rg_id region = 1"
    and rd: "ready_wf (ps_raft_state (sy_store S)) rd"
    and wr: "write_ready M (sy_store S) rd (gr_raft (sy_gc S)) = (s', raft')"
  shows "store_inv M view region (S\<lparr>sy_peer := (sy_peer S)\<lparr>pf_store := s'\<rparr>, sy_gc := (sy_gc S)\<lparr>gr_raft := raft'\<rparr>\<rparr>)
    (saved_state (sy_store S) st rd) ast (ready_log L st rd)"
    and "log_grows ast L ast (ready_log L st rd)"
proof -
  have ok: "store_ok (sy_store S) st ast L" "store_ok (sy_store S) st (sy_applied S) L" and region: "ps_region (sy_store S) = region"
    and disk: "peer_disk M view (sy_engines S) 1 st ast L"
    using inv(1) by (simp_all add: store_inv_def)
  have "peer_disk M view ((sy_engines S)\<lparr>eng_raft := snd (write_ready M (sy_store S) rd (eng_raft (sy_engines S)))\<rparr>) 1
    (saved_state (sy_store S) st rd) ast (ready_log L st rd)"
    using ready_disk [of "sy_engines S" "sy_store S" st ast L rd] disk ok(1) rd region inv(2)
    by (simp add: store_ok_def)
  moreover have "ps_region s' = region"
    using wr region by (auto simp: write_ready_def handle_raft_ready_eq post_ready_def)
  ultimately show "store_inv M view region (S\<lparr>sy_peer := (sy_peer S)\<lparr>pf_store := s'\<rparr>, sy_gc := (sy_gc S)\<lparr>gr_raft := raft'\<rparr>\<rparr>)
    (saved_state (sy_store S) st rd) ast (ready_log L st rd)"
    using inv(1) store_ok_ready [OF ok(1) rd, of "gr_raft (sy_gc S)"] store_ok_ready [OF ok(2) rd, of "gr_raft (sy_gc S)"] wr
    by (simp add: store_inv_defs)
  have mem: "peer_mem (sy_store S) st ast L" and dok: "disk_ok st ast L" using ok(1) by (simp_all add: store_ok_def)
  have "ras_applied_index ast \<le> hs_commit (ps_raft_state (sy_store S))"
    using mem dok unfolding peer_mem_def disk_ok_def by (blast intro: order_trans)
  then show "log_grows ast L ast (ready_log L st rd)"
    using ready_log_simps(1) [OF mem dok rd] unfolding log_grows_def by (meson apply_le_refl order_trans)
qed

lemma inv_commit:
  assumes "store_inv M view region S st ast L"
    and "c \<le> ps_last_index (sy_store S)" "set_commit_index (sy_store S) c = (Ok s' :: (unit, _) res)"
  shows "store_inv M view region (S\<lparr>sy_peer := (sy_peer S)\<lparr>pf_store := s'\<rparr>\<rparr>) st ast L"
proof -
  have "ps_region s' = ps_region (sy_store S)" using assms(3) by (auto simp: set_commit_index_def split: if_splits)
  then show ?thesis using assms store_ok_commit [OF _ assms(3,2)] by (simp add: store_inv_defs)
qed

lemma inv_task:
  assumes inv: "store_inv M view region S st ast L" "rg_id region = 1"
    and task: "committed_task M S t" and run: "handle_apply M fmt t (sy_apply S) = Ok f'"
  shows "store_inv M view region (S\<lparr>sy_apply := f'\<rparr>) st ast L"
proof -
  let ?es = "ce_entries (at_entries t)" and ?a' = "ad_apply_state (af_delegate f')"
  have ok: "store_ok (sy_store S) st ast L" "store_ok (sy_store S) st (sy_applied S) L"
    and disk: "peer_disk M view (sy_engines S) 1 st ast L" and region: "ad_region (af_delegate (sy_apply S)) = region"
    and pend: "pending_state M ast (sy_apply S)" and le: "apply_le ast (sy_applied S)"
    using inv(1) by (simp_all add: store_inv_def)
  have mem: "peer_mem (sy_store S) st (sy_applied S) L" and dok: "disk_ok st (sy_applied S) L"
    using ok(2) by (simp_all add: store_ok_def)
  have bound: "ras_applied_index (sy_applied S) \<le> rlo_last_index st" "rlo_last_index st < - 1"
    "hs_commit (ps_raft_state (sy_store S)) \<le> rlo_last_index st"
    using mem dok unfolding peer_mem_def disk_ok_def by (blast intro: order_trans)+
  have entries: "L (ent_index e) = Some e" "ent_index e \<le> hs_commit (ps_raft_state (sy_store S))"
    "ent_term e \<le> hst_term (get_hard_state st)" if "e \<in> set ?es" for e
    using task that raft_entry_at [OF disk, where 'a = unit] peer_mem_last(3) [OF mem] unfolding committed_task_def by auto
  have eff: "task_effect M ?es (sy_apply S) f'"
    using handle_apply_effect [OF run bound(1,2)] entries(2) bound(3) by (meson order_trans)
  then have last: "last ?es \<in> set ?es" unfolding task_effect_def by (simp add: Let_def)
  have ok': "store_ok (sy_store S) st ?a' L"
    using store_ok_task [OF ok(2) eff] entries [OF last] by blast
  have le': "apply_le (sy_applied S) ?a'" using eff unfolding task_effect_def apply_le_def Let_def by auto
  then have trunc: "trunc_idx (sy_applied S) \<le> trunc_idx ?a'" by (simp add: apply_le_def)
  have "results_within (trunc_idx ?a') (ax_apply_res (af_ctx (sy_apply S)))"
    using inv(1) results_within_mono [OF _ trunc] by (simp add: store_inv_def)
  then have "results_within (trunc_idx ?a') (ax_apply_res (af_ctx f'))"
    using eff unfolding task_effect_def results_within_def Let_def by auto
  moreover have "pending_state M ast f'"
    using pend eff inv(2) region unfolding pending_state_def task_effect_def Let_def by auto
  ultimately show ?thesis
    using inv(1) eff ok' apply_le_trans [OF le le'] unfolding store_inv_defs task_effect_def Let_def by simp
qed

lemma flushed_state:
  assumes "pending_state M ast f"
  shows "apply_ops (cf_ops CF_RAFT (cw_ops (ax_kv_wb (af_ctx f)))) m (apply_state_key (m_byteorder M) 1) =
      (if cf_ops CF_RAFT (cw_ops (ax_kv_wb (af_ctx f))) = [] then m (apply_state_key (m_byteorder M) 1)
       else Some (rp_apply_state_write (m_proto M) (ad_apply_state (af_delegate f))))"
    and "apply_ops (cf_ops CF_RAFT (cw_ops (ax_kv_wb (af_ctx f)))) m (region_state_key (m_byteorder M) 1) =
      m (region_state_key (m_byteorder M) 1)"
proof -
  let ?ops = "cf_ops CF_RAFT (cw_ops (ax_kv_wb (af_ctx f)))"
  have puts: "set ?ops \<subseteq> range (\<lambda>a. WbPut (apply_state_key (m_byteorder M) 1) (rp_apply_state_write (m_proto M) a))"
    and last: "?ops \<noteq> [] \<Longrightarrow> last ?ops = WbPut (apply_state_key (m_byteorder M) 1) (rp_apply_state_write (m_proto M) (ad_apply_state (af_delegate f)))"
    using assms by (auto simp: pending_state_def Let_def split: if_splits)
  show "apply_ops ?ops m (apply_state_key (m_byteorder M) 1) = (if ?ops = [] then m (apply_state_key (m_byteorder M) 1)
       else Some (rp_apply_state_write (m_proto M) (ad_apply_state (af_delegate f))))"
    using last by (cases ?ops rule: rev_cases) simp_all
  show "apply_ops ?ops m (region_state_key (m_byteorder M) 1) = m (region_state_key (m_byteorder M) 1)"
    using puts by (intro apply_ops_other) auto
qed

lemma inv_flush:
  assumes inv: "store_inv M view region S st ast L" and run: "ctx_flush M (sy_apply S) = Ok (b, f')"
  shows "\<exists>ast'. store_inv M view region (S\<lparr>sy_apply := f'\<rparr>) st ast' L \<and> log_grows ast L ast' L \<and>
    (f' = sy_apply S \<or> ast' = sy_applied S)"
proof (cases "f' = sy_apply S")
  case True
  with inv show ?thesis by (intro exI [of _ ast]) simp
next
  case False
  let ?f = "sy_apply S" and ?a = "sy_applied S"
  have f': "af_delegate f' = af_delegate ?f" "cw_ops (ax_kv_wb (af_ctx f')) = []"
    "af_notified f' = af_notified ?f @ ax_apply_res (af_ctx ?f)" "ax_apply_res (af_ctx f') = []"
    and kv: "af_kv f' = cw_write_opt (m_rocksdb M) (af_kv ?f) (ax_kv_wb (af_ctx ?f)) \<or>
      cw_ops (ax_kv_wb (af_ctx ?f)) = [] \<and> af_kv f' = af_kv ?f"
    using ctx_flush_effect [OF run] False by blast+
  have pend: "pending_state M ast ?f" and disk: "peer_disk M view (sy_engines S) 1 st ast L"
    and region: "view (af_kv ?f CF_RAFT) (region_state_key (m_byteorder M) 1) = Some (rp_region_state_write (m_proto M) \<lparr>rgl_region = Some region\<rparr>)"
    and le: "apply_le ast ?a" and tr: "trunc_idx ast \<le> trunc_idx ?a" "disk_ok st ?a L"
    using inv by (simp_all add: store_inv_defs store_ok_def apply_le_def)
  have view: "view (af_kv f' CF_RAFT) = apply_ops (cf_ops CF_RAFT (cw_ops (ax_kv_wb (af_ctx ?f)))) (view (af_kv ?f CF_RAFT))"
    using kv by (auto simp: view_cw_write)
  have "peer_disk M view \<lparr>eng_kv = af_kv f', eng_raft = gr_raft (sy_gc S)\<rparr> 1 st ?a L"
    using disk pend by (auto simp: peer_disk_def sy_engines_def view flushed_state [OF pend] pending_state_def Let_def split: if_splits)
  moreover have "trunc_idx ?a < - 1" using tr(2) unfolding disk_ok_def by (meson le_less_trans order_trans)
  ultimately have "store_inv M view region (S\<lparr>sy_apply := f'\<rparr>) st ?a L"
    using inv tr(1) region results_within_mono [OF _ tr(1)] tasks_within_mono [OF _ tr(1)]
    by (simp add: store_inv_defs f' view flushed_state(2) [OF pend] pending_state_def Let_def)
  with le show ?thesis by (auto simp: log_grows_def)
qed

lemma on_ready_result_effect:
  assumes "tasks_within t (pf_gc_scheduler f)" "\<forall>x \<in> set xs. result_index x \<le> t" "t < - 1" "pf_region_id f = 1"
  shows "tasks_within t (pf_gc_scheduler (on_ready_result xs f)) \<and> pf_store (on_ready_result xs f) = pf_store f"
  using assms
proof (induction xs f rule: on_ready_result.induct)
  case (2 state first_idx results f)
  have "rts_index state \<le> t" using 2(3) by simp
  then have "rts_index state + 1 \<le> t + 1" using 2(4) by unat_arith
  with 2 show ?case by (simp add: on_ready_compact_log_def Let_def pf_region_id_def)
qed simp

lemma inv_result:
  assumes inv: "store_inv M view region S st ast L" "rg_id region = 1" and res: "af_notified (sy_apply S) = r # rs"
  shows "store_inv M view region
    (S\<lparr>sy_peer := on_apply_res R r (sy_peer S), sy_apply := (sy_apply S)\<lparr>af_notified := rs\<rparr>\<rparr>) st ast L"
proof -
  have "disk_ok st ast L" using inv(1) by (simp add: store_inv_def store_ok_def)
  then have t: "trunc_idx ast < - 1" unfolding disk_ok_def by (meson le_less_trans order_trans)
  have xs: "\<forall>x \<in> set (ar_exec_res r). result_index x \<le> trunc_idx ast" and tasks: "tasks_within (trunc_idx ast) (pf_gc_scheduler (sy_peer S))"
    and region: "pf_region_id (sy_peer S) = 1"
    using inv res by (simp_all add: store_inv_def pf_region_id_def)
  note eff = on_ready_result_effect [OF tasks xs t region]
  let ?p = "on_apply_res R r (sy_peer S)"
  have p: "pf_store ?p = (sy_store S)\<lparr>ps_apply_state := ar_apply_state r, ps_applied_index_term := ar_applied_index_term r\<rparr>"
    "tasks_within (trunc_idx ast) (pf_gc_scheduler ?p)"
    using eff by (simp_all add: on_apply_res_def post_apply_def)
  have "store_ok (pf_store ?p) st a L" if "store_ok (sy_store S) st a L" for a
    using that by (rule store_ok_cong [rotated 2]) (simp_all add: p)
  then show ?thesis using inv(1) res p by (simp add: store_inv_defs pending_state_def Let_def)
qed

lemma peer_disk_gc:
  assumes "peer_disk M view engines r st ast L" "view raft' = without_entries M r A (view (eng_raft engines))"
  shows "peer_disk M view (engines\<lparr>eng_raft := raft'\<rparr>) r st ast (L |` (- A))"
  using assms raft_state_key_neq raft.raft_log_key_inject
  by (auto simp: peer_disk_def raft_log_map_def without_entries_def restrict_map_def image_iff dest: sym split: if_splits)

lemma inv_gc_tasks:
  assumes inv: "store_inv M view region S st ast L" "rg_id region = 1"
    and ts: "tasks_within (trunc_idx ast) ts" and run: "gc_run_tasks M ts (sy_gc S\<lparr>gr_tasks := []\<rparr>) = Ok g'"
  shows "\<exists>L'. store_inv M view region (S\<lparr>sy_gc := g'\<rparr>) st ast L' \<and> log_grows ast L ast L'"
proof -
  have ok: "store_ok (sy_store S) st ast L" "store_ok (sy_store S) st (sy_applied S) L" "apply_le ast (sy_applied S)"
    and disk: "peer_disk M view (sy_engines S) 1 st ast L"
    using inv(1) by (simp_all add: store_inv_def)
  have t: "trunc_idx ast < - 1" using ok(1) unfolding store_ok_def disk_ok_def by (meson le_less_trans order_trans)
  obtain A where A: "\<forall>i \<in> A. i < trunc_idx ast + 1" and view: "view (gr_raft g') = without_entries M 1 A (view (gr_raft (sy_gc S)))"
    and g': "gr_tasks g' = []"
    using gc_run_tasks_view [OF run, of 1 "trunc_idx ast + 1"] ts by (auto simp: tasks_within_def)
  have "i \<le> trunc_idx ast" if "i < trunc_idx ast + 1" for i using that t by unat_arith
  with A have below: "\<forall>i \<in> A. i \<le> trunc_idx ast" by blast
  have below': "\<forall>i \<in> A. i \<le> trunc_idx (sy_applied S)" using below ok(3) unfolding apply_le_def by (meson order_trans)
  have "peer_disk M view ((sy_engines S)\<lparr>eng_raft := gr_raft g'\<rparr>) 1 st ast (L |` (- A))"
    using peer_disk_gc [OF disk] view by (simp add: sy_engines_def)
  then have "store_inv M view region (S\<lparr>sy_gc := g'\<rparr>) st ast (L |` (- A))"
    using inv(1) store_ok_gc [OF ok(1) below] store_ok_gc [OF ok(2) below'] g' by (simp add: store_inv_defs)
  moreover have "log_grows ast L ast (L |` (- A))"
    using below unfolding log_grows_def by (auto simp: restrict_map_def)
  ultimately show ?thesis by blast
qed

lemma inv_gc_flush:
  assumes "store_inv M view region S st ast L" "rg_id region = 1" "gc_flush M (sy_gc S) = Ok g'"
  shows "\<exists>L'. store_inv M view region (S\<lparr>sy_gc := g'\<rparr>) st ast L' \<and> log_grows ast L ast L'"
  using inv_gc_tasks [OF assms(1,2), of "gr_tasks (sy_gc S)" g'] assms(1,3) by (simp add: gc_flush_def store_inv_def)

lemma inv_gc:
  assumes inv: "store_inv M view region S st ast L" "rg_id region = 1"
    and t: "pf_gc_scheduler (sy_peer S) = t # ts" and run: "gc_run M t (sy_gc S) = Ok g'"
  shows "\<exists>L'. store_inv M view region (S\<lparr>sy_peer := (sy_peer S)\<lparr>pf_gc_scheduler := ts\<rparr>, sy_gc := g'\<rparr>) st ast L' \<and>
    log_grows ast L ast L'"
proof -
  let ?g = "(sy_gc S)\<lparr>gr_tasks := gr_tasks (sy_gc S) @ [t]\<rparr>"
  let ?S = "S\<lparr>sy_peer := (sy_peer S)\<lparr>pf_gc_scheduler := ts\<rparr>, sy_gc := ?g\<rparr>"
  have S: "store_inv M view region ?S st ast L" using inv(1) t by (simp add: store_inv_defs)
  show ?thesis
  proof (cases "length (gr_tasks ?g) < MAX_GC_REGION_BATCH")
    case True
    with run have "g' = ?g" by (simp add: gc_run_def Let_def)
    with S show ?thesis by (intro exI [of _ L]) simp
  next
    case False
    with run have "gc_flush M (sy_gc ?S) = Ok g'" by (simp add: gc_run_def Let_def)
    then obtain L' where "store_inv M view region (?S\<lparr>sy_gc := g'\<rparr>) st ast L'" "log_grows ast L ast L'"
      using inv_gc_flush [OF S inv(2)] by blast
    then show ?thesis by (intro exI [of _ L']) simp
  qed
qed

text \<open>What \<open>store_init\<close> opens.\<close>

lemma store_init_storage:
  assumes "store_init R M store_id engines = Ok f" "rg_id region = 1"
    and "view (eng_kv engines CF_RAFT) (region_state_key (m_byteorder M) 1) =
      Some (rp_region_state_write (m_proto M) \<lparr>rgl_region = Some region\<rparr>)"
    and "peer_disk M view engines 1 st ast L" "disk_ok st ast L"
  shows "\<exists>peer_id. pf_store f = opened_storage peer_id region st ast L \<and> pf_gc_scheduler f = []"
proof -
  obtain p where "(case peer_new R M store_id engines region p of Ok f \<Rightarrow> Ok f | _ \<Rightarrow> Panic) = (Ok f :: (unit, _) res)"
    using assms(1,3)
    by (auto simp: store_init_def get_msg_cf_def get_value_cf_def get_view get_or_default_def peer_fsm_create_def bind_res_eq_Ok)
  then have p: "peer_new R M store_id engines region p = Ok f" by (auto split: res.splits)
  have "ps_new M engines region (pr_id p) = (Ok (opened_storage (pr_id p) region st ast L) :: peer_storage mq_result)"
    using assms(4,5) by (intro ps_new_ok) (simp_all add: assms(2))
  with p have "pf_store f = opened_storage (pr_id p) region st ast L \<and> pf_gc_scheduler f = []"
    by (auto simp: peer_new_def Let_def split: if_splits sum.splits)
  then show ?thesis by blast
qed

lemma inv_start:
  assumes run: "store_init R M store_id engines = Ok f" and region: "rg_id region = 1"
    and key: "view (eng_kv engines CF_RAFT) (region_state_key (m_byteorder M) 1) =
      Some (rp_region_state_write (m_proto M) \<lparr>rgl_region = Some region\<rparr>)"
    and disk: "peer_disk M view engines 1 st ast L" "disk_ok st ast L" "kept st ast"
  shows "store_inv M view region (start_system R engines f) st ast L"
proof -
  obtain peer_id where f: "pf_store f = opened_storage peer_id region st ast L" "pf_gc_scheduler f = []"
    using store_init_storage [OF run region key disk(1,2)] by blast
  moreover have "ps_apply_state (pf_store f) = ast" "ps_region (pf_store f) = region" by (simp_all add: f opened_storage_def)
  moreover have "peer_disk M view \<lparr>eng_kv = eng_kv engines, eng_raft = eng_raft engines\<rparr> 1 st ast L"
    using disk(1) by (simp add: peer_disk_def)
  ultimately show ?thesis
    using opened_store_ok [OF disk(2,3)] disk key
    by (simp add: store_inv_defs start_system_def registration_of_def delegate_from_registration_def apply_ctx_new_def
        pending_state_def cw_new_def)
qed

lemma store_step_inv:
  assumes step: "store_step R M fmt store_id S S'" and region: "rg_id region = 1" and inv: "store_inv M view region S st ast L"
  shows "\<exists>st' ast' L'. store_inv M view region S' st' ast' L' \<and> log_grows ast L ast' L'"
  using step
proof cases
  case (ready rd s' raft')
  then show ?thesis using inv_ready [OF inv region ready(2,3)] by blast
next
  case (commit c s')
  then show ?thesis using inv_commit [OF inv commit(2,3)] log_grows_refl by blast
next
  case (task t f')
  then show ?thesis using inv_task [OF inv region task(2,3)] log_grows_refl by blast
next
  case (flush b f')
  then show ?thesis using inv_flush [OF inv flush(2)] by blast
next
  case (result r rs)
  then show ?thesis using inv_result [OF inv region result(2)] log_grows_refl by blast
next
  case (gc t ts g')
  then show ?thesis using inv_gc [OF inv region gc(2,3)] by blast
next
  case (gc_flush g')
  then show ?thesis using inv_gc_flush [OF inv region gc_flush(2)] by blast
next
  case (other p)
  then have "store_inv M view region S' st ast L" using inv by (simp add: store_inv_defs)
  then show ?thesis using log_grows_refl by blast
next
  case (restart f)
  have "disk_ok st ast L" "kept st ast" using inv by (simp_all add: store_inv_def store_ok_def)
  then have "store_inv M view region S' st ast L"
    using inv_start [OF restart(2) region] inv restart(1) by (simp add: store_inv_def [of M view region S])
  then show ?thesis using log_grows_refl by blast
qed

lemma bootstrap_inv:
  assumes "try_bootstrap_store M self engines = Ok engines'" "store_init R M (nd_store_id self) engines' = Ok f"
    "fresh_engines M view engines"
  shows "store_inv M view (first_region (nd_cluster_size self)) (start_system R engines' f)
    initial_raft_state initial_apply_state Map.empty"
proof -
  let ?E = "bootstrap_store M engines (nd_cluster_id self) (nd_store_id self)"
  have engines': "engines' = prepare_bootstrap_cluster M ?E (first_region (nd_cluster_size self))"
    using assms(1,3)
    by (simp add: try_bootstrap_store_def check_store_view fresh_engines_def node_prepare_bootstrap_cluster_def Let_def)
  have "peer_disk M view engines' 1 initial_raft_state initial_apply_state Map.empty"
    using prepare_bootstrap_disk [of ?E "first_region (nd_cluster_size self)"] assms(3)
    by (simp add: engines' bootstrap_store_views fresh_engines_def)
  moreover have "kept initial_raft_state initial_apply_state"
    by (simp add: kept_def initial_apply_state_def default_raft_apply_state_def)
  ultimately show ?thesis
    using inv_start [OF assms(2), of "first_region (nd_cluster_size self)"] initial_disk_ok
    by (simp add: engines' prepare_bootstrap_views)
qed

lemma store_reachable_inv:
  assumes "store_reachable R M fmt self engines S" "fresh_engines M view engines"
  shows "\<exists>st ast L. store_inv M view (first_region (nd_cluster_size self)) S st ast L"
  using assms(1)
proof induction
  case (start engines' f)
  then show ?case using bootstrap_inv [OF start assms(2)] by blast
next
  case (step S S')
  then obtain st ast L where "store_inv M view (first_region (nd_cluster_size self)) S st ast L" by blast
  then show ?case using store_step_inv [OF step(2), of "first_region (nd_cluster_size self)"] by simp blast
qed

end

end
