(* ===== verification/Kv.thy ===== *)
theory Kv
  imports Raft_Loop Raft_Kv
begin

text \<open>
  \<^verbatim>\<open>dependencies/tiny-mq/src/kv.rs\<close>: the gRPC services of a raft store. They receive the messages of
  other peers, answer probes of the raft group, hand out ranges of the applied raft log and take payloads for the
  message queue. Streams are lists, and the channel of \<^verbatim>\<open>RaftRouter\<close> in \<^verbatim>\<open>store.rs\<close> is unbounded, so
  that sending on it appends a message.
\<close>

section \<open>Messages of other peers\<close>

definition router_send_raft_message :: "raft_message \<Rightarrow> 'r peer_msg" where
  "router_send_raft_message msg = PeerMsg_RaftMessage msg"

definition router_send_command :: "raft_cmd_request \<Rightarrow> 'r callback \<Rightarrow> 'r peer_msg" where
  "router_send_command req cb = PeerMsg_RaftCommand \<lparr>rc_request = req, rc_callback = cb\<rparr>"

text \<open>The stream ends with the first message for another store. The result is the message of the
  status, if there is one, and what was given to the peer.\<close>

fun kv_raft :: "(mq_error \<Rightarrow> string) \<Rightarrow> u64 \<Rightarrow> raft_message list \<Rightarrow> string option \<times> 'r peer_msg list" where
  "kv_raft fmt store_id [] = (None, [])"
| "kv_raft fmt store_id (msg # stream) =
     (let to_store_id = pr_store_id (get_or_default default_peer (rm_to_peer msg))
      in if to_store_id \<noteq> store_id
         then (Some (fmt (OtherError (''to_store_id != store_id, to_store_id is '' @ show_u64 to_store_id @
                 '', store_id is '' @ show_u64 store_id))), [])
         else let (status, sent) = kv_raft fmt store_id stream
              in (status, router_send_raft_message msg # sent))"

section \<open>Probes\<close>

record probe_response =
  prs_region :: "region option"
  prs_leader :: "peer option"
  prs_error :: string

definition probe_request :: "u64 \<Rightarrow> raft_cmd_request" where
  "probe_request store_id =
     (let header = default_raft_request_header\<lparr>rqh_region_id := 1,
                     rqh_peer := Some (default_peer\<lparr>pr_store_id := store_id\<rparr>)\<rparr>;
          status_request = default_status_request\<lparr>stq_cmd_type := RegionDetail\<rparr>
      in default_raft_cmd_request\<lparr>rcq_header := Some header, rcq_status_request := Some status_request\<rparr>)"

definition probe_result :: "raft_cmd_response \<Rightarrow> probe_response mq_result" where
  "probe_result r =
     (case rsh_error (get_response_header r) of
        Some e \<Rightarrow> Err (OtherError (rer_message e))
      | None \<Rightarrow>
          let detail = get_or_default default_region_detail_response
                (sts_region_detail (get_or_default default_status_response (rcs_status_response r)))
          in Ok \<lparr>prs_region = Some (get_or_default default_region (rdr_region detail)),
                 prs_leader = Some (get_or_default default_peer (rdr_leader detail)), prs_error = []\<rparr>)"

text \<open>The task sends the command and answers with what the callback is given.\<close>

definition probe :: "u64 \<Rightarrow> (probe_response mq_result) peer_msg" where
  "probe store_id = router_send_command (probe_request store_id) (Cb_Read (\<lambda>resp. Ok [probe_result resp]))"

section \<open>The raft log\<close>

record query_raft_log_entries_request =
  qlq_start :: u64
  qlq_end :: u64

record query_raft_log_entries_response =
  qls_entries :: "entry list"
  qls_first_log_index :: u64
  qls_last_log_index :: u64
  qls_error :: string

definition query_range_error :: "query_raft_log_entries_request \<Rightarrow> u64 \<Rightarrow> u64 \<Rightarrow> string" where
  "query_range_error req first_log_index last_log_index =
     (let start_index = max (qlq_start req) first_log_index; end_index = min (qlq_end req) last_log_index
      in ''Illegal Request. Max(Req's start index('' @ show_u64 (qlq_start req) @ ''), first_log_index('' @
         show_u64 first_log_index @ ''))=='' @ show_u64 start_index @ '' is greater than min(Req's end index('' @
         show_u64 (qlq_end req) @ ''), last_log_index('' @ show_u64 last_log_index @ ''))=='' @ show_u64 end_index)"

definition future_query_raft_log_entries ::
    "'db mq_crates \<Rightarrow> 'db engines \<Rightarrow> query_raft_log_entries_request \<Rightarrow> (unit, query_raft_log_entries_response) res" where
  "future_query_raft_log_entries M engines req =
     bind_res (get_msg_cf (m_rocksdb M) (rp_region_state_parse (m_proto M)) (eng_kv engines) CF_RAFT
       (region_state_key (m_byteorder M) 1)) (\<lambda>local_state.
     bind_res (unwrap local_state) (\<lambda>local_state.
     let region = get_or_default default_region (rgl_region local_state)
     in bind_res (init_apply_state M engines region) (\<lambda>apply_state.
        let first_log_index = rts_index (get_truncated_state apply_state) + 1;
            start_index = max (qlq_start req) first_log_index;
            last_log_index = ras_applied_index apply_state;
            end_index = min (qlq_end req) last_log_index;
            resp = \<lparr>qls_entries = [], qls_first_log_index = first_log_index, qls_last_log_index = last_log_index,
                    qls_error = []\<rparr>
        in if end_index < start_index
           then Ok (resp\<lparr>qls_error := query_range_error req first_log_index last_log_index\<rparr>)
           else bind_res (fetch_entries_to (m_rocksdb M) (m_byteorder M) (m_memory M) (raft_entry_of (m_proto M))
                  (eng_raft engines) 1 start_index (end_index + 1) None []) (\<lambda>(_, entries).
                Ok (resp\<lparr>qls_entries := entries\<rparr>)))))"

section \<open>The message queue\<close>

definition message_queue_reply :: "(mq_error \<Rightarrow> string) \<Rightarrow> message_queue_response mq_result \<Rightarrow> message_queue_response" where
  "message_queue_reply fmt v =
     (case v of
        Ok resp \<Rightarrow> resp
      | Err e \<Rightarrow> default_message_queue_response\<lparr>mqs_error := fmt e\<rparr>
      | Panic \<Rightarrow> default_message_queue_response)"

definition future_raw_message_queue ::
    "(mq_error \<Rightarrow> string) \<Rightarrow> message_queue_request \<Rightarrow> message_queue_response raft_command" where
  "future_raw_message_queue fmt req = raw_message_queue req (\<lambda>v. [message_queue_reply fmt v])"

end
