(* ===== verification/Store_Properties.thy ===== *)
theory Store_Properties
  imports Store_System Kv Message_Queue
begin

text \<open>
  What a raft store guarantees in every state it can reach: it can be restarted and loses nothing raft was told is
  persistent, applied entries stay as they are until they are compacted, and both ways of reading the log, by query
  and by consumer, return exactly its entries.
\<close>

section \<open>Reading the disk of a reachable state\<close>

definition disk_apply_state :: "'db mq_crates \<Rightarrow> ('db, 'g, 'r) store_sys \<Rightarrow> raft_apply_state \<Rightarrow> bool" where
  "disk_apply_state M S ast \<longleftrightarrow>
     init_apply_state M (sy_engines S) (ps_region (sy_store S)) = (Ok ast :: (unit, _) res)"

context mq_spec
begin

lemma inv_disk:
  "store_inv M view region S st ast L \<Longrightarrow> peer_disk M view (sy_engines S) 1 st ast L"
  "store_inv M view region S st ast L \<Longrightarrow> disk_ok st ast L"
  "store_inv M view region S st ast L \<Longrightarrow> ps_region (sy_store S) = region"
  by (simp_all add: store_inv_def store_ok_def)

lemma inv_init_apply_state:
  assumes "store_inv M view region S st ast L" "rg_id region = 1"
  shows "init_apply_state M (sy_engines S) region = Ok ast"
  using inv_disk(1) [OF assms(1)] by (intro init_states(2) [of _ _ st ast L]) (simp add: assms(2))

lemma inv_apply_state:
  assumes "store_inv M view region S st ast L" "rg_id region = 1"
  shows "disk_apply_state M S ast' \<longleftrightarrow> ast' = ast"
  by (auto simp: disk_apply_state_def inv_disk(3) [OF assms(1)] inv_init_apply_state [OF assms])

lemma region_state_read: "rp_region_state_parse (m_proto M) (rp_region_state_write (m_proto M) g) = Some g"
  by simp

lemma inv_entry:
  assumes "store_inv M view region S st ast L"
  shows "raft_entry_at M (sy_engines S) 1 i = (Ok (L i) :: (unit, _) res)"
  using inv_disk(1) [OF assms] by (rule raft_entry_at)

lemma restart_storage:
  assumes inv: "store_inv M view region S st ast L"
  shows "let s = opened_storage peer_id region st ast L
    in ps_last_index s = ps_last_index (sy_store S) \<and> ps_last_term s = ps_last_term (sy_store S) \<and>
       hst_term (get_hard_state (ps_raft_state s)) = hst_term (get_hard_state (ps_raft_state (sy_store S))) \<and>
       hst_vote (get_hard_state (ps_raft_state s)) = hst_vote (get_hard_state (ps_raft_state (sy_store S))) \<and>
       ras_applied_index (ps_apply_state s) \<le> ras_applied_index (sy_applied S) \<and>
       ras_applied_index (ps_apply_state s) \<le> ps_commit_index s \<and> ps_commit_index s \<le> ps_commit_index (sy_store S)"
proof -
  have mem: "peer_mem (sy_store S) st ast L" and ok: "disk_ok st ast L" and le: "apply_le ast (sy_applied S)"
    using inv by (simp_all add: store_inv_def store_ok_def)
  then have eq: "ps_raft_state (sy_store S) = with_commit st (hs_commit (ps_raft_state (sy_store S)))"
    and t: "ps_last_term (sy_store S) = log_term ast L (rlo_last_index st)"
    and c: "known_commit st ast \<le> hs_commit (ps_raft_state (sy_store S))"
    by (simp_all add: peer_mem_def)
  have vote: "hst_vote (get_hard_state (with_commit st d)) = hst_vote (get_hard_state st)" for d
    by (simp add: with_commit_def get_hard_state_def)
  have "hst_vote (get_hard_state (ps_raft_state (sy_store S))) = hst_vote (get_hard_state st)"
    by (subst eq) (rule vote)
  with peer_mem_last [OF mem] t c ok le show ?thesis
    by (simp add: opened_storage_def Let_def ps_last_index_def last_index_def ps_commit_index_def vote disk_ok_def apply_le_def)
qed

end

section \<open>Restarts\<close>


section \<open>Applied entries\<close>

context mq_spec
begin

lemma store_steps_inv:
  assumes "(store_step R M fmt store_id)\<^sup>*\<^sup>* S S'" "rg_id region = 1" "store_inv M view region S st ast L"
  shows "\<exists>st' ast' L'. store_inv M view region S' st' ast' L' \<and> log_grows ast L ast' L'"
  using assms(1)
proof induction
  case base
  then show ?case using assms(3) log_grows_refl by blast
next
  case (step S1 S2)
  then obtain st1 ast1 L1 where 1: "store_inv M view region S1 st1 ast1 L1" "log_grows ast L ast1 L1" by blast
  then show ?case using store_step_inv [OF step(2) assms(2) 1(1)] log_grows_trans [OF 1(2)] by blast
qed

end

text \<open>C10: Whatever a store does from a reachable state on, crashes and restarts included, the applied and the
  truncated index on disk never decrease, and an entry that is applied on disk stays in the raft log, unchanged, until the
  truncated index reaches it.\<close>

theorem applied_entries_stay:
  assumes spec: "mq_spec M view" and fresh: "fresh_engines M view engines"
    and reach: "store_reachable R M fmt self engines S" and steps: "(store_step R M fmt (nd_store_id self))\<^sup>*\<^sup>* S S'"
    and disk: "disk_apply_state M S ast" "disk_apply_state M S' ast'"
  shows "ras_applied_index ast \<le> ras_applied_index ast' \<and> trunc_idx ast \<le> trunc_idx ast' \<and>
    (\<forall>i. trunc_idx ast' < i \<and> i \<le> ras_applied_index ast \<longrightarrow>
      (\<exists>e. raft_entry_at M (sy_engines S) 1 i = (Ok (Some e) :: (unit, _) res) \<and>
           raft_entry_at M (sy_engines S') 1 i = (Ok (Some e) :: (unit, _) res) \<and> ent_index e = i))"
proof -
  let ?region = "first_region (nd_cluster_size self)"
  obtain st a L where inv: "store_inv M view ?region S st a L"
    using mq_spec.store_reachable_inv [OF spec reach fresh] by blast
  obtain st' a' L' where inv': "store_inv M view ?region S' st' a' L'" and grows: "log_grows a L a' L'"
    using mq_spec.store_steps_inv [OF spec steps _ inv] by auto
  have eq: "a = ast" "a' = ast'"
    using mq_spec.inv_apply_state [OF spec inv] mq_spec.inv_apply_state [OF spec inv'] disk by simp_all
  have "\<exists>e. raft_entry_at M (sy_engines S) 1 i = (Ok (Some e) :: (unit, _) res) \<and>
      raft_entry_at M (sy_engines S') 1 i = (Ok (Some e) :: (unit, _) res) \<and> ent_index e = i"
    if i: "trunc_idx ast' < i" "i \<le> ras_applied_index ast" for i
  proof -
    have le: "trunc_idx ast < i" using grows i(1) by (auto simp: log_grows_def apply_le_def eq intro: le_less_trans)
    have "ras_applied_index a \<le> rlo_last_index st"
      using mq_spec.inv_disk(2) [OF spec inv] unfolding disk_ok_def by (blast intro: order_trans)
    then have "L i \<noteq> None"
      using mq_spec.inv_disk(2) [OF spec inv] le order_trans [OF i(2)] unfolding disk_ok_def eq by blast
    then obtain e where e: "L i = Some e" by blast
    moreover have "ent_index e = i"
      using mq_spec.inv_disk(1) [OF spec inv] e by (auto simp: peer_disk_def raft_log_map_def)
    moreover have "L' i = L i" using grows i by (simp add: log_grows_def eq)
    ultimately show ?thesis
      by (simp add: mq_spec.inv_entry [OF spec inv] mq_spec.inv_entry [OF spec inv'])
  qed
  then show ?thesis using grows by (auto simp: log_grows_def apply_le_def eq)
qed

section \<open>Reading a range of the log\<close>

text \<open>No range of the log is larger than the address space.\<close>

definition entry_bytes :: "'db mq_crates \<Rightarrow> 'db engines \<Rightarrow> u64 \<Rightarrow> nat" where
  "entry_bytes M engines i =
     (case raft_entry_at M engines 1 i :: (unit, _) res of Ok (Some e) \<Rightarrow> length (rp_entry_write (m_proto M) e) | _ \<Rightarrow> 0)"

definition log_fits :: "'db mq_crates \<Rightarrow> ('db, 'g, 'r) store_sys \<Rightarrow> bool" where
  "log_fits M S \<longleftrightarrow> (\<forall>low high. sum_list (map (entry_bytes M (sy_engines S)) (index_range low high)) < usize_max)"

text \<open>The entries of the log from \<open>low\<close> to \<open>high\<close>, both included.\<close>

definition log_entries :: "'db mq_crates \<Rightarrow> ('db, 'g, 'r) store_sys \<Rightarrow> u64 \<Rightarrow> u64 \<Rightarrow> entry list \<Rightarrow> bool" where
  "log_entries M S low high es \<longleftrightarrow>
     map ent_index es = index_range low (high + 1) \<and>
     (\<forall>e \<in> set es. raft_entry_at M (sy_engines S) 1 (ent_index e) = (Ok (Some e) :: (unit, _) res))"

context mq_spec
begin

lemma fetch_log:
  assumes inv: "store_inv M view region S st ast L" and fits: "log_fits M S"
    and range: "trunc_idx ast < low" "low \<le> high" "high \<le> ras_applied_index ast"
  shows "\<exists>n es. fetch_entries_to (m_rocksdb M) (m_byteorder M) (m_memory M) (raft_entry_of (m_proto M))
      (eng_raft (sy_engines S)) 1 low (high + 1) None [] = Ok (n, es) \<and> log_entries M S low high es"
proof -
  let ?E = "\<lambda>i. the (L i)" and ?is = "index_range low (high + 1)"
  have map: "raft_log_map M (view (eng_raft (sy_engines S))) 1 L"
    using inv_disk(1) [OF inv] by (simp add: peer_disk_def)
  have bound: "ras_applied_index ast \<le> rlo_last_index st" "rlo_last_index st < - 1"
    using inv_disk(2) [OF inv] unfolding disk_ok_def by (blast intro: order_trans)+
  then have h: "high < - 1" using range(3) by (meson le_less_trans order_trans)
  have le: "i < high + 1 \<longleftrightarrow> i \<le> high" for i using h by unat_arith
  have here: "L i \<noteq> None" if "low \<le> i" "i < high + 1" for i
  proof -
    have "trunc_idx ast < i" "i \<le> rlo_last_index st"
      using that(2) range less_le_trans [OF range(1) that(1)] bound(1) unfolding le by (blast intro: order_trans)+
    then show ?thesis using inv_disk(2) [OF inv] unfolding disk_ok_def by blast
  qed
  have pos: "0 < low" using range(1) by (cases "low = 0") (auto simp: word_neq_0_conv)
  have lt: "low < high + 1" using range(2) by (simp only: le)
  have "entry_bytes M (sy_engines S) i = length (rp_entry_write (m_proto M) (?E i))" if "i \<in> set ?is" for i
    using here [of i] that by (auto simp: entry_bytes_def inv_entry [OF inv])
  then have "map (entry_bytes M (sy_engines S)) ?is = map (\<lambda>i. length (rp_entry_write (m_proto M) (?E i))) ?is"
    by (rule map_cong [OF refl])
  moreover have "sum_list (map (entry_bytes M (sy_engines S)) ?is) < usize_max" using fits unfolding log_fits_def by blast
  ultimately have size: "sum_list (map (\<lambda>e. length (rp_entry_write (m_proto M) e)) (map ?E ?is)) < usize_max"
    by (simp only: map_map comp_def)
  have fetch: "fetch_entries_to (m_rocksdb M) (m_byteorder M) (m_memory M) (raft_entry_of (m_proto M))
      (eng_raft (sy_engines S)) 1 low (high + 1) None [] = Ok (length (map ?E ?is), map ?E ?is)"
    using raft.fetch_entries [OF log_range_map [OF map here] pos lt, of "m_memory M" None "[]"] size
    by (simp add: Let_def raft.within_budget_all)
  have idx: "ent_index (?E i) = i" if "i \<in> set ?is" for i
    using map here that by (auto simp: raft_log_map_def)
  have "map (\<lambda>i. ent_index (?E i)) ?is = ?is" using idx by (rule map_idI)
  then have "log_entries M S low high (map ?E ?is)"
    using here idx by (auto simp: log_entries_def inv_entry [OF inv] comp_def)
  with fetch show ?thesis by blast
qed

end

text \<open>C17: In every reachable state a query of the raft log is answered with the first and the last index that can be
  read, and with exactly the applied entries of the requested range that are not compacted, in order. When there is none
  in the range, the answer is an error without entries.\<close>

theorem query_raft_log_exact:
  assumes spec: "mq_spec M view" and fresh: "fresh_engines M view engines"
    and reach: "store_reachable R M fmt self engines S" and fits: "log_fits M S" and disk: "disk_apply_state M S ast"
  shows "\<exists>resp. future_query_raft_log_entries M (sy_engines S) req = Ok resp \<and>
    qls_first_log_index resp = trunc_idx ast + 1 \<and> qls_last_log_index resp = ras_applied_index ast \<and>
    (let low = max (qlq_start req) (trunc_idx ast + 1); high = min (qlq_end req) (ras_applied_index ast)
     in if low \<le> high then qls_error resp = [] \<and> log_entries M S low high (qls_entries resp)
        else qls_error resp \<noteq> [] \<and> qls_entries resp = [])"
proof -
  let ?region = "first_region (nd_cluster_size self)"
  obtain st a L where inv0: "store_inv M view ?region S st a L"
    using mq_spec.store_reachable_inv [OF spec reach fresh] by blast
  then have inv: "store_inv M view ?region S st ast L"
    using mq_spec.inv_apply_state [OF spec inv0] disk by simp
  have init: "init_apply_state M (sy_engines S) ?region = (Ok ast :: (unit, _) res)"
    using disk mq_spec.inv_disk(3) [OF spec inv] by (simp add: disk_apply_state_def)
  have key: "view (eng_kv (sy_engines S) CF_RAFT) (region_state_key (m_byteorder M) 1) =
      Some (rp_region_state_write (m_proto M) \<lparr>rgl_region = Some ?region\<rparr>)"
    using inv by (simp add: store_inv_def)
  let ?low = "max (qlq_start req) (trunc_idx ast + 1)" and ?high = "min (qlq_end req) (ras_applied_index ast)"
  have "trunc_idx ast < - 1"
    using mq_spec.inv_disk(2) [OF spec inv] unfolding disk_ok_def by (meson le_less_trans order_trans)
  then have "trunc_idx ast < trunc_idx ast + 1" by unat_arith
  then have low: "trunc_idx ast < ?low" by (simp add: less_max_iff_disj)
  note query = get_msg_cf_def get_value_cf_def mq_spec.get_view_mq [OF spec] key
    mq_spec.region_state_read [OF spec] init
  define low high where "low = ?low" and "high = ?high"
  have low': "trunc_idx ast < low" and high': "high \<le> ras_applied_index ast" using low by (simp_all add: low_def high_def)
  have "\<exists>resp. future_query_raft_log_entries M (sy_engines S) req = Ok resp \<and>
    qls_first_log_index resp = trunc_idx ast + 1 \<and> qls_last_log_index resp = ras_applied_index ast \<and>
    (if low \<le> high then qls_error resp = [] \<and> log_entries M S low high (qls_entries resp)
     else qls_error resp \<noteq> [] \<and> qls_entries resp = [])"
  proof (cases "low \<le> high")
    case True
    then obtain n es where "fetch_entries_to (m_rocksdb M) (m_byteorder M) (m_memory M) (raft_entry_of (m_proto M))
        (eng_raft (sy_engines S)) 1 low (high + 1) None [] = Ok (n, es)" "log_entries M S low high es"
      using mq_spec.fetch_log [OF spec inv fits low' _ high'] by blast
    with True show ?thesis
      unfolding future_query_raft_log_entries_def
      by (simp add: query Let_def low_def [symmetric] high_def [symmetric] get_or_default_def leD [OF True])
  next
    case False
    then show ?thesis
      unfolding future_query_raft_log_entries_def
      by (simp add: query Let_def low_def [symmetric] high_def [symmetric] get_or_default_def not_le query_range_error_def)
  qed
  then show ?thesis unfolding Let_def low_def high_def .
qed

section \<open>The consumer\<close>

text \<open>A consumer of the log next to the store: it reads what is on disk between the steps of the store.\<close>

inductive consuming ::
    "'g raft_node \<Rightarrow> 'db mq_crates \<Rightarrow> (mq_error \<Rightarrow> string) \<Rightarrow> (bytes \<Rightarrow> 'm option) \<Rightarrow> mq_node \<Rightarrow> 'db engines \<Rightarrow> u64 \<Rightarrow>
     ('db, 'g, 'r) store_sys \<Rightarrow> 'm log_consumer \<Rightarrow> bool"
  for R M fmt parse self engines start where
  start: "store_reachable R M fmt self engines S \<Longrightarrow>
    consuming R M fmt parse self engines start S \<lparr>lc_log_index = start, lc_sent = []\<rparr>"
| step: "consuming R M fmt parse self engines start S c \<Longrightarrow> store_step R M fmt (nd_store_id self) S S' \<Longrightarrow>
    consuming R M fmt parse self engines start S' c"
| consume: "consuming R M fmt parse self engines start S c \<Longrightarrow> log_fits M S \<Longrightarrow> lc_log_index c \<le> - 1001 \<Longrightarrow>
    consume_round M parse (sy_engines S) (ps_region (sy_store S)) c = Ok c' \<Longrightarrow>
    consuming R M fmt parse self engines start S c'"

text \<open>What the consumer has passed on are the entries from its start on, in order and without a gap, and each is what the
  log holds at its index.\<close>

definition delivered ::
    "'db mq_crates \<Rightarrow> (bytes \<Rightarrow> 'm option) \<Rightarrow> u64 \<Rightarrow> raft_apply_state \<Rightarrow> (u64 \<rightharpoonup> entry) \<Rightarrow> 'm log_consumer \<Rightarrow> bool" where
  "delivered M parse start ast L c \<longleftrightarrow>
     start \<le> lc_log_index c \<and> map fst (lc_sent c) = index_range start (lc_log_index c) \<and>
     (\<forall>(i, ms) \<in> set (lc_sent c). i \<le> ras_applied_index ast \<and>
        (\<forall>e. trunc_idx ast < i \<and> L i = Some e \<longrightarrow> parse_log_entry_to_proto M parse e = (Ok (i, ms) :: (u64 \<times> u64, _) res)))"

lemma delivered_grows:
  assumes "delivered M parse start ast L c" "log_grows ast L ast' L'"
  shows "delivered M parse start ast' L' c"
  using assms unfolding delivered_def log_grows_def apply_le_def
  by (fastforce intro: order_trans le_less_trans)

lemma parse_entries_each:
  assumes "parse_entries M parse es = (Ok ps :: (u64 \<times> u64, _) res)"
  shows "map fst ps = map ent_index es \<and>
    (\<forall>p \<in> set ps. \<exists>e \<in> set es. ent_index e = fst p \<and> parse_log_entry_to_proto M parse e = (Ok p :: (u64 \<times> u64, _) res))"
  using assms
proof (induction es arbitrary: ps)
  case (Cons e es)
  then obtain x xs where ps: "ps = x # xs" and x: "parse_log_entry_to_proto M parse e = (Ok x :: (u64 \<times> u64, _) res)"
    and xs: "parse_entries M parse es = (Ok xs :: (u64 \<times> u64, _) res)"
    by (auto simp: bind_res_eq_Ok)
  have "fst x = ent_index e"
    using x by (auto simp: parse_log_entry_to_proto_def Let_def bind_res_eq_Ok split: if_splits)
  with Cons.IH [OF xs] x ps show ?case by auto
qed simp

lemma add_1000: "n \<le> - 1001 \<Longrightarrow> n \<le> n + 1000" for n :: u64
proof -
  assume "n \<le> - 1001"
  then have "unat n + unat (1000 :: u64) < 2 ^ LENGTH(64)" by (simp add: word_le_nat_alt)
  then show ?thesis using unat_add_lem [of n 1000] by (simp add: word_le_nat_alt)
qed

lemma index_range_append:
  assumes "a \<le> b" "b \<le> c"
  shows "index_range a b @ index_range b c = index_range a c"
  using assms by (simp add: index_range_def word_le_nat_alt upt_add_eq_append [symmetric] map_append [symmetric] del: map_append)
    (metis le_add_diff_inverse upt_add_eq_append)

context mq_spec
begin

lemma consume_delivers:
  assumes inv: "store_inv M view region S st ast L" and r: "rg_id region = 1" and fits: "log_fits M S"
    and idx: "lc_log_index c \<le> - 1001"
    and run: "consume_round M parse (sy_engines S) region c = Ok c'" and del: "delivered M parse start ast L c"
  shows "delivered M parse start ast L c'"
proof -
  let ?n = "lc_log_index c" and ?high = "min (lc_log_index c + 1000) (ras_applied_index ast)"
  have bound: "trunc_idx ast < - 1" "ras_applied_index ast < - 1"
    using inv_disk(2) [OF inv] unfolding disk_ok_def by (meson le_less_trans order_trans)+
  have le: "i < ?high + 1 \<longleftrightarrow> i \<le> ?high" for i using bound(2) by (simp add: min_def) unat_arith
  have first: "get_start_index_and_applied_index M (sy_engines S) region = Ok (trunc_idx ast + 1, ras_applied_index ast)"
    by (simp add: get_start_index_and_applied_index_def inv_init_apply_state [OF inv r])
  show ?thesis
  proof (cases "ras_applied_index ast < ?n")
    case True
    with run del show ?thesis by (simp add: consume_round_def first split: if_splits)
  next
    case False
    have "\<not> ?n < trunc_idx ast + 1" using run by (auto simp: consume_round_def first)
    then have low: "trunc_idx ast < ?n" using bound(1) by unat_arith
    have "?n \<le> ?n + 1000" using idx by (rule add_1000)
    then have high: "?n \<le> ?high" "?high \<le> ras_applied_index ast" using False by simp_all
    obtain k es where es: "fetch_entries_to (m_rocksdb M) (m_byteorder M) (m_memory M) (raft_entry_of (m_proto M))
        (eng_raft (sy_engines S)) 1 ?n (?high + 1) None [] = Ok (k, es)" "log_entries M S ?n ?high es"
      using fetch_log [OF inv fits low high] by blast
    obtain ps where ps: "parse_entries M parse es = (Ok ps :: (u64 \<times> u64, _) res)"
      and c': "c' = \<lparr>lc_log_index = ?high + 1, lc_sent = lc_sent c @ ps\<rparr>"
      using run False low high \<open>\<not> ?n < trunc_idx ast + 1\<close> es(1)
      by (auto simp: consume_round_def first get_range_def r Let_def split: if_splits res.splits)
    note each = parse_entries_each [OF ps]
    have fsts: "map fst ps = index_range ?n (?high + 1)" using each es(2) by (simp add: log_entries_def)
    have new: "fst p \<le> ras_applied_index ast \<and>
        (\<forall>e. L (fst p) = Some e \<longrightarrow> parse_log_entry_to_proto M parse e = (Ok p :: (u64 \<times> u64, _) res))" if p: "p \<in> set ps" for p
    proof -
      have "fst p \<in> set (index_range ?n (?high + 1))" using p fsts by (metis image_eqI set_map)
      then have "fst p \<le> ?high" unfolding index_range_set by (simp only: mem_Collect_eq le simp_thms)
      moreover obtain e where e: "e \<in> set es" "ent_index e = fst p" "parse_log_entry_to_proto M parse e = (Ok p :: (u64 \<times> u64, _) res)"
        using bspec [OF conjunct2 [OF each] p] by (elim bexE conjE) (rule that)
      ultimately show ?thesis using es(2) high(2) inv_entry [OF inv, of "fst p"] by (auto simp: log_entries_def intro: order_trans)
    qed
    have "?n \<le> ?high + 1" using high(1) le [of ?n] by (simp only: less_imp_le simp_thms)
    then have "start \<le> ?high + 1" "map fst (lc_sent c') = index_range start (?high + 1)"
      using del fsts index_range_append [of start ?n "?high + 1"] by (auto simp: delivered_def c' intro: order_trans)
    moreover have "\<forall>(i, ms) \<in> set (lc_sent c'). i \<le> ras_applied_index ast \<and>
        (\<forall>e. trunc_idx ast < i \<and> L i = Some e \<longrightarrow> parse_log_entry_to_proto M parse e = (Ok (i, ms) :: (u64 \<times> u64, _) res))"
      using del new unfolding delivered_def c' by auto
    ultimately show ?thesis by (simp add: delivered_def c')
  qed
qed

lemma consuming_delivered:
  assumes "consuming R M fmt parse self engines start S c" "fresh_engines M view engines"
  shows "\<exists>st ast L. store_inv M view (first_region (nd_cluster_size self)) S st ast L \<and> delivered M parse start ast L c"
  using assms(1)
proof induction
  case (start S)
  then show ?case using store_reachable_inv [OF start assms(2)] by (auto simp: delivered_def index_range_empty)
next
  case (step S c S')
  then show ?case using store_step_inv [OF step(2)] delivered_grows by (metis first_region_simps)
next
  case (consume S c c')
  then obtain st ast L where inv: "store_inv M view (first_region (nd_cluster_size self)) S st ast L"
    and del: "delivered M parse start ast L c" by blast
  have "ps_region (sy_store S) = first_region (nd_cluster_size self)" using inv_disk(3) [OF inv] .
  then have "delivered M parse start ast L c'"
    using consume_delivers [OF inv _ consume(2,3) _ del] consume(4) by simp
  with inv show ?case by blast
qed

end

text \<open>C9: A consumer that starts at an index of the log and reads it while the store runs, compacts its log and restarts,
  passes on every entry from that index on exactly once, in order and without a gap, and what it passes on for an
  index is what the entry at that index parses to.\<close>

theorem consumer_exactly_once:
  assumes spec: "mq_spec M view" and fresh: "fresh_engines M view engines"
    and run: "consuming R M fmt parse self engines start S c"
  shows "map fst (lc_sent c) = index_range start (lc_log_index c) \<and>
    (\<forall>i ms e ast. (i, ms) \<in> set (lc_sent c) \<and> disk_apply_state M S ast \<and> trunc_idx ast < i \<and>
        raft_entry_at M (sy_engines S) 1 i = (Ok (Some e) :: (unit, _) res) \<longrightarrow>
      parse_log_entry_to_proto M parse e = (Ok (i, ms) :: (u64 \<times> u64, _) res))"
proof -
  obtain st ast L where inv: "store_inv M view (first_region (nd_cluster_size self)) S st ast L"
    and del: "delivered M parse start ast L c"
    using mq_spec.consuming_delivered [OF spec run fresh] by blast
  have "disk_apply_state M S ast' \<longleftrightarrow> ast' = ast" for ast' by (rule mq_spec.inv_apply_state [OF spec inv]) simp
  with del show ?thesis unfolding delivered_def by (auto simp: mq_spec.inv_entry [OF spec inv])
qed

section \<open>A store that has applied an entry\<close>

definition ex_entry :: entry where
  "ex_entry = \<lparr>ent_entry_type = EntryNormal, ent_term = 6, ent_index = 6, ent_data = [], ent_context = [], ent_sync_log = False\<rparr>"

definition ex_ready :: ready where
  "ex_ready = \<lparr>rd_entries = [ex_entry], rd_hs = Some \<lparr>hst_term = 6, hst_vote = 1, hst_commit = 6\<rparr>\<rparr>"

definition ex_task :: "string apply_task" where
  "ex_task = \<lparr>at_peer_id = 2, at_region_id = 1, at_term = 6, at_entries = \<lparr>ce_range = (6, 7), ce_entries = [ex_entry]\<rparr>, at_cbs = []\<rparr>"

abbreviation ex_node :: mq_node where
  "ex_node \<equiv> mq_node_new 7 3 2"

abbreviation ex_reachable :: "(ref_db, unit, string) store_sys \<Rightarrow> bool" where
  "ex_reachable \<equiv> store_reachable idle_raft ref_mq (\<lambda>_. []) ex_node empty_engines"

lemma ex_started:
  "\<exists>S. ex_reachable S \<and> store_inv ref_mq map_of (first_region 3) S initial_raft_state initial_apply_state Map.empty \<and>
    sy_store S = bootstrapped_storage 3 2 \<and>
    af_delegate (sy_apply S) = registration_of RAFT_INIT_LOG_TERM (bootstrapped_storage 3 2) \<and> af_ctx (sy_apply S) = apply_ctx_new"
proof -
  obtain engines' and f :: "(unit, string) peer_fsm" where boot: "try_bootstrap_store ref_mq ex_node empty_engines = Ok engines'"
    and init: "store_init idle_raft ref_mq (nd_store_id ex_node) engines' = Ok f" and f: "pf_store f = bootstrapped_storage 3 2"
    using ref_mq.bootstrap_opens [where 'r = string, OF fresh_empty_engines, of ex_node idle_raft "()"] by (auto simp: mq_node_new_def idle_raft_def)
  have "ex_reachable (start_system idle_raft engines' f)" using boot init by (rule store_reachable.start)
  moreover have "store_inv ref_mq map_of (first_region 3) (start_system idle_raft engines' f) initial_raft_state initial_apply_state Map.empty"
    using ref_mq.bootstrap_inv [OF boot init fresh_empty_engines] by (simp add: mq_node_new_def)
  ultimately show ?thesis
    by (intro exI [of _ "start_system idle_raft engines' f"]) (simp add: start_system_def f idle_raft_def)
qed

lemma ex_ready_log: "ready_log Map.empty initial_raft_state ex_ready = [6 \<mapsto> ex_entry]"
  by (auto simp: ready_log_def ex_ready_def log_append_def ex_entry_def initial_raft_state_def RAFT_INIT_LOG_INDEX_def fun_eq_iff)

lemma ex_ready_wf: "ready_wf initial_raft_state ex_ready"
  by (simp add: ready_wf_def ready_last_def ex_ready_def ex_entry_def initial_raft_state_def RAFT_INIT_LOG_INDEX_def
      RAFT_INIT_LOG_TERM_def get_hard_state_def default_hard_state_def index_range_def)

lemma ex_written:
  "\<exists>S. ex_reachable S \<and> store_inv ref_mq map_of (first_region 3) S (saved_state (bootstrapped_storage 3 2) initial_raft_state ex_ready)
      initial_apply_state [6 \<mapsto> ex_entry] \<and>
    ps_raft_state (sy_store S) = ready_state (bootstrapped_storage 3 2) ex_ready \<and>
    af_delegate (sy_apply S) = registration_of RAFT_INIT_LOG_TERM (bootstrapped_storage 3 2) \<and> af_ctx (sy_apply S) = apply_ctx_new"
proof -
  obtain S where S: "ex_reachable S" and inv: "store_inv ref_mq map_of (first_region 3) S initial_raft_state initial_apply_state Map.empty"
    and s: "sy_store S = bootstrapped_storage 3 2"
    and app: "af_delegate (sy_apply S) = registration_of RAFT_INIT_LOG_TERM (bootstrapped_storage 3 2)" "af_ctx (sy_apply S) = apply_ctx_new"
    using ex_started by blast
  obtain s' raft' where wr: "write_ready ref_mq (sy_store S) ex_ready (gr_raft (sy_gc S)) = (s', raft')"
    by (meson surj_pair)
  have wf: "ready_wf (ps_raft_state (sy_store S)) ex_ready" using ex_ready_wf by (simp add: s bootstrapped_storage_def)
  let ?S = "S\<lparr>sy_peer := (sy_peer S)\<lparr>pf_store := s'\<rparr>, sy_gc := (sy_gc S)\<lparr>gr_raft := raft'\<rparr>\<rparr>"
  have "ex_reachable ?S" using S store_step.ready [OF wf wr] by (rule store_reachable.step)
  moreover have "ps_raft_state s' = ready_state (bootstrapped_storage 3 2) ex_ready"
    using wr by (auto simp: write_ready_def mq_spec.handle_raft_ready_eq [OF ref_mq] post_ready_def s)
  ultimately show ?thesis
    using ref_mq.inv_ready(1) [OF inv _ wf wr] app by (intro exI [of _ ?S]) (simp add: s ex_ready_log)
qed

lemma ex_pop: "pop_earlier_terms t [] = ([], [])"
  by (simp add: pop_earlier_terms.simps)

lemma ex_apply:
  assumes "af_delegate f = registration_of RAFT_INIT_LOG_TERM (bootstrapped_storage 3 2)" "af_ctx f = apply_ctx_new"
  shows "\<exists>f' f''. handle_apply ref_mq (\<lambda>_. []) ex_task f = Ok f' \<and> ctx_flush ref_mq f' = Ok (False, f'') \<and> ax_timer (af_ctx f') \<and> \<not> ax_timer (af_ctx f'') \<and>
    ras_applied_index (ad_apply_state (af_delegate f')) = 6 \<and> trunc_idx (ad_apply_state (af_delegate f')) = 5"
  using assms
  by (simp add: handle_apply_def ex_task_def take_entries_def Let_def registration_of_def delegate_from_registration_def
      bootstrapped_storage_def initial_apply_state_def default_raft_apply_state_def ex_entry_def RAFT_INIT_LOG_INDEX_def
      RAFT_INIT_LOG_TERM_def append_proposal_def handle_raft_committed_entries_def handle_raft_entry_normal_def ex_pop
      finish_for_def commit_opt_def write_apply_state_def apply_ctx_new_def cw_defs ctx_flush_def write_to_db_def
      send_replies_def get_truncated_state_def get_or_default_def)

lemma ex_applied:
  "\<exists>S0 S ast. ex_reachable S0 \<and> disk_apply_state ref_mq S0 initial_apply_state \<and>
    ex_reachable S \<and> (store_step idle_raft ref_mq (\<lambda>_. []) 2)\<^sup>*\<^sup>* S0 S \<and> disk_apply_state ref_mq S ast \<and>
    ras_applied_index ast = 6 \<and> trunc_idx ast = 5 \<and> (\<exists>st. store_inv ref_mq map_of (first_region 3) S st ast [6 \<mapsto> ex_entry])"
proof -
  obtain S0 where S0: "ex_reachable S0"
    and inv0: "store_inv ref_mq map_of (first_region 3) S0 (saved_state (bootstrapped_storage 3 2) initial_raft_state ex_ready)
      initial_apply_state [6 \<mapsto> ex_entry]"
    and s: "ps_raft_state (sy_store S0) = ready_state (bootstrapped_storage 3 2) ex_ready"
    and app: "af_delegate (sy_apply S0) = registration_of RAFT_INIT_LOG_TERM (bootstrapped_storage 3 2)" "af_ctx (sy_apply S0) = apply_ctx_new"
    using ex_written by blast
  obtain f1 f2 where run: "handle_apply ref_mq (\<lambda>_. []) ex_task (sy_apply S0) = Ok f1" "ctx_flush ref_mq f1 = Ok (False, f2)"
    and "ax_timer (af_ctx f1)" "\<not> ax_timer (af_ctx f2)"
    and a: "ras_applied_index (ad_apply_state (af_delegate f1)) = 6" "trunc_idx (ad_apply_state (af_delegate f1)) = 5"
    using ex_apply [OF app] by blast
  then have ne: "f2 \<noteq> f1" by auto
  have task: "committed_task ref_mq S0 ex_task"
    by (simp add: committed_task_def ex_task_def ref_mq.inv_entry [OF inv0] s ready_state_def ex_ready_def ex_entry_def
        bootstrapped_storage_def get_hard_state_def get_or_default_def)
  let ?S1 = "S0\<lparr>sy_apply := f1\<rparr>" and ?S2 = "S0\<lparr>sy_apply := f1\<rparr>\<lparr>sy_apply := f2\<rparr>"
  have step1: "store_step idle_raft ref_mq (\<lambda>_. []) 2 S0 ?S1" using task run(1) by (rule store_step.task)
  have step2: "store_step idle_raft ref_mq (\<lambda>_. []) 2 ?S1 ?S2"
    using run(2) by (intro store_step.flush [of _ _ False]) simp
  have "ex_reachable ?S2"
    using store_reachable.step [OF store_reachable.step [OF S0]] step1 step2 by (simp add: mq_node_new_def)
  moreover have "(store_step idle_raft ref_mq (\<lambda>_. []) 2)\<^sup>*\<^sup>* S0 ?S2" 
    by (rule rtranclp.rtrancl_into_rtrancl [OF rtranclp.rtrancl_into_rtrancl]) (rule rtranclp.rtrancl_refl, rule step1, rule step2)
  moreover obtain ast where inv2: "store_inv ref_mq map_of (first_region 3) ?S2 (saved_state (bootstrapped_storage 3 2) initial_raft_state ex_ready)
      ast [6 \<mapsto> ex_entry]" and "ast = ad_apply_state (af_delegate f1)"
    using ref_mq.inv_flush [OF ref_mq.inv_task [OF inv0 _ task run(1)], of False f2] run(2) ne by auto
  moreover have "disk_apply_state ref_mq ?S2 ast" "disk_apply_state ref_mq S0 initial_apply_state"
    using ref_mq.inv_apply_state [OF inv2] ref_mq.inv_apply_state [OF inv0] by simp_all
  ultimately show ?thesis using S0 a by blast
qed

lemma ex_log_fits:
  assumes inv: "store_inv ref_mq map_of region S st ast [6 \<mapsto> ex_entry]"
  shows "log_fits ref_mq S"
proof -
  let ?n = "length (rp_entry_write ref_raft_proto ex_entry)"
  have len: "?n < usize_max"
    by (simp add: ref_raft_proto_def c_entry_def c_iso_def c_pair_def c_u64_def c_bytes_def c_list_def c_bool_def
        c_entry_type_def c_byte_def ex_entry_def usize_max_def)
  have bytes: "entry_bytes ref_mq (sy_engines S) = (\<lambda>i. if i = 6 then ?n else 0)"
    by (simp add: entry_bytes_def ref_mq.inv_entry [OF inv] fun_eq_iff)
  have "sum_list (map (entry_bytes ref_mq (sy_engines S)) (index_range low high)) \<le> ?n" for low high
  proof -
    have "distinct (index_range low high)" using index_range_sorted strict_sorted_iff by blast
    then show ?thesis unfolding bytes by (subst sum_list_distinct_conv_sum_set) (simp_all add: sum.delta)
  qed
  with len show ?thesis unfolding log_fits_def by (meson le_less_trans)
qed


theorem applied_entries_stay_witness:
  "\<exists>(S :: (ref_db, unit, string) store_sys) ast e. ex_reachable S \<and> disk_apply_state ref_mq S ast \<and> ras_applied_index ast = 6 \<and>
    raft_entry_at ref_mq (sy_engines S) 1 6 = (Ok (Some e) :: (unit, _) res) \<and> ent_index e = 6"
proof -
  obtain S ast where S: "ex_reachable S" "disk_apply_state ref_mq S ast" "ras_applied_index ast = 6" "trunc_idx ast = 5"
    using ex_applied by blast
  from applied_entries_stay [OF ref_mq fresh_empty_engines S(1) rtranclp.rtrancl_refl S(2,2)] S
  have "\<exists>e. raft_entry_at ref_mq (sy_engines S) 1 6 = (Ok (Some e) :: (unit, _) res) \<and> ent_index e = 6" by auto
  with S show ?thesis by blast
qed

theorem query_raft_log_exact_witness:
  "\<exists>(S :: (ref_db, unit, string) store_sys) resp. ex_reachable S \<and>
    future_query_raft_log_entries ref_mq (sy_engines S) \<lparr>qlq_start = 0, qlq_end = 100\<rparr> = Ok resp \<and>
    map ent_index (qls_entries resp) = [6]"
proof -
  obtain S ast st where S: "ex_reachable S" "disk_apply_state ref_mq S ast" "ras_applied_index ast = 6" "trunc_idx ast = 5"
    and inv: "store_inv ref_mq map_of (first_region 3) S st ast [6 \<mapsto> ex_entry]"
    using ex_applied by blast
  from query_raft_log_exact [OF ref_mq fresh_empty_engines S(1) ex_log_fits [OF inv] S(2), of "\<lparr>qlq_start = 0, qlq_end = 100\<rparr>"] S
  have "\<exists>resp. future_query_raft_log_entries ref_mq (sy_engines S) \<lparr>qlq_start = 0, qlq_end = 100\<rparr> = Ok resp \<and>
      map ent_index (qls_entries resp) = [6]"
    by (auto simp: Let_def log_entries_def index_range_def)
  with S(1) show ?thesis by (intro exI [of _ S]) simp
qed

lemma ex_consume:
  assumes inv: "store_inv ref_mq map_of (first_region 3) S st ast [6 \<mapsto> ex_entry]" and ast: "ras_applied_index ast = 6" "trunc_idx ast = 5"
  shows "consume_round ref_mq parse (sy_engines S) (first_region 3) \<lparr>lc_log_index = 6, lc_sent = []\<rparr> =
    Ok \<lparr>lc_log_index = 7, lc_sent = [(6, [])]\<rparr>"
proof -
  obtain n es where fetch: "fetch_entries_to ref_rocksdb ref_byteorder (m_memory ref_mq) (raft_entry_of ref_raft_proto)
      (eng_raft (sy_engines S)) 1 6 7 None [] = Ok (n, es)" and es: "log_entries ref_mq S 6 6 es"
    using ref_mq.fetch_log [OF inv ex_log_fits [OF inv], of 6 6] ast by auto
  have "map ent_index es = [6]" using es by (simp add: log_entries_def index_range_def)
  then obtain e where "es = [e]" "ent_index e = 6" by (auto simp: map_eq_Cons_conv)
  then have "es = [ex_entry]" using es ref_mq.inv_entry [OF inv, of 6] by (auto simp: log_entries_def)
  with fetch show ?thesis
    by (simp add: consume_round_def get_start_index_and_applied_index_def get_range_def ref_mq.inv_init_apply_state [OF inv] ast
        parse_log_entry_to_proto_def ex_entry_def Let_def)
qed

theorem consumer_exactly_once_witness:
  "\<exists>(S :: (ref_db, unit, string) store_sys) c. consuming idle_raft ref_mq (\<lambda>_. []) (\<lambda>_. None :: unit option) ex_node empty_engines 6 S c \<and>
    lc_sent c = [(6, [])] \<and> map fst (lc_sent c) = index_range 6 7"
proof -
  obtain S ast st where S: "ex_reachable S" "ras_applied_index ast = 6" "trunc_idx ast = 5"
    and inv: "store_inv ref_mq map_of (first_region 3) S st ast [6 \<mapsto> ex_entry]"
    using ex_applied by blast
  have region: "ps_region (sy_store S) = first_region 3" using ref_mq.inv_disk(3) [OF inv] .
  have "consuming idle_raft ref_mq (\<lambda>_. []) (\<lambda>_. None :: unit option) ex_node empty_engines 6 S \<lparr>lc_log_index = 7, lc_sent = [(6, [])]\<rparr>"
    by (rule consuming.consume [OF consuming.start [OF S(1)] ex_log_fits [OF inv]]) (simp_all add: region ex_consume [OF inv S(2,3)])
  then show ?thesis using consumer_exactly_once [OF ref_mq fresh_empty_engines] by fastforce
qed

end
