(* ===== verification/Raft_Client.thy ===== *)
theory Raft_Client
  imports Raft_Loop Lru
begin

text \<open>
  \<^verbatim>\<open>dependencies/tiny-mq/src/raft_client.rs\<close>: the transport to other peers. A client puts messages into one queue per
  store, which it finds in an LRU cache in front of the pool of connections that all clients share. A back end per
  connection moves them from the queue over a small buffer to a gRPC stream, and connects again when the stream breaks.
  What gRPC answers is an argument of each poll. Polls, sends and flushes are atomic steps.
\<close>

type_synonym conn_key = "u64 \<times> nat"

section \<open>Queues\<close>

text \<open>A bounded queue with the waker of the task that found it empty.\<close>

record msg_queue =
  mq_cap :: nat
  mq_buf :: "raft_message list"
  mq_waker :: bool
  mq_wakes :: nat

definition queue_with_capacity :: "nat \<Rightarrow> msg_queue" where
  "queue_with_capacity cap = \<lparr>mq_cap = cap, mq_buf = [], mq_waker = False, mq_wakes = 0\<rparr>"

definition queue_push :: "raft_message \<Rightarrow> msg_queue \<Rightarrow> (unit, msg_queue) res" where
  "queue_push msg q = (if mq_cap q \<le> length (mq_buf q) then Panic else Ok (q\<lparr>mq_buf := mq_buf q @ [msg]\<rparr>))"

definition queue_notify :: "msg_queue \<Rightarrow> msg_queue" where
  "queue_notify q =
     (if mq_buf q \<noteq> [] \<and> mq_waker q then q\<lparr>mq_waker := False, mq_wakes := mq_wakes q + 1\<rparr> else q)"

definition queue_len :: "msg_queue \<Rightarrow> nat" where
  "queue_len q = length (mq_buf q)"

definition queue_try_pop :: "msg_queue \<Rightarrow> raft_message option \<times> msg_queue" where
  "queue_try_pop q = (case mq_buf q of [] \<Rightarrow> (None, q) | m # ms \<Rightarrow> (Some m, q\<lparr>mq_buf := ms\<rparr>))"

definition queue_pop :: "msg_queue \<Rightarrow> raft_message option \<times> msg_queue" where
  "queue_pop q =
     (case queue_try_pop q of
        (Some m, q) \<Rightarrow> (Some m, q)
      | (None, q) \<Rightarrow> queue_try_pop (q\<lparr>mq_waker := True\<rparr>))"

section \<open>A call\<close>

definition buffer_full :: "raft_message list \<Rightarrow> bool" where
  "buffer_full buffer \<longleftrightarrow> 2 \<le> length buffer"

lemma queue_pop_simps:
  "mq_buf q = [] \<Longrightarrow> queue_pop q = (None, q\<lparr>mq_waker := True\<rparr>)"
  "mq_buf q = m # ms \<Longrightarrow> queue_pop q = (Some m, q\<lparr>mq_buf := ms\<rparr>)"
  by (simp_all add: queue_pop_def queue_try_pop_def)

lemma queue_pop_less: "queue_pop q = (Some m, q') \<Longrightarrow> length (mq_buf q') < length (mq_buf q)"
  by (cases "mq_buf q") (auto simp: queue_pop_simps)

function fill_msg :: "raft_message list \<Rightarrow> msg_queue \<Rightarrow> raft_message list \<times> msg_queue" where
  "fill_msg buffer q =
     (if buffer_full buffer then (buffer, q)
      else case queue_pop q of
             (Some msg, q) \<Rightarrow> fill_msg (buffer @ [msg]) q
           | (None, q) \<Rightarrow> (buffer, q))"
  by pat_completeness auto
termination
  by (relation "measure (\<lambda>(_, q). length (mq_buf q))") (auto dest: queue_pop_less [OF sym])

declare fill_msg.simps [simp del]

datatype grpc_error = Unimplemented | Other_Failure

datatype sink_poll = Sink_Ready | Sink_Pending | Sink_Failed grpc_error
datatype recv_poll = Recv_Pending | Recv_Done | Recv_Failed grpc_error

text \<open>What gRPC answers in one turn of the loop of \<open>RaftCall::poll\<close>.\<close>

record sink_event =
  se_ready :: sink_poll
  se_start_send :: "grpc_error option"
  se_flush :: "grpc_error option"
  se_receiver :: recv_poll

definition recv_error :: "recv_poll \<Rightarrow> grpc_error option" where
  "recv_error r = (case r of Recv_Failed e \<Rightarrow> Some e | _ \<Rightarrow> None)"

text \<open>Whether the end of the call is reported over its lifetime channel; otherwise the channel is dropped.\<close>

definition clean_up :: "grpc_error option \<Rightarrow> grpc_error option \<Rightarrow> bool" where
  "clean_up sink_err recv_err \<longleftrightarrow> sink_err = Some Unimplemented \<or> recv_err = Some Unimplemented"

lemma fill_msg_size:
  "fill_msg buffer q = (buffer', q') \<Longrightarrow> length buffer' + length (mq_buf q') = length buffer + length (mq_buf q)"
proof (induction buffer q rule: fill_msg.induct)
  case (1 buffer q)
  then show ?case
    by (subst (asm) (2) fill_msg.simps, cases "mq_buf q") (auto simp: queue_pop_simps split: if_splits)
qed

text \<open>
  One poll of the call. \<open>grpc n\<close> is what gRPC answers in turn \<open>n\<close>. The result is \<open>None\<close> while the call is
  pending; \<open>wire\<close> is what the stream has accepted. Each turn that continues has sent a message.
\<close>

function call_poll ::
    "(nat \<Rightarrow> sink_event) \<Rightarrow> nat \<Rightarrow> raft_message list \<Rightarrow> msg_queue \<Rightarrow> raft_message list \<Rightarrow>
     bool option \<times> raft_message list \<times> msg_queue \<times> raft_message list" where
  "call_poll grpc n buffer q wire =
     (let ev = grpc n; re = recv_error (se_receiver ev)
      in case fill_msg buffer q of
           (msg # rest, q) \<Rightarrow>
             (case se_ready ev of
                Sink_Ready \<Rightarrow>
                  (case se_start_send ev of
                     None \<Rightarrow> call_poll grpc (n + 1) rest q (wire @ [msg])
                   | Some e \<Rightarrow> (Some (clean_up (Some e) re), rest, q, wire))
              | Sink_Pending \<Rightarrow> (None, msg # rest, q, wire)
              | Sink_Failed e \<Rightarrow> (Some (clean_up (Some e) re), msg # rest, q, wire))
         | ([], q) \<Rightarrow>
             (case se_flush ev of
                Some e \<Rightarrow> (Some (clean_up (Some e) re), [], q, wire)
              | None \<Rightarrow>
                  (case se_receiver ev of
                     Recv_Pending \<Rightarrow> (None, [], q, wire)
                   | Recv_Done \<Rightarrow> (Some False, [], q, wire)
                   | Recv_Failed e \<Rightarrow> (Some (clean_up None (Some e)), [], q, wire))))"
  by pat_completeness auto
termination
  by (relation "measure (\<lambda>(_, _, buffer, q, _). length buffer + length (mq_buf q))")
    (auto dest!: fill_msg_size [OF sym])

declare call_poll.simps [simp del]

section \<open>Back ends\<close>

type_synonym address_map = "(u64, string) fmap"

definition address_insert :: "u64 \<Rightarrow> string \<Rightarrow> address_map \<Rightarrow> address_map" where
  "address_insert store_id addr addrs = fmupd store_id addr addrs"

definition resolve :: "u64 \<Rightarrow> address_map \<Rightarrow> (unit, string) res" where
  "resolve store_id addrs = (case fmlookup addrs store_id of Some addr \<Rightarrow> Ok addr | None \<Rightarrow> Panic)"

text \<open>
  The task that \<open>start\<close> runs for a connection waits for the timer, for the end of its call, or has been told of it
  over the lifetime channel, \<open>Ended True\<close> being \<open>Ok(())\<close>. The stream and what it has accepted outlive the calls.
\<close>

datatype conn_state = Backing_Off | Calling "raft_message list" | Ended bool

record back_end =
  be_store_id :: u64
  be_queue :: nat
  be_retry_times :: nat
  be_state :: conn_state
  be_wire :: "raft_message list"

definition clear_pending_message :: "msg_queue \<Rightarrow> msg_queue" where
  "clear_pending_message q = ((\<lambda>q. snd (queue_try_pop q)) ^^ queue_len q) q"

text \<open>
  The steps of the loop of \<open>start\<close> around a call: connecting, where \<open>raft_ok\<close> tells whether \<open>client.raft()\<close> gives a stream;
  a poll of the spawned call, whose end the lifetime channel reports; and what the loop does when it is told.
\<close>

definition back_end_connect :: "address_map \<Rightarrow> bool \<Rightarrow> back_end \<Rightarrow> (unit, back_end) res" where
  "back_end_connect addrs raft_ok b =
     (case be_state b of
        Backing_Off \<Rightarrow>
          bind_res (resolve (be_store_id b) addrs) (\<lambda>_.
          if raft_ok then Ok (b\<lparr>be_retry_times := be_retry_times b + 1, be_state := Calling []\<rparr>) else Panic)
      | _ \<Rightarrow> Ok b)"

definition back_end_poll :: "(nat \<Rightarrow> sink_event) \<Rightarrow> back_end \<Rightarrow> msg_queue \<Rightarrow> back_end \<times> msg_queue" where
  "back_end_poll grpc b q =
     (case be_state b of
        Calling buffer \<Rightarrow>
          (case call_poll grpc 0 buffer q (be_wire b) of
             (None, buffer, q, wire) \<Rightarrow> (b\<lparr>be_state := Calling buffer, be_wire := wire\<rparr>, q)
           | (Some reported, _, q, wire) \<Rightarrow> (b\<lparr>be_state := Ended reported, be_wire := wire\<rparr>, q))
      | _ \<Rightarrow> (b, q))"

definition back_end_resume :: "back_end \<Rightarrow> msg_queue \<Rightarrow> back_end \<times> msg_queue" where
  "back_end_resume b q =
     (case be_state b of
        Ended reported \<Rightarrow>
          (b\<lparr>be_state := Backing_Off\<rparr>,
           if \<not> reported \<and> 1 < be_retry_times b then clear_pending_message q else q)
      | _ \<Rightarrow> (b, q))"

section \<open>The pool and a client\<close>

text \<open>Queues are shared by reference: \<open>cp_heap\<close> holds them by address.\<close>

record connection_pool =
  cp_connections :: "(conn_key, nat) fmap"
  cp_heap :: "(nat, msg_queue) fmap"
  cp_spawned :: "(conn_key, back_end) fmap"
  cp_fresh :: nat

record cached_queue =
  cq_queue :: nat
  cq_dirty :: bool

record raft_client =
  rcl_cache :: "(conn_key, cached_queue, u64) lru_cache"
  rcl_need_flush :: "conn_key list"

definition pool_default :: connection_pool where
  "pool_default = \<lparr>cp_connections = fmempty, cp_heap = fmempty, cp_spawned = fmempty, cp_fresh = 0\<rparr>"

definition raft_client_new :: "(unit, raft_client) res" where
  "raft_client_new =
     bind_res (with_capacity_and_sample 0 7) (\<lambda>cache. Ok \<lparr>rcl_cache = cache, rcl_need_flush = []\<rparr>)"

text \<open>A clone shares the pool and starts with a cache of its own.\<close>

definition raft_client_clone :: "(unit, raft_client) res" where
  "raft_client_clone =
     bind_res (with_capacity_and_sample 0 7) (\<lambda>cache. Ok \<lparr>rcl_cache = cache, rcl_need_flush = []\<rparr>)"

text \<open>The capacity of a queue, which stands for \<open>cfg.raft_client_queue_size\<close>.\<close>

definition raft_client_queue_size :: nat where "raft_client_queue_size = 819200"

definition pool_entry :: "conn_key \<Rightarrow> connection_pool \<Rightarrow> nat \<times> connection_pool" where
  "pool_entry key pool =
     (case fmlookup (cp_connections pool) key of
        Some a \<Rightarrow> (a, pool)
      | None \<Rightarrow>
          let a = cp_fresh pool;
              b = \<lparr>be_store_id = fst key, be_queue = a, be_retry_times = 0, be_state = Backing_Off, be_wire = []\<rparr>
          in (a, pool\<lparr>cp_connections := fmupd key a (cp_connections pool),
                      cp_heap := fmupd a (queue_with_capacity raft_client_queue_size) (cp_heap pool),
                      cp_spawned := fmupd key b (cp_spawned pool), cp_fresh := a + 1\<rparr>))"

definition load_stream :: "conn_key \<Rightarrow> raft_client \<Rightarrow> connection_pool \<Rightarrow> (unit, bool \<times> raft_client \<times> connection_pool) res" where
  "load_stream key cl pool =
     (let (a, pool) = pool_entry key pool;
          pool_len = fcard (fmdom (cp_connections pool))
      in bind_res (lru_resize count_tracker (of_nat pool_len) (rcl_cache cl)) (\<lambda>cache.
         bind_res (lru_insert count_tracker key \<lparr>cq_queue = a, cq_dirty = False\<rparr> cache) (\<lambda>cache.
         Ok (True, cl\<lparr>rcl_cache := cache\<rparr>, pool))))"

definition update_queue :: "nat \<Rightarrow> (msg_queue \<Rightarrow> (unit, msg_queue) res) \<Rightarrow> connection_pool \<Rightarrow> (unit, connection_pool) res" where
  "update_queue a f pool =
     bind_res (unwrap (fmlookup (cp_heap pool) a)) (\<lambda>q.
     bind_res (f q) (\<lambda>q. Ok (pool\<lparr>cp_heap := fmupd a q (cp_heap pool)\<rparr>)))"

definition message_key :: "raft_message \<Rightarrow> conn_key" where
  "message_key msg = (pr_store_id (get_or_default default_peer (rm_to_peer msg)), 0)"

text \<open>The loop of \<open>send\<close>, which runs until the cache has the queue.\<close>

partial_function (option) client_send ::
    "raft_message \<Rightarrow> raft_client \<Rightarrow> connection_pool \<Rightarrow> (unit, raft_client \<times> connection_pool) res option" where
  "client_send msg cl pool =
     (case lru_get_mut (\<lambda>s. s\<lparr>cq_dirty := True\<rparr>) (message_key msg) (rcl_cache cl) of
        Ok (Some s, cache) \<Rightarrow>
          Some (bind_res (update_queue (cq_queue s) (queue_push msg) pool) (\<lambda>pool.
            Ok (cl\<lparr>rcl_cache := cache,
                   rcl_need_flush := rcl_need_flush cl @ (if cq_dirty s then [] else [message_key msg])\<rparr>, pool)))
      | Ok (None, cache) \<Rightarrow>
          (case load_stream (message_key msg) (cl\<lparr>rcl_cache := cache\<rparr>) pool of
             Ok (_, cl, pool) \<Rightarrow> client_send msg cl pool
           | _ \<Rightarrow> Some Panic)
      | _ \<Rightarrow> Some Panic)"

declare client_send.simps [code]

fun flush_loop :: "conn_key list \<Rightarrow> raft_client \<Rightarrow> connection_pool \<Rightarrow> (unit, raft_client \<times> connection_pool) res" where
  "flush_loop [] cl pool = Ok (cl, pool)"
| "flush_loop (key # keys) cl pool =
     bind_res (lru_get_mut (\<lambda>s. s\<lparr>cq_dirty := False\<rparr>) key (rcl_cache cl)) (\<lambda>(found, cache).
     bind_res (case found of
                 Some s \<Rightarrow> if cq_dirty s then update_queue (cq_queue s) (\<lambda>q. Ok (queue_notify q)) pool else Ok pool
               | None \<Rightarrow>
                   (case fmlookup (cp_connections pool) key of
                      Some a \<Rightarrow> update_queue a (\<lambda>q. Ok (queue_notify q)) pool
                    | None \<Rightarrow> Ok pool)) (\<lambda>pool.
     flush_loop keys (cl\<lparr>rcl_cache := cache\<rparr>) pool))"

definition need_flush :: "raft_client \<Rightarrow> bool" where
  "need_flush cl \<longleftrightarrow> rcl_need_flush cl \<noteq> []"

definition client_flush :: "raft_client \<Rightarrow> connection_pool \<Rightarrow> (unit, raft_client \<times> connection_pool) res" where
  "client_flush cl pool =
     (if \<not> need_flush cl then Ok (cl, pool)
      else bind_res (flush_loop (rcl_need_flush cl) cl pool) (\<lambda>(cl, pool).
           Ok (cl\<lparr>rcl_need_flush := []\<rparr>, pool)))"

end
