(* ===== verification/Transport.thy ===== *)
theory Transport
  imports Raft_Client Lru_Properties "HOL-Library.Sublist"
begin

text \<open>
  The raft clients of a store that share one pool, with their back ends, as one system: its steps, its invariant, and
  what each operation of \<open>Raft_Client\<close> does to the queue of a connection.
\<close>

section \<open>The cache as a map\<close>

definition cache_view :: "('k, 'v, u64) lru_cache \<Rightarrow> ('k \<rightharpoonup> 'v) \<Rightarrow> bool" where
  "cache_view c m \<longleftrightarrow> (\<exists>l. lru_sim count_tracker c l \<and> map_of (ll_entries l) = m)"

lemma map_of_take_le: "map_of (take n xs) \<subseteq>\<^sub>m map_of xs"
proof -
  have "map_of (take n xs) \<subseteq>\<^sub>m map_of (drop n xs) ++ map_of (take n xs)" by simp
  then show ?thesis by (simp add: map_of_append [symmetric] del: map_of_append)
qed

lemma map_of_without: "map_of (without k xs) = (map_of xs)(k := None)"
  by (induction xs) (auto simp: without_def)

lemma map_of_used: "m = map_of (ll_entries l) \<Longrightarrow> m k \<noteq> None \<Longrightarrow> map_of (ll_entries (used k v l)) = m(k \<mapsto> v)"
proof -
  have "map_of (map (\<lambda>e. if fst e = k then (k, v) else e) xs) =
      (if map_of xs k = None then map_of xs else (map_of xs)(k \<mapsto> v))" for xs
    by (induction xs) (auto simp: fun_eq_iff split: if_splits)
  then show "m = map_of (ll_entries l) \<Longrightarrow> m k \<noteq> None \<Longrightarrow> ?thesis"
    by (auto simp: used_def Let_def map_of_without)
qed

lemma get_mut_view:
  assumes "cache_view c m"
  shows "\<exists>c'. lru_get_mut f k c = Ok (m k, c') \<and> cache_view c' (case m k of None \<Rightarrow> m | Some v \<Rightarrow> m(k \<mapsto> f v))"
proof -
  obtain l where l: "lru_sim count_tracker c l" "map_of (ll_entries l) = m" using assms by (auto simp: cache_view_def)
  from count.get_mut_sim [OF l(1), of f k] show ?thesis
    using l(2) map_of_used [of m l k] unfolding cache_view_def by (cases "m k") fastforce+
qed

lemma resize_view:
  assumes "cache_view c m"
  shows "\<exists>c' m'. lru_resize count_tracker n c = Ok c' \<and> cache_view c' m' \<and> m' \<subseteq>\<^sub>m m"
proof -
  obtain l where l: "lru_sim count_tracker c l" "map_of (ll_entries l) = m" using assms by (auto simp: cache_view_def)
  from count.resize_sim [OF l(1), of n] show ?thesis
    using l(2) map_of_take_le unfolding cache_view_def by (fastforce simp: Let_def)
qed

lemma insert_view:
  assumes "cache_view c m"
  shows "\<exists>c' m'. lru_insert count_tracker k v c = Ok c' \<and> cache_view c' (m'(k \<mapsto> v)) \<and> m' \<subseteq>\<^sub>m m"
proof -
  obtain l where l: "lru_sim count_tracker c l" "map_of (ll_entries l) = m" using assms by (auto simp: cache_view_def)
  obtain c' where c': "lru_insert count_tracker k v c = Ok c'" "lru_sim count_tracker c' (snd (list_exec (Lru_Insert k v) l))"
    using count.exec_sim [OF l(1), of "Lru_Insert k v"] by (auto simp: bind_res_eq_Ok)
  have "map_of (butlast (ll_entries l)) \<subseteq>\<^sub>m m" "map_of (without k (ll_entries l)) \<subseteq>\<^sub>m m"
    unfolding l(2) [symmetric] butlast_conv_take map_of_without by (rule map_of_take_le) (simp add: map_le_def)
  with c' show ?thesis unfolding cache_view_def by fastforce
qed

lemma raft_client_new_ok:
  "\<exists>cl. raft_client_new = Ok cl \<and> cache_view (rcl_cache cl) Map.empty \<and> rcl_need_flush cl = []"
proof -
  obtain c :: "(conn_key, cached_queue, u64) lru_cache"
    where c: "with_capacity_and_sample 0 7 = Ok c" "lru_sim count_tracker c (new_list 0 7)"
    using with_capacity_sim by blast
  then have "cache_view c Map.empty" by (auto simp: cache_view_def new_list_def intro!: exI [of _ "new_list 0 7"])
  with c(1) show ?thesis by (simp add: raft_client_new_def)
qed

section \<open>The pool\<close>

text \<open>The queue and the back end of a connection.\<close>

definition conn :: "connection_pool \<Rightarrow> conn_key \<Rightarrow> (msg_queue \<times> back_end) option" where
  "conn pool k =
     (case (fmlookup (cp_connections pool) k, fmlookup (cp_spawned pool) k) of
        (Some a, Some b) \<Rightarrow> map_option (\<lambda>q. (q, b)) (fmlookup (cp_heap pool) a)
      | _ \<Rightarrow> None)"

text \<open>Each connection has a queue of its own, which its back end reads.\<close>

definition pool_ok :: "connection_pool \<Rightarrow> bool" where
  "pool_ok pool \<longleftrightarrow>
     fmdom (cp_spawned pool) = fmdom (cp_connections pool) \<and>
     (\<forall>k a. fmlookup (cp_connections pool) k = Some a \<longrightarrow> a < cp_fresh pool \<and> a |\<in>| fmdom (cp_heap pool)) \<and>
     (\<forall>k b. fmlookup (cp_spawned pool) k = Some b \<longrightarrow> fmlookup (cp_connections pool) k = Some (be_queue b)) \<and>
     (\<forall>k k' a. fmlookup (cp_connections pool) k = Some a \<longrightarrow> fmlookup (cp_connections pool) k' = Some a \<longrightarrow> k = k')"

definition new_conn :: "conn_key \<Rightarrow> nat \<Rightarrow> msg_queue \<times> back_end" where
  "new_conn k a =
     (queue_with_capacity raft_client_queue_size,
      \<lparr>be_store_id = fst k, be_queue = a, be_retry_times = 0, be_state = Backing_Off, be_wire = []\<rparr>)"

lemma pool_okI:
  assumes "fmdom (cp_spawned pool) = fmdom (cp_connections pool)"
    and "\<And>k a. fmlookup (cp_connections pool) k = Some a \<Longrightarrow> a < cp_fresh pool \<and> a |\<in>| fmdom (cp_heap pool)"
    and "\<And>k b. fmlookup (cp_spawned pool) k = Some b \<Longrightarrow> fmlookup (cp_connections pool) k = Some (be_queue b)"
    and "\<And>k k' a. fmlookup (cp_connections pool) k = Some a \<Longrightarrow> fmlookup (cp_connections pool) k' = Some a \<Longrightarrow> k = k'"
  shows "pool_ok pool"
  using assms unfolding pool_ok_def by blast

lemma pool_ok_dests:
  assumes "pool_ok pool"
  shows "fmdom (cp_spawned pool) = fmdom (cp_connections pool)"
    and "fmlookup (cp_connections pool) k = Some a \<Longrightarrow> a < cp_fresh pool"
    and "fmlookup (cp_connections pool) k = Some a \<Longrightarrow> a |\<in>| fmdom (cp_heap pool)"
    and "fmlookup (cp_spawned pool) k = Some b \<Longrightarrow> fmlookup (cp_connections pool) k = Some (be_queue b)"
    and "fmlookup (cp_connections pool) k = Some a \<Longrightarrow> fmlookup (cp_connections pool) k' = Some a \<Longrightarrow> k = k'"
  using assms unfolding pool_ok_def by blast+

lemma pool_okD:
  assumes ok: "pool_ok pool" and k: "fmlookup (cp_connections pool) k = Some a"
  obtains q b where "fmlookup (cp_heap pool) a = Some q" "fmlookup (cp_spawned pool) k = Some b" "be_queue b = a"
    "conn pool k = Some (q, b)"
proof -
  have "k |\<in>| fmdom (cp_spawned pool)" unfolding pool_ok_dests(1) [OF ok] using k by (rule fmdomI)
  then obtain q b where qb: "fmlookup (cp_heap pool) a = Some q" "fmlookup (cp_spawned pool) k = Some b"
    using pool_ok_dests(3) [OF ok k] by (meson fmdomE)
  moreover have "be_queue b = a" using pool_ok_dests(4) [OF ok qb(2)] k by simp
  moreover have "conn pool k = Some (q, b)" using k qb by (simp add: conn_def)
  ultimately show thesis by (rule that)
qed

lemma conn_None: "pool_ok pool \<Longrightarrow> conn pool k = None \<longleftrightarrow> fmlookup (cp_connections pool) k = None"
proof (cases "fmlookup (cp_connections pool) k")
  case (Some a)
  assume "pool_ok pool"
  from this Some show ?thesis by (rule pool_okD) (simp add: Some)
qed (simp add: conn_def)

lemma conn_SomeD:
  assumes ok: "pool_ok pool" and k: "conn pool k = Some (q, b)"
  shows "fmlookup (cp_connections pool) k = Some (be_queue b)" "fmlookup (cp_heap pool) (be_queue b) = Some q"
    "fmlookup (cp_spawned pool) k = Some b"
proof -
  have "fmlookup (cp_connections pool) k \<noteq> None" using conn_None [OF ok, of k] k by simp
  then obtain a where a: "fmlookup (cp_connections pool) k = Some a" by blast
  from pool_okD [OF ok a] obtain q' b' where "fmlookup (cp_heap pool) a = Some q'" "fmlookup (cp_spawned pool) k = Some b'"
    "be_queue b' = a" "conn pool k = Some (q', b')" .
  with a k show "fmlookup (cp_connections pool) k = Some (be_queue b)" "fmlookup (cp_heap pool) (be_queue b) = Some q"
    "fmlookup (cp_spawned pool) k = Some b" by simp_all
qed

text \<open>Writing the queue and the back end of one connection leaves the others alone.\<close>

lemma conn_update:
  fixes q' :: msg_queue
  assumes ok: "pool_ok pool" and k: "conn pool k = Some (q, b)" and b': "be_queue b' = be_queue b"
  defines "pool' \<equiv> pool\<lparr>cp_heap := fmupd (be_queue b) q' (cp_heap pool), cp_spawned := fmupd k b' (cp_spawned pool)\<rparr>"
  shows "pool_ok pool'" "conn pool' = (conn pool)(k \<mapsto> (q', b'))"
proof -
  note d = conn_SomeD [OF ok k]
  show "pool_ok pool'"
  proof (rule pool_okI)
    show "fmdom (cp_spawned pool') = fmdom (cp_connections pool')"
      using pool_ok_dests(1) [OF ok] fmdomI [OF d(1)] by (simp add: pool'_def finsert_absorb)
  qed (use pool_ok_dests [OF ok] d b' in \<open>simp_all add: pool'_def split: if_splits\<close>)
  show "conn pool' = (conn pool)(k \<mapsto> (q', b'))"
  proof
    fix k'
    show "conn pool' k' = ((conn pool)(k \<mapsto> (q', b'))) k'"
    proof (cases "k' = k")
      case False
      then have "fmlookup (cp_connections pool) k' \<noteq> Some (be_queue b)" using pool_ok_dests(5) [OF ok _ d(1)] by blast
      with False show ?thesis by (cases "fmlookup (cp_connections pool) k'") (simp_all add: conn_def pool'_def split: option.split)
    qed (use d in \<open>simp add: conn_def pool'_def\<close>)
  qed
qed

lemma update_queue_ok:
  assumes ok: "pool_ok pool" and k: "conn pool k = Some (q, b)" and f: "f q = Ok q'"
  shows "\<exists>pool'. update_queue (be_queue b) f pool = Ok pool' \<and> pool_ok pool' \<and> conn pool' = (conn pool)(k \<mapsto> (q', b)) \<and>
    cp_connections pool' = cp_connections pool"
proof -
  note d = conn_SomeD [OF ok k]
  have "fmupd k b (cp_spawned pool) = cp_spawned pool" using d(3) by (intro fmap_ext) auto
  with conn_update [OF ok k, of b q'] f d(2) show ?thesis by (simp add: update_queue_def)
qed

definition conn_or_new :: "connection_pool \<Rightarrow> conn_key \<Rightarrow> msg_queue \<times> back_end" where
  "conn_or_new pool k = (case conn pool k of Some c \<Rightarrow> c | None \<Rightarrow> new_conn k (cp_fresh pool))"

lemma pool_entry_ok:
  assumes ok: "pool_ok pool"
  shows "\<exists>pool'. pool_entry k pool = (be_queue (snd (conn_or_new pool k)), pool') \<and> pool_ok pool' \<and>
    fmlookup (cp_connections pool) \<subseteq>\<^sub>m fmlookup (cp_connections pool') \<and>
    conn pool' = (conn pool)(k \<mapsto> conn_or_new pool k)"
proof (cases "fmlookup (cp_connections pool) k")
  case None
  let ?a = "cp_fresh pool" and ?pool = "snd (pool_entry k pool)"
  have a: "fmlookup (cp_connections pool) k' \<noteq> Some ?a" for k' using pool_ok_dests(2) [OF ok, of k' ?a] by blast
  have e: "pool_entry k pool = (?a, ?pool)" "cp_connections ?pool = fmupd k ?a (cp_connections pool)"
    "cp_heap ?pool = fmupd ?a (fst (new_conn k ?a)) (cp_heap pool)"
    "cp_spawned ?pool = fmupd k (snd (new_conn k ?a)) (cp_spawned pool)" "cp_fresh ?pool = ?a + 1"
    using None by (simp_all add: pool_entry_def Let_def new_conn_def)
  have "conn ?pool k' = ((conn pool)(k \<mapsto> new_conn k ?a)) k'" for k'
    using a [of k'] by (cases "fmlookup (cp_connections pool) k'") (auto simp: conn_def e(2-5) split: option.split)
  moreover have "pool_ok ?pool"
  proof (rule pool_okI)
    show "fmdom (cp_spawned ?pool) = fmdom (cp_connections ?pool)" using pool_ok_dests(1) [OF ok] by (simp add: e(2-5))
    show "a' < cp_fresh ?pool \<and> a' |\<in>| fmdom (cp_heap ?pool)" if "fmlookup (cp_connections ?pool) k' = Some a'" for k' a'
      using that pool_ok_dests(2,3) [OF ok, of k' a'] by (auto simp: e(2-5) split: if_splits)
    show "fmlookup (cp_connections ?pool) k' = Some (be_queue b)" if "fmlookup (cp_spawned ?pool) k' = Some b" for k' b
      using that pool_ok_dests(4) [OF ok, of k' b] by (auto simp: e(2-5) new_conn_def split: if_splits)
    show "k1 = k2" if "fmlookup (cp_connections ?pool) k1 = Some a'" "fmlookup (cp_connections ?pool) k2 = Some a'" for k1 k2 a'
      using that a pool_ok_dests(5) [OF ok, of k1 a' k2] by (auto simp: e(2) split: if_splits)
  qed
  moreover have "fmlookup (cp_connections pool) \<subseteq>\<^sub>m fmlookup (cp_connections ?pool)"
    using None by (auto simp: e(2) map_le_def dest!: fmdom'_SomeD)
  ultimately show ?thesis
    using e(1) None conn_None [OF ok, of k]
    by (intro exI [of _ ?pool]) (simp add: fun_eq_iff conn_or_new_def new_conn_def)
next
  case (Some a)
  from ok Some obtain q b where "be_queue b = a" "conn pool k = Some (q, b)" by (rule pool_okD)
  with Some show ?thesis using ok by (simp add: pool_entry_def conn_or_new_def fun_upd_idem)
qed

section \<open>A client\<close>

text \<open>The cache holds queues of the pool, and marks as dirty those that the client still has to notify.\<close>

definition client_ok :: "connection_pool \<Rightarrow> raft_client \<Rightarrow> bool" where
  "client_ok pool cl \<longleftrightarrow>
     (\<exists>m. cache_view (rcl_cache cl) m \<and>
        (\<forall>k s. m k = Some s \<longrightarrow>
           fmlookup (cp_connections pool) k = Some (cq_queue s) \<and> (cq_dirty s \<longleftrightarrow> k \<in> set (rcl_need_flush cl))))"

lemma client_okI:
  assumes "cache_view (rcl_cache cl) m"
    and "\<And>k s. m k = Some s \<Longrightarrow> fmlookup (cp_connections pool) k = Some (cq_queue s)"
    and "\<And>k s. m k = Some s \<Longrightarrow> cq_dirty s \<longleftrightarrow> k \<in> set (rcl_need_flush cl)"
  shows "client_ok pool cl"
  using assms unfolding client_ok_def by blast

lemma client_okE:
  assumes "client_ok pool cl"
  obtains m where "cache_view (rcl_cache cl) m"
    and "\<And>k s. m k = Some s \<Longrightarrow> fmlookup (cp_connections pool) k = Some (cq_queue s)"
    and "\<And>k s. m k = Some s \<Longrightarrow> cq_dirty s \<longleftrightarrow> k \<in> set (rcl_need_flush cl)"
  using assms unfolding client_ok_def by blast

lemma client_ok_mono:
  assumes "client_ok pool cl" "fmlookup (cp_connections pool) \<subseteq>\<^sub>m fmlookup (cp_connections pool')"
  shows "client_ok pool' cl"
  using assms(1)
proof (rule client_okE)
  fix m assume "cache_view (rcl_cache cl) m"
    and "\<And>k s. m k = Some s \<Longrightarrow> fmlookup (cp_connections pool) k = Some (cq_queue s)"
    and "\<And>k s. m k = Some s \<Longrightarrow> cq_dirty s \<longleftrightarrow> k \<in> set (rcl_need_flush cl)"
  moreover have "fmlookup (cp_connections pool') k = Some a" if "fmlookup (cp_connections pool) k = Some a" for k a
    using that assms(2) unfolding map_le_def by (metis domI)
  ultimately show ?thesis by (intro client_okI [of _ m]) blast+
qed

lemma load_stream_ok:
  assumes "cache_view (rcl_cache cl) m"
  shows "\<exists>cache m'. load_stream k cl pool = Ok (True, cl\<lparr>rcl_cache := cache\<rparr>, snd (pool_entry k pool)) \<and>
    cache_view cache (m'(k \<mapsto> \<lparr>cq_queue = fst (pool_entry k pool), cq_dirty = False\<rparr>)) \<and> m' \<subseteq>\<^sub>m m"
proof -
  let ?n = "of_nat (fcard (fmdom (cp_connections (snd (pool_entry k pool)))))"
  let ?s = "\<lparr>cq_queue = fst (pool_entry k pool), cq_dirty = False\<rparr>"
  obtain c1 m1 where 1: "lru_resize count_tracker ?n (rcl_cache cl) = Ok c1" "cache_view c1 m1" "m1 \<subseteq>\<^sub>m m"
    using resize_view [OF assms] by blast
  obtain c2 m2 where 2: "lru_insert count_tracker k ?s c1 = Ok c2" "cache_view c2 (m2(k \<mapsto> ?s))" "m2 \<subseteq>\<^sub>m m1"
    using insert_view [OF 1(2)] by blast
  show ?thesis
    using 1(1) 2(1,2) map_le_trans [OF 2(3) 1(3)] by (intro exI [of _ c2] exI [of _ m2]) (simp add: load_stream_def case_prod_beta)
qed

text \<open>The last turn of the loop of \<open>send\<close>, and the one before it.\<close>

lemma send_hit:
  assumes "cache_view (rcl_cache cl) m" "m (message_key msg) = Some s"
  shows "\<exists>cache. client_send msg cl pool =
      Some (bind_res (update_queue (cq_queue s) (queue_push msg) pool) (\<lambda>pool.
        Ok (cl\<lparr>rcl_cache := cache,
               rcl_need_flush := rcl_need_flush cl @ (if cq_dirty s then [] else [message_key msg])\<rparr>, pool))) \<and>
    cache_view cache (m(message_key msg \<mapsto> s\<lparr>cq_dirty := True\<rparr>))"
proof -
  obtain c where "lru_get_mut (\<lambda>s. s\<lparr>cq_dirty := True\<rparr>) (message_key msg) (rcl_cache cl) = Ok (Some s, c)"
    "cache_view c (m(message_key msg \<mapsto> s\<lparr>cq_dirty := True\<rparr>))"
    using get_mut_view [OF assms(1), of "\<lambda>s. s\<lparr>cq_dirty := True\<rparr>" "message_key msg"] assms(2) by auto
  then show ?thesis by (intro exI [of _ c]) (simp add: client_send.simps [of msg cl pool])
qed

lemma send_miss:
  assumes "cache_view (rcl_cache cl) m" "m (message_key msg) = None"
  shows "\<exists>cache m'. client_send msg cl pool = client_send msg (cl\<lparr>rcl_cache := cache\<rparr>) (snd (pool_entry (message_key msg) pool)) \<and>
    cache_view cache (m'(message_key msg \<mapsto> \<lparr>cq_queue = fst (pool_entry (message_key msg) pool), cq_dirty = False\<rparr>)) \<and> m' \<subseteq>\<^sub>m m"
proof -
  let ?k = "message_key msg"
  obtain c where c: "lru_get_mut (\<lambda>s. s\<lparr>cq_dirty := True\<rparr>) ?k (rcl_cache cl) = Ok (None, c)" "cache_view c m"
    using get_mut_view [OF assms(1), of "\<lambda>s. s\<lparr>cq_dirty := True\<rparr>" ?k] assms(2) by auto
  from load_stream_ok [of "cl\<lparr>rcl_cache := c\<rparr>" m ?k pool] c(2)
  obtain cache m' where "load_stream ?k (cl\<lparr>rcl_cache := c\<rparr>) pool = Ok (True, cl\<lparr>rcl_cache := cache\<rparr>, snd (pool_entry ?k pool))"
    "cache_view cache (m'(?k \<mapsto> \<lparr>cq_queue = fst (pool_entry ?k pool), cq_dirty = False\<rparr>))" "m' \<subseteq>\<^sub>m m" by auto
  then show ?thesis
    using c(1) by (intro exI [of _ cache] exI [of _ m']) (simp add: client_send.simps [of msg cl pool])
qed

text \<open>A message goes to the end of its queue, a new one if need be, unless the queue is full.\<close>

definition send_effect :: "raft_message \<Rightarrow> raft_client \<Rightarrow> connection_pool \<Rightarrow> msg_queue \<Rightarrow> back_end \<Rightarrow> bool" where
  "send_effect msg cl pool q b \<longleftrightarrow>
     (if mq_cap q \<le> length (mq_buf q) then client_send msg cl pool = Some Panic
      else \<exists>cl' pool'. client_send msg cl pool = Some (Ok (cl', pool')) \<and> pool_ok pool' \<and> client_ok pool' cl' \<and>
        fmlookup (cp_connections pool) \<subseteq>\<^sub>m fmlookup (cp_connections pool') \<and>
        conn pool' = (conn pool)(message_key msg \<mapsto> (q\<lparr>mq_buf := mq_buf q @ [msg]\<rparr>, b)) \<and>
        set (rcl_need_flush cl') = insert (message_key msg) (set (rcl_need_flush cl)))"

lemma send_cached:
  fixes msg
  defines "k \<equiv> message_key msg"
  assumes ok: "pool_ok pool" and m: "cache_view (rcl_cache cl) m" "m k = Some s"
    and conns: "\<And>k s. m k = Some s \<Longrightarrow> fmlookup (cp_connections pool) k = Some (cq_queue s)"
    and dirty: "\<And>k' s. m k' = Some s \<Longrightarrow> k' \<noteq> k \<Longrightarrow> cq_dirty s \<longleftrightarrow> k' \<in> set (rcl_need_flush cl)"
    and s: "cq_dirty s \<Longrightarrow> k \<in> set (rcl_need_flush cl)"
    and q: "conn pool k = Some (q, b)"
  shows "send_effect msg cl pool q b"
proof -
  have a: "cq_queue s = be_queue b" using conns [OF m(2)] conn_SomeD(1) [OF ok q] by simp
  obtain cache where send: "client_send msg cl pool =
      Some (bind_res (update_queue (be_queue b) (queue_push msg) pool) (\<lambda>pool.
        Ok (cl\<lparr>rcl_cache := cache, rcl_need_flush := rcl_need_flush cl @ (if cq_dirty s then [] else [k])\<rparr>, pool)))"
    and view: "cache_view cache (m(k \<mapsto> s\<lparr>cq_dirty := True\<rparr>))"
    using send_hit [OF m(1), of msg s pool] m(2) unfolding k_def a by blast
  show ?thesis
  proof (cases "mq_cap q \<le> length (mq_buf q)")
    case True
    then show ?thesis using send conn_SomeD(2) [OF ok q] by (simp add: send_effect_def update_queue_def queue_push_def)
  next
    case False
    let ?cl = "cl\<lparr>rcl_cache := cache, rcl_need_flush := rcl_need_flush cl @ (if cq_dirty s then [] else [k])\<rparr>"
    have "queue_push msg q = Ok (q\<lparr>mq_buf := mq_buf q @ [msg]\<rparr>)" using False by (simp add: queue_push_def)
    from update_queue_ok [OF ok q, of "queue_push msg", OF this] obtain pool' where
      pool': "update_queue (be_queue b) (queue_push msg) pool = Ok pool'" "pool_ok pool'"
        "conn pool' = (conn pool)(k \<mapsto> (q\<lparr>mq_buf := mq_buf q @ [msg]\<rparr>, b))" "cp_connections pool' = cp_connections pool" by blast
    have flush: "set (rcl_need_flush ?cl) = insert k (set (rcl_need_flush cl))" using s by auto
    have "client_ok pool' ?cl"
    proof (rule client_okI)
      show "cache_view (rcl_cache ?cl) (m(k \<mapsto> s\<lparr>cq_dirty := True\<rparr>))" using view by simp
      show "cq_dirty s' \<longleftrightarrow> k' \<in> set (rcl_need_flush ?cl)" if "(m(k \<mapsto> s\<lparr>cq_dirty := True\<rparr>)) k' = Some s'" for k' s'
        using that dirty [of k' s'] unfolding flush by (auto split: if_splits)
    qed (use conns m(2) pool'(4) in \<open>auto split: if_splits\<close>)
    with False send pool' flush show ?thesis by (auto simp: send_effect_def k_def)
  qed
qed

lemma send_ok:
  fixes msg
  defines "k \<equiv> message_key msg"
  assumes ok: "pool_ok pool" "client_ok pool cl" and q: "conn_or_new pool k = (q, b)"
  shows "send_effect msg cl pool q b"
  using ok(2)
proof (rule client_okE)
  fix m assume m: "cache_view (rcl_cache cl) m"
    and conns: "\<And>k s. m k = Some s \<Longrightarrow> fmlookup (cp_connections pool) k = Some (cq_queue s)"
    and dirty: "\<And>k s. m k = Some s \<Longrightarrow> cq_dirty s \<longleftrightarrow> k \<in> set (rcl_need_flush cl)"
  show ?thesis
  proof (cases "m k")
    case (Some s)
    have "conn pool k = Some (q, b)"
      using q conns [OF Some] conn_None [OF ok(1), of k] by (simp add: conn_or_new_def split: option.splits)
    then show ?thesis
      using Some dirty [OF Some] unfolding k_def by (intro send_cached [OF ok(1) m _ conns dirty]) auto
  next
    case None
    obtain pool1 where p: "pool_entry k pool = (be_queue b, pool1)" "pool_ok pool1"
      "fmlookup (cp_connections pool) \<subseteq>\<^sub>m fmlookup (cp_connections pool1)" "conn pool1 = (conn pool)(k \<mapsto> (q, b))"
      using pool_entry_ok [OF ok(1), of k] q by auto
    let ?s = "\<lparr>cq_queue = be_queue b, cq_dirty = False\<rparr>"
    obtain cache m' where miss: "client_send msg cl pool = client_send msg (cl\<lparr>rcl_cache := cache\<rparr>) pool1"
      and m': "cache_view cache (m'(k \<mapsto> ?s))" "m' \<subseteq>\<^sub>m m"
      using send_miss [OF m, of msg pool] None p(1) unfolding k_def by auto
    have old: "m k' = Some s'" if "(m'(k \<mapsto> ?s)) k' = Some s'" "k' \<noteq> k" for k' s'
    proof -
      have "m' k' = Some s'" using that by simp
      with m'(2) show ?thesis unfolding map_le_def by (metis domI)
    qed
    have conn1: "conn pool1 k = Some (q, b)" using p(4) by simp
    have conns1: "fmlookup (cp_connections pool1) k' = Some (cq_queue s')" if "(m'(k \<mapsto> ?s)) k' = Some s'" for k' s'
    proof (cases "k' = k")
      case True
      then show ?thesis using that conn_SomeD(1) [OF p(2) conn1] by auto
    next
      case False
      show ?thesis using conns [OF old [OF that False]] p(3) unfolding map_le_def by (metis domI)
    qed
    have "send_effect msg (cl\<lparr>rcl_cache := cache\<rparr>) pool1 q b"
    proof (rule send_cached [where m = "m'(k \<mapsto> ?s)" and s = ?s, OF p(2) _ _ conns1])
      show "cq_dirty s' \<longleftrightarrow> k' \<in> set (rcl_need_flush (cl\<lparr>rcl_cache := cache\<rparr>))"
        if "(m'(k \<mapsto> ?s)) k' = Some s'" "k' \<noteq> message_key msg" for k' s'
        using dirty [OF old [OF that(1)]] that(2) by (simp add: k_def)
    qed (use m'(1) conn1 in \<open>simp_all add: k_def\<close>)
    then show ?thesis
      using miss p(3,4) map_le_trans [OF p(3)] unfolding send_effect_def k_def by (auto split: if_splits)
  qed
qed

text \<open>A flush notifies the queues that the client has put messages into since the last one.\<close>

abbreviation notified :: "(msg_queue \<times> back_end) option \<Rightarrow> (msg_queue \<times> back_end) option" where
  "notified \<equiv> map_option (apfst queue_notify)"

lemma queue_notify_idem [simp]: "queue_notify (queue_notify q) = queue_notify q"
  by (simp add: queue_notify_def)

lemma notified_idem [simp]: "notified (notified c) = notified c"
  by (cases c) auto

definition notify_conn :: "conn_key \<Rightarrow> connection_pool \<Rightarrow> connection_pool \<Rightarrow> bool" where
  "notify_conn k pool pool' \<longleftrightarrow>
     pool_ok pool' \<and> cp_connections pool' = cp_connections pool \<and> conn pool' = (conn pool)(k := notified (conn pool k))"

lemma notify_queue_ok:
  assumes ok: "pool_ok pool" and k: "fmlookup (cp_connections pool) k = Some a"
  shows "\<exists>pool'. update_queue a (\<lambda>q. Ok (queue_notify q)) pool = Ok pool' \<and> notify_conn k pool pool'"
proof -
  from ok k obtain q b where "be_queue b = a" "conn pool k = Some (q, b)" by (rule pool_okD)
  then show ?thesis
    using update_queue_ok [OF ok, of k q b "\<lambda>q. Ok (queue_notify q)" "queue_notify q"] by (auto simp: notify_conn_def)
qed

text \<open>One turn of the loop. \<open>done\<close> are the connections that have been notified in earlier turns.\<close>

lemma flush_turn:
  assumes ok: "pool_ok pool" and m: "cache_view (rcl_cache cl) m"
    and conns: "\<And>k s. m k = Some s \<Longrightarrow> fmlookup (cp_connections pool) k = Some (cq_queue s)"
    and dirty: "\<And>s. m key = Some s \<Longrightarrow> cq_dirty s \<longleftrightarrow> key \<notin> already"
    and fixed: "key \<in> already \<Longrightarrow> notified (conn pool key) = conn pool key"
  shows "\<exists>cache pool'. flush_loop (key # keys) cl pool = flush_loop keys (cl\<lparr>rcl_cache := cache\<rparr>) pool' \<and>
    cache_view cache (case m key of None \<Rightarrow> m | Some s \<Rightarrow> m(key \<mapsto> s\<lparr>cq_dirty := False\<rparr>)) \<and> notify_conn key pool pool'"
proof -
  obtain c where c: "lru_get_mut (\<lambda>s. s\<lparr>cq_dirty := False\<rparr>) key (rcl_cache cl) = Ok (m key, c)"
    "cache_view c (case m key of None \<Rightarrow> m | Some s \<Rightarrow> m(key \<mapsto> s\<lparr>cq_dirty := False\<rparr>))"
    using get_mut_view [OF m, of "\<lambda>s. s\<lparr>cq_dirty := False\<rparr>" key] by blast
  have idle: "notify_conn key pool pool" if "notified (conn pool key) = conn pool key"
    using that ok by (simp add: notify_conn_def)
  have "\<exists>pool'. (case m key of
                 Some s \<Rightarrow> if cq_dirty s then update_queue (cq_queue s) (\<lambda>q. Ok (queue_notify q)) pool else Ok pool
               | None \<Rightarrow>
                   (case fmlookup (cp_connections pool) key of
                      Some a \<Rightarrow> update_queue a (\<lambda>q. Ok (queue_notify q)) pool
                    | None \<Rightarrow> Ok pool)) = Ok pool' \<and> notify_conn key pool pool'"
  proof (cases "m key")
    case None
    then show ?thesis
      using notify_queue_ok [OF ok, of key] idle conn_None [OF ok, of key]
      by (cases "fmlookup (cp_connections pool) key") auto
  next
    case (Some s)
    then show ?thesis
      using notify_queue_ok [OF ok conns [OF Some]] idle fixed dirty [OF Some] by (cases "cq_dirty s") auto
  qed
  with c show ?thesis by fastforce
qed

lemma flush_loop_ok:
  assumes "pool_ok pool" "cache_view (rcl_cache cl) m"
    and "\<And>k s. m k = Some s \<Longrightarrow> fmlookup (cp_connections pool) k = Some (cq_queue s)"
    and "\<And>k s. m k = Some s \<Longrightarrow> cq_dirty s \<longleftrightarrow> k \<in> todo - already"
    and "\<And>k. k \<in> already \<Longrightarrow> notified (conn pool k) = conn pool k" and "set keys \<subseteq> todo"
  shows "\<exists>cache m' pool'. flush_loop keys cl pool = Ok (cl\<lparr>rcl_cache := cache\<rparr>, pool') \<and> cache_view cache m' \<and>
    (\<forall>k s. m' k = Some s \<longrightarrow> fmlookup (cp_connections pool) k = Some (cq_queue s) \<and>
       (cq_dirty s \<longleftrightarrow> k \<in> todo - (already \<union> set keys))) \<and>
    pool_ok pool' \<and> cp_connections pool' = cp_connections pool \<and>
    conn pool' = (\<lambda>k. if k \<in> set keys then notified (conn pool k) else conn pool k)"
  using assms
proof (induction keys arbitrary: cl pool m already)
  case Nil
  then show ?case by (intro exI [of _ "rcl_cache cl"] exI [of _ m] exI [of _ pool]) simp
next
  case (Cons key keys)
  let ?m = "case m key of None \<Rightarrow> m | Some s \<Rightarrow> m(key \<mapsto> s\<lparr>cq_dirty := False\<rparr>)"
  obtain cache pool1 where turn: "flush_loop (key # keys) cl pool = flush_loop keys (cl\<lparr>rcl_cache := cache\<rparr>) pool1"
    "cache_view cache ?m" and n: "notify_conn key pool pool1"
  proof -
    have "cq_dirty s \<longleftrightarrow> key \<notin> already" if "m key = Some s" for s using Cons.prems(4) [OF that] Cons.prems(6) by simp
    from flush_turn [OF Cons.prems(1,2,3) this Cons.prems(5), where keys = keys]
    show thesis using that by blast
  qed
  note n = n [unfolded notify_conn_def]
  have old: "\<exists>s'. m k = Some s' \<and> cq_queue s = cq_queue s' \<and> cq_dirty s = (k \<noteq> key \<and> cq_dirty s')" if "?m k = Some s" for k s
    using that by (auto split: option.splits if_splits)
  have "\<exists>cache' m' pool'. flush_loop keys (cl\<lparr>rcl_cache := cache\<rparr>) pool1 = Ok (cl\<lparr>rcl_cache := cache\<rparr>\<lparr>rcl_cache := cache'\<rparr>, pool') \<and>
    cache_view cache' m' \<and>
    (\<forall>k s. m' k = Some s \<longrightarrow> fmlookup (cp_connections pool1) k = Some (cq_queue s) \<and>
       (cq_dirty s \<longleftrightarrow> k \<in> todo - (insert key already \<union> set keys))) \<and>
    pool_ok pool' \<and> cp_connections pool' = cp_connections pool1 \<and>
    conn pool' = (\<lambda>k. if k \<in> set keys then notified (conn pool1 k) else conn pool1 k)"
  proof (rule Cons.IH)
    show "pool_ok pool1" "cache_view (rcl_cache (cl\<lparr>rcl_cache := cache\<rparr>)) ?m" "set keys \<subseteq> todo"
      using n turn(2) Cons.prems(6) by simp_all
    show "fmlookup (cp_connections pool1) k = Some (cq_queue s)" if "?m k = Some s" for k s
      using old [OF that] Cons.prems(3) n by metis
    show "cq_dirty s \<longleftrightarrow> k \<in> todo - insert key already" if "?m k = Some s" for k s
      using old [OF that] Cons.prems(4) by (metis Diff_iff insert_iff)
    show "notified (conn pool1 k) = conn pool1 k" if "k \<in> insert key already" for k
      using that Cons.prems(5) [of k] n by auto
  qed
  then obtain cache' m' pool' where "flush_loop (key # keys) cl pool = Ok (cl\<lparr>rcl_cache := cache'\<rparr>, pool')"
    and "cache_view cache' m'" "pool_ok pool'" "cp_connections pool' = cp_connections pool"
    and "\<forall>k s. m' k = Some s \<longrightarrow> fmlookup (cp_connections pool) k = Some (cq_queue s) \<and>
      (cq_dirty s \<longleftrightarrow> k \<in> todo - (already \<union> set (key # keys)))"
    and "conn pool' = (\<lambda>k. if k \<in> set (key # keys) then notified (conn pool k) else conn pool k)"
    using turn(1) n by (auto simp: fun_eq_iff simp del: split_paired_All split_paired_Ex)
  then show ?case by blast
qed

lemma flush_ok:
  assumes "pool_ok pool" "client_ok pool cl"
  shows "\<exists>cl' pool'. client_flush cl pool = Ok (cl', pool') \<and> pool_ok pool' \<and> client_ok pool' cl' \<and>
    cp_connections pool' = cp_connections pool \<and> rcl_need_flush cl' = [] \<and>
    conn pool' = (\<lambda>k. if k \<in> set (rcl_need_flush cl) then notified (conn pool k) else conn pool k)"
  using assms(2)
proof (rule client_okE)
  fix m assume m: "cache_view (rcl_cache cl) m"
    and conns: "\<And>k s. m k = Some s \<Longrightarrow> fmlookup (cp_connections pool) k = Some (cq_queue s)"
    and dirty: "\<And>k s. m k = Some s \<Longrightarrow> cq_dirty s \<longleftrightarrow> k \<in> set (rcl_need_flush cl)"
  obtain cache m' pool' where loop: "flush_loop (rcl_need_flush cl) cl pool = Ok (cl\<lparr>rcl_cache := cache\<rparr>, pool')"
    and m': "cache_view cache m'" "\<And>k s. m' k = Some s \<Longrightarrow> fmlookup (cp_connections pool) k = Some (cq_queue s)"
      "\<And>k s. m' k = Some s \<Longrightarrow> \<not> cq_dirty s"
    and pool': "pool_ok pool'" "cp_connections pool' = cp_connections pool"
      "conn pool' = (\<lambda>k. if k \<in> set (rcl_need_flush cl) then notified (conn pool k) else conn pool k)"
  proof -
    have "cq_dirty s \<longleftrightarrow> k \<in> set (rcl_need_flush cl) - {}" if "m k = Some s" for k s using dirty [OF that] by simp
    from flush_loop_ok [OF assms(1) m conns this _ subset_refl] show thesis using that by auto
  qed
  have "client_ok pool' (cl\<lparr>rcl_cache := cache, rcl_need_flush := []\<rparr>)"
    using m' pool'(2) by (intro client_okI [of _ m']) simp_all
  then show ?thesis
    using assms loop pool' by (cases "need_flush cl") (auto simp: client_flush_def need_flush_def)
qed

section \<open>A back end\<close>

lemma fill_msg_ok:
  "fill_msg buffer q = (buffer', q') \<Longrightarrow>
     buffer' @ mq_buf q' = buffer @ mq_buf q \<and> mq_cap q' = mq_cap q \<and>
     (mq_buf q' \<noteq> [] \<longrightarrow> mq_buf q \<noteq> [] \<and> mq_waker q' = mq_waker q) \<and> (buffer' = [] \<longrightarrow> mq_waker q')"
proof (induction buffer q arbitrary: buffer' q' rule: fill_msg.induct)
  case (1 buffer q)
  show ?case
  proof (cases "buffer_full buffer")
    case True
    then show ?thesis using "1.prems" by (auto simp: fill_msg.simps [of buffer q] buffer_full_def)
  next
    case False
    show ?thesis
    proof (cases "mq_buf q")
      case Nil
      then show ?thesis using False "1.prems" by (auto simp: fill_msg.simps [of buffer q] queue_pop_simps)
    next
      case (Cons msg msgs)
      then have pop: "queue_pop q = (Some msg, q\<lparr>mq_buf := msgs\<rparr>)" by (rule queue_pop_simps)
      have "fill_msg (buffer @ [msg]) (q\<lparr>mq_buf := msgs\<rparr>) = (buffer', q')"
        using False "1.prems" pop by (simp add: fill_msg.simps [of buffer q])
      from "1.IH" [OF False pop [symmetric] refl this] Cons show ?thesis by auto
    qed
  qed
qed

text \<open>
  While a call is pending nothing is lost, and it waits for the stream or has left its waker at the empty queue. A call
  that ends may lose a message.
\<close>

lemma call_poll_ok:
  "call_poll grpc n buffer q wire = (r, buffer', q', wire') \<Longrightarrow>
     subseq (wire' @ buffer' @ mq_buf q') (wire @ buffer @ mq_buf q) \<and>
     (r = None \<longrightarrow> wire' @ buffer' @ mq_buf q' = wire @ buffer @ mq_buf q) \<and>
     mq_cap q' = mq_cap q \<and> (mq_buf q' \<noteq> [] \<longrightarrow> mq_buf q \<noteq> [] \<and> mq_waker q' = mq_waker q)"
proof (induction grpc n buffer q wire arbitrary: r buffer' q' wire' rule: call_poll.induct)
  case (1 grpc n buffer q wire)
  obtain buffer1 q1 where fill: "fill_msg buffer q = (buffer1, q1)" by fastforce
  note ok = fill_msg_ok [OF fill]
  note poll = "1.prems" [unfolded call_poll.simps [of grpc n buffer q wire] Let_def fill]
  show ?case
  proof (cases buffer1)
    case Nil
    then show ?thesis using poll ok by (auto split: option.splits recv_poll.splits)
  next
    case (Cons msg rest)
    show ?thesis
    proof (cases "se_ready (grpc n) = Sink_Ready \<and> se_start_send (grpc n) = None")
      case True
      then have "call_poll grpc (n + 1) rest q1 (wire @ [msg]) = (r, buffer', q', wire')" using poll Cons by simp
      from "1.IH" [OF refl refl fill [symmetric] _ _ _ this] True Cons ok show ?thesis by (cases "mq_buf q' = []") auto
    next
      case False
      have "buffer @ mq_buf q = msg # rest @ mq_buf q1" using ok Cons by simp
      then have "subseq (wire @ rest @ mq_buf q1) (wire @ buffer @ mq_buf q)" by (auto simp: subseq_append')
      with False show ?thesis using poll Cons ok by (auto split: option.splits sink_poll.splits)
    qed
  qed
qed

section \<open>The system\<close>

text \<open>
  The clients that were cloned from one another, their pool, and the addresses that the back ends resolve. A back end is
  named by its connection. Operations on clients and back ends that do not exist leave the system as it is.
\<close>

record transport =
  tr_clients :: "raft_client list"
  tr_pool :: connection_pool
  tr_addrs :: address_map

datatype transport_op =
    Tr_Address u64 string
  | Tr_Clone
  | Tr_Send nat raft_message
  | Tr_Flush nat
  | Tr_Connect conn_key bool
  | Tr_Poll conn_key "nat \<Rightarrow> sink_event"
  | Tr_Resume conn_key

definition transport_new :: "(unit, transport) res" where
  "transport_new =
     bind_res raft_client_new (\<lambda>cl. Ok \<lparr>tr_clients = [cl], tr_pool = pool_default, tr_addrs = fmempty\<rparr>)"

definition with_back_end ::
    "conn_key \<Rightarrow> (back_end \<Rightarrow> msg_queue \<Rightarrow> (unit, back_end \<times> msg_queue) res) \<Rightarrow> transport \<Rightarrow> (unit, transport) res" where
  "with_back_end k f T =
     (let pool = tr_pool T
      in case fmlookup (cp_spawned pool) k of
           None \<Rightarrow> Ok T
         | Some b \<Rightarrow>
             bind_res (unwrap (fmlookup (cp_heap pool) (be_queue b))) (\<lambda>q.
             bind_res (f b q) (\<lambda>(b', q').
             Ok (T\<lparr>tr_pool := pool\<lparr>cp_heap := fmupd (be_queue b) q' (cp_heap pool),
                                  cp_spawned := fmupd k b' (cp_spawned pool)\<rparr>\<rparr>))))"

definition with_client ::
    "nat \<Rightarrow> (raft_client \<Rightarrow> connection_pool \<Rightarrow> (unit, raft_client \<times> connection_pool) res option) \<Rightarrow> transport \<Rightarrow>
     (unit, transport) res option" where
  "with_client i f T =
     (if i < length (tr_clients T)
      then map_option (\<lambda>r. bind_res r (\<lambda>(cl, pool). Ok (T\<lparr>tr_clients := (tr_clients T)[i := cl], tr_pool := pool\<rparr>)))
             (f (tr_clients T ! i) (tr_pool T))
      else Some (Ok T))"

fun transport_step :: "transport_op \<Rightarrow> transport \<Rightarrow> (unit, transport) res option" where
  "transport_step (Tr_Address store_id addr) T = Some (Ok (T\<lparr>tr_addrs := address_insert store_id addr (tr_addrs T)\<rparr>))"
| "transport_step Tr_Clone T =
     Some (bind_res raft_client_clone (\<lambda>cl. Ok (T\<lparr>tr_clients := tr_clients T @ [cl]\<rparr>)))"
| "transport_step (Tr_Send i msg) T = with_client i (client_send msg) T"
| "transport_step (Tr_Flush i) T = with_client i (\<lambda>cl pool. Some (client_flush cl pool)) T"
| "transport_step (Tr_Connect k raft_ok) T =
     Some (with_back_end k (\<lambda>b q. bind_res (back_end_connect (tr_addrs T) raft_ok b) (\<lambda>b. Ok (b, q))) T)"
| "transport_step (Tr_Poll k grpc) T = Some (with_back_end k (\<lambda>b q. Ok (back_end_poll grpc b q)) T)"
| "transport_step (Tr_Resume k) T = Some (with_back_end k (\<lambda>b q. Ok (back_end_resume b q)) T)"

fun transport_run :: "transport_op list \<Rightarrow> transport \<Rightarrow> (unit, transport) res option" where
  "transport_run [] T = Some (Ok T)"
| "transport_run (op # ops) T =
     (case transport_step op T of
        Some (Ok T) \<Rightarrow> transport_run ops T
      | r \<Rightarrow> r)"

text \<open>The messages for a connection that \<open>n\<close> clients, and the ones cloned later, are given.\<close>

fun sent_to :: "conn_key \<Rightarrow> nat \<Rightarrow> transport_op list \<Rightarrow> raft_message list" where
  "sent_to k n [] = []"
| "sent_to k n (Tr_Clone # ops) = sent_to k (n + 1) ops"
| "sent_to k n (Tr_Send i msg # ops) = (if i < n \<and> message_key msg = k then [msg] else []) @ sent_to k n ops"
| "sent_to k n (_ # ops) = sent_to k n ops"

text \<open>What the stream has accepted, then what waits in the buffer of the call, then what waits in the queue.\<close>

definition in_flight :: "msg_queue \<Rightarrow> back_end \<Rightarrow> raft_message list" where
  "in_flight q b = be_wire b @ (case be_state b of Calling buffer \<Rightarrow> buffer | _ \<Rightarrow> []) @ mq_buf q"

text \<open>The first call of the back end has not ended.\<close>

definition first_call :: "back_end \<Rightarrow> bool" where
  "first_call b \<longleftrightarrow>
     be_retry_times b = 0 \<or> be_retry_times b = 1 \<and> (case be_state b of Calling _ \<Rightarrow> True | _ \<Rightarrow> False)"

text \<open>The operations that end in a panic: a full queue, an unknown address and a client without a stream.\<close>

fun op_panics :: "transport_op \<Rightarrow> transport \<Rightarrow> bool" where
  "op_panics (Tr_Send i msg) T =
     (i < length (tr_clients T) \<and>
      (case conn (tr_pool T) (message_key msg) of
         Some (q, b) \<Rightarrow> raft_client_queue_size \<le> length (mq_buf q) | None \<Rightarrow> False))"
| "op_panics (Tr_Connect k raft_ok) T =
     (case conn (tr_pool T) k of
        Some (q, b) \<Rightarrow> be_state b = Backing_Off \<and> (fmlookup (tr_addrs T) (fst k) = None \<or> \<not> raft_ok) | None \<Rightarrow> False)"
| "op_panics _ T = False"

end
