(* ===== verification/Transport_Properties.thy ===== *)
theory Transport_Properties
  imports Transport "HOL-Library.Code_Target_Nat"
begin

text \<open>
  What the raft transport promises: messages to a store stay in order and are neither invented nor doubled, they are lost
  only when a call ends, and no back end sleeps on messages once the clients have flushed.
\<close>

section \<open>The invariant\<close>

definition conn_ok :: "conn_key \<Rightarrow> raft_message list \<Rightarrow> msg_queue \<Rightarrow> back_end \<Rightarrow> bool" where
  "conn_ok k msgs q b \<longleftrightarrow>
     mq_cap q = raft_client_queue_size \<and> be_store_id b = fst k \<and> (be_retry_times b = 0 \<longrightarrow> be_state b = Backing_Off) \<and>
     subseq (in_flight q b) msgs \<and> (first_call b \<longrightarrow> in_flight q b = msgs)"

text \<open>A task that sleeps on a queue with messages is going to be notified.\<close>

definition wake_due :: "raft_client list \<Rightarrow> conn_key \<Rightarrow> msg_queue \<Rightarrow> bool" where
  "wake_due cls k q \<longleftrightarrow> (mq_buf q \<noteq> [] \<and> mq_waker q \<longrightarrow> (\<exists>cl \<in> set cls. k \<in> set (rcl_need_flush cl)))"

definition transport_inv :: "(conn_key \<Rightarrow> raft_message list) \<Rightarrow> transport \<Rightarrow> bool" where
  "transport_inv sent T \<longleftrightarrow>
     pool_ok (tr_pool T) \<and> (\<forall>cl \<in> set (tr_clients T). client_ok (tr_pool T) cl) \<and>
     (\<forall>k. case conn (tr_pool T) k of
            Some (q, b) \<Rightarrow> conn_ok k (sent k) q b \<and> wake_due (tr_clients T) k q
          | None \<Rightarrow> sent k = [])"

lemma transport_invI:
  assumes "pool_ok (tr_pool T)" "\<And>cl. cl \<in> set (tr_clients T) \<Longrightarrow> client_ok (tr_pool T) cl"
    and "\<And>k q b. conn (tr_pool T) k = Some (q, b) \<Longrightarrow> conn_ok k (sent k) q b"
    and "\<And>k q b. conn (tr_pool T) k = Some (q, b) \<Longrightarrow> wake_due (tr_clients T) k q"
    and "\<And>k. conn (tr_pool T) k = None \<Longrightarrow> sent k = []"
  shows "transport_inv sent T"
  unfolding transport_inv_def
proof (intro conjI ballI allI)
  fix k
  show "case conn (tr_pool T) k of
      Some (q, b) \<Rightarrow> conn_ok k (sent k) q b \<and> wake_due (tr_clients T) k q | None \<Rightarrow> sent k = []"
    using assms(3,4,5) [of k] by (cases "conn (tr_pool T) k") auto
qed (use assms(1,2) in blast)+

lemma transport_invD:
  assumes "transport_inv sent T"
  shows "pool_ok (tr_pool T)" and "cl \<in> set (tr_clients T) \<Longrightarrow> client_ok (tr_pool T) cl"
    and "conn (tr_pool T) k = Some (q, b) \<Longrightarrow> conn_ok k (sent k) q b"
    and "conn (tr_pool T) k = Some (q, b) \<Longrightarrow> wake_due (tr_clients T) k q"
    and "conn (tr_pool T) k = None \<Longrightarrow> sent k = []"
proof -
  have k: "case conn (tr_pool T) k of
      Some (q, b) \<Rightarrow> conn_ok k (sent k) q b \<and> wake_due (tr_clients T) k q | None \<Rightarrow> sent k = []"
    using assms unfolding transport_inv_def by blast
  show "pool_ok (tr_pool T)" "cl \<in> set (tr_clients T) \<Longrightarrow> client_ok (tr_pool T) cl"
    using assms unfolding transport_inv_def by blast+
  show "conn (tr_pool T) k = Some (q, b) \<Longrightarrow> conn_ok k (sent k) q b"
    "conn (tr_pool T) k = Some (q, b) \<Longrightarrow> wake_due (tr_clients T) k q"
    "conn (tr_pool T) k = None \<Longrightarrow> sent k = []" using k by simp_all
qed

lemma transport_new_inv: "\<exists>T. transport_new = Ok T \<and> transport_inv (\<lambda>_. []) T \<and> length (tr_clients T) = 1"
proof -
  obtain cl where cl: "raft_client_new = Ok cl" "cache_view (rcl_cache cl) Map.empty" using raft_client_new_ok by blast
  let ?T = "\<lparr>tr_clients = [cl], tr_pool = pool_default, tr_addrs = fmempty\<rparr>"
  have "client_ok pool_default cl" using cl(2) by (rule client_okI) simp_all
  then have "transport_inv (\<lambda>_. []) ?T"
    by (intro transport_invI) (auto simp: pool_default_def conn_def intro: pool_okI)
  moreover have "transport_new = Ok ?T" unfolding transport_new_def cl(1) by simp
  ultimately show ?thesis by (intro exI [of _ ?T]) simp
qed

section \<open>The steps\<close>

lemma inv_clone:
  assumes inv: "transport_inv sent T"
  shows "\<exists>cl. raft_client_clone = Ok cl \<and> transport_inv sent (T\<lparr>tr_clients := tr_clients T @ [cl]\<rparr>)"
proof -
  obtain cl where cl: "raft_client_clone = Ok cl" "cache_view (rcl_cache cl) Map.empty"
    using raft_client_new_ok unfolding raft_client_new_def raft_client_clone_def by blast
  note D = transport_invD [OF inv]
  have ok: "client_ok (tr_pool T) cl" using cl(2) by (rule client_okI) simp_all
  have "transport_inv sent (T\<lparr>tr_clients := tr_clients T @ [cl]\<rparr>)"
  proof (rule transport_invI)
    show "client_ok (tr_pool (T\<lparr>tr_clients := tr_clients T @ [cl]\<rparr>)) cl'"
      if "cl' \<in> set (tr_clients (T\<lparr>tr_clients := tr_clients T @ [cl]\<rparr>))" for cl'
      using that D(2) [of cl'] ok by auto
    show "wake_due (tr_clients (T\<lparr>tr_clients := tr_clients T @ [cl]\<rparr>)) k q"
      if "conn (tr_pool (T\<lparr>tr_clients := tr_clients T @ [cl]\<rparr>)) k = Some (q, b)" for k q b
      using that D(4) [of k q b] by (auto simp: wake_due_def)
  qed (use D(1,3,5) in simp_all)
  with cl(1) show ?thesis by blast
qed

lemma with_back_end_none: "pool_ok (tr_pool T) \<Longrightarrow> conn (tr_pool T) k = None \<Longrightarrow> with_back_end k f T = Ok T"
proof -
  assume ok: "pool_ok (tr_pool T)" and k: "conn (tr_pool T) k = None"
  then have "k |\<notin>| fmdom (cp_connections (tr_pool T))" using conn_None by (intro fmdom_notI) blast
  then have "fmlookup (cp_spawned (tr_pool T)) k = None" unfolding pool_ok_dests(1) [OF ok, symmetric] by (rule fmdom_notD)
  then show ?thesis by (simp add: with_back_end_def)
qed

text \<open>A step of a back end, on its own state and its queue.\<close>

lemma inv_back_end:
  assumes inv: "transport_inv sent T" and k: "conn (tr_pool T) k = Some (q, b)" and f: "f b q = Ok (b', q')"
    and b': "be_queue b' = be_queue b" and ok: "conn_ok k (sent k) q' b'"
    and w: "mq_buf q' \<noteq> [] \<Longrightarrow> mq_waker q' \<Longrightarrow> mq_buf q \<noteq> [] \<and> mq_waker q"
  shows "\<exists>T'. with_back_end k f T = Ok T' \<and> transport_inv sent T' \<and> tr_clients T' = tr_clients T \<and> tr_addrs T' = tr_addrs T \<and>
    conn (tr_pool T') = (conn (tr_pool T))(k \<mapsto> (q', b'))"
proof -
  note D = transport_invD [OF inv]
  note d = conn_SomeD [OF D(1) k]
  let ?pool = "tr_pool T\<lparr>cp_heap := fmupd (be_queue b) q' (cp_heap (tr_pool T)), cp_spawned := fmupd k b' (cp_spawned (tr_pool T))\<rparr>"
  note p = conn_update [OF D(1) k b', of q']
  have "with_back_end k f T = Ok (T\<lparr>tr_pool := ?pool\<rparr>)" using d f by (simp add: with_back_end_def Let_def)
  moreover have "transport_inv sent (T\<lparr>tr_pool := ?pool\<rparr>)"
  proof (rule transport_invI)
    show "client_ok (tr_pool (T\<lparr>tr_pool := ?pool\<rparr>)) cl" if "cl \<in> set (tr_clients (T\<lparr>tr_pool := ?pool\<rparr>))" for cl
      using that D(2) [of cl] by (auto intro: client_ok_mono)
    fix k1
    show "conn_ok k1 (sent k1) q1 b1" "wake_due (tr_clients (T\<lparr>tr_pool := ?pool\<rparr>)) k1 q1"
      if "conn (tr_pool (T\<lparr>tr_pool := ?pool\<rparr>)) k1 = Some (q1, b1)" for q1 b1
      using that D(3,4) [of k1 q1 b1] D(4) [OF k] ok w by (auto simp: p(2) wake_due_def split: if_splits)
    show "sent k1 = []" if "conn (tr_pool (T\<lparr>tr_pool := ?pool\<rparr>)) k1 = None"
      using that D(5) [of k1] by (simp add: p(2) split: if_splits)
  qed (simp add: p(1))
  ultimately show ?thesis using p(2) by (intro exI [of _ "T\<lparr>tr_pool := ?pool\<rparr>"]) simp
qed

lemma inv_connect:
  assumes inv: "transport_inv sent T"
  shows "if op_panics (Tr_Connect k raft_ok) T then transport_step (Tr_Connect k raft_ok) T = Some Panic
    else \<exists>T'. transport_step (Tr_Connect k raft_ok) T = Some (Ok T') \<and> transport_inv sent T' \<and> tr_clients T' = tr_clients T"
proof (cases "conn (tr_pool T) k")
  case None
  then show ?thesis using inv with_back_end_none [OF transport_invD(1) [OF inv] None] by simp
next
  case (Some c)
  then obtain q b where k: "conn (tr_pool T) k = Some (q, b)" by (cases c) auto
  note ok = transport_invD(3) [OF inv k] and d = conn_SomeD [OF transport_invD(1) [OF inv] k]
  show ?thesis
  proof (cases "op_panics (Tr_Connect k raft_ok) T")
    case True
    then show ?thesis
      using k d ok by (auto simp: with_back_end_def Let_def back_end_connect_def resolve_def conn_ok_def split: option.splits)
  next
    case False
    obtain b' where b': "back_end_connect (tr_addrs T) raft_ok b = Ok b'" "be_queue b' = be_queue b" "conn_ok k (sent k) q b'"
    proof (cases "be_state b = Backing_Off")
      case True
      then obtain addr where "fmlookup (tr_addrs T) (fst k) = Some addr" "raft_ok" using False k by auto
      then have "back_end_connect (tr_addrs T) raft_ok b = Ok (b\<lparr>be_retry_times := be_retry_times b + 1, be_state := Calling []\<rparr>)"
        using True ok by (simp add: back_end_connect_def resolve_def conn_ok_def)
      then show thesis by (rule that) (use ok True in \<open>simp_all add: conn_ok_def in_flight_def first_call_def\<close>)
    next
      case False
      then have "back_end_connect (tr_addrs T) raft_ok b = Ok b" by (cases "be_state b") (simp_all add: back_end_connect_def)
      then show thesis using ok by (intro that) simp_all
    qed
    let ?f = "\<lambda>b q. bind_res (back_end_connect (tr_addrs T) raft_ok b) (\<lambda>b. Ok (b, q))"
    have "?f b q = Ok (b', q)" using b'(1) by simp
    from inv_back_end [OF inv k, of ?f, OF this b'(2,3)] obtain T'
      where "with_back_end k ?f T = Ok T'" "transport_inv sent T'" "tr_clients T' = tr_clients T" by blast
    with False show ?thesis by simp
  qed
qed

lemma back_end_poll_ok:
  assumes ok: "conn_ok k msgs q b" and poll: "back_end_poll grpc b q = (b', q')"
  shows "be_queue b' = be_queue b" "conn_ok k msgs q' b'"
    "mq_buf q' \<noteq> [] \<Longrightarrow> mq_waker q' \<Longrightarrow> mq_buf q \<noteq> [] \<and> mq_waker q"
proof -
  have "be_queue b' = be_queue b \<and> conn_ok k msgs q' b' \<and> (mq_buf q' \<noteq> [] \<and> mq_waker q' \<longrightarrow> mq_buf q \<noteq> [] \<and> mq_waker q)"
  proof (cases "be_state b")
    case (Calling buffer)
    obtain r buffer1 q1 wire1 where run: "call_poll grpc 0 buffer q (be_wire b) = (r, buffer1, q1, wire1)"
      by (metis prod_cases4)
    note c = call_poll_ok [OF run]
    have lost: "subseq (wire1 @ mq_buf q1) msgs"
    proof -
      have "subseq (wire1 @ mq_buf q1) (wire1 @ buffer1 @ mq_buf q1)" by (simp add: subseq_append' list_emb_append2)
      also have "subseq \<dots> (be_wire b @ buffer @ mq_buf q)" using c by blast
      also have "subseq \<dots> msgs" using ok Calling by (simp add: conn_ok_def in_flight_def)
      finally show ?thesis .
    qed
    show ?thesis
    proof (cases r)
      case None
      then have "b' = b\<lparr>be_state := Calling buffer1, be_wire := wire1\<rparr>" "q' = q1" using poll run Calling by (simp_all add: back_end_poll_def)
      then show ?thesis using None c ok Calling by (auto simp: conn_ok_def in_flight_def first_call_def)
    next
      case (Some reported)
      then have "b' = b\<lparr>be_state := Ended reported, be_wire := wire1\<rparr>" "q' = q1" using poll run Calling by (simp_all add: back_end_poll_def)
      then show ?thesis using c ok Calling lost by (auto simp: conn_ok_def in_flight_def first_call_def)
    qed
  qed (use ok poll in \<open>auto simp: back_end_poll_def\<close>)
  then show "be_queue b' = be_queue b" "conn_ok k msgs q' b'"
    "mq_buf q' \<noteq> [] \<Longrightarrow> mq_waker q' \<Longrightarrow> mq_buf q \<noteq> [] \<and> mq_waker q" by blast+
qed

lemma clear_pending_message_eq: "clear_pending_message q = q\<lparr>mq_buf := []\<rparr>"
proof -
  have "((\<lambda>q. snd (queue_try_pop q)) ^^ length ms) (q\<lparr>mq_buf := ms\<rparr>) = q\<lparr>mq_buf := []\<rparr>" for ms
  proof (induction ms)
    case (Cons m ms)
    have "snd (queue_try_pop (q\<lparr>mq_buf := m # ms\<rparr>)) = q\<lparr>mq_buf := ms\<rparr>" by (simp add: queue_try_pop_def)
    with Cons.IH show ?case by (simp add: funpow_Suc_right del: funpow.simps(2))
  qed simp
  from this [of "mq_buf q"] show ?thesis by (simp add: clear_pending_message_def queue_len_def)
qed

lemma back_end_resume_ok:
  assumes ok: "conn_ok k msgs q b" and resume: "back_end_resume b q = (b', q')"
  shows "be_queue b' = be_queue b" "conn_ok k msgs q' b'"
    "mq_buf q' \<noteq> [] \<Longrightarrow> mq_waker q' \<Longrightarrow> mq_buf q \<noteq> [] \<and> mq_waker q"
proof -
  have "subseq (be_wire b) (be_wire b @ mq_buf q)" by (metis append.right_neutral list_emb_Nil subseq_append')
  then have wire: "subseq (be_wire b) msgs" if "be_state b = Ended r" for r
    using that ok subseq_order.trans unfolding conn_ok_def in_flight_def by fastforce
  have "be_queue b' = be_queue b \<and> conn_ok k msgs q' b' \<and> (mq_buf q' \<noteq> [] \<and> mq_waker q' \<longrightarrow> mq_buf q \<noteq> [] \<and> mq_waker q)"
  proof (cases "be_state b")
    case (Ended r)
    have "be_retry_times b \<noteq> 0" using ok Ended by (auto simp: conn_ok_def)
    then show ?thesis
      using ok resume Ended wire [OF Ended]
      by (auto simp: back_end_resume_def clear_pending_message_eq conn_ok_def in_flight_def first_call_def
          split: if_splits)
  qed (use ok resume in \<open>auto simp: back_end_resume_def\<close>)
  then show "be_queue b' = be_queue b" "conn_ok k msgs q' b'"
    "mq_buf q' \<noteq> [] \<Longrightarrow> mq_waker q' \<Longrightarrow> mq_buf q \<noteq> [] \<and> mq_waker q" by blast+
qed

lemma inv_poll:
  assumes inv: "transport_inv sent T"
  shows "\<exists>T'. transport_step (Tr_Poll k grpc) T = Some (Ok T') \<and> transport_inv sent T' \<and> tr_clients T' = tr_clients T"
    and "\<exists>T'. transport_step (Tr_Resume k) T = Some (Ok T') \<and> transport_inv sent T' \<and> tr_clients T' = tr_clients T"
proof -
  have step: "\<exists>T'. with_back_end k (\<lambda>b q. Ok (f b q)) T = Ok T' \<and> transport_inv sent T' \<and> tr_clients T' = tr_clients T"
    if f: "\<And>q b q' b'. conn_ok k (sent k) q b \<Longrightarrow> f b q = (b', q') \<Longrightarrow> be_queue b' = be_queue b"
      "\<And>q b q' b'. conn_ok k (sent k) q b \<Longrightarrow> f b q = (b', q') \<Longrightarrow> conn_ok k (sent k) q' b'"
      "\<And>q b q' b'. conn_ok k (sent k) q b \<Longrightarrow> f b q = (b', q') \<Longrightarrow> mq_buf q' \<noteq> [] \<Longrightarrow> mq_waker q' \<Longrightarrow> mq_buf q \<noteq> [] \<and> mq_waker q"
    for f
  proof (cases "conn (tr_pool T) k")
    case None
    then show ?thesis using inv with_back_end_none [OF transport_invD(1) [OF inv] None] by blast
  next
    case (Some c)
    then obtain q b where k: "conn (tr_pool T) k = Some (q, b)" by (cases c) auto
    note ok = transport_invD(3) [OF inv k]
    obtain b' q' where run: "f b q = (b', q')" by fastforce
    then have "Ok (f b q) = Ok (b', q')" by simp
    from inv_back_end [OF inv k, of "\<lambda>b q. Ok (f b q)", OF this f(1,2) [OF ok run] f(3) [OF ok run]] show ?thesis by blast
  qed
  show "\<exists>T'. transport_step (Tr_Poll k grpc) T = Some (Ok T') \<and> transport_inv sent T' \<and> tr_clients T' = tr_clients T"
    using step [of "back_end_poll grpc", OF back_end_poll_ok] by simp
  show "\<exists>T'. transport_step (Tr_Resume k) T = Some (Ok T') \<and> transport_inv sent T' \<and> tr_clients T' = tr_clients T"
    using step [of back_end_resume, OF back_end_resume_ok] by simp
qed

text \<open>A client has worked on the pool.\<close>

lemma inv_client:
  assumes inv: "transport_inv sent T" and i: "i < length (tr_clients T)"
    and pool: "pool_ok pool" "client_ok pool cl" "fmlookup (cp_connections (tr_pool T)) \<subseteq>\<^sub>m fmlookup (cp_connections pool)"
    and conn: "\<And>k q b. conn pool k = Some (q, b) \<Longrightarrow> conn_ok k (sent' k) q b"
      "\<And>k q b. conn pool k = Some (q, b) \<Longrightarrow> wake_due ((tr_clients T)[i := cl]) k q"
      "\<And>k. conn pool k = None \<Longrightarrow> sent' k = []"
  shows "transport_inv sent' (T\<lparr>tr_clients := (tr_clients T)[i := cl], tr_pool := pool\<rparr>)"
proof (rule transport_invI)
  show "client_ok (tr_pool (T\<lparr>tr_clients := (tr_clients T)[i := cl], tr_pool := pool\<rparr>)) cl'"
    if "cl' \<in> set (tr_clients (T\<lparr>tr_clients := (tr_clients T)[i := cl], tr_pool := pool\<rparr>))" for cl'
  proof -
    from that have "cl' = cl \<or> cl' \<in> set (tr_clients T)" using set_update_subset_insert by fastforce
    then show ?thesis using pool(2) client_ok_mono [OF transport_invD(2) [OF inv] pool(3)] by auto
  qed
qed (use pool conn in simp_all)

lemma conn_ok_new: "conn_ok k [] (fst (new_conn k a)) (snd (new_conn k a))"
  by (simp add: conn_ok_def new_conn_def queue_with_capacity_def in_flight_def first_call_def)

lemma conn_ok_push:
  assumes "conn_ok k msgs q b"
  shows "conn_ok k (msgs @ [msg]) (q\<lparr>mq_buf := mq_buf q @ [msg]\<rparr>) b"
proof -
  have "in_flight (q\<lparr>mq_buf := mq_buf q @ [msg]\<rparr>) b = in_flight q b @ [msg]" by (simp add: in_flight_def)
  then show ?thesis using assms by (auto simp: conn_ok_def)
qed

lemma wake_due_update:
  assumes "wake_due cls k q" "i < length cls" "k \<in> set (rcl_need_flush (cls ! i)) \<Longrightarrow> k \<in> set (rcl_need_flush cl)"
  shows "wake_due (cls[i := cl]) k q"
  unfolding wake_due_def
proof
  assume "mq_buf q \<noteq> [] \<and> mq_waker q"
  then obtain j where j: "j < length cls" "k \<in> set (rcl_need_flush (cls ! j))"
    using assms(1) unfolding wake_due_def by (metis in_set_conv_nth)
  then have "k \<in> set (rcl_need_flush (cls[i := cl] ! j))" using assms(3) by (cases "j = i") simp_all
  then show "\<exists>cl' \<in> set (cls[i := cl]). k \<in> set (rcl_need_flush cl')" using j(1) by (metis length_list_update nth_mem)
qed

lemma inv_send:
  assumes inv: "transport_inv sent T"
  shows "if op_panics (Tr_Send i msg) T then transport_step (Tr_Send i msg) T = Some Panic
    else \<exists>T'. transport_step (Tr_Send i msg) T = Some (Ok T') \<and> length (tr_clients T') = length (tr_clients T) \<and>
      transport_inv (\<lambda>k. sent k @ sent_to k (length (tr_clients T)) [Tr_Send i msg]) T'"
proof (cases "i < length (tr_clients T)")
  case False
  then show ?thesis using inv by (simp add: with_client_def)
next
  case i: True
  let ?k = "message_key msg" and ?cl = "tr_clients T ! i" and ?pool = "tr_pool T"
  let ?sent = "\<lambda>k. sent k @ sent_to k (length (tr_clients T)) [Tr_Send i msg]"
  note D = transport_invD [OF inv]
  obtain q b where q: "conn_or_new ?pool ?k = (q, b)" by fastforce
  have ok: "conn_ok ?k (sent ?k) q b"
    using q D(3,5) [of ?k] conn_ok_new [of ?k "cp_fresh ?pool"] by (auto simp: conn_or_new_def split: option.splits)
  have eff: "send_effect msg ?cl ?pool q b" using send_ok [OF D(1) D(2) q] i by simp
  have full: "op_panics (Tr_Send i msg) T \<longleftrightarrow> mq_cap q \<le> length (mq_buf q)"
    using i q ok by (auto simp: conn_or_new_def new_conn_def queue_with_capacity_def conn_ok_def raft_client_queue_size_def split: option.splits)
  show ?thesis
  proof (cases "mq_cap q \<le> length (mq_buf q)")
    case True
    then show ?thesis using eff full i by (simp add: send_effect_def with_client_def)
  next
    case False
    then obtain cl' pool' where r: "client_send msg ?cl ?pool = Some (Ok (cl', pool'))" "pool_ok pool'" "client_ok pool' cl'"
      "fmlookup (cp_connections ?pool) \<subseteq>\<^sub>m fmlookup (cp_connections pool')"
      and conn': "conn pool' = (conn ?pool)(?k \<mapsto> (q\<lparr>mq_buf := mq_buf q @ [msg]\<rparr>, b))"
      and flush: "set (rcl_need_flush cl') = insert ?k (set (rcl_need_flush ?cl))"
      using eff unfolding send_effect_def by auto
    have "transport_inv ?sent (T\<lparr>tr_clients := (tr_clients T)[i := cl'], tr_pool := pool'\<rparr>)"
    proof (rule inv_client [OF inv i r(2-4)])
      fix k
      show "conn_ok k (?sent k) q1 b1" "wake_due ((tr_clients T)[i := cl']) k q1" if "conn pool' k = Some (q1, b1)" for q1 b1
      proof -
        show "conn_ok k (?sent k) q1 b1"
          using that i conn_ok_push [OF ok, of msg] D(3) [of k q1 b1] by (cases "k = ?k") (auto simp: conn')
        show "wake_due ((tr_clients T)[i := cl']) k q1"
        proof (cases "k = ?k")
          case True
          then have "k \<in> set (rcl_need_flush cl')" using flush by simp
          then show ?thesis using i unfolding wake_due_def by (metis set_update_memI)
        next
          case False
          then show ?thesis using that i flush by (intro wake_due_update D(4) [of k q1 b1]) (auto simp: conn')
        qed
      qed
      show "?sent k = []" if "conn pool' k = None" using that D(5) [of k] by (auto simp: conn' split: if_splits)
    qed
    moreover have "transport_step (Tr_Send i msg) T = Some (Ok (T\<lparr>tr_clients := (tr_clients T)[i := cl'], tr_pool := pool'\<rparr>))"
      using r(1) i by (simp add: with_client_def)
    ultimately show ?thesis using False full by (simp del: sent_to.simps)
  qed
qed

lemma queue_notify_wakes: "mq_buf (queue_notify q) \<noteq> [] \<Longrightarrow> \<not> mq_waker (queue_notify q)"
  by (simp add: queue_notify_def split: if_splits)

lemma inv_flush_client:
  assumes inv: "transport_inv sent T"
  shows "\<exists>T'. transport_step (Tr_Flush i) T = Some (Ok T') \<and> length (tr_clients T') = length (tr_clients T) \<and> transport_inv sent T'"
proof (cases "i < length (tr_clients T)")
  case False
  then show ?thesis using inv by (simp add: with_client_def)
next
  case i: True
  let ?cl = "tr_clients T ! i" and ?pool = "tr_pool T"
  note D = transport_invD [OF inv]
  have "client_ok ?pool ?cl" using D(2) i by simp
  from flush_ok [OF D(1) this] obtain cl' pool' where
    r: "client_flush ?cl ?pool = Ok (cl', pool')" "pool_ok pool'" "client_ok pool' cl'" "cp_connections pool' = cp_connections ?pool"
    and conn': "conn pool' = (\<lambda>k. if k \<in> set (rcl_need_flush ?cl) then notified (conn ?pool k) else conn ?pool k)" by blast
  have "transport_inv sent (T\<lparr>tr_clients := (tr_clients T)[i := cl'], tr_pool := pool'\<rparr>)"
  proof (rule inv_client [OF inv i r(2,3)])
    fix k
    show "conn_ok k (sent k) q1 b1" if "conn pool' k = Some (q1, b1)" for q1 b1
    proof -
      from that obtain q where "conn ?pool k = Some (q, b1)" "q1 = q \<or> q1 = queue_notify q" by (auto simp: conn' split: if_splits)
      with D(3) [of k q b1] show ?thesis by (auto simp: conn_ok_def in_flight_def queue_notify_def)
    qed
    show "wake_due ((tr_clients T)[i := cl']) k q1" if "conn pool' k = Some (q1, b1)" for q1 b1
    proof (cases "k \<in> set (rcl_need_flush ?cl)")
      case True
      then have "notified (conn ?pool k) = Some (q1, b1)" using that by (simp add: conn')
      then obtain q where "q1 = queue_notify q" by (cases "conn ?pool k") (auto simp: apfst_def map_prod_def split: prod.splits)
      then show ?thesis using queue_notify_wakes [of q] unfolding wake_due_def by blast
    next
      case False
      then show ?thesis using that i by (intro wake_due_update D(4) [of k q1 b1]) (auto simp: conn')
    qed
    show "sent k = []" if "conn pool' k = None" using that D(5) [of k] by (auto simp: conn' split: if_splits)
  qed (simp add: r(4))
  then show ?thesis using r(1) i by (simp add: with_client_def)
qed

lemma sent_to_Cons:
  "sent_to k n (op # ops) = sent_to k n [op] @ sent_to k (if op = Tr_Clone then n + 1 else n) ops"
  by (cases op) simp_all

lemma transport_step_ok:
  assumes inv: "transport_inv sent T"
  shows "if op_panics op T then transport_step op T = Some Panic
    else \<exists>T'. transport_step op T = Some (Ok T') \<and>
      length (tr_clients T') = (if op = Tr_Clone then length (tr_clients T) + 1 else length (tr_clients T)) \<and>
      transport_inv (\<lambda>k. sent k @ sent_to k (length (tr_clients T)) [op]) T'"
proof (cases op)
  case (Tr_Address store_id addr)
  have "transport_inv sent (T\<lparr>tr_addrs := A\<rparr>)" for A using transport_invD [OF inv] by (intro transport_invI) simp_all
  then show ?thesis using Tr_Address by simp
next
  case Tr_Clone
  obtain cl where cl: "raft_client_clone = Ok cl" "transport_inv sent (T\<lparr>tr_clients := tr_clients T @ [cl]\<rparr>)"
    using inv_clone [OF inv] by blast
  have "transport_step op T = Some (Ok (T\<lparr>tr_clients := tr_clients T @ [cl]\<rparr>))"
    unfolding Tr_Clone transport_step.simps cl(1) by simp
  with cl(2) Tr_Clone show ?thesis by simp
next
  case (Tr_Send i msg)
  from inv_send [OF inv, of i msg] show ?thesis unfolding Tr_Send by (simp only: transport_op.distinct if_False)
next
  case (Tr_Flush i)
  from inv_flush_client [OF inv, of i] show ?thesis
    unfolding Tr_Flush by (simp only: transport_op.distinct if_False op_panics.simps sent_to.simps append_Nil2)
next
  case (Tr_Connect k raft_ok)
  show ?thesis
  proof (cases "op_panics op T")
    case True
    then show ?thesis using inv_connect [OF inv, of k raft_ok] unfolding Tr_Connect by (simp only: if_True)
  next
    case False
    then obtain T' where "transport_step op T = Some (Ok T')" "transport_inv sent T'" "tr_clients T' = tr_clients T"
      using inv_connect [OF inv, of k raft_ok] unfolding Tr_Connect by (auto simp only: if_False)
    then show ?thesis using False Tr_Connect by (simp del: transport_step.simps op_panics.simps)
  qed
next
  case (Tr_Poll k grpc)
  from inv_poll(1) [OF inv, of k grpc] obtain T' where "transport_step op T = Some (Ok T')" "transport_inv sent T'" "tr_clients T' = tr_clients T"
    unfolding Tr_Poll by blast
  then show ?thesis using Tr_Poll by simp
next
  case (Tr_Resume k)
  from inv_poll(2) [OF inv, of k] obtain T' where "transport_step op T = Some (Ok T')" "transport_inv sent T'" "tr_clients T' = tr_clients T"
    unfolding Tr_Resume by blast
  then show ?thesis using Tr_Resume by simp
qed

section \<open>Runs\<close>

lemma transport_run_ok:
  assumes "transport_inv sent T"
  shows "\<exists>r. transport_run ops T = Some r \<and>
    (case r of
       Ok T' \<Rightarrow> transport_inv (\<lambda>k. sent k @ sent_to k (length (tr_clients T)) ops) T'
     | Err _ \<Rightarrow> False
     | Panic \<Rightarrow> \<exists>ops1 op ops2 T'. ops = ops1 @ op # ops2 \<and> transport_run ops1 T = Some (Ok T') \<and> op_panics op T')"
  using assms
proof (induction ops arbitrary: sent T)
  case (Cons op ops)
  note step = transport_step_ok [OF Cons.prems, of op]
  show ?case
  proof (cases "op_panics op T")
    case True
    then have "transport_run (op # ops) T = Some Panic" using step by simp
    moreover have "op # ops = [] @ op # ops \<and> transport_run [] T = Some (Ok T) \<and> op_panics op T" using True by simp
    ultimately show ?thesis by (intro exI [of _ Panic]) (simp only: res.case, blast)
  next
    case False
    then obtain T1 where T1: "transport_step op T = Some (Ok T1)"
      "transport_inv (\<lambda>k. sent k @ sent_to k (length (tr_clients T)) [op]) T1"
      "\<And>k. sent_to k (length (tr_clients T)) (op # ops) =
         sent_to k (length (tr_clients T)) [op] @ sent_to k (length (tr_clients T1)) ops"
    proof -
      from step False obtain T1 where "transport_step op T = Some (Ok T1)"
        "length (tr_clients T1) = (if op = Tr_Clone then length (tr_clients T) + 1 else length (tr_clients T))"
        "transport_inv (\<lambda>k. sent k @ sent_to k (length (tr_clients T)) [op]) T1" by (auto simp only: if_False)
      then show thesis by (intro that [of T1]) (simp_all only: sent_to_Cons [of _ _ op ops])
    qed
    obtain r where r: "transport_run ops T1 = Some r"
      "case r of
         Ok T' \<Rightarrow> transport_inv (\<lambda>k. (sent k @ sent_to k (length (tr_clients T)) [op]) @ sent_to k (length (tr_clients T1)) ops) T'
       | Err _ \<Rightarrow> False
       | Panic \<Rightarrow> \<exists>ops1 op ops2 T'. ops = ops1 @ op # ops2 \<and> transport_run ops1 T1 = Some (Ok T') \<and> op_panics op T'"
      using Cons.IH [OF T1(2)] by blast
    have run: "transport_run (op # xs) T = transport_run xs T1" for xs using T1(1) by simp
    show ?thesis
    proof (cases r)
      case Panic
      then obtain ops1 op' ops2 T' where "ops = ops1 @ op' # ops2" "transport_run ops1 T1 = Some (Ok T')" "op_panics op' T'"
        using r(2) by auto
      then have "op # ops = (op # ops1) @ op' # ops2 \<and> transport_run (op # ops1) T = Some (Ok T') \<and> op_panics op' T'"
        unfolding run by simp
      moreover have "transport_run (op # ops) T = Some Panic" unfolding run r(1) Panic by (rule refl)
      ultimately show ?thesis by (intro exI [of _ Panic]) (simp only: res.case, blast)
    qed (use r T1(3) in \<open>simp_all add: run del: transport_run.simps\<close>)
  qed
qed simp

lemma transport_run_append:
  "transport_run (ops1 @ ops2) T = (case transport_run ops1 T of Some (Ok T) \<Rightarrow> transport_run ops2 T | r \<Rightarrow> r)"
  by (induction ops1 arbitrary: T) (simp_all split: option.split res.split)

section \<open>Properties\<close>

text \<open>C15: Messages to a store stay in order. Whatever a set of clients that share a pool of connections does (sends,
  flushes, clones), and however the back ends connect and are polled with any answers of gRPC, the system comes to a
  result. What a stream has accepted, followed by what its call has buffered and by what the queue holds, is a subsequence
  of the messages that were sent to the store, in the order they were sent: nothing is invented, doubled or
  reordered. It is all of them until the first call of the connection has ended. The run panics exactly when a message is
  sent to a queue that holds 819200 messages, or a back end connects to a store without address or gets no stream.\<close>

theorem transport_in_order:
  "\<exists>T0 r. transport_new = Ok T0 \<and> transport_run ops T0 = Some r \<and>
     (case r of
        Ok T \<Rightarrow>
          (\<forall>k. case conn (tr_pool T) k of
             Some (q, b) \<Rightarrow> subseq (in_flight q b) (sent_to k 1 ops) \<and> (first_call b \<longrightarrow> in_flight q b = sent_to k 1 ops)
           | None \<Rightarrow> sent_to k 1 ops = [])
      | Err _ \<Rightarrow> False
      | Panic \<Rightarrow> True) \<and>
     (r = Panic \<longleftrightarrow>
        (\<exists>ops1 op ops2 T. ops = ops1 @ op # ops2 \<and> transport_run ops1 T0 = Some (Ok T) \<and> op_panics op T))"
proof -
  obtain T0 where T0: "transport_new = Ok T0" "transport_inv (\<lambda>_. []) T0" "length (tr_clients T0) = 1"
    using transport_new_inv by blast
  obtain r where run: "transport_run ops T0 = Some r" and
    r: "case r of
       Ok T' \<Rightarrow> transport_inv (\<lambda>k. sent_to k 1 ops) T'
     | Err _ \<Rightarrow> False
     | Panic \<Rightarrow> \<exists>ops1 op ops2 T'. ops = ops1 @ op # ops2 \<and> transport_run ops1 T0 = Some (Ok T') \<and> op_panics op T'"
    using transport_run_ok [OF T0(2), of ops] unfolding T0(3) append_Nil by blast
  have "case r of
      Ok T \<Rightarrow>
        (\<forall>k. case conn (tr_pool T) k of
           Some (q, b) \<Rightarrow> subseq (in_flight q b) (sent_to k 1 ops) \<and> (first_call b \<longrightarrow> in_flight q b = sent_to k 1 ops)
         | None \<Rightarrow> sent_to k 1 ops = [])
    | Err _ \<Rightarrow> False
    | Panic \<Rightarrow> True"
  proof (cases r)
    case (Ok T)
    then have inv: "transport_inv (\<lambda>k. sent_to k 1 ops) T" using r by simp
    show ?thesis
      unfolding Ok res.case
    proof
      fix k
      show "case conn (tr_pool T) k of
           Some (q, b) \<Rightarrow> subseq (in_flight q b) (sent_to k 1 ops) \<and> (first_call b \<longrightarrow> in_flight q b = sent_to k 1 ops)
         | None \<Rightarrow> sent_to k 1 ops = []"
      proof (cases "conn (tr_pool T) k")
        case None
        then show ?thesis using transport_invD(5) [OF inv None] by simp
      next
        case (Some c)
        then obtain q b where c: "conn (tr_pool T) k = Some (q, b)" by (cases c) blast
        show ?thesis using transport_invD(3) [OF inv c] unfolding c conn_ok_def by simp
      qed
    qed
  qed (use r in simp_all)
  moreover have panics: "r = Panic" if "ops = ops1 @ op # ops2" "transport_run ops1 T0 = Some (Ok T)" and panic: "op_panics op T"
    for ops1 op ops2 T
  proof -
    from transport_run_ok [OF T0(2), of ops1] have "\<exists>sent. transport_inv sent T" unfolding that(2) by auto
    then obtain sent where "transport_inv sent T" ..
    from transport_step_ok [OF this, of op] panic have step: "transport_step op T = Some Panic" by (simp only: if_True)
    from run show ?thesis unfolding that(1) transport_run_append that(2) by (simp add: step)
  qed
  moreover have "\<exists>ops1 op ops2 T. ops = ops1 @ op # ops2 \<and> transport_run ops1 T0 = Some (Ok T) \<and> op_panics op T" if "r = Panic"
    using r unfolding that res.case .
  ultimately show ?thesis
    by (intro exI [of _ T0] exI [of _ r] conjI iffI T0(1) run) (assumption | elim exE conjE)+
qed

text \<open>C16: No back end sleeps on messages. In every state that such a run reaches, when no client has anything left to
  flush, no task waits to be woken for a queue that holds messages.\<close>

theorem transport_no_lost_wakeup:
  assumes "transport_new = Ok T0" "transport_run ops T0 = Some (Ok T)"
    and "\<forall>cl \<in> set (tr_clients T). \<not> need_flush cl"
    and "conn (tr_pool T) k = Some (q, b)" "mq_buf q \<noteq> []"
  shows "\<not> mq_waker q"
proof -
  obtain T1 where "transport_new = Ok T1" "transport_inv (\<lambda>_. []) T1" using transport_new_inv by blast
  then have "transport_inv (\<lambda>_. []) T0" using assms(1) by (metis res.inject(1))
  from transport_run_ok [OF this, of ops] assms(2)
  have "transport_inv (\<lambda>k. [] @ sent_to k (length (tr_clients T0)) ops) T" by simp
  from transport_invD(4) [OF this assms(4)] show ?thesis using assms(3,5) by (auto simp: wake_due_def need_flush_def)
qed

section \<open>An example\<close>

text \<open>A message goes over a new connection. A clone of the client sends a second one, and flushes.\<close>

definition ex_message :: "u64 \<Rightarrow> raft_message" where
  "ex_message n =
     \<lparr>rm_region_id = n, rm_from_peer = None, rm_to_peer = Some (default_peer\<lparr>pr_store_id := 2\<rparr>), rm_message = None\<rparr>"

definition ex_sink :: "nat \<Rightarrow> sink_event" where
  "ex_sink n = \<lparr>se_ready = Sink_Ready, se_start_send = None, se_flush = None, se_receiver = Recv_Pending\<rparr>"

definition ex_transport_ops :: "transport_op list" where
  "ex_transport_ops =
     [Tr_Send 0 (ex_message 1), Tr_Address 2 ''127.0.0.1:20160'', Tr_Connect (2, 0) True, Tr_Poll (2, 0) ex_sink,
      Tr_Clone, Tr_Send 1 (ex_message 2), Tr_Flush 1, Tr_Flush 0]"

lemma ex_transport_run:
  "\<exists>T0 T q b. transport_new = Ok T0 \<and> transport_run ex_transport_ops T0 = Some (Ok T) \<and> conn (tr_pool T) (2, 0) = Some (q, b) \<and>
     map rm_region_id (be_wire b) = [1] \<and> map rm_region_id (mq_buf q) = [2] \<and> mq_wakes q = 1 \<and> first_call b \<and>
     list_all (\<lambda>cl. \<not> need_flush cl) (tr_clients T)"
proof -
  obtain T0 where new: "transport_new = Ok T0" using transport_new_inv by blast
  let ?ok = "\<lambda>T q b. map rm_region_id (be_wire b) = [1] \<and> map rm_region_id (mq_buf q) = [2] \<and> mq_wakes q = 1 \<and> first_call b \<and>
    list_all (\<lambda>cl. \<not> need_flush cl) (tr_clients T)"
  have "case transport_new of
      Ok T0 \<Rightarrow>
        (case transport_run ex_transport_ops T0 of
           Some (Ok T) \<Rightarrow> (case conn (tr_pool T) (2, 0) of Some (q, b) \<Rightarrow> ?ok T q b | None \<Rightarrow> False)
         | _ \<Rightarrow> False)
    | _ \<Rightarrow> False" by code_simp
  then have run: "case transport_run ex_transport_ops T0 of
      Some (Ok T) \<Rightarrow> (case conn (tr_pool T) (2, 0) of Some (q, b) \<Rightarrow> ?ok T q b | None \<Rightarrow> False)
    | _ \<Rightarrow> False" unfolding new res.case .
  then obtain T where T: "transport_run ex_transport_ops T0 = Some (Ok T)" by (auto split: option.splits res.splits)
  from run obtain q b where "conn (tr_pool T) (2, 0) = Some (q, b)" "?ok T q b"
    unfolding T option.case res.case by (cases "conn (tr_pool T) (2, 0)") auto
  with new T show ?thesis by (elim conjE) (intro exI conjI)
qed

theorem transport_in_order_witness:
  "\<exists>T0 T q b. transport_new = Ok T0 \<and> transport_run ex_transport_ops T0 = Some (Ok T) \<and> conn (tr_pool T) (2, 0) = Some (q, b) \<and>
     map rm_region_id (be_wire b) = [1] \<and> in_flight q b = [ex_message 1, ex_message 2]"
proof -
  obtain T0 T q b where ex: "transport_new = Ok T0" "transport_run ex_transport_ops T0 = Some (Ok T)"
    "conn (tr_pool T) (2, 0) = Some (q, b)" "map rm_region_id (be_wire b) = [1]" "first_call b"
    using ex_transport_run by (elim exE conjE)
  obtain T1 r where T1: "transport_new = Ok T1" "transport_run ex_transport_ops T1 = Some r" and
    all: "case r of
        Ok T \<Rightarrow>
          (\<forall>k. case conn (tr_pool T) k of
             Some (q, b) \<Rightarrow> subseq (in_flight q b) (sent_to k 1 ex_transport_ops) \<and>
               (first_call b \<longrightarrow> in_flight q b = sent_to k 1 ex_transport_ops)
           | None \<Rightarrow> sent_to k 1 ex_transport_ops = [])
      | Err _ \<Rightarrow> False
      | Panic \<Rightarrow> True"
    using transport_in_order [of ex_transport_ops] by (elim exE conjE)
  have "(Ok T0 :: (unit, transport) res) = Ok T1" using ex(1) T1(1) by metis
  then have "r = Ok T" using ex(2) T1(2) by (metis option.inject res.inject(1))
  with all have "\<forall>k. case conn (tr_pool T) k of
      Some (q, b) \<Rightarrow> subseq (in_flight q b) (sent_to k 1 ex_transport_ops) \<and>
        (first_call b \<longrightarrow> in_flight q b = sent_to k 1 ex_transport_ops)
    | None \<Rightarrow> sent_to k 1 ex_transport_ops = []" by simp
  from spec [OF this, of "(2, 0)"] ex(3,5) have "in_flight q b = sent_to (2, 0) 1 ex_transport_ops" by simp
  also have "\<dots> = [ex_message 1, ex_message 2]"
    by (simp add: ex_transport_ops_def message_key_def ex_message_def get_or_default_def)
  finally show ?thesis using ex(1-4) by (intro exI conjI)
qed

theorem transport_no_lost_wakeup_witness:
  "\<exists>T0 T q b. transport_new = Ok T0 \<and> transport_run ex_transport_ops T0 = Some (Ok T) \<and> conn (tr_pool T) (2, 0) = Some (q, b) \<and>
     mq_buf q \<noteq> [] \<and> mq_wakes q = 1 \<and> \<not> mq_waker q"
proof -
  obtain T0 T q b where ex: "transport_new = Ok T0" "transport_run ex_transport_ops T0 = Some (Ok T)"
    "conn (tr_pool T) (2, 0) = Some (q, b)" "map rm_region_id (mq_buf q) = [2]" "mq_wakes q = 1"
    "list_all (\<lambda>cl. \<not> need_flush cl) (tr_clients T)"
    using ex_transport_run by (elim exE conjE)
  have "\<forall>cl \<in> set (tr_clients T). \<not> need_flush cl" using ex(6) by (simp only: list_all_iff)
  moreover have "mq_buf q \<noteq> []" using ex(4) by auto
  ultimately show ?thesis using transport_no_lost_wakeup [OF ex(1,2) _ ex(3)] ex by blast
qed

end
