(* ===== verification/Spec2Isabelle.thy ===== *)
theory Spec2Isabelle
  imports System_Properties Ledger_Properties Account_Properties GC_Properties Raft_Log
    Broker_Properties Service_Properties Batch_Properties Queue_Properties Lru_Properties Peer_Properties Store_Properties
    Transport_Properties
begin

text \<open>
  A verification library for Auticuro, a replicated wallet. The paths below are under \<^verbatim>\<open>src\<close>.

  \<^bold>\<open>The program.\<close> A wallet node (\<^verbatim>\<open>firm-wallet-service\<close>) takes gRPC requests, turns each into a command and sends it as a
  payload to an embedded raft store (\<^verbatim>\<open>dependencies/tiny-mq\<close>). The store replicates payloads in batches through the
  \<^verbatim>\<open>raft\<close> package, writes its log and its states to two RocksDB engines, applies committed entries, answers the sender
  with the position (index, offset) of its payload, and passes applied entries on to the wallet's state machine. The
  state machine executes the commands on its accounts, records an event for each and flushes to its own RocksDB; a
  message broker joins the position of a request with the event at that position, and the RPC answers. Two collectors
  delete old events and old raft log entries.

  \<^bold>\<open>How it is modelled.\<close> A Rust \<open>Result\<close> with the possibility of a panic is \<open>('e, 'a) res\<close> with the constructors \<open>Ok\<close>,
  \<open>Err\<close> and \<open>Panic\<close> (\<open>Wallet_Prelude\<close>); \<open>?\<close> is \<open>bind_res\<close>, and \<open>&mut self\<close> is a record that is passed in and out. Machine
  integers are words, so that additions wrap as they do in a release build; indices into memory are natural numbers.
  Third-party packages (\<^verbatim>\<open>bigdecimal\<close>, \<^verbatim>\<open>byteorder\<close>, \<^verbatim>\<open>rocksdb\<close>, generated protobuf code, \<^verbatim>\<open>raft\<close>) are records of functions that the
  definitions take as arguments. What the code relies on is stated as laws in the locales \<open>crates_spec\<close> (\<open>Crates\<close>) and
  \<open>mq_spec\<close> (\<open>Raft_Proto\<close>, \<open>Engines\<close>); \<open>Reference_Crates\<close>, \<open>Reference_Decimal\<close>, \<open>Reference_Codec\<close>, \<open>Reference_Raft_Codec\<close>
  and \<open>Reference_Mq\<close> give executable packages that meet them, on which every witness runs. Of the raft package nothing is
  assumed but what \<open>ready_wf\<close> (\<open>Peer_Ready\<close>) and \<open>committed_task\<close> (\<open>Store_System\<close>) say of a \<open>Ready\<close> and of committed entries.

  \<^bold>\<open>The wallet service\<close> (\<^verbatim>\<open>firm-wallet-service/src\<close>).
  \<^item> \<open>Proto\<close>, \<open>Errors\<close>, \<open>Internal\<close>, \<open>Config\<close> with \<open>Float64\<close>: messages, \<^verbatim>\<open>errors/\<close>, \<^verbatim>\<open>internal.rs\<close>, \<^verbatim>\<open>config.rs\<close>.
  \<^item> \<open>Balance_Calculator\<close>, \<open>Account\<close>, \<open>Account_Properties\<close>: \<^verbatim>\<open>balance_calculator.rs\<close> and \<^verbatim>\<open>account.rs\<close>; an account on decimal
    strings refines a ledger on rationals, keeps its limits, and gives back what it reserves.
  \<^item> \<open>Keys\<close>, \<open>Key_Builder\<close>, \<open>Rocks_Engine\<close>, \<open>Rocksdb_State\<close>: the layout of the stores and how the wallet reads its own.
  \<^item> \<open>State_Machine\<close>, \<open>State_Machine_Inv\<close>: \<^verbatim>\<open>state_machine.rs\<close> with the invariant between memory, write batch and database.
    \<open>Ledger\<close>, \<open>Ledger_Properties\<close>: the money in the system and how each command changes it.
  \<^item> \<open>Event_GC\<close>, \<open>GC_Properties\<close>: \<^verbatim>\<open>gc.rs\<close>. \<open>Message_Broker\<close> over \<open>Btree_Map\<close>, \<open>Broker_Properties\<close>: \<^verbatim>\<open>message_broker.rs\<close>.
  \<^item> \<open>Wallet_System\<close>, \<open>System_Properties\<close>: the process as a transition system with crashes; entries are applied without a panic,
    a restart returns to the last flush, a command is executed once, the event log has no gaps.
  \<^item> \<open>Service\<close>, \<open>Service_System\<close>, \<open>Service_Properties\<close>: \<^verbatim>\<open>service.rs\<close> as asynchronous tasks, the node of tasks, broker and state
    machine, and what a client can rely on. \<open>Example_Run\<close> holds concrete runs.

  \<^bold>\<open>The raft store\<close> (\<^verbatim>\<open>dependencies/tiny-mq/src\<close>).
  \<^item> \<open>Raft_Proto\<close>, \<open>Mq_Errors\<close>, \<open>Raft_Util\<close>, \<open>Callback\<close>, \<open>Engines\<close>: \<^verbatim>\<open>kvproto\<close>, \<^verbatim>\<open>errors.rs\<close> and \<^verbatim>\<open>cmd_resp.rs\<close>, \<^verbatim>\<open>util.rs\<close>, \<^verbatim>\<open>msg.rs\<close>, and the
    column families and write batches of \<^verbatim>\<open>rocks_engine.rs\<close>. \<open>Raft_Log\<close>: reading, appending and deleting log entries.
  \<^item> \<open>Batch_Builder\<close>, \<open>Raft_Kv\<close>, \<open>Batch_Properties\<close>, \<open>Message_Queue\<close>, \<open>Queue_Properties\<close>: batching of commands in \<^verbatim>\<open>peer.rs\<close>, \<^verbatim>\<open>raftkv.rs\<close>,
    \<^verbatim>\<open>storage.rs\<close> and \<^verbatim>\<open>message_queue_adapter.rs\<close>; the position a sender is told is where its payload is consumed.
  \<^item> \<open>Apply\<close>: \<^verbatim>\<open>apply.rs\<close>. \<open>Peer\<close>, \<open>Raft_Loop\<close>: \<^verbatim>\<open>peer.rs\<close> and the poller of \<^verbatim>\<open>store.rs\<close>. \<open>Raftlog_GC\<close>: \<^verbatim>\<open>raftlog_gc.rs\<close>. \<open>Node\<close>: \<^verbatim>\<open>node.rs\<close>.
    \<open>Kv\<close>: \<^verbatim>\<open>kv.rs\<close>.
  \<^item> \<open>Peer_Storage\<close>, \<open>Peer_Log\<close>, \<open>Peer_Ready\<close>, \<open>Peer_Properties\<close>: \<^verbatim>\<open>peer_storage.rs\<close> and \<^verbatim>\<open>bootstrap.rs\<close>; the log on disk as a map from
    indices to entries, opening it, writing a \<open>Ready\<close>, and the bootstrap of a node.
  \<^item> \<open>Store_Effects\<close>, \<open>Store_System\<close>, \<open>Store_Properties\<close>: peer, apply thread and collector with their engines as a transition
    system with crashes between the operations; every reachable state can be restarted, applied entries stay until
    they are compacted, and queries and consumers read exactly the log.
  \<^item> \<open>Lru\<close>, \<open>Lru_Properties\<close>: \<^verbatim>\<open>tikv-util/src/lru.rs\<close>, a cache on a hand-made doubly linked list, on an explicit heap; it refines a list.
  \<^item> \<open>Raft_Client\<close>, \<open>Transport\<close>, \<open>Transport_Properties\<close>: \<^verbatim>\<open>raft_client.rs\<close>, the transport to other peers: clients with that cache in front
    of a shared pool, a bounded queue and a back end for each connection, and the calls that drain the queues into gRPC
    streams. Messages to a store stay in order, and no back end sleeps on messages once the clients have flushed.

  \<^bold>\<open>Bounds and fuel.\<close> Loops recurse on their data. The batches of the event collector (\<open>gc_loop_batches\<close>) are a partial function
  whose value is \<open>None\<close> when the loop does not end; it is shown to end for every positive batch size, and not to end
  for zero. The loops of \<open>QueryEvents\<close> (\<open>query_events_loop\<close>) and of \<open>send\<close> (\<open>client_send\<close>) are partial functions too, and
  their properties state that they return. A poll of a call ends because each of its turns takes a message. The scan of
  RocksDB, the broker and the pollers work on the finite list of what they are given in a round.
  The consumer is followed up to index \<open>2 ^ 64 - 1001\<close>, where its next read would wrap, and ranges of the log are taken
  to be smaller than the address space (\<open>log_fits\<close>).

  \<^bold>\<open>Not modelled.\<close> The raft algorithm itself, RocksDB and the generated protobuf code are packages outside the repository.
  The following is I/O or wiring without a state that another part relies on: the threads, channels and timers that
  \<^verbatim>\<open>start_up.rs\<close>, \<^verbatim>\<open>setup.rs\<close>, \<^verbatim>\<open>startup.rs\<close>, \<^verbatim>\<open>server.rs\<close> and \<^verbatim>\<open>store.rs\<close> set up, gRPC itself with the
  options of its channels, HTTP status and metrics, logging, the thread pools and clocks of \<^verbatim>\<open>tikv-util\<close>, the gateway, which forwards requests to the
  leader over gRPC, and the unused Postgres utilities. Code of \<^verbatim>\<open>peer.rs\<close> and \<^verbatim>\<open>store.rs\<close> that is commented out or
  \<^verbatim>\<open>unreachable!()\<close> (snapshots, splits, reads, configuration changes) is left out. Crashes inside one operation that writes
  several batches, as the deletion of log entries in portions of 256 does, are not followed.
\<close>

end
